(* ===== verification/Prelude.thy ===== *)
theory Prelude
  imports Complex_Main "HOL-Library.Char_ord" "HOL-Library.List_Lexorder"
begin

text \<open>
  Shared vocabulary of the development.

  Strings are lists of characters and a character stands for one code point of the
  Latin-1 range; the predicates below follow Python's \<open>str.isspace\<close> and
  \<open>str.lower\<close> on that range. A Python dictionary is an association list in insertion
  order with distinct keys (\<open>dict_set\<close> keeps the position of an existing key), a Python
  set is a list whose order carries no meaning. Code that calls out of the process (an
  AdGuard instance, a host agent) is written in a state-and-exception monad over an
  explicit world; \<open>frame\<close> is the interface every "what can this code have done"
  argument is proved against once.
\<close>

named_theorems io_simps
named_theorems frame_intros

section \<open>Python strings\<close>

definition py_isspace :: "char \<Rightarrow> bool" where
  "py_isspace c =
     (let n = (of_char c :: nat)
      in (9 \<le> n \<and> n \<le> 13) \<or> (28 \<le> n \<and> n \<le> 32) \<or> n = 133 \<or> n = 160)"

definition py_lstrip :: "string \<Rightarrow> string" where
  "py_lstrip s = dropWhile py_isspace s"

definition py_rstrip :: "string \<Rightarrow> string" where
  "py_rstrip s = rev (dropWhile py_isspace (rev s))"

definition py_strip :: "string \<Rightarrow> string" where
  "py_strip s = py_rstrip (py_lstrip s)"

definition lower_char :: "char \<Rightarrow> char" where
  "lower_char c =
     (let n = (of_char c :: nat)
      in if (65 \<le> n \<and> n \<le> 90) \<or> (192 \<le> n \<and> n \<le> 222 \<and> n \<noteq> 215)
         then char_of (n + 32) else c)"

definition py_lower :: "string \<Rightarrow> string" where
  "py_lower s = map lower_char s"

fun py_startswith :: "string \<Rightarrow> string \<Rightarrow> bool" where
  "py_startswith s [] = True"
| "py_startswith [] (p # ps) = False"
| "py_startswith (c # s) (p # ps) = (c = p \<and> py_startswith s ps)"

text \<open>\<open>sub in s\<close>\<close>

fun py_contains :: "string \<Rightarrow> string \<Rightarrow> bool" where
  "py_contains sub [] = (sub = [])"
| "py_contains sub (c # s) = (py_startswith (c # s) sub \<or> py_contains sub s)"

definition apostrophe :: string where
  "apostrophe = [CHR 0x27]"

text \<open>\<open>s.rstrip(c)\<close> for a single character.\<close>

definition py_rstrip_char :: "char \<Rightarrow> string \<Rightarrow> string" where
  "py_rstrip_char c s = rev (dropWhile (\<lambda>d. d = c) (rev s))"

text \<open>\<open>s.split(c)\<close>: as many pieces as separators plus one.\<close>

fun py_split :: "char \<Rightarrow> string \<Rightarrow> string list" where
  "py_split c [] = [[]]"
| "py_split c (d # s) =
     (if d = c then [] # py_split c s
      else (case py_split c s of [] \<Rightarrow> [[d]] | p # ps \<Rightarrow> (d # p) # ps))"

text \<open>\<open>s.partition(c)\<close>, without the separator: the text before the first \<open>c\<close>, whether
  there was one, and the text after it.\<close>

fun py_partition :: "char \<Rightarrow> string \<Rightarrow> string \<times> bool \<times> string" where
  "py_partition c [] = ([], False, [])"
| "py_partition c (d # s) =
     (if d = c then ([], True, s)
      else (case py_partition c s of (a, f, b) \<Rightarrow> (d # a, f, b)))"

fun py_join :: "string \<Rightarrow> string list \<Rightarrow> string" where
  "py_join sep [] = []"
| "py_join sep [x] = x"
| "py_join sep (x # y # ys) = x @ sep @ py_join sep (y # ys)"

text \<open>The non-empty pieces of \<open>re.split(r"[,\s]+", s)\<close>.\<close>

fun split_by :: "(char \<Rightarrow> bool) \<Rightarrow> string \<Rightarrow> string list" where
  "split_by p [] = [[]]"
| "split_by p (d # s) =
     (if p d then [] # split_by p s
      else (case split_by p s of [] \<Rightarrow> [[d]] | q # qs \<Rightarrow> (d # q) # qs))"

definition re_tokens :: "string \<Rightarrow> string list" where
  "re_tokens s = filter (\<lambda>t. t \<noteq> []) (split_by (\<lambda>c. c = CHR '','' \<or> py_isspace c) s)"

definition is_digit_char :: "char \<Rightarrow> bool" where
  "is_digit_char c = (let n = (of_char c :: nat) in 48 \<le> n \<and> n \<le> 57)"

definition digit_char :: "nat \<Rightarrow> char" where
  "digit_char n = char_of (48 + n)"

fun show_nat :: "nat \<Rightarrow> string" where
  "show_nat n = (if n < 10 then [digit_char n] else show_nat (n div 10) @ [digit_char (n mod 10)])"

declare show_nat.simps [simp del]

definition show_int :: "int \<Rightarrow> string" where
  "show_int i = (if i < 0 then CHR ''-'' # show_nat (nat (- i)) else show_nat (nat i))"

fun nat_of_digits :: "nat \<Rightarrow> string \<Rightarrow> nat" where
  "nat_of_digits acc [] = acc"
| "nat_of_digits acc (c # cs) = nat_of_digits (10 * acc + (of_char c - 48)) cs"

text \<open>\<open>int(s)\<close> on a string, \<open>None\<close> for its \<open>ValueError\<close>: white space around it, a sign,
  and single underscores between digits are accepted.\<close>

fun int_body :: "bool \<Rightarrow> nat \<Rightarrow> string \<Rightarrow> nat option" where
  "int_body digit acc [] = (if digit then Some acc else None)"
| "int_body digit acc (c # cs) =
     (if is_digit_char c then int_body True (10 * acc + (of_char c - 48)) cs
      else if c = CHR ''_'' \<and> digit then int_body False acc cs else None)"

definition py_int :: "string \<Rightarrow> int option" where
  "py_int s =
     (case py_strip s of
        [] \<Rightarrow> None
      | c # cs \<Rightarrow>
          if c = CHR ''-'' then map_option (\<lambda>n. - int n) (int_body False 0 cs)
          else if c = CHR ''+'' then map_option int (int_body False 0 cs)
          else map_option int (int_body False 0 (c # cs)))"

text \<open>Instants and durations are microseconds.\<close>

definition second_us :: int where
  "second_us = 1000000"

subsection \<open>Facts about them\<close>

lemma dropWhile_hd: "dropWhile p xs = [] \<or> \<not> p (hd (dropWhile p xs))"
  using hd_dropWhile by blast

lemma py_rstrip_last: "py_rstrip s = [] \<or> \<not> py_isspace (last (py_rstrip s))"
  using dropWhile_hd [of py_isspace "rev s"] by (auto simp: py_rstrip_def last_rev)

lemma rstrip_prefix: "\<exists>t. s = py_rstrip s @ t"
  by (metis py_rstrip_def rev_append rev_rev_ident takeWhile_dropWhile_id)

lemma py_strip_hd: "py_strip s = [] \<or> \<not> py_isspace (hd (py_strip s))"
proof (cases "py_strip s")
  case Nil
  then show ?thesis by simp
next
  case (Cons c t)
  obtain u where u: "py_lstrip s = py_strip s @ u"
    using rstrip_prefix [of "py_lstrip s"] by (auto simp: py_strip_def)
  have "py_lstrip s \<noteq> []" and "hd (py_lstrip s) = hd (py_strip s)"
    using u Cons by simp_all
  then show ?thesis
    using dropWhile_hd [of py_isspace s] unfolding py_lstrip_def by metis
qed

lemma py_strip_last: "py_strip s = [] \<or> \<not> py_isspace (last (py_strip s))"
  unfolding py_strip_def by (rule py_rstrip_last)

lemma dropWhile_id: "xs = [] \<or> \<not> p (hd xs) \<Longrightarrow> dropWhile p xs = xs"
  by (cases xs) auto

lemma strip_id:
  assumes "s = [] \<or> (\<not> py_isspace (hd s) \<and> \<not> py_isspace (last s))"
  shows "py_strip s = s"
proof -
  have l: "dropWhile py_isspace s = s"
    using assms by (intro dropWhile_id) auto
  have r: "dropWhile py_isspace (rev s) = rev s"
    using assms by (intro dropWhile_id) (auto simp: hd_rev)
  show ?thesis by (simp add: py_strip_def py_lstrip_def py_rstrip_def l r)
qed

lemma py_strip_idem [simp]: "py_strip (py_strip s) = py_strip s"
  by (rule strip_id) (use py_strip_hd py_strip_last in blast)

lemma py_strip_Nil [simp]: "py_strip [] = []"
  by (simp add: py_strip_def py_lstrip_def py_rstrip_def)

lemma py_strip_subset: "set (py_strip s) \<subseteq> set s"
  by (auto simp: py_strip_def py_lstrip_def py_rstrip_def dest!: set_dropWhileD)

lemma length_py_strip: "length (py_strip s) \<le> length s"
  unfolding py_strip_def py_lstrip_def py_rstrip_def
  by (metis length_dropWhile_le length_rev order_trans)

lemma py_split_not_Nil [simp]: "py_split c s \<noteq> []"
  by (induction s) (auto split: list.splits)

lemma py_join_split: "py_join [c] (py_split c s) = s"
proof (induction s)
  case Nil
  then show ?case by simp
next
  case (Cons d s)
  obtain p ps where p: "py_split c s = p # ps"
    using py_split_not_Nil by (meson neq_Nil_conv)
  show ?case
  proof (cases "d = c")
    case True
    with Cons p show ?thesis by simp
  next
    case False
    with Cons p show ?thesis by (cases ps) auto
  qed
qed

lemma py_split_at: "c \<notin> set x \<Longrightarrow> py_split c (x @ c # r) = x # py_split c r"
  by (induction x) auto

lemma py_split_none: "c \<notin> set x \<Longrightarrow> py_split c x = [x]"
  by (induction x) auto

lemma split_join_clean:
  "list_all (\<lambda>x. c \<notin> set x) xs \<Longrightarrow> xs \<noteq> [] \<Longrightarrow> py_split c (py_join [c] xs) = xs"
proof (induction xs)
  case (Cons x xs)
  then show ?case by (cases xs) (simp_all add: py_split_at py_split_none)
qed simp

lemma py_partition_at: "c \<notin> set x \<Longrightarrow> py_partition c (x @ c # r) = (x, True, r)"
  by (induction x) auto

lemma py_partition_none: "c \<notin> set x \<Longrightarrow> py_partition c x = (x, False, [])"
  by (induction x) auto

lemma split_by_pieces: "t \<in> set (split_by p s) \<Longrightarrow> \<forall>c\<in>set t. \<not> p c"
  by (induction s arbitrary: t) (fastforce split: if_splits list.splits)+

lemma re_tokens_clean:
  "t \<in> set (re_tokens s) \<Longrightarrow> t \<noteq> [] \<and> (\<forall>c\<in>set t. c \<noteq> CHR '','' \<and> \<not> py_isspace c)"
  using split_by_pieces [of t "\<lambda>c. c = CHR '','' \<or> py_isspace c" s]
  by (auto simp: re_tokens_def)

lemma is_digit_digit_char: "n < 10 \<Longrightarrow> is_digit_char (digit_char n)"
  by (simp add: is_digit_char_def digit_char_def)

lemma show_nat_digits: "\<forall>c\<in>set (show_nat n). is_digit_char c"
proof (induction n rule: show_nat.induct)
  case (1 n)
  show ?case
    by (subst show_nat.simps) (use 1 in \<open>auto simp: is_digit_digit_char\<close>)
qed

lemma show_nat_not_Nil [simp]: "show_nat n \<noteq> []"
  by (subst show_nat.simps) simp

lemma nat_of_digits_append:
  "nat_of_digits acc (xs @ ys) = nat_of_digits (nat_of_digits acc xs) ys"
  by (induction xs arbitrary: acc) auto

lemma digit_char_value: "n < 10 \<Longrightarrow> of_char (digit_char n) - 48 = (n :: nat)"
  by (simp add: digit_char_def)

text \<open>Printing a number and reading it back gives the number.\<close>

lemma nat_of_show_nat: "nat_of_digits 0 (show_nat n) = n"
proof (induction n rule: show_nat.induct)
  case (1 n)
  show ?case
  proof (cases "n < 10")
    case True
    then show ?thesis by (subst show_nat.simps) (simp add: digit_char_value)
  next
    case False
    with 1 show ?thesis
      by (subst show_nat.simps) (simp add: nat_of_digits_append digit_char_value)
  qed
qed

lemma show_nat_inject [simp]: "show_nat m = show_nat n \<longleftrightarrow> m = n"
  by (metis nat_of_show_nat)

lemma int_body_digits:
  "list_all is_digit_char ds \<Longrightarrow> ds \<noteq> [] \<or> digit \<Longrightarrow> int_body digit acc ds = Some (nat_of_digits acc ds)"
  by (induction ds arbitrary: acc digit) auto

lemma digit_not_space: "is_digit_char c \<Longrightarrow> \<not> py_isspace c"
  by (auto simp: is_digit_char_def py_isspace_def Let_def)

lemma py_int_digits:
  assumes "list_all is_digit_char ds" and "ds \<noteq> []"
  shows "py_int ds = Some (int (nat_of_digits 0 ds))"
proof -
  obtain c cs where ds: "ds = c # cs" using assms(2) by (cases ds) auto
  have "is_digit_char (hd ds)" "is_digit_char (last ds)"
    using assms by (simp_all add: list_all_iff)
  then have "py_strip ds = ds" by (intro strip_id) (simp add: digit_not_space)
  moreover have "c \<noteq> CHR ''-''" "c \<noteq> CHR ''+''" using assms(1) ds by (auto simp: is_digit_char_def)
  ultimately show ?thesis using int_body_digits [of ds False 0] assms ds by (simp add: py_int_def)
qed

text \<open>\<open>x or d\<close> for an optional string, and \<open>x or None\<close>.\<close>

definition str_or :: "string option \<Rightarrow> string \<Rightarrow> string" where
  "str_or x d = (case x of None \<Rightarrow> d | Some s \<Rightarrow> if s = [] then d else s)"

definition none_if_empty :: "string \<Rightarrow> string option" where
  "none_if_empty s = (if s = [] then None else Some s)"

lemma find_snoc:
  "find P (xs @ [x]) = (case find P xs of Some y \<Rightarrow> Some y | None \<Rightarrow> if P x then Some x else None)"
  by (induction xs) auto

lemma find_filter: "find P (filter Q xs) = find (\<lambda>x. Q x \<and> P x) xs"
  by (induction xs) auto

lemma find_map_inv:
  "(\<And>x. P (f x) = P x) \<Longrightarrow> find P (map f xs) = map_option f (find P xs)"
  by (induction xs) auto

lemma find_cong_set: "(\<And>x. x \<in> set xs \<Longrightarrow> P x = Q x) \<Longrightarrow> find P xs = find Q xs"
  by (induction xs) auto

lemma find_rev_distinct:
  "distinct (map f rs) \<Longrightarrow> find (\<lambda>r. f r = h) (rev rs) = find (\<lambda>r. f r = h) rs"
proof (induction rs)
  case (Cons r rs)
  show ?case
  proof (cases "f r = h")
    case True
    with Cons have "find (\<lambda>r. f r = h) rs = None" by (force simp: find_None_iff image_iff)
    with True Cons show ?thesis by (simp add: find_snoc)
  next
    case False
    with Cons show ?thesis by (simp add: find_snoc split: option.split)
  qed
qed simp

section \<open>Lists that stand for Python sets\<close>

definition set_add :: "'a \<Rightarrow> 'a list \<Rightarrow> 'a list" where
  "set_add x xs = (if x \<in> set xs then xs else xs @ [x])"

definition py_set :: "'a list \<Rightarrow> 'a list" where
  "py_set xs = fold set_add xs []"

lemma set_set_add [simp]: "set (set_add x xs) = insert x (set xs)"
  by (auto simp: set_add_def)

lemma distinct_set_add: "distinct xs \<Longrightarrow> distinct (set_add x xs)"
  by (auto simp: set_add_def)

lemma set_fold_set_add: "set (fold set_add xs acc) = set acc \<union> set xs"
  by (induction xs arbitrary: acc) auto

lemma distinct_fold_set_add: "distinct acc \<Longrightarrow> distinct (fold set_add xs acc)"
  by (induction xs arbitrary: acc) (auto simp: distinct_set_add)

lemma set_py_set [simp]: "set (py_set xs) = set xs"
  by (simp add: py_set_def set_fold_set_add)

lemma distinct_py_set [simp]: "distinct (py_set xs)"
  by (simp add: py_set_def distinct_fold_set_add)

text \<open>\<open>sorted(set(xs))\<close> for strings, in Python's code-point order.\<close>

definition sorted_set :: "string list \<Rightarrow> string list" where
  "sorted_set xs = sort (remdups xs)"

lemma sorted_set_props:
  "set (sorted_set xs) = set xs" "sorted (sorted_set xs)" "distinct (sorted_set xs)"
  by (simp_all add: sorted_set_def)

lemma sorted_set_cong: "set xs = set ys \<Longrightarrow> sorted_set xs = sorted_set ys"
  by (rule sorted_distinct_set_unique) (simp_all add: sorted_set_props)

text \<open>Set equality of two lists, as an executable test.\<close>

definition same_set :: "'a list \<Rightarrow> 'a list \<Rightarrow> bool" where
  "same_set xs ys \<longleftrightarrow> list_all (\<lambda>x. x \<in> set ys) xs \<and> list_all (\<lambda>y. y \<in> set xs) ys"

lemma same_set_iff [simp]: "same_set xs ys \<longleftrightarrow> set xs = set ys"
  by (auto simp: same_set_def list_all_iff)

end
