(* ===== verification/Effects.thy ===== *)
theory Effects
  imports Prelude
begin

text \<open>
  The state-and-exception monad the asynchronous passes are written in, and the
  interface (\<open>frame\<close>) under which the development proves what a pass can have done to the
  outside, whatever the outside answers.

  A \<open>world\<close> is the log of the calls made so far together with the state of everything
  outside the process; an \<open>env\<close> says how the outside reacts to a call and what time it
  is. Both are arguments of every pass: nothing is assumed of them here. The exceptions
  are the two client errors (\<open>AdGuardError\<close>, \<open>AgentError\<close>) and any other Python exception.
\<close>

section \<open>Exceptions\<close>

datatype exn =
    AdGuardError string "int option" "int option"  \<comment> \<open>message, status code, retry-after\<close>
  | AgentError string "int option"                 \<comment> \<open>message, status code\<close>
  | PyError string                                 \<comment> \<open>any other exception\<close>

fun exn_str :: "exn \<Rightarrow> string" where
  "exn_str (AdGuardError m _ _) = m"
| "exn_str (AgentError m _) = m"
| "exn_str (PyError m) = m"

fun is_adguard_error :: "exn \<Rightarrow> bool" where
  "is_adguard_error (AdGuardError _ _ _) = True"
| "is_adguard_error _ = False"

fun is_agent_error :: "exn \<Rightarrow> bool" where
  "is_agent_error (AgentError _ _) = True"
| "is_agent_error _ = False"

section \<open>The monad\<close>

type_synonym ('w, 'a) io = "'w \<Rightarrow> (exn + 'a) \<times> 'w"

definition io_return :: "'a \<Rightarrow> ('w, 'a) io" where
  "io_return a = (\<lambda>w. (Inr a, w))"

definition io_raise :: "exn \<Rightarrow> ('w, 'a) io" where
  "io_raise e = (\<lambda>w. (Inl e, w))"

definition io_bind :: "('w, 'a) io \<Rightarrow> ('a \<Rightarrow> ('w, 'b) io) \<Rightarrow> ('w, 'b) io" where
  "io_bind m f = (\<lambda>w. case m w of (Inl e, w') \<Rightarrow> (Inl e, w') | (Inr a, w') \<Rightarrow> f a w')"

definition io_seq :: "('w, 'a) io \<Rightarrow> ('w, 'b) io \<Rightarrow> ('w, 'b) io" where
  "io_seq m n = io_bind m (\<lambda>_. n)"

text \<open>\<open>try: m except E as e: h e\<close>, for the exceptions that satisfy \<open>p\<close>.\<close>

definition io_except :: "(exn \<Rightarrow> bool) \<Rightarrow> ('w, 'a) io \<Rightarrow> (exn \<Rightarrow> ('w, 'a) io) \<Rightarrow> ('w, 'a) io" where
  "io_except p m h =
     (\<lambda>w. case m w of (Inl e, w') \<Rightarrow> (if p e then h e w' else (Inl e, w')) | (Inr a, w') \<Rightarrow> (Inr a, w'))"

text \<open>\<open>try: m finally: f\<close> for an \<open>f\<close> that does not raise.\<close>

definition io_finally :: "('w, 'a) io \<Rightarrow> ('w \<Rightarrow> 'w) \<Rightarrow> ('w, 'a) io" where
  "io_finally m f = (\<lambda>w. case m w of (r, w') \<Rightarrow> (r, f w'))"

definition io_when :: "bool \<Rightarrow> ('w, unit) io \<Rightarrow> ('w, unit) io" where
  "io_when b m = (if b then m else io_return ())"

definition io_modify :: "('w \<Rightarrow> 'w) \<Rightarrow> ('w, unit) io" where
  "io_modify f = (\<lambda>w. (Inr (), f w))"

definition io_get :: "('w \<Rightarrow> 'a) \<Rightarrow> ('w, 'a) io" where
  "io_get f = (\<lambda>w. (Inr (f w), w))"

fun io_for :: "'x list \<Rightarrow> ('x \<Rightarrow> ('w, unit) io) \<Rightarrow> ('w, unit) io" where
  "io_for [] f = io_return ()"
| "io_for (x # xs) f = io_seq (f x) (io_for xs f)"

text \<open>A loop that carries a value: \<open>acc = f(x, acc)\<close> for each \<open>x\<close>.\<close>

fun io_fold :: "('x \<Rightarrow> 'b \<Rightarrow> ('w, 'b) io) \<Rightarrow> 'x list \<Rightarrow> 'b \<Rightarrow> ('w, 'b) io" where
  "io_fold f [] b = io_return b"
| "io_fold f (x # xs) b = io_bind (f x b) (io_fold f xs)"

lemmas io_defs = io_return_def io_raise_def io_bind_def io_seq_def io_except_def
  io_finally_def io_when_def io_modify_def io_get_def

lemma io_bind_return [io_simps]: "io_bind (io_return a) f = f a"
  by (simp add: io_bind_def io_return_def)

lemma io_bind_raise [io_simps]: "io_bind (io_raise e) f = io_raise e"
  by (simp add: io_bind_def io_raise_def)

lemma io_bind_assoc: "io_bind (io_bind m f) g = io_bind m (\<lambda>a. io_bind (f a) g)"
  by (rule ext) (simp add: io_bind_def split: prod.splits sum.splits)

section \<open>What a computation can do: the frame interface\<close>

definition keeps :: "('w \<Rightarrow> 'w \<Rightarrow> bool) \<Rightarrow> ('w, 'a) io \<Rightarrow> bool" where
  "keeps R m \<longleftrightarrow> (\<forall>w. R w (snd (m w)))"

locale frame =
  fixes R :: "'w \<Rightarrow> 'w \<Rightarrow> bool"
  assumes frame_refl: "R w w"
    and frame_trans: "R u v \<Longrightarrow> R v w \<Longrightarrow> R u w"
begin

lemma keeps_return [frame_intros]: "keeps R (io_return a)"
  by (simp add: keeps_def io_return_def frame_refl)

lemma keeps_raise [frame_intros]: "keeps R (io_raise e)"
  by (simp add: keeps_def io_raise_def frame_refl)

lemma keeps_get [frame_intros]: "keeps R (io_get f)"
  by (simp add: keeps_def io_get_def frame_refl)

lemma keeps_bind [frame_intros]:
  assumes "keeps R m" and "\<And>a. keeps R (f a)"
  shows "keeps R (io_bind m f)"
  unfolding keeps_def
proof
  fix w
  show "R w (snd (io_bind m f w))"
  proof (cases "m w")
    case (Pair r w')
    with assms(1) have "R w w'" by (auto simp: keeps_def dest: spec [of _ w])
    then show ?thesis
      using assms(2) Pair by (cases r) (auto simp: io_bind_def keeps_def intro: frame_trans)
  qed
qed

lemma keeps_seq [frame_intros]: "keeps R m \<Longrightarrow> keeps R n \<Longrightarrow> keeps R (io_seq m n)"
  unfolding io_seq_def by (rule keeps_bind)

lemma keeps_except [frame_intros]:
  assumes "keeps R m" and "\<And>e. keeps R (h e)"
  shows "keeps R (io_except p m h)"
  unfolding keeps_def
proof
  fix w
  show "R w (snd (io_except p m h w))"
  proof (cases "m w")
    case (Pair r w')
    with assms(1) have "R w w'" by (auto simp: keeps_def dest: spec [of _ w])
    then show ?thesis
      using assms(2) Pair by (cases r) (auto simp: io_except_def keeps_def intro: frame_trans)
  qed
qed

lemma keeps_finally:
  assumes "keeps R m" and "\<And>w. R w (f w)"
  shows "keeps R (io_finally m f)"
  using assms by (auto simp: keeps_def io_finally_def split: prod.splits)
    (metis frame_trans snd_conv)

lemma keeps_when [frame_intros]: "(b \<Longrightarrow> keeps R m) \<Longrightarrow> keeps R (io_when b m)"
  by (simp add: io_when_def keeps_return)

lemma keeps_modify: "(\<And>w. R w (f w)) \<Longrightarrow> keeps R (io_modify f)"
  by (simp add: keeps_def io_modify_def)

lemma keeps_for [frame_intros]: "(\<And>x. x \<in> set xs \<Longrightarrow> keeps R (f x)) \<Longrightarrow> keeps R (io_for xs f)"
  by (induction xs) (auto intro: keeps_return keeps_seq)

lemma keeps_fold [frame_intros]: "(\<And>x b. x \<in> set xs \<Longrightarrow> keeps R (f x b)) \<Longrightarrow> keeps R (io_fold f xs b)"
  by (induction xs arbitrary: b) (auto intro!: keeps_return keeps_bind)

lemma keeps_result: "keeps R m \<Longrightarrow> m w = (r, w') \<Longrightarrow> R w w'"
  by (auto simp: keeps_def dest: spec [of _ w])

lemma keeps_if [frame_intros]:
  "(b \<Longrightarrow> keeps R m) \<Longrightarrow> (\<not> b \<Longrightarrow> keeps R n) \<Longrightarrow> keeps R (if b then m else n)"
  by simp

end

section \<open>The world: a call log and the outside\<close>

record ('c, 's) world =
  w_log :: "'c list"
  w_out :: 's

record ('c, 'r, 's) env =
  e_call :: "'c \<Rightarrow> 's \<Rightarrow> (exn + 'r) \<times> 's"
  e_now :: "'s \<Rightarrow> int"
  e_loop_time :: "'s \<Rightarrow> int"   \<comment> \<open>the event loop's monotonic clock\<close>

definition call_io :: "('c, 'r, 's) env \<Rightarrow> 'c \<Rightarrow> (('c, 's, 'm) world_scheme, 'r) io" where
  "call_io e c = (\<lambda>w. case e_call e c (w_out w) of
     (r, s) \<Rightarrow> (r, w\<lparr>w_log := w_log w @ [c], w_out := s\<rparr>))"

definition now_io :: "('c, 'r, 's) env \<Rightarrow> (('c, 's, 'm) world_scheme, int) io" where
  "now_io e = io_get (\<lambda>w. e_now e (w_out w))"

definition loop_time_io :: "('c, 'r, 's) env \<Rightarrow> (('c, 's, 'm) world_scheme, int) io" where
  "loop_time_io e = io_get (\<lambda>w. e_loop_time e (w_out w))"

text \<open>A step of the environment that cannot fail: its answer is not looked at.\<close>

definition tick_io :: "('c, 'r, 's) env \<Rightarrow> 'c \<Rightarrow> (('c, 's, 'm) world_scheme, unit) io" where
  "tick_io e c = (\<lambda>w. (Inr (), w\<lparr>w_log := w_log w @ [c], w_out := snd (e_call e c (w_out w))\<rparr>))"

text \<open>A call the code makes while cleaning up: recorded, its outcome not looked at.\<close>

definition log_call :: "'c \<Rightarrow> ('c, 's, 'm) world_scheme \<Rightarrow> ('c, 's, 'm) world_scheme" where
  "log_call c w = w\<lparr>w_log := w_log w @ [c]\<rparr>"

text \<open>A frame that the calls satisfying \<open>P\<close> respect in the environment \<open>e\<close>.\<close>

locale call_frame = frame R
  for R :: "('c, 's, 'm) world_scheme \<Rightarrow> ('c, 's, 'm) world_scheme \<Rightarrow> bool" +
  fixes P :: "'c \<Rightarrow> bool" and e :: "('c, 'r, 's) env"
  assumes keeps_call [frame_intros]: "P c \<Longrightarrow> keeps R (call_io e c)"
begin

lemma keeps_now [frame_intros]: "keeps R (now_io e)"
  by (simp add: now_io_def keeps_get)

lemma keeps_loop_time [frame_intros]: "keeps R (loop_time_io e)"
  by (simp add: loop_time_io_def keeps_get)

lemma keeps_tick [frame_intros]: "P c \<Longrightarrow> keeps R (tick_io e c)"
  using keeps_call [of c] by (simp add: keeps_def tick_io_def call_io_def case_prod_beta)

end

text \<open>The log has only grown, and only by calls that satisfy \<open>P\<close>.\<close>

definition log_ext ::
  "('c \<Rightarrow> bool) \<Rightarrow> ('c, 's, 'm) world_scheme \<Rightarrow> ('c, 's, 'm) world_scheme \<Rightarrow> bool" where
  "log_ext P w w' \<longleftrightarrow> (\<exists>cs. w_log w' = w_log w @ cs \<and> list_all P cs)"

lemma log_ext_frame: "call_frame (log_ext P) P e"
proof unfold_locales
  fix w :: "('a, 'b, 'c) world_scheme"
  show "log_ext P w w" by (simp add: log_ext_def)
next
  fix u v w :: "('a, 'b, 'c) world_scheme"
  assume "log_ext P u v" and "log_ext P v w"
  then show "log_ext P u w" by (force simp: log_ext_def)
qed (simp add: log_ext_def keeps_def call_io_def split: prod.splits)

lemma log_ext_log_call: "P c \<Longrightarrow> log_ext P w (log_call c w)"
  by (simp add: log_call_def log_ext_def)

lemma log_ext_mono: "log_ext P w w' \<Longrightarrow> (\<And>c. P c \<Longrightarrow> Q c) \<Longrightarrow> log_ext Q w w'"
  by (auto simp: log_ext_def list_all_iff)

lemma log_ext_same_log: "w_log w' = w_log w \<Longrightarrow> log_ext P w w'"
  by (simp add: log_ext_def)

text \<open>The fields of the state that extend the world are untouched.\<close>

definition same_more :: "('c, 's, 'm) world_scheme \<Rightarrow> ('c, 's, 'm) world_scheme \<Rightarrow> bool" where
  "same_more w w' \<longleftrightarrow> world.more w' = world.more w"

lemma same_more_frame: "call_frame same_more (\<lambda>_. True) e"
  by unfold_locales (simp_all add: same_more_def keeps_def call_io_def split: prod.splits)

section \<open>Inversion of successful and failed runs\<close>

lemma io_bind_Inr:
  assumes "io_bind m f w = (Inr b, w')"
  obtains a w1 where "m w = (Inr a, w1)" and "f a w1 = (Inr b, w')"
  using assms by (auto simp: io_bind_def split: prod.splits sum.splits)

lemma io_seq_Inr:
  assumes "io_seq m n w = (Inr b, w')"
  obtains a w1 where "m w = (Inr a, w1)" and "n w1 = (Inr b, w')"
  using assms unfolding io_seq_def by (rule io_bind_Inr)

lemma keepsD: "keeps R m \<Longrightarrow> m w = (r, w') \<Longrightarrow> R w w'"
  by (auto simp: keeps_def dest: spec [of _ w])

end
