(* ===== verification/Rows.thy ===== *)
theory Rows
  imports Prelude
begin

text \<open>
  Dictionaries and database tables.

  A dictionary is an association list in insertion order. A table is the list of its rows
  in primary-key order, as \<open>SELECT\<close> without \<open>ORDER BY\<close> returns them from SQLite;
  \<open>row_get\<close>, \<open>row_put\<close>, \<open>row_add\<close> and \<open>row_del\<close> are \<open>session.get\<close>, the write-back of
  a changed row, the insertion of a new one and \<open>session.delete\<close>. The locale \<open>row_table\<close>
  states what their users rely on, with a frame lemma for each operation; it is
  interpreted on these operations for every key function.
\<close>

section \<open>Dictionaries\<close>

fun dict_set :: "'k \<Rightarrow> 'v \<Rightarrow> ('k \<times> 'v) list \<Rightarrow> ('k \<times> 'v) list" where
  "dict_set k v [] = [(k, v)]"
| "dict_set k v ((k', v') # d) = (if k = k' then (k, v) # d else (k', v') # dict_set k v d)"

definition dict_del :: "'k \<Rightarrow> ('k \<times> 'v) list \<Rightarrow> ('k \<times> 'v) list" where
  "dict_del k d = filter (\<lambda>e. fst e \<noteq> k) d"

locale dictionary =
  fixes get :: "'d \<Rightarrow> 'k \<Rightarrow> 'v option"
    and put :: "'k \<Rightarrow> 'v \<Rightarrow> 'd \<Rightarrow> 'd"
    and del :: "'k \<Rightarrow> 'd \<Rightarrow> 'd"
    and keys :: "'d \<Rightarrow> 'k list"
    and empty :: 'd
  assumes get_empty: "get empty k = None"
    and get_put: "get (put k v d) = (get d)(k \<mapsto> v)"
    and get_del: "get (del k d) = (get d)(k := None)"
    and keys_dom: "set (keys d) = dom (get d)"
    and keys_put: "distinct (keys d) \<Longrightarrow> distinct (keys (put k v d))"
begin

lemma get_put_other: "j \<noteq> k \<Longrightarrow> get (put k v d) j = get d j"
  by (simp add: get_put)

lemma put_fold_dom: "dom (get (fold (\<lambda>x. put (f x) (g x)) xs d)) = dom (get d) \<union> f ` set xs"
  by (induction xs arbitrary: d) (auto simp: get_put)

lemma put_fold_distinct:
  "distinct (keys d) \<Longrightarrow> distinct (keys (fold (\<lambda>x. put (f x) (g x)) xs d))"
  by (induction xs arbitrary: d) (auto simp: keys_put)

end

lemma map_of_dict_set [simp]: "map_of (dict_set k v d) = (map_of d)(k \<mapsto> v)"
  by (induction k v d rule: dict_set.induct) auto

lemma map_of_dict_del [simp]: "map_of (dict_del k d) = (map_of d)(k := None)"
  by (induction d) (auto simp: dict_del_def)

lemma dict_set_keys: "set (map fst (dict_set k v d)) = insert k (set (map fst d))"
  by (induction k v d rule: dict_set.induct) auto

lemma dict_set_distinct: "distinct (map fst d) \<Longrightarrow> distinct (map fst (dict_set k v d))"
proof (induction d)
  case (Cons e d)
  then show ?case
    using dict_set_keys [of k v d] by (cases e) auto
qed simp

interpretation dict: dictionary map_of dict_set dict_del "map fst" "[]"
proof unfold_locales
  fix d :: "('a \<times> 'b) list"
  show "set (map fst d) = dom (map_of d)" by (simp add: dom_map_of_conv_image_fst)
qed (simp_all add: dict_set_distinct)

section \<open>Tables\<close>

definition row_get :: "('r \<Rightarrow> int) \<Rightarrow> int \<Rightarrow> 'r list \<Rightarrow> 'r option" where
  "row_get key i rows = find (\<lambda>r. key r = i) rows"

definition row_put :: "('r \<Rightarrow> int) \<Rightarrow> 'r \<Rightarrow> 'r list \<Rightarrow> 'r list" where
  "row_put key r rows = map (\<lambda>x. if key x = key r then r else x) rows"

definition row_del :: "('r \<Rightarrow> int) \<Rightarrow> int \<Rightarrow> 'r list \<Rightarrow> 'r list" where
  "row_del key i rows = filter (\<lambda>r. key r \<noteq> i) rows"

definition next_id :: "('r \<Rightarrow> int) \<Rightarrow> 'r list \<Rightarrow> int" where
  "next_id key rows = fold (\<lambda>r m. max (key r) m) rows 0 + 1"

text \<open>Insert a row; \<open>mk\<close> receives the id the database assigns.\<close>

definition row_add :: "('r \<Rightarrow> int) \<Rightarrow> (int \<Rightarrow> 'r) \<Rightarrow> 'r list \<Rightarrow> 'r list" where
  "row_add key mk rows = rows @ [mk (next_id key rows)]"

locale row_table =
  fixes key :: "'r \<Rightarrow> int"
    and get :: "int \<Rightarrow> 't \<Rightarrow> 'r option"
    and put :: "'r \<Rightarrow> 't \<Rightarrow> 't"
    and del :: "int \<Rightarrow> 't \<Rightarrow> 't"
    and add :: "(int \<Rightarrow> 'r) \<Rightarrow> 't \<Rightarrow> 't"
    and rows :: "'t \<Rightarrow> 'r list"
  assumes get_key: "get i t = Some r \<Longrightarrow> key r = i \<and> r \<in> set (rows t)"
    and get_None: "get i t = None \<longleftrightarrow> i \<notin> key ` set (rows t)"
    and keys_put: "map key (rows (put r t)) = map key (rows t)"
    and get_put: "get i (put r t) =
       (if i = key r \<and> get i t \<noteq> None then Some r else get i t)"
    and get_del: "get i (del j t) = (if i = j then None else get i t)"
    and add_fresh: "(\<And>i. key (mk i) = i) \<Longrightarrow>
       \<exists>i. i \<notin> key ` set (rows t) \<and> rows (add mk t) = rows t @ [mk i]"
begin

lemma get_put_same: "get i t = Some r0 \<Longrightarrow> key r = i \<Longrightarrow> get i (put r t) = Some r"
  by (simp add: get_put)

lemma get_put_other: "i \<noteq> key r \<Longrightarrow> get i (put r t) = get i t"
  by (simp add: get_put)

lemma put_keeps_distinct: "distinct (map key (rows t)) \<Longrightarrow> distinct (map key (rows (put r t)))"
  by (simp add: keys_put)

lemma add_keeps_distinct:
  assumes "distinct (map key (rows t))" and "\<And>i. key (mk i) = i"
  shows "distinct (map key (rows (add mk t)))"
  using add_fresh [OF assms(2), of t] assms by auto

end

lemma fold_max_ge: "m \<le> fold (\<lambda>r m. max (key r) m) rows (m :: int)"
  by (induction rows arbitrary: m) (auto intro: order_trans [OF max.cobounded2])

lemma fold_max_bound: "r \<in> set rows \<Longrightarrow> key r \<le> fold (\<lambda>r m. max (key r) m) rows (m :: int)"
proof (induction rows arbitrary: m)
  case Nil
  then show ?case by simp
next
  case (Cons a rows)
  then show ?case using fold_max_ge [of "max (key a) m" key rows] by auto
qed

lemma next_id_fresh: "next_id key rows \<notin> key ` set rows"
  using fold_max_bound [of _ rows key 0] by (fastforce simp: next_id_def)

lemma row_get_put:
  "row_get key i (row_put key r rows) =
     (if i = key r \<and> row_get key i rows \<noteq> None then Some r else row_get key i rows)"
  by (induction rows) (auto simp: row_get_def row_put_def)

lemma row_get_del: "row_get key i (row_del key j rows) = (if i = j then None else row_get key i rows)"
  by (induction rows) (auto simp: row_get_def row_del_def)

lemma row_get_Some: "row_get key i rows = Some r \<Longrightarrow> key r = i \<and> r \<in> set rows"
  by (auto simp: row_get_def find_Some_iff)

lemma row_get_None: "row_get key i rows = None \<longleftrightarrow> i \<notin> key ` set rows"
  by (auto simp: row_get_def find_None_iff)

lemma keys_row_put: "map key (row_put key r rows) = map key rows"
  by (auto simp: row_put_def)

interpretation rows: row_table key "row_get key" "row_put key" "row_del key" "row_add key" "\<lambda>t. t"
  for key
proof unfold_locales
  fix mk :: "int \<Rightarrow> 'a" and t
  assume "\<And>i. key (mk i) = i"
  then show "\<exists>i. i \<notin> key ` set t \<and> row_add key mk t = t @ [mk i]"
    using next_id_fresh [of key t] by (auto simp: row_add_def)
qed (auto simp: row_get_put row_get_del row_get_None keys_row_put dest: row_get_Some)

lemma set_row_put: "x \<in> set (row_put key r rows) \<Longrightarrow> x = r \<or> x \<in> set rows"
  by (auto simp: row_put_def split: if_splits)

lemma set_row_del: "x \<in> set (row_del key i rows) \<longleftrightarrow> x \<in> set rows \<and> key x \<noteq> i"
  by (auto simp: row_del_def)

end
