(* ===== verification/Models.thy ===== *)
theory Models
  imports Rows
begin

text \<open>
  The database: the enumerations and tables of backend/app/models.py, one record per table
  class and one field per column, prefixed by the table's initial. Identifiers are the
  integers SQLite assigns, a nullable column is an option, an instant is an integer number
  of microseconds since the epoch in UTC (the code normalises the naive values SQLite hands
  back before it compares them). JSON columns are \<open>json\<close> values. The columns that only
  carry a creation time for display (\<open>created_at\<close>) are kept where an operation writes or
  reads them and left out otherwise; the SQLAlchemy relationships are derived data.
\<close>

section \<open>JSON values\<close>

text \<open>A decoded JSON document. Numbers are integers or (for floats) rationals.\<close>

datatype json =
    JNull
  | JBool bool
  | JInt int
  | JNum rat
  | JStr string
  | JList "json list"
  | JObj "(string \<times> json) list"

text \<open>\<open>d.get(k)\<close> on a value known to be an object (or an absent one).\<close>

fun jget :: "json \<Rightarrow> string \<Rightarrow> json" where
  "jget (JObj d) k = (case map_of d k of None \<Rightarrow> JNull | Some v \<Rightarrow> v)"
| "jget _ k = JNull"

text \<open>\<open>d.get(k, default)\<close>: the default stands for an absent key, not for a null.\<close>

fun jget_def :: "json \<Rightarrow> string \<Rightarrow> json \<Rightarrow> json" where
  "jget_def (JObj d) k x = (case map_of d k of None \<Rightarrow> x | Some v \<Rightarrow> v)"
| "jget_def _ k x = x"

text \<open>Python truthiness of a decoded value.\<close>

fun truthy :: "json \<Rightarrow> bool" where
  "truthy JNull = False"
| "truthy (JBool b) = b"
| "truthy (JInt i) = (i \<noteq> 0)"
| "truthy (JNum r) = (r \<noteq> 0)"
| "truthy (JStr s) = (s \<noteq> [])"
| "truthy (JList xs) = (xs \<noteq> [])"
| "truthy (JObj d) = (d \<noteq> [])"

definition jor :: "json \<Rightarrow> json \<Rightarrow> json" where
  "jor a b = (if truthy a then a else b)"

fun is_obj :: "json \<Rightarrow> bool" where
  "is_obj (JObj _) = True"
| "is_obj _ = False"

fun jlist :: "json \<Rightarrow> json list" where
  "jlist (JList xs) = xs"
| "jlist _ = []"

section \<open>Answers of the HTTP API\<close>

text \<open>A FastAPI handler returns a value or raises \<open>HTTPException(status, detail)\<close>; an exception
  nothing catches is status 500.\<close>

datatype http_error = HTTPException int string

type_synonym 'a http = "http_error + 'a"

text \<open>
  One field of a PATCH body: absent (\<open>exclude_unset\<close>), an explicit null, or a value.
  \<open>patch\<close> is what a NOT NULL column receives, \<open>None\<close> where the database refuses the null.
\<close>

definition patch :: "'a option option \<Rightarrow> 'a \<Rightarrow> 'a option" where
  "patch f old = (case f of None \<Rightarrow> Some old | Some v \<Rightarrow> v)"

definition patch_null :: "'a option option \<Rightarrow> 'a option \<Rightarrow> 'a option" where
  "patch_null f old = (case f of None \<Rightarrow> old | Some v \<Rightarrow> v)"

section \<open>Enumerations\<close>

datatype role = Role_admin | Role_editor | Role_viewer

datatype record_scope = Rec_global | Rec_zone

datatype config_scope = Cfg_global | Cfg_zone | Cfg_server

datatype dns_server_kind = Kind_upstream | Kind_bootstrap | Kind_fallback | Kind_private

datatype filter_kind = Kind_blocklist | Kind_allowlist

datatype sync_status = St_unknown | St_online | St_offline | St_error | St_provisioning

datatype install_method = Inst_docker | Inst_bare_metal

datatype provision_status = Prov_pending | Prov_completed | Prov_revoked

datatype update_state = Upd_idle | Upd_running | Upd_succeeded | Upd_failed | Upd_delegated

datatype lb_mode = Mode_dnsdist | Mode_ipvs

datatype ipvs_algo = Algo_rr | Algo_wrr | Algo_lc | Algo_wlc | Algo_sh

datatype lb_policy =
  Pol_leastOutstanding | Pol_roundrobin | Pol_wrandom | Pol_whashed | Pol_firstAvailable

datatype hc_mode = Hc_auto | Hc_lazy

fun sync_status_value :: "sync_status \<Rightarrow> string" where
  "sync_status_value St_unknown = ''unknown''"
| "sync_status_value St_online = ''online''"
| "sync_status_value St_offline = ''offline''"
| "sync_status_value St_error = ''error''"
| "sync_status_value St_provisioning = ''provisioning''"

fun install_method_value :: "install_method \<Rightarrow> string" where
  "install_method_value Inst_docker = ''docker''"
| "install_method_value Inst_bare_metal = ''bare_metal''"

fun lb_mode_value :: "lb_mode \<Rightarrow> string" where
  "lb_mode_value Mode_dnsdist = ''dnsdist''"
| "lb_mode_value Mode_ipvs = ''ipvs''"

fun ipvs_algo_value :: "ipvs_algo \<Rightarrow> string" where
  "ipvs_algo_value Algo_rr = ''rr''"
| "ipvs_algo_value Algo_wrr = ''wrr''"
| "ipvs_algo_value Algo_lc = ''lc''"
| "ipvs_algo_value Algo_wlc = ''wlc''"
| "ipvs_algo_value Algo_sh = ''sh''"

fun lb_policy_value :: "lb_policy \<Rightarrow> string" where
  "lb_policy_value Pol_leastOutstanding = ''leastOutstanding''"
| "lb_policy_value Pol_roundrobin = ''roundrobin''"
| "lb_policy_value Pol_wrandom = ''wrandom''"
| "lb_policy_value Pol_whashed = ''whashed''"
| "lb_policy_value Pol_firstAvailable = ''firstAvailable''"

fun hc_mode_value :: "hc_mode \<Rightarrow> string" where
  "hc_mode_value Hc_auto = ''auto''"
| "hc_mode_value Hc_lazy = ''lazy''"

section \<open>Tables\<close>

record user =
  u_id :: int
  u_username :: string
  u_email :: "string option"
  u_hashed_password :: "string option"
  u_role :: role
  u_is_active :: bool
  u_oidc_sub :: "string option"

record zone =
  z_id :: int
  z_name :: string
  z_slug :: string
  z_description :: "string option"
  z_vip :: "string option"
  z_vrrp_router_id :: "int option"
  z_vrrp_auth_enc :: "string option"

record server =
  s_id :: int
  s_name :: string
  s_url :: string
  s_username :: "string option"
  s_password_enc :: "string option"
  s_zone_id :: "int option"
  s_enabled :: bool
  s_prune :: bool
  s_manage_upstreams :: bool
  s_manage_filtering :: bool
  s_tls_cert :: "string option"
  s_agent_id :: "int option"
  s_dns_port :: int
  s_expose_web_ui :: bool
  s_agent_state :: "json option"
  s_lb_state :: "json option"
  s_stats_snapshot :: "json option"
  s_auto_update :: bool
  s_install_method :: "install_method option"
  s_can_autoupdate :: bool
  s_update_check_disabled :: bool
  s_update_state :: update_state
  s_update_attempted_at :: "int option"
  s_update_attempted_version :: "string option"
  s_update_completed_at :: "int option"
  s_update_error :: "string option"
  s_status :: sync_status
  s_version :: "string option"
  s_latest_version :: "string option"
  s_update_available :: bool
  s_last_seen :: "int option"
  s_last_synced :: "int option"
  s_last_error :: "string option"
  s_cooldown_until :: "int option"
  s_in_sync :: bool

record dns_record =
  r_id :: int
  r_domain :: string
  r_answer :: string
  r_scope :: record_scope
  r_zone_ids :: "int list"
  r_enabled :: bool
  r_description :: "string option"
  r_managed :: bool
  r_updated_at :: int

text \<open>The columns shared by everything a \<open>ConfigScope\<close> applies to.\<close>

record scoped =
  c_id :: int
  c_scope :: config_scope
  c_zone_ids :: "int list"
  c_server_id :: "int option"
  c_enabled :: bool
  c_description :: "string option"

record upstream = scoped +
  up_address :: string
  up_kind :: dns_server_kind

record forward_zone = scoped +
  fz_domains :: string
  fz_upstreams :: string

record filter_list = scoped +
  fl_name :: string
  fl_url :: string
  fl_kind :: filter_kind

record blocked_service = scoped +
  bs_service_id :: string

record provisioning_token =
  t_id :: int
  t_token :: string
  t_name :: string
  t_zone_id :: "int option"
  t_method :: install_method
  t_prune :: bool
  t_auto_update :: bool
  t_ssl_enabled :: bool
  t_connect_address :: "string option"
  t_http_port :: int
  t_https_port :: int
  t_dns_port :: int
  t_admin_username :: string
  t_admin_password_enc :: "string option"
  t_tls_cert :: "string option"
  t_tls_key_enc :: "string option"
  t_roles :: "string list"
  t_agent_port :: int
  t_vrrp_priority :: int
  t_expose_web_ui :: bool
  t_lb_mode :: lb_mode
  t_status :: provision_status
  t_expires_at :: int
  t_completed_at :: "int option"
  t_server_id :: "int option"
  t_agent_id :: "int option"
  t_load_balancer_id :: "int option"
  t_config_fetched_at :: "int option"
  t_key_fetched_at :: "int option"

record agent =
  a_id :: int
  a_name :: string
  a_url :: string
  a_address :: string
  a_port :: int
  a_zone_id :: "int option"
  a_hostname :: "string option"
  a_os :: "string option"
  a_arch :: "string option"
  a_version :: "string option"
  a_cert_pem :: string
  a_cert_not_after :: "int option"
  a_status :: sync_status
  a_last_seen :: "int option"
  a_last_error :: "string option"
  a_info :: "json option"
  a_health :: "json option"
  a_update_attempted_at :: "int option"
  a_update_error :: "string option"

record load_balancer =
  b_id :: int
  b_name :: string
  b_zone_id :: "int option"
  b_agent_id :: int
  b_enabled :: bool
  b_install_method :: install_method
  b_image :: string
  b_listen_addresses :: "string list"
  b_policy :: lb_policy
  b_ecs :: bool
  b_cache_enabled :: bool
  b_cache_max_entries :: int
  b_hc_name :: string
  b_hc_interval_s :: int
  b_hc_max_failures :: int
  b_hc_rise :: int
  b_hc_mode :: hc_mode
  b_acl :: "string list"
  b_vrrp_priority :: int
  b_vip_interface :: string
  b_mode :: lb_mode
  b_ipvs_algo :: ipvs_algo
  b_desired_hash :: "string option"
  b_applied_hash :: "string option"
  b_in_sync :: bool
  b_status :: sync_status
  b_last_synced :: "int option"
  b_last_error :: "string option"
  b_state :: "json option"
  b_keepalived_state :: "json option"

record metric_sample =
  m_id :: int
  m_ts :: int
  m_resolution :: string
  m_kind :: string
  m_entity_id :: int
  m_values :: "(string \<times> rat option) list"

record lb_backend =
  o_id :: int
  o_load_balancer_id :: int
  o_server_id :: int
  o_enabled :: bool
  o_weight :: int
  o_order :: int

record db =
  db_users :: "user list"
  db_zones :: "zone list"
  db_servers :: "server list"
  db_records :: "dns_record list"
  db_upstreams :: "upstream list"
  db_forward_zones :: "forward_zone list"
  db_filter_lists :: "filter_list list"
  db_blocked_services :: "blocked_service list"
  db_tokens :: "provisioning_token list"
  db_agents :: "agent list"
  db_balancers :: "load_balancer list"
  db_backends :: "lb_backend list"
  db_samples :: "metric_sample list"

abbreviation get_server :: "db \<Rightarrow> int \<Rightarrow> server option" where
  "get_server d i \<equiv> row_get s_id i (db_servers d)"

abbreviation get_agent :: "db \<Rightarrow> int \<Rightarrow> agent option" where
  "get_agent d i \<equiv> row_get a_id i (db_agents d)"

abbreviation get_zone :: "db \<Rightarrow> int \<Rightarrow> zone option" where
  "get_zone d i \<equiv> row_get z_id i (db_zones d)"

abbreviation get_balancer :: "db \<Rightarrow> int \<Rightarrow> load_balancer option" where
  "get_balancer d i \<equiv> row_get b_id i (db_balancers d)"

definition put_server :: "server \<Rightarrow> db \<Rightarrow> db" where
  "put_server s d = d\<lparr>db_servers := row_put s_id s (db_servers d)\<rparr>"

definition put_agent :: "agent \<Rightarrow> db \<Rightarrow> db" where
  "put_agent a d = d\<lparr>db_agents := row_put a_id a (db_agents d)\<rparr>"

definition put_balancer :: "load_balancer \<Rightarrow> db \<Rightarrow> db" where
  "put_balancer b d = d\<lparr>db_balancers := row_put b_id b (db_balancers d)\<rparr>"

definition put_zone :: "zone \<Rightarrow> db \<Rightarrow> db" where
  "put_zone z d = d\<lparr>db_zones := row_put z_id z (db_zones d)\<rparr>"

lemma get_server_put [simp]:
  "get_server (put_server s d) i =
     (if i = s_id s \<and> get_server d i \<noteq> None then Some s else get_server d i)"
  by (simp add: put_server_def row_get_put)

lemma get_agent_put [simp]:
  "get_agent (put_agent a d) i =
     (if i = a_id a \<and> get_agent d i \<noteq> None then Some a else get_agent d i)"
  by (simp add: put_agent_def row_get_put)

lemma get_balancer_put [simp]:
  "get_balancer (put_balancer b d) i =
     (if i = b_id b \<and> get_balancer d i \<noteq> None then Some b else get_balancer d i)"
  by (simp add: put_balancer_def row_get_put)

lemma put_server_frame [simp]:
  "db_records (put_server s d) = db_records d" "db_agents (put_server s d) = db_agents d"
  "db_balancers (put_server s d) = db_balancers d" "db_zones (put_server s d) = db_zones d"
  by (simp_all add: put_server_def)

lemma put_agent_frame [simp]:
  "db_servers (put_agent a d) = db_servers d" "db_balancers (put_agent a d) = db_balancers d"
  "db_zones (put_agent a d) = db_zones d"
  by (simp_all add: put_agent_def)

lemma put_balancer_frame [simp]:
  "db_servers (put_balancer b d) = db_servers d" "db_agents (put_balancer b d) = db_agents d"
  "db_zones (put_balancer b d) = db_zones d"
  by (simp_all add: put_balancer_def)

section \<open>Sample rows\<close>

text \<open>A server as the API creates it, and a database without rows, for concrete instances.\<close>

definition sample_server :: "int \<Rightarrow> string \<Rightarrow> string \<Rightarrow> server" where
  "sample_server i name url =
     \<lparr>s_id = i, s_name = name, s_url = url, s_username = None, s_password_enc = None,
      s_zone_id = None, s_enabled = True, s_prune = False, s_manage_upstreams = False,
      s_manage_filtering = False, s_tls_cert = None, s_agent_id = None, s_dns_port = 53,
      s_expose_web_ui = True, s_agent_state = None, s_lb_state = None, s_stats_snapshot = None,
      s_auto_update = False, s_install_method = None, s_can_autoupdate = False,
      s_update_check_disabled = False, s_update_state = Upd_idle, s_update_attempted_at = None,
      s_update_attempted_version = None, s_update_completed_at = None, s_update_error = None,
      s_status = St_unknown, s_version = None, s_latest_version = None, s_update_available = False,
      s_last_seen = None, s_last_synced = None, s_last_error = None, s_cooldown_until = None,
      s_in_sync = False\<rparr>"

definition empty_db :: db where
  "empty_db =
     \<lparr>db_users = [], db_zones = [], db_servers = [], db_records = [], db_upstreams = [],
      db_forward_zones = [], db_filter_lists = [], db_blocked_services = [], db_tokens = [],
      db_agents = [], db_balancers = [], db_backends = [], db_samples = []\<rparr>"

definition sample_agent :: "int \<Rightarrow> string \<Rightarrow> agent" where
  "sample_agent i address =
     \<lparr>a_id = i, a_name = ''host'', a_url = ''https://'' @ address @ '':8443'', a_address = address, a_port = 8443,
      a_zone_id = None, a_hostname = None, a_os = None, a_arch = None, a_version = None, a_cert_pem = [],
      a_cert_not_after = None, a_status = St_unknown, a_last_seen = None, a_last_error = None, a_info = None,
      a_health = None, a_update_attempted_at = None, a_update_error = None\<rparr>"

definition sample_balancer :: "int \<Rightarrow> int \<Rightarrow> int \<Rightarrow> load_balancer" where
  "sample_balancer i zone_id agent_id =
     \<lparr>b_id = i, b_name = ''lb'', b_zone_id = Some zone_id, b_agent_id = agent_id, b_enabled = True,
      b_install_method = Inst_docker, b_image = [], b_listen_addresses = [''0.0.0.0:53''],
      b_policy = Pol_leastOutstanding, b_ecs = True, b_cache_enabled = True, b_cache_max_entries = 100000,
      b_hc_name = ''a.root-servers.net.'', b_hc_interval_s = 1, b_hc_max_failures = 3, b_hc_rise = 2,
      b_hc_mode = Hc_auto, b_acl = [], b_vrrp_priority = 100, b_vip_interface = [], b_mode = Mode_dnsdist,
      b_ipvs_algo = Algo_wlc, b_desired_hash = None, b_applied_hash = None, b_in_sync = False,
      b_status = St_unknown, b_last_synced = None, b_last_error = None, b_state = None,
      b_keepalived_state = None\<rparr>"

definition sample_zone :: "int \<Rightarrow> zone" where
  "sample_zone i =
     \<lparr>z_id = i, z_name = ''home'', z_slug = ''home'', z_description = None, z_vip = None,
      z_vrrp_router_id = None, z_vrrp_auth_enc = None\<rparr>"

end
