(* ===== verification/Clients.thy ===== *)
theory Clients
  imports Effects Models
begin

text \<open>
  The two HTTP clients (backend/app/adguard_client.py and backend/app/agent_client.py) as
  the calls they make and the way the code reads the answers. What an AdGuard instance or an
  agent answers is the environment's business (\<open>e_call\<close>): a decoded JSON body, or the
  exception the client raises (\<open>AdGuardError\<close> and \<open>AgentError\<close> with the HTTP status, or no
  status for a transport failure). A body whose field has a JSON type its API does not
  document there is read as if the field were absent, except where the code calls a method
  the value would not have: that raises, as in Python.
\<close>

record rewrite =
  rw_domain :: string
  rw_answer :: string

definition rw_key :: "rewrite \<Rightarrow> string \<times> string" where
  "rw_key r = (py_lower (py_strip (rw_domain r)), py_strip (rw_answer r))"

datatype call =
    AG_status
  | AG_stats
  | AG_version_check bool
  | AG_update_now
  | AG_dns_info
  | AG_set_dns_config "(string \<times> json) list"
  | AG_list_rewrites
  | AG_add_rewrite rewrite
  | AG_delete_rewrite rewrite
  | AG_filtering_status
  | AG_filtering_config bool int
  | AG_add_url string string bool               \<comment> \<open>name, url, whitelist\<close>
  | AG_remove_url string bool
  | AG_set_url string bool string bool          \<comment> \<open>url, enabled, name, whitelist\<close>
  | AG_blocked_get
  | AG_blocked_update "string list" json        \<comment> \<open>ids, schedule\<close>
  | AG_protection bool "int option"
  | AG_querylog_config bool rat                 \<comment> \<open>enabled, interval in milliseconds\<close>
  | AG_querylog_info
  | AG_query_log "(string \<times> json) list"
  | AG_safety_status string
  | AG_set_safety string bool
  | AG_filtering_refresh bool bool              \<comment> \<open>whitelist, force\<close>
  | AG_services_all
  | AG_close
  | AT_info
  | AT_health
  | AT_put_role string json
  | AT_get_role string
  | AT_adguard_update
  | AT_self_update string string string         \<comment> \<open>version, url, sha256\<close>
  | AT_renew_csr
  | AT_install_cert string string
  | AT_drain string bool string                 \<comment> \<open>backend, undrain, role\<close>
  | AT_restart string
  | AT_reset
  | AT_logs string int
  | AT_close
  | SYS_sleep int                               \<comment> \<open>asyncio.sleep, in microseconds\<close>

text \<open>The calls that change an instance's rewrite list.\<close>

fun is_rewrite_write :: "call \<Rightarrow> bool" where
  "is_rewrite_write (AG_add_rewrite _) = True"
| "is_rewrite_write (AG_delete_rewrite _) = True"
| "is_rewrite_write _ = False"

text \<open>The calls that change the state of the instance or agent they are sent to.\<close>

fun is_write :: "call \<Rightarrow> bool" where
  "is_write AG_update_now = True"
| "is_write (AG_set_dns_config _) = True"
| "is_write (AG_add_rewrite _) = True"
| "is_write (AG_delete_rewrite _) = True"
| "is_write (AG_filtering_config _ _) = True"
| "is_write (AG_add_url _ _ _) = True"
| "is_write (AG_remove_url _ _) = True"
| "is_write (AG_set_url _ _ _ _) = True"
| "is_write (AG_blocked_update _ _) = True"
| "is_write (AG_protection _ _) = True"
| "is_write (AT_put_role _ _) = True"
| "is_write AT_adguard_update = True"
| "is_write (AT_self_update _ _ _) = True"
| "is_write AT_renew_csr = True"
| "is_write (AT_install_cert _ _) = True"
| "is_write (AT_drain _ _ _) = True"
| "is_write (AT_restart _) = True"
| "is_write AT_reset = True"
| "is_write (AG_querylog_config _ _) = True"
| "is_write (AG_set_safety _ _) = True"
| "is_write (AG_filtering_refresh _ _) = True"
| "is_write _ = False"

type_synonym 's wenv = "(call, json, 's) env"

section \<open>Reading an answer\<close>

fun json_text :: "json \<Rightarrow> string option" where
  "json_text (JStr s) = Some s"
| "json_text _ = None"

fun json_int :: "json \<Rightarrow> int option" where
  "json_int (JInt i) = Some i"
| "json_int (JBool b) = Some (if b then 1 else 0)"
| "json_int (JNum r) = Some (if r < 0 then - \<lfloor>- r\<rfloor> else \<lfloor>r\<rfloor>)"
| "json_int _ = None"

text \<open>A number field read with a default: \<open>float(x or 0)\<close>.\<close>

fun json_rat :: "json \<Rightarrow> rat" where
  "json_rat (JInt i) = of_int i"
| "json_rat (JBool b) = (if b then 1 else 0)"
| "json_rat (JNum r) = r"
| "json_rat _ = 0"

text \<open>\<open>str(x or d)\<close> of a field documented as a string, and \<open>x or {}\<close>.\<close>

definition text_or :: "json \<Rightarrow> string \<Rightarrow> string" where
  "text_or j d = str_or (json_text j) d"

definition obj_or :: "json \<Rightarrow> json" where
  "obj_or j = jor j (JObj [])"

definition json_strings :: "json \<Rightarrow> string list" where
  "json_strings j = List.map_filter json_text (jlist j)"

text \<open>\<open>x.get(...)\<close> on something that is not a dictionary.\<close>

definition expect_obj :: "json \<Rightarrow> ('w, unit) io" where
  "expect_obj j = (if is_obj j then io_return () else io_raise (PyError ''has no attribute get''))"

definition call_obj :: "'s wenv \<Rightarrow> call \<Rightarrow> ((call, 's, 'm) world_scheme, json) io" where
  "call_obj e c = io_bind (call_io e c) (\<lambda>j. io_seq (expect_obj j) (io_return j))"

text \<open>\<open>list_rewrites\<close>: a row without both keys is an unexpected payload.\<close>

fun rewrite_of_json :: "json \<Rightarrow> rewrite option" where
  "rewrite_of_json (JObj d) =
     (case (map_of d ''domain'', map_of d ''answer'') of
        (Some (JStr a), Some (JStr b)) \<Rightarrow> Some \<lparr>rw_domain = a, rw_answer = b\<rparr>
      | _ \<Rightarrow> None)"
| "rewrite_of_json _ = None"

definition list_rewrites :: "'s wenv \<Rightarrow> ((call, 's, 'm) world_scheme, rewrite list) io" where
  "list_rewrites e =
     io_bind (call_io e AG_list_rewrites) (\<lambda>j.
       let rows = map rewrite_of_json (jlist j)
       in if list_all (\<lambda>r. r \<noteq> None) rows then io_return (map the rows)
          else io_raise (AdGuardError ''unexpected rewrite payload'' None None))"

text \<open>
  \<open>set_protection\<close>: the dedicated endpoint first, a partial DNS configuration write where the
  instance does not have it (404 or 405); the fallback drops the duration.
\<close>

definition set_protection :: "'s wenv \<Rightarrow> bool \<Rightarrow> int option \<Rightarrow> ((call, 's, 'm) world_scheme, unit) io" where
  "set_protection e enabled duration =
     io_except is_adguard_error
       (io_bind (call_io e (AG_protection enabled (if duration = Some 0 then None else duration)))
          (\<lambda>_. io_return ()))
       (\<lambda>x. case x of
          AdGuardError m code ra \<Rightarrow>
            (if code = Some 404 \<or> code = Some 405
             then io_bind (call_io e (AG_set_dns_config [(''protection_enabled'', JBool enabled)]))
                    (\<lambda>_. io_return ())
             else io_raise x)
        | _ \<Rightarrow> io_raise x)"

section \<open>Frames of client code\<close>

locale client_frame = call_frame R P e
  for R :: "(call, 's, 'm) world_scheme \<Rightarrow> (call, 's, 'm) world_scheme \<Rightarrow> bool"
    and P :: "call \<Rightarrow> bool" and e :: "'s wenv"
begin

lemma keeps_expect_obj [frame_intros]: "keeps R (expect_obj j)"
  by (simp add: expect_obj_def keeps_return keeps_raise)

lemma keeps_call_obj [frame_intros]: "P c \<Longrightarrow> keeps R (call_obj e c)"
  unfolding call_obj_def by (intro frame_intros)

lemma keeps_list_rewrites [frame_intros]:
  "P AG_list_rewrites \<Longrightarrow> keeps R (list_rewrites e)"
  unfolding list_rewrites_def Let_def by (intro frame_intros)

end

interpretation log: client_frame "log_ext P" P e for P e
  by (intro client_frame.intro log_ext_frame)

interpretation more: client_frame same_more "\<lambda>_. True" e for e
  by (intro client_frame.intro same_more_frame)

end
