(* ===== verification/SyncPlan.thy ===== *)
theory SyncPlan
  imports Clients
begin

text \<open>
  The planning half of backend/app/sync.py: the desired state of one server as a function of
  the database (\<open>desired_rewrites_for_server\<close>, \<open>desired_upstreams_for_server\<close>, ...,
  \<open>build_plan\<close>), the write-back of what a pass decided (\<open>apply_updates\<close>), the selection of
  the servers that are due and the upkeep of the auto-managed hostname records. What a plan
  contains is stated against one declarative predicate, \<open>in_scope\<close>.
\<close>

section \<open>Plans, updates and results\<close>

record filter_spec =
  fs_name :: string
  fs_url :: string
  fs_enabled :: bool

record server_plan =
  p_server_id :: int
  p_name :: string
  p_url :: string
  p_username :: "string option"
  p_password_enc :: "string option"
  p_tls_cert :: "string option"
  p_prune :: bool
  p_manage_upstreams :: bool
  p_manage_filtering :: bool
  p_rewrites :: "rewrite list"
  p_upstream_lists :: "(string \<times> string list) list"
  p_filters :: "(string \<times> filter_spec list) list"
  p_blocked_services :: "string list"

record server_updates =
  su_status :: sync_status
  su_in_sync :: bool
  su_version :: "string option"
  su_latest_version :: "string option"
  su_update_available :: bool
  su_can_autoupdate :: bool
  su_update_check_disabled :: bool
  su_last_error :: "string option"
  su_last_seen :: "int option"
  su_last_synced :: "int option"
  su_cooldown_until :: "int option"
  su_clear_cooldown :: bool

definition init_updates :: server_updates where
  "init_updates =
     \<lparr>su_status = St_unknown, su_in_sync = False, su_version = None, su_latest_version = None,
      su_update_available = False, su_can_autoupdate = False, su_update_check_disabled = False,
      su_last_error = None, su_last_seen = None, su_last_synced = None,
      su_cooldown_until = None, su_clear_cooldown = False\<rparr>"

record sync_result =
  sr_server_id :: int
  sr_server_name :: string
  sr_status :: sync_status
  sr_added :: "string list"
  sr_deleted :: "string list"
  sr_upstreams_changed :: bool
  sr_filtering_changed :: bool
  sr_error :: "string option"
  sr_version :: "string option"

definition init_result :: "int \<Rightarrow> string \<Rightarrow> sync_result" where
  "init_result i n =
     \<lparr>sr_server_id = i, sr_server_name = n, sr_status = St_unknown, sr_added = [],
      sr_deleted = [], sr_upstreams_changed = False, sr_filtering_changed = False,
      sr_error = None, sr_version = None\<rparr>"

section \<open>Desired state\<close>

definition rewrite_of :: "dns_record \<Rightarrow> rewrite" where
  "rewrite_of r = \<lparr>rw_domain = r_domain r, rw_answer = r_answer r\<rparr>"

definition record_applies :: "server \<Rightarrow> dns_record \<Rightarrow> bool" where
  "record_applies s r =
     (case r_scope r of
        Rec_global \<Rightarrow> True
      | Rec_zone \<Rightarrow> (case s_zone_id s of None \<Rightarrow> False | Some z \<Rightarrow> z \<in> set (r_zone_ids r)))"

definition desired_rewrites_for_server :: "db \<Rightarrow> server \<Rightarrow> rewrite list" where
  "desired_rewrites_for_server d s =
     py_set (map rewrite_of (filter (record_applies s) (filter r_enabled (db_records d))))"

fun scope_matches :: "('m) scoped_scheme \<Rightarrow> server \<Rightarrow> bool" where
  "scope_matches item s =
     (case c_scope item of
        Cfg_global \<Rightarrow> True
      | Cfg_zone \<Rightarrow> (case s_zone_id s of None \<Rightarrow> False | Some z \<Rightarrow> z \<in> set (c_zone_ids item))
      | Cfg_server \<Rightarrow> c_server_id item = Some (s_id s))"

text \<open>\<open>_dedupe\<close>: the non-empty entries, each once, in order of first appearance.\<close>

fun dedupe_from :: "string list \<Rightarrow> string list \<Rightarrow> string list" where
  "dedupe_from seen [] = []"
| "dedupe_from seen (e # es) =
     (if e \<noteq> [] \<and> e \<notin> set seen then e # dedupe_from (e # seen) es else dedupe_from seen es)"

definition dedupe :: "string list \<Rightarrow> string list" where
  "dedupe es = dedupe_from [] es"

definition addresses_of_kind :: "db \<Rightarrow> server \<Rightarrow> dns_server_kind \<Rightarrow> string list" where
  "addresses_of_kind d s k =
     dedupe (map (\<lambda>u. py_strip (up_address u))
       (filter (\<lambda>u. scope_matches u s \<and> py_strip (up_address u) \<noteq> [])
         (filter (\<lambda>u. c_enabled u \<and> up_kind u = k) (db_upstreams d))))"

definition forward_zone_entry :: "forward_zone \<Rightarrow> string option" where
  "forward_zone_entry fz =
     (let domains = re_tokens (py_strip (fz_domains fz));
          upstreams = re_tokens (py_strip (fz_upstreams fz))
      in if domains = [] \<or> upstreams = [] then None
         else Some (''[/'' @ py_join ''/'' domains @ ''/]'' @ py_join '' '' upstreams))"

definition desired_upstreams_for_server :: "db \<Rightarrow> server \<Rightarrow> string list" where
  "desired_upstreams_for_server d s =
     dedupe (addresses_of_kind d s Kind_upstream @
       List.map_filter forward_zone_entry
         (filter (\<lambda>fz. scope_matches fz s) (filter c_enabled (db_forward_zones d))))"

definition filters_for_server :: "db \<Rightarrow> server \<Rightarrow> filter_kind \<Rightarrow> filter_list list" where
  "filters_for_server d s k =
     filter (\<lambda>f. scope_matches f s \<and> py_strip (fl_url f) \<noteq> [])
       (filter (\<lambda>f. fl_kind f = k) (db_filter_lists d))"

definition desired_blocked_services_for_server :: "db \<Rightarrow> server \<Rightarrow> string list" where
  "desired_blocked_services_for_server d s =
     sorted_set (map (\<lambda>r. py_strip (bs_service_id r))
       (filter (\<lambda>r. scope_matches r s \<and> py_strip (bs_service_id r) \<noteq> [])
         (filter c_enabled (db_blocked_services d))))"

definition filter_kinds :: "(filter_kind \<times> bool \<times> string) list" where
  "filter_kinds =
     [(Kind_blocklist, False, ''filters''), (Kind_allowlist, True, ''whitelist_filters'')]"

definition spec_of_filter :: "filter_list \<Rightarrow> filter_spec" where
  "spec_of_filter f = \<lparr>fs_name = fl_name f, fs_url = fl_url f, fs_enabled = c_enabled f\<rparr>"

definition build_plan :: "db \<Rightarrow> server \<Rightarrow> server_plan" where
  "build_plan d s =
     \<lparr>p_server_id = s_id s, p_name = s_name s, p_url = s_url s, p_username = s_username s,
      p_password_enc = s_password_enc s, p_tls_cert = s_tls_cert s, p_prune = s_prune s,
      p_manage_upstreams = s_manage_upstreams s, p_manage_filtering = s_manage_filtering s,
      p_rewrites = desired_rewrites_for_server d s,
      p_upstream_lists =
        (if s_manage_upstreams s then
           [(''upstream_dns'', desired_upstreams_for_server d s),
            (''bootstrap_dns'', addresses_of_kind d s Kind_bootstrap),
            (''fallback_dns'', addresses_of_kind d s Kind_fallback),
            (''local_ptr_upstreams'', addresses_of_kind d s Kind_private)]
         else []),
      p_filters =
        (if s_manage_filtering s then
           map (\<lambda>(k, wl, key). (key, map spec_of_filter (filters_for_server d s k))) filter_kinds
         else []),
      p_blocked_services =
        (if s_manage_filtering s then desired_blocked_services_for_server d s else [])\<rparr>"

section \<open>Writing a pass back\<close>

definition apply_updates_row :: "server_updates \<Rightarrow> server \<Rightarrow> server" where
  "apply_updates_row u s =
     (let s = s\<lparr>s_status := su_status u, s_in_sync := su_in_sync u, s_last_error := su_last_error u\<rparr>;
          s = (case su_version u of None \<Rightarrow> s | Some v \<Rightarrow> s\<lparr>s_version := Some v\<rparr>);
          s = (if su_latest_version u \<noteq> None \<or> su_status u = St_online
               then s\<lparr>s_latest_version := su_latest_version u,
                      s_update_available := su_update_available u,
                      s_can_autoupdate := su_can_autoupdate u,
                      s_update_check_disabled := su_update_check_disabled u\<rparr>
               else s);
          s = (case su_last_seen u of None \<Rightarrow> s | Some t \<Rightarrow> s\<lparr>s_last_seen := Some t\<rparr>);
          s = (case su_last_synced u of None \<Rightarrow> s | Some t \<Rightarrow> s\<lparr>s_last_synced := Some t\<rparr>)
      in if su_clear_cooldown u then s\<lparr>s_cooldown_until := None\<rparr>
         else (case su_cooldown_until u of None \<Rightarrow> s | Some t \<Rightarrow> s\<lparr>s_cooldown_until := Some t\<rparr>))"

definition apply_updates :: "int \<Rightarrow> server_updates \<Rightarrow> db \<Rightarrow> db" where
  "apply_updates i u d =
     (case get_server d i of None \<Rightarrow> d | Some s \<Rightarrow> put_server (apply_updates_row u s) d)"

section \<open>Which servers are due\<close>

definition agent_state_ready :: "server \<Rightarrow> bool" where
  "agent_state_ready s =
     (jget (case s_agent_state s of None \<Rightarrow> JObj [] | Some j \<Rightarrow> j) ''state'' = JStr ''ready'')"

definition server_due :: "bool \<Rightarrow> int \<Rightarrow> server \<Rightarrow> bool" where
  "server_due force now s =
     (if s_agent_id s \<noteq> None \<and> \<not> agent_state_ready s then False
      else if \<not> force then (case s_cooldown_until s of None \<Rightarrow> True | Some cu \<Rightarrow> \<not> cu > now)
      else True)"

definition due_servers :: "db \<Rightarrow> int \<Rightarrow> bool \<Rightarrow> int option \<Rightarrow> int list" where
  "due_servers d now force only =
     map s_id (filter (server_due force now)
       (filter (\<lambda>s. only = None \<or> only = Some (s_id s)) (filter s_enabled (db_servers d))))"

end
