(* ===== verification/SyncApply.thy ===== *)
theory SyncApply
  imports SyncPlan
begin

text \<open>
  The network half of backend/app/sync.py: \<open>_reconcile_filtering\<close> and \<open>apply_plan\<close>, call by
  call, over an arbitrary environment. The two Python objects the pass fills in as it goes
  (\<open>result\<close> and \<open>updates\<close>) are part of its state, because an exception leaves what was
  already written in them. The theorems say what a pass may send to an AdGuard instance
  under every possible sequence of answers: nothing but reads in a dry run, no deletion
  without \<open>prune\<close>, no configuration the server did not opt into, no empty list.
\<close>

record 's pass = "(call, 's) world" +
  ps_result :: sync_result
  ps_updates :: server_updates

type_synonym ('s, 'a) pass_io = "('s pass, 'a) io"

definition set_result :: "(sync_result \<Rightarrow> sync_result) \<Rightarrow> ('s, unit) pass_io" where
  "set_result f = io_modify (\<lambda>p. p\<lparr>ps_result := f (ps_result p)\<rparr>)"

definition set_updates :: "(server_updates \<Rightarrow> server_updates) \<Rightarrow> ('s, unit) pass_io" where
  "set_updates f = io_modify (\<lambda>p. p\<lparr>ps_updates := f (ps_updates p)\<rparr>)"

section \<open>Filtering\<close>

text \<open>\<open>{(it.get("url") or "").strip(): it for it in (status.get(key) or []) if it.get("url")}\<close>\<close>

definition current_filters :: "json \<Rightarrow> string \<Rightarrow> (string \<times> json) list" where
  "current_filters status key =
     fold (\<lambda>it. dict_set (py_strip (str_or (json_text (jget it ''url'')) [])) it)
       (filter (\<lambda>it. truthy (jget it ''url'')) (jlist (jget status key))) []"

definition apply_filter ::
  "'s wenv \<Rightarrow> bool \<Rightarrow> bool \<Rightarrow> (string \<times> json) list \<Rightarrow> filter_spec \<Rightarrow> bool
   \<Rightarrow> ((call, 's, 'm) world_scheme, bool) io" where
  "apply_filter e dry whitelist current f changed =
     (let url = py_strip (fs_url f) in
      case map_of current url of
        None \<Rightarrow>
          io_seq (io_when (\<not> dry)
            (io_bind (call_io e (AG_add_url (fs_name f) url whitelist)) (\<lambda>_.
             io_when (\<not> fs_enabled f)
               (io_bind (call_io e (AG_set_url url False (fs_name f) whitelist)) (\<lambda>_. io_return ())))))
            (io_return True)
      | Some cur \<Rightarrow>
          if truthy (jget cur ''enabled'') \<noteq> fs_enabled f
             \<or> str_or (json_text (jget cur ''name'')) [] \<noteq> fs_name f
          then io_seq (io_when (\<not> dry)
                 (io_bind (call_io e (AG_set_url url (fs_enabled f) (fs_name f) whitelist)) (\<lambda>_. io_return ())))
                 (io_return True)
          else io_return changed)"

definition prune_filter ::
  "'s wenv \<Rightarrow> bool \<Rightarrow> bool \<Rightarrow> string list \<Rightarrow> string \<Rightarrow> bool \<Rightarrow> ((call, 's, 'm) world_scheme, bool) io" where
  "prune_filter e dry whitelist desired_urls url changed =
     (if url \<noteq> [] \<and> url \<notin> set desired_urls
      then io_seq (io_when (\<not> dry) (io_bind (call_io e (AG_remove_url url whitelist)) (\<lambda>_. io_return ())))
             (io_return True)
      else io_return changed)"

definition desired_filters :: "server_plan \<Rightarrow> string \<Rightarrow> filter_spec list" where
  "desired_filters plan key = (case map_of (p_filters plan) key of None \<Rightarrow> [] | Some fs \<Rightarrow> fs)"

definition reconcile_filter_kind ::
  "'s wenv \<Rightarrow> server_plan \<Rightarrow> bool \<Rightarrow> json \<Rightarrow> filter_kind \<times> bool \<times> string \<Rightarrow> bool
   \<Rightarrow> ((call, 's, 'm) world_scheme, bool) io" where
  "reconcile_filter_kind e plan dry status kwk changed =
     (case kwk of (kind, whitelist, key) \<Rightarrow>
        let desired = desired_filters plan key in
        if list_all is_obj (jlist (jget status key)) then
          (let current = current_filters status key;
               desired_urls = map (\<lambda>f. py_strip (fs_url f)) desired in
           io_bind (io_fold (apply_filter e dry whitelist current) desired changed) (\<lambda>changed.
             if p_prune plan
             then io_fold (prune_filter e dry whitelist desired_urls) (map fst current) changed
             else io_return changed))
        else io_raise (PyError ''has no attribute get''))"

text \<open>
  An error of the read leaves \<open>changed\<close> as it was; an error of the write comes after
  \<open>changed = True\<close>, so it is reported as changed. Both end inside the \<open>try\<close>.
\<close>

definition reconcile_services ::
  "'s wenv \<Rightarrow> server_plan \<Rightarrow> bool \<Rightarrow> bool \<Rightarrow> ((call, 's, 'm) world_scheme, bool) io" where
  "reconcile_services e plan dry changed =
     (let desired_ids = p_blocked_services plan in
      if desired_ids = [] then io_return changed
      else
        io_bind (io_except is_adguard_error
                  (io_bind (call_obj e AG_blocked_get) (\<lambda>cur. io_return (Some cur)))
                  (\<lambda>_. io_return None)) (\<lambda>answer.
        case answer of None \<Rightarrow> io_return changed
        | Some cur \<Rightarrow>
            let cur_ids = json_strings (jget cur ''ids'');
                target = (if p_prune plan then desired_ids else cur_ids @ desired_ids)
            in if same_set target cur_ids then io_return changed
               else io_except is_adguard_error
                 (io_seq (io_when (\<not> dry)
                   (io_bind (call_io e (AG_blocked_update (sorted_set target) (jget cur ''schedule'')))
                     (\<lambda>_. io_return ())))
                   (io_return True))
                 (\<lambda>_. io_return True)))"

definition reconcile_filtering ::
  "'s wenv \<Rightarrow> server_plan \<Rightarrow> bool \<Rightarrow> ((call, 's, 'm) world_scheme, bool) io" where
  "reconcile_filtering e plan dry =
     io_bind (call_obj e AG_filtering_status) (\<lambda>status.
     io_bind (io_fold (reconcile_filter_kind e plan dry status) filter_kinds False) (\<lambda>changed.
     let desired_block_enabled =
           length (filter fs_enabled (desired_filters plan ''filters'')) in
     io_bind
       (if desired_block_enabled \<noteq> 0 \<and> \<not> truthy (jget status ''enabled'')
        then io_seq (io_when (\<not> dry)
               (io_bind (call_io e (AG_filtering_config True
                  (case json_int (jor (jget status ''interval'') (JInt 24)) of
                     Some i \<Rightarrow> i | None \<Rightarrow> 24))) (\<lambda>_. io_return ())))
               (io_return True)
        else io_return changed) (\<lambda>changed.
     reconcile_services e plan dry changed)))"

section \<open>One server\<close>

text \<open>The version check: best effort, an \<open>AdGuardError\<close> is swallowed.\<close>

definition check_version :: "'s wenv \<Rightarrow> ('s, unit) pass_io" where
  "check_version e =
     io_except is_adguard_error
       (io_bind (call_obj e (AG_version_check False)) (\<lambda>vinfo.
        let new_version = py_strip (str_or (json_text (jget vinfo ''new_version'')) []) in
        io_bind (io_get (\<lambda>p. sr_version (ps_result p))) (\<lambda>version.
        set_updates (\<lambda>u. u\<lparr>su_latest_version := none_if_empty new_version,
          su_update_available := new_version \<noteq> [] \<and> new_version \<noteq> str_or version [],
          su_can_autoupdate := truthy (jget vinfo ''can_autoupdate''),
          su_update_check_disabled := truthy (jget vinfo ''disabled'')\<rparr>))))
       (\<lambda>_. io_return ())"

definition rewrites_to_add :: "server_plan \<Rightarrow> rewrite list \<Rightarrow> rewrite list" where
  "rewrites_to_add plan current =
     filter (\<lambda>r. rw_key r \<notin> set (map rw_key current)) (p_rewrites plan)"

definition rewrites_to_delete :: "server_plan \<Rightarrow> rewrite list \<Rightarrow> rewrite list" where
  "rewrites_to_delete plan current =
     (if p_prune plan
      then filter (\<lambda>r. rw_key r \<notin> set (map rw_key (p_rewrites plan))) current else [])"

definition rw_text :: "rewrite \<Rightarrow> string" where
  "rw_text r = rw_domain r @ '' -> '' @ rw_answer r"

definition push_rewrites ::
  "'s wenv \<Rightarrow> rewrite list \<Rightarrow> rewrite list \<Rightarrow> ((call, 's, 'm) world_scheme, unit) io" where
  "push_rewrites e to_add to_delete =
     io_seq (io_for to_add (\<lambda>r. io_bind (call_io e (AG_add_rewrite r)) (\<lambda>_. io_return ())))
       (io_for to_delete (\<lambda>r. io_bind (call_io e (AG_delete_rewrite r)) (\<lambda>_. io_return ())))"

text \<open>Diff the rewrites and apply the difference; returns what was added and deleted.\<close>

definition apply_rewrites ::
  "'s wenv \<Rightarrow> server_plan \<Rightarrow> bool \<Rightarrow> ('s, rewrite list \<times> rewrite list) pass_io" where
  "apply_rewrites e plan dry =
     io_bind (list_rewrites e) (\<lambda>listed.
     let current = py_set listed;
         to_add = rewrites_to_add plan current;
         to_delete = rewrites_to_delete plan current in
     io_seq (io_when (\<not> dry) (push_rewrites e to_add to_delete))
     (io_seq (set_result (\<lambda>r. r\<lparr>sr_added := map rw_text to_add, sr_deleted := map rw_text to_delete,
                 sr_status := St_online\<rparr>))
     (io_return (to_add, to_delete))))"

text \<open>The DNS lists whose non-empty desired set differs from the server's.\<close>

definition dns_payload :: "server_plan \<Rightarrow> json \<Rightarrow> (string \<times> json) list" where
  "dns_payload plan info =
     (let changed = filter (\<lambda>(key, vals). vals \<noteq> [] \<and> \<not> same_set (json_strings (jget info key)) vals)
                      (p_upstream_lists plan);
          payload = map (\<lambda>(key, vals). (key, JList (map JStr vals))) changed
      in if ''local_ptr_upstreams'' \<in> set (map fst payload)
         then payload @ [(''use_private_ptr_resolvers'', JBool True)] else payload)"

definition apply_upstreams :: "'s wenv \<Rightarrow> server_plan \<Rightarrow> bool \<Rightarrow> ((call, 's, 'm) world_scheme, bool) io" where
  "apply_upstreams e plan dry =
     (if \<not> p_manage_upstreams plan then io_return True
      else io_bind (call_obj e AG_dns_info) (\<lambda>info.
        let payload = dns_payload plan info in
        if payload = [] then io_return True
        else io_seq (io_when (\<not> dry) (io_bind (call_io e (AG_set_dns_config payload)) (\<lambda>_. io_return ())))
               (io_return False)))"

text \<open>
  The phases of the \<open>try\<close> block: contact the server, then rewrites, upstreams and filtering,
  then the verdict.
\<close>

definition apply_contact :: "'s wenv \<Rightarrow> ('s, unit) pass_io" where
  "apply_contact e =
     io_bind (call_obj e AG_status) (\<lambda>status.
     let version = json_text (jget status ''version'') in
     io_seq (set_result (\<lambda>r. r\<lparr>sr_version := version\<rparr>))
     (io_bind (now_io e) (\<lambda>seen.
     io_seq (set_updates (\<lambda>u. u\<lparr>su_version := version, su_last_seen := Some seen\<rparr>))
     (check_version e))))"

definition apply_config :: "'s wenv \<Rightarrow> server_plan \<Rightarrow> bool \<Rightarrow> ('s, bool \<times> bool) pass_io" where
  "apply_config e plan dry =
     io_bind (apply_upstreams e plan dry) (\<lambda>upstreams_in_sync.
     io_seq (set_result (\<lambda>r. r\<lparr>sr_upstreams_changed := \<not> upstreams_in_sync\<rparr>))
     (io_bind (if p_manage_filtering plan
               then io_bind (reconcile_filtering e plan dry) (\<lambda>c. io_return (\<not> c))
               else io_return True) (\<lambda>filtering_in_sync.
     io_seq (set_result (\<lambda>r. r\<lparr>sr_filtering_changed := \<not> filtering_in_sync\<rparr>))
     (io_return (upstreams_in_sync, filtering_in_sync)))))"

definition apply_main :: "'s wenv \<Rightarrow> server_plan \<Rightarrow> bool \<Rightarrow> ('s, bool) pass_io" where
  "apply_main e plan dry =
     io_seq (apply_contact e)
     (io_bind (apply_rewrites e plan dry) (\<lambda>(to_add, to_delete).
     io_bind (apply_config e plan dry) (\<lambda>(upstreams_in_sync, filtering_in_sync).
     io_return (to_add = [] \<and> to_delete = [] \<and> upstreams_in_sync \<and> filtering_in_sync))))"

definition apply_finish :: "'s wenv \<Rightarrow> bool \<Rightarrow> bool \<Rightarrow> ('s, unit) pass_io" where
  "apply_finish e dry in_sync =
     io_seq (set_updates (\<lambda>u. u\<lparr>su_status := St_online, su_in_sync := in_sync,
               su_last_error := None, su_clear_cooldown := True\<rparr>))
     (if dry then io_return ()
      else io_bind (now_io e) (\<lambda>t. set_updates (\<lambda>u. u\<lparr>su_last_synced := Some t\<rparr>)))"

definition apply_body :: "'s wenv \<Rightarrow> server_plan \<Rightarrow> bool \<Rightarrow> ('s, unit) pass_io" where
  "apply_body e plan dry = io_bind (apply_main e plan dry) (apply_finish e dry)"

definition is_auth_status :: "int option \<Rightarrow> bool" where
  "is_auth_status code \<longleftrightarrow> code = Some 401 \<or> code = Some 403 \<or> code = Some 429"

text \<open>\<open>exc.retry_after or (900 if exc.status_code == 429 else 300)\<close>\<close>

definition backoff_seconds :: "int option \<Rightarrow> int option \<Rightarrow> int" where
  "backoff_seconds code ra =
     (case ra of Some n \<Rightarrow> (if n \<noteq> 0 then n else if code = Some 429 then 900 else 300)
      | None \<Rightarrow> (if code = Some 429 then 900 else 300))"

definition apply_failed :: "'s wenv \<Rightarrow> exn \<Rightarrow> ('s, unit) pass_io" where
  "apply_failed e x =
     (case x of
        AdGuardError m code ra \<Rightarrow>
          io_seq (set_result (\<lambda>r. r\<lparr>sr_status := (if is_auth_status code then St_error else St_offline),
                    sr_error := Some m\<rparr>))
          (io_seq (set_updates (\<lambda>u. u\<lparr>su_in_sync := False\<rparr>))
          (if is_auth_status code then
             (let secs = backoff_seconds code ra in
              io_bind (now_io e) (\<lambda>now.
              set_updates (\<lambda>u. u\<lparr>su_cooldown_until := Some (now + secs * second_us),
                su_status := St_error,
                su_last_error := Some
                  (if code = Some 429
                   then ''Auth rate-limited by AdGuard (429); backing off ~'' @ show_int (secs div 60)
                        @ ''m. Check the server'' @ apostrophe @ ''s credentials.''
                   else ''Authentication failed (HTTP ''
                        @ show_int (case code of Some c \<Rightarrow> c | None \<Rightarrow> 0) @ ''); retrying in ~''
                        @ show_int (secs div 60) @ ''m. Check the server'' @ apostrophe @ ''s credentials.'')\<rparr>)))
           else set_updates (\<lambda>u. u\<lparr>su_status := St_offline, su_last_error := Some m\<rparr>)))
      | _ \<Rightarrow>
          io_seq (set_result (\<lambda>r. r\<lparr>sr_status := St_error, sr_error := Some (exn_str x)\<rparr>))
          (set_updates (\<lambda>u. u\<lparr>su_status := St_error, su_in_sync := False,
             su_last_error := Some (exn_str x)\<rparr>)))"

text \<open>
  \<open>build url username password tls\<close> stands for the construction of the client
  (\<open>decrypt_secret\<close>, \<open>AdGuardClient\<close>, \<open>verify_for\<close>): the exception it raises, if any.
\<close>

type_synonym client_builder =
  "string \<Rightarrow> string option \<Rightarrow> string option \<Rightarrow> string option \<Rightarrow> exn option"

definition apply_plan ::
  "client_builder \<Rightarrow> 's wenv \<Rightarrow> server_plan \<Rightarrow> bool \<Rightarrow> (call, 's) world
   \<Rightarrow> (sync_result \<times> server_updates) \<times> (call, 's) world" where
  "apply_plan build e plan dry w =
     (let result = init_result (p_server_id plan) (p_name plan);
          updates = init_updates in
      case build (p_url plan) (p_username plan) (p_password_enc plan) (p_tls_cert plan) of
        Some x \<Rightarrow>
          ((result\<lparr>sr_status := St_error, sr_error := Some (exn_str x)\<rparr>,
            updates\<lparr>su_status := St_error, su_in_sync := False,
              su_last_error := Some (''Server configuration error: '' @ exn_str x)\<rparr>), w)
      | None \<Rightarrow>
          (let p = \<lparr>w_log = w_log w, w_out = w_out w, ps_result = result, ps_updates = updates\<rparr>;
               p' = snd (io_finally
                      (io_except (\<lambda>_. True) (apply_body e plan dry) (apply_failed e))
                      (log_call AG_close) p)
           in ((ps_result p', ps_updates p'), \<lparr>w_log = w_log p', w_out = w_out p'\<rparr>)))"

section \<open>What a pass may do\<close>

text \<open>
  The calls a pass over \<open>plan\<close> may make, whatever the instance answers: the abstract
  specification of the apply phase's effects.
\<close>

definition filter_key :: "bool \<Rightarrow> string" where
  "filter_key whitelist = (if whitelist then ''whitelist_filters'' else ''filters'')"

definition dns_entry_ok :: "server_plan \<Rightarrow> string \<times> json \<Rightarrow> bool" where
  "dns_entry_ok plan kv \<longleftrightarrow>
     kv = (''use_private_ptr_resolvers'', JBool True) \<or>
     (\<exists>(k, vals) \<in> set (p_upstream_lists plan). vals \<noteq> [] \<and> kv = (k, JList (map JStr vals)))"

fun allowed_call :: "server_plan \<Rightarrow> bool \<Rightarrow> call \<Rightarrow> bool" where
  "allowed_call plan dry AG_status = True"
| "allowed_call plan dry (AG_version_check recheck) = (\<not> recheck)"
| "allowed_call plan dry AG_list_rewrites = True"
| "allowed_call plan dry AG_dns_info = p_manage_upstreams plan"
| "allowed_call plan dry (AG_set_dns_config payload) =
     (\<not> dry \<and> p_manage_upstreams plan \<and> payload \<noteq> [] \<and> list_all (dns_entry_ok plan) payload)"
| "allowed_call plan dry (AG_add_rewrite r) = (\<not> dry \<and> r \<in> set (p_rewrites plan))"
| "allowed_call plan dry (AG_delete_rewrite r) =
     (\<not> dry \<and> p_prune plan \<and> rw_key r \<notin> rw_key ` set (p_rewrites plan))"
| "allowed_call plan dry AG_filtering_status = p_manage_filtering plan"
| "allowed_call plan dry (AG_filtering_config on interval) =
     (\<not> dry \<and> p_manage_filtering plan \<and> on)"
| "allowed_call plan dry (AG_add_url name url wl) =
     (\<not> dry \<and> p_manage_filtering plan \<and>
      list_ex (\<lambda>f. fs_name f = name \<and> py_strip (fs_url f) = url) (desired_filters plan (filter_key wl)))"
| "allowed_call plan dry (AG_set_url url enabled name wl) =
     (\<not> dry \<and> p_manage_filtering plan \<and>
      list_ex (\<lambda>f. fs_name f = name \<and> fs_enabled f = enabled \<and> py_strip (fs_url f) = url)
        (desired_filters plan (filter_key wl)))"
| "allowed_call plan dry (AG_remove_url url wl) =
     (\<not> dry \<and> p_manage_filtering plan \<and> p_prune plan \<and>
      \<not> list_ex (\<lambda>f. py_strip (fs_url f) = url) (desired_filters plan (filter_key wl)))"
| "allowed_call plan dry AG_blocked_get = p_manage_filtering plan"
| "allowed_call plan dry (AG_blocked_update ids schedule) =
     (\<not> dry \<and> p_manage_filtering plan \<and> p_blocked_services plan \<noteq> [] \<and>
      set (p_blocked_services plan) \<subseteq> set ids \<and>
      (p_prune plan \<longrightarrow> set ids = set (p_blocked_services plan)))"
| "allowed_call plan dry AG_close = True"
| "allowed_call plan dry _ = False"

lemma dns_payload_ok: "list_all (dns_entry_ok plan) (dns_payload plan info)"
  by (auto simp: dns_payload_def dns_entry_ok_def Let_def list_all_iff split: prod.splits)

text \<open>
  Each piece of the pass respects any frame that the allowed calls respect. The pieces that
  do not touch the pass's own \<open>result\<close> and \<open>updates\<close> are proved for every such frame.
\<close>

context client_frame
begin

lemma keeps_apply_filter:
  assumes covers: "\<And>c. allowed_call plan dry c \<Longrightarrow> \<not> is_rewrite_write c \<Longrightarrow> P c"
    and "p_manage_filtering plan" and "f \<in> set (desired_filters plan (filter_key wl))"
  shows "keeps R (apply_filter e dry wl current f changed)"
  unfolding apply_filter_def Let_def
  using assms(2-) by (auto split: option.splits simp: list_ex_iff intro!: frame_intros covers)

lemma keeps_prune_filter:
  assumes covers: "\<And>c. allowed_call plan dry c \<Longrightarrow> \<not> is_rewrite_write c \<Longrightarrow> P c" and "p_manage_filtering plan" and "p_prune plan"
  shows "keeps R
    (prune_filter e dry wl (map (\<lambda>f. py_strip (fs_url f)) (desired_filters plan (filter_key wl))) url changed)"
  unfolding prune_filter_def
  using assms(2-) by (auto simp: list_ex_iff intro!: frame_intros covers)

lemma keeps_filter_kind:
  assumes covers: "\<And>c. allowed_call plan dry c \<Longrightarrow> \<not> is_rewrite_write c \<Longrightarrow> P c" and "p_manage_filtering plan" and "kwk \<in> set filter_kinds"
  shows "keeps R (reconcile_filter_kind e plan dry status kwk changed)"
proof -
  obtain k wl key where kwk: "kwk = (k, wl, key)" by (cases kwk)
  with assms(3) have key: "key = filter_key wl" by (auto simp: filter_kinds_def filter_key_def)
  show ?thesis
    unfolding reconcile_filter_kind_def kwk Let_def key prod.case
    using assms(2) by (auto intro!: frame_intros keeps_apply_filter keeps_prune_filter covers)
qed

lemma keeps_services:
  assumes covers: "\<And>c. allowed_call plan dry c \<Longrightarrow> \<not> is_rewrite_write c \<Longrightarrow> P c" and "p_manage_filtering plan"
  shows "keeps R (reconcile_services e plan dry changed)"
  unfolding reconcile_services_def Let_def
  using assms(2-) by (auto split: option.splits simp: sorted_set_props intro!: frame_intros covers)

lemma keeps_filtering:
  assumes covers: "\<And>c. allowed_call plan dry c \<Longrightarrow> \<not> is_rewrite_write c \<Longrightarrow> P c" and "p_manage_filtering plan"
  shows "keeps R (reconcile_filtering e plan dry)"
  unfolding reconcile_filtering_def Let_def
  using assms(2-) by (auto intro!: frame_intros keeps_filter_kind keeps_services covers)

lemma keeps_upstreams:
  assumes covers: "\<And>c. allowed_call plan dry c \<Longrightarrow> \<not> is_rewrite_write c \<Longrightarrow> P c"
  shows "keeps R (apply_upstreams e plan dry)"
  unfolding apply_upstreams_def Let_def
  by (auto intro!: frame_intros covers simp: dns_payload_ok)

end

abbreviation stays_allowed ::
  "server_plan \<Rightarrow> bool \<Rightarrow> ((call, 's, 'm) world_scheme, 'a) io \<Rightarrow> bool" where
  "stays_allowed plan dry \<equiv> keeps (log_ext (allowed_call plan dry))"

text \<open>Frames that the pass's own writes respect as well.\<close>

locale pass_frame = client_frame R P e
  for R :: "'s pass \<Rightarrow> 's pass \<Rightarrow> bool" and P :: "call \<Rightarrow> bool" and e :: "'s wenv" +
  assumes keeps_set_result [frame_intros]: "keeps R (set_result f)"
    and keeps_set_updates [frame_intros]: "keeps R (set_updates g)"
begin

lemma keeps_contact:
  assumes covers: "\<And>c. allowed_call plan dry c \<Longrightarrow> \<not> is_rewrite_write c \<Longrightarrow> P c"
  shows "keeps R (apply_contact e)"
  unfolding apply_contact_def check_version_def Let_def
  by (auto intro!: frame_intros covers)

lemma keeps_config:
  assumes covers: "\<And>c. allowed_call plan dry c \<Longrightarrow> \<not> is_rewrite_write c \<Longrightarrow> P c"
  shows "keeps R (apply_config e plan dry)"
  unfolding apply_config_def
  by (auto intro!: frame_intros keeps_upstreams keeps_filtering covers)

lemma keeps_push:
  assumes covers: "\<And>c. allowed_call plan dry c \<Longrightarrow> P c"
  shows "keeps R (apply_rewrites e plan dry)"
  unfolding apply_rewrites_def push_rewrites_def Let_def
  by (auto intro!: frame_intros covers simp: rewrites_to_add_def rewrites_to_delete_def split: if_splits)

lemma keeps_body:
  assumes covers: "\<And>c. allowed_call plan dry c \<Longrightarrow> P c"
  shows "keeps R (apply_body e plan dry)"
  unfolding apply_body_def apply_finish_def apply_main_def case_prod_beta
  by (intro frame_intros keeps_contact [where plan = plan and dry = dry] keeps_push keeps_config covers)

lemma keeps_failed: "keeps R (apply_failed e x)"
  unfolding apply_failed_def Let_def
  by (auto intro!: frame_intros split: exn.splits)

end

interpretation log: pass_frame "log_ext P" P e for P e
  by unfold_locales
    (simp_all add: set_result_def set_updates_def keeps_def io_modify_def log_ext_same_log)

lemma apply_plan_log:
  "log_ext (allowed_call plan dry) w (snd (apply_plan build e plan dry w))"
proof (cases "build (p_url plan) (p_username plan) (p_password_enc plan) (p_tls_cert plan)")
  case None
  define p where "p = \<lparr>w_log = w_log w, w_out = w_out w,
     ps_result = init_result (p_server_id plan) (p_name plan), ps_updates = init_updates\<rparr>"
  have "stays_allowed plan dry (io_finally
          (io_except (\<lambda>_. True) (apply_body e plan dry) (apply_failed e)) (log_call AG_close))"
    by (intro log.keeps_finally log.keeps_except log.keeps_body log.keeps_failed log_ext_log_call) simp_all
  then have "log_ext (allowed_call plan dry) p (snd (io_finally
          (io_except (\<lambda>_. True) (apply_body e plan dry) (apply_failed e)) (log_call AG_close) p))"
    by (simp add: keeps_def)
  with None show ?thesis
    by (simp add: apply_plan_def Let_def p_def log_ext_def)
next
  case (Some x)
  then show ?thesis by (simp add: apply_plan_def Let_def log.frame_refl)
qed

end
