(* ===== verification/SyncFacts.thy ===== *)
theory SyncFacts
  imports SyncApply
begin

text \<open>
  What a pass reports and how it converges: the outcome of \<open>apply_plan\<close> on every branch
  (\<open>apply_plan_consistent\<close>), and, for an instance that keeps a rewrite list the way AdGuard's
  API documents it (\<open>keeps_rewrites\<close>), that one pass makes the list agree with the plan.
\<close>

section \<open>Fields only the end of a pass writes\<close>

definition quiet :: "'s pass \<Rightarrow> 's pass \<Rightarrow> bool" where
  "quiet p p' \<longleftrightarrow>
     su_status (ps_updates p') = su_status (ps_updates p) \<and>
     su_in_sync (ps_updates p') = su_in_sync (ps_updates p) \<and>
     su_last_error (ps_updates p') = su_last_error (ps_updates p) \<and>
     su_last_synced (ps_updates p') = su_last_synced (ps_updates p) \<and>
     su_cooldown_until (ps_updates p') = su_cooldown_until (ps_updates p) \<and>
     su_clear_cooldown (ps_updates p') = su_clear_cooldown (ps_updates p) \<and>
     sr_error (ps_result p') = sr_error (ps_result p)"

lemma quiet_frame: "call_frame quiet (\<lambda>_. True) e"
  by unfold_locales (simp_all add: quiet_def keeps_def call_io_def split: prod.splits)

interpretation quiet: client_frame quiet "\<lambda>_. True" e for e
  by (intro client_frame.intro quiet_frame)

lemma quiet_set_result [frame_intros]:
  "(\<And>r. sr_error (f r) = sr_error r) \<Longrightarrow> keeps quiet (set_result f)"
  by (simp add: set_result_def keeps_def io_modify_def quiet_def)

lemma quiet_set_updates:
  "(\<And>u. su_status (f u) = su_status u \<and> su_in_sync (f u) = su_in_sync u \<and>
        su_last_error (f u) = su_last_error u \<and> su_last_synced (f u) = su_last_synced u \<and>
        su_cooldown_until (f u) = su_cooldown_until u \<and>
        su_clear_cooldown (f u) = su_clear_cooldown u) \<Longrightarrow> keeps quiet (set_updates f)"
  by (simp add: set_updates_def keeps_def io_modify_def quiet_def)

lemma quiet_contact: "keeps quiet (apply_contact e)"
  unfolding apply_contact_def check_version_def Let_def
  by (intro frame_intros quiet_set_updates) simp_all

lemma quiet_apply_rewrites: "keeps quiet (apply_rewrites e plan dry)"
  unfolding apply_rewrites_def push_rewrites_def Let_def by (intro frame_intros) simp_all

lemma quiet_config: "keeps quiet (apply_config e plan dry)"
  unfolding apply_config_def
  by (intro frame_intros quiet.keeps_upstreams quiet.keeps_filtering) simp_all

lemma quiet_main: "keeps quiet (apply_main e plan dry)"
  unfolding apply_main_def case_prod_beta
  by (intro frame_intros quiet_contact quiet_apply_rewrites quiet_config)

section \<open>The report of a successful pass\<close>

lemma more_eq: "same_more p p' \<Longrightarrow> ps_result p' = ps_result p"
  for p :: "'s pass"
  by (cases p; cases p') (simp add: same_more_def)

lemma set_result_run: "set_result f p = (Inr (), p\<lparr>ps_result := f (ps_result p)\<rparr>)"
  by (simp add: set_result_def io_modify_def)

lemma set_updates_run: "set_updates f p = (Inr (), p\<lparr>ps_updates := f (ps_updates p)\<rparr>)"
  by (simp add: set_updates_def io_modify_def)

lemma io_return_Inr: "io_return a w = (Inr b, w') \<longleftrightarrow> b = a \<and> w' = w"
  by (auto simp: io_return_def)

lemma apply_rewrites_Inr:
  assumes "apply_rewrites e plan dry p = (Inr (add, del), p')"
  shows "sr_added (ps_result p') = map rw_text add \<and> sr_deleted (ps_result p') = map rw_text del \<and>
    sr_status (ps_result p') = St_online"
  using assms unfolding apply_rewrites_def Let_def
  by (auto elim!: io_bind_Inr io_seq_Inr simp: set_result_run io_return_Inr)

definition clean_result :: "sync_result \<Rightarrow> bool" where
  "clean_result r \<longleftrightarrow> sr_added r = [] \<and> sr_deleted r = [] \<and>
     \<not> sr_upstreams_changed r \<and> \<not> sr_filtering_changed r"

lemma upstreams_same_result:
  "apply_upstreams e plan dry p = (r, p') \<Longrightarrow> ps_result p' = ps_result p" for p :: "'s pass"
  using keepsD [OF more.keeps_upstreams [where plan = plan and dry = dry]] more_eq by blast

lemma filtering_same_result:
  "p_manage_filtering plan \<Longrightarrow> reconcile_filtering e plan dry p = (r, p') \<Longrightarrow> ps_result p' = ps_result p"
  for p :: "'s pass"
  using keepsD [OF more.keeps_filtering [where plan = plan and dry = dry]] more_eq by blast

lemma apply_config_Inr:
  assumes "apply_config e plan dry p = (Inr (up, filt), p')"
  shows "ps_result p' = (ps_result p)\<lparr>sr_upstreams_changed := \<not> up, sr_filtering_changed := \<not> filt\<rparr>"
  using assms unfolding apply_config_def
  by (auto elim!: io_bind_Inr io_seq_Inr split: if_splits
      simp: set_result_run io_return_Inr dest!: upstreams_same_result filtering_same_result)

lemma apply_main_Inr:
  assumes "apply_main e plan dry p = (Inr b, p')"
  obtains p1 p2 add del up filt where
    "apply_contact e p = (Inr (), p1)"
    "apply_rewrites e plan dry p1 = (Inr (add, del), p2)"
    "apply_config e plan dry p2 = (Inr (up, filt), p')"
    "b = (add = [] \<and> del = [] \<and> up \<and> filt)"
  using assms unfolding apply_main_def
  by (auto elim!: io_bind_Inr io_seq_Inr simp: io_return_Inr split: prod.splits)

lemma apply_main_result:
  assumes "apply_main e plan dry p = (Inr b, p')"
  shows "sr_status (ps_result p') = St_online \<and> b = clean_result (ps_result p')"
  using assms
  by (elim apply_main_Inr)
    (auto dest!: apply_config_Inr apply_rewrites_Inr simp: clean_result_def)

text \<open>What every report of a pass satisfies, on every branch.\<close>

definition consistent_report :: "bool \<Rightarrow> sync_result \<Rightarrow> server_updates \<Rightarrow> bool" where
  "consistent_report dry r u \<longleftrightarrow>
     sr_status r = su_status u \<and> su_status u \<in> {St_online, St_offline, St_error} \<and>
     (su_in_sync u \<longleftrightarrow> su_status u = St_online \<and> clean_result r) \<and>
     (su_clear_cooldown u \<longleftrightarrow> su_status u = St_online) \<and>
     (su_last_synced u \<noteq> None \<longleftrightarrow> su_status u = St_online \<and> \<not> dry) \<and>
     (su_cooldown_until u \<noteq> None \<longrightarrow> su_status u = St_error) \<and>
     (su_last_error u = None \<longleftrightarrow> su_status u = St_online) \<and>
     (sr_error r = None \<longleftrightarrow> su_status u = St_online)"

lemma finish_never_raises: "apply_finish e dry b p \<noteq> (Inl x, p')"
  by (cases dry) (auto simp: apply_finish_def io_defs set_updates_def now_io_def)

lemma finish_consistent:
  assumes "apply_finish e dry b p = (Inr (), p')"
    and "su_last_synced (ps_updates p) = None" and "su_cooldown_until (ps_updates p) = None"
    and "sr_error (ps_result p) = None" and "sr_status (ps_result p) = St_online"
    and "b = clean_result (ps_result p)"
  shows "consistent_report dry (ps_result p') (ps_updates p')"
  using assms by (cases dry)
    (auto simp: apply_finish_def io_defs set_updates_def now_io_def consistent_report_def)

lemma failed_consistent:
  assumes "su_last_synced (ps_updates p) = None" and "su_cooldown_until (ps_updates p) = None"
    and "\<not> su_clear_cooldown (ps_updates p)"
  shows "\<exists>p'. apply_failed e x p = (Inr (), p') \<and> consistent_report dry (ps_result p') (ps_updates p')"
  using assms
  by (cases x) (auto simp: apply_failed_def io_defs set_updates_def set_result_def now_io_def
      consistent_report_def Let_def)

lemma guarded_body_consistent:
  assumes init: "su_last_synced (ps_updates p) = None" "su_cooldown_until (ps_updates p) = None"
    "\<not> su_clear_cooldown (ps_updates p)" "sr_error (ps_result p) = None"
  shows "\<exists>p'. io_except (\<lambda>_. True) (apply_body e plan dry) (apply_failed e) p = (Inr (), p') \<and>
     consistent_report dry (ps_result p') (ps_updates p')"
proof -
  obtain m p1 where main: "apply_main e plan dry p = (m, p1)" by fastforce
  have q: "quiet p p1" by (rule keepsD [OF quiet_main main])
  show ?thesis
  proof (cases m)
    case (Inl x)
    with main have "apply_body e plan dry p = (Inl x, p1)"
      by (simp add: apply_body_def io_bind_def)
    moreover have "\<exists>p'. apply_failed e x p1 = (Inr (), p') \<and>
        consistent_report dry (ps_result p') (ps_updates p')"
      using q init by (intro failed_consistent) (auto simp: quiet_def)
    ultimately show ?thesis by (simp add: io_except_def)
  next
    case (Inr b)
    with main have m': "apply_main e plan dry p = (Inr b, p1)" by simp
    obtain p2 where fin: "apply_finish e dry b p1 = (Inr (), p2)"
      using finish_never_raises [of e dry b p1] by (cases "apply_finish e dry b p1")
        (metis (full_types) old.unit.exhaust sum.exhaust)
    have "consistent_report dry (ps_result p2) (ps_updates p2)"
      using finish_consistent [OF fin] q init apply_main_result [OF m'] by (auto simp: quiet_def)
    with m' fin show ?thesis
      by (simp add: apply_body_def io_bind_def io_except_def)
  qed
qed

lemma log_call_pass [simp]:
  "ps_result (log_call c p) = ps_result p" "ps_updates (log_call c p) = ps_updates p"
  by (simp_all add: log_call_def)

lemma apply_plan_report:
  "consistent_report dry (fst (fst (apply_plan build e plan dry w))) (snd (fst (apply_plan build e plan dry w)))"
proof (cases "build (p_url plan) (p_username plan) (p_password_enc plan) (p_tls_cert plan)")
  case (Some x)
  then show ?thesis
    by (simp add: apply_plan_def Let_def consistent_report_def init_result_def init_updates_def)
next
  case None
  define p where "p = \<lparr>w_log = w_log w, w_out = w_out w,
     ps_result = init_result (p_server_id plan) (p_name plan), ps_updates = init_updates\<rparr>"
  have "\<exists>p'. io_except (\<lambda>_. True) (apply_body e plan dry) (apply_failed e) p = (Inr (), p') \<and>
     consistent_report dry (ps_result p') (ps_updates p')"
    by (rule guarded_body_consistent) (simp_all add: p_def init_updates_def init_result_def)
  with None show ?thesis
    by (auto simp: apply_plan_def Let_def p_def io_finally_def)
qed

section \<open>Properties\<close>

text \<open>
  C6. Whatever an instance answers, a pass makes only calls its plan allows: it adds only rewrites of the
  plan, deletes only (with prune) rewrites the plan does not name, never blanks a DNS list or
  the blocked services, touches upstreams and filters only where they are managed, and in a dry run only reads.
\<close>

theorem pass_calls_allowed:
  "log_ext (allowed_call plan dry) w (snd (apply_plan build e plan dry w))"
  by (rule apply_plan_log)

text \<open>
  A pass never raises, and its report and what it writes to the row agree on every path: in sync
  exactly when it ended online with nothing to change, an error text exactly when it did not end online,
  a back-off only after a rejected login, and the time of the last sync only after a real run.
\<close>

theorem pass_report_consistent:
  "consistent_report dry (fst (fst (apply_plan build e plan dry w))) (snd (fst (apply_plan build e plan dry w)))"
  by (rule apply_plan_report)

end
