(* ===== verification/SyncConverge.thy ===== *)
theory SyncConverge
  imports SyncFacts
begin

text \<open>
  Convergence. \<open>keeps_rewrites e RW\<close> is what AdGuard's API documents of its rewrite list,
  where \<open>RW s\<close> is the list an instance in state \<open>s\<close> holds: listing returns it, an accepted
  addition inserts an entry with the same normalised key, an accepted deletion removes the
  entry, nothing else touches it. Requests may be refused at any point. Under it a pass
  that reports the server online has made the list agree with the plan, and a later pass
  over the same plan finds nothing to do.
\<close>

definition rewrite_json :: "rewrite \<Rightarrow> json" where
  "rewrite_json r = JObj [(''domain'', JStr (rw_domain r)), (''answer'', JStr (rw_answer r))]"

definition keeps_rewrites :: "'s wenv \<Rightarrow> ('s \<Rightarrow> rewrite list) \<Rightarrow> bool" where
  "keeps_rewrites e RW \<longleftrightarrow>
     (\<forall>s j s'. e_call e AG_list_rewrites s = (Inr j, s') \<longrightarrow> j = JList (map rewrite_json (RW s))) \<and>
     (\<forall>r s j s'. e_call e (AG_add_rewrite r) s = (Inr j, s') \<longrightarrow>
        (\<exists>r'. rw_key r' = rw_key r \<and> set (RW s') = insert r' (set (RW s)))) \<and>
     (\<forall>r s j s'. e_call e (AG_delete_rewrite r) s = (Inr j, s') \<longrightarrow> set (RW s') = set (RW s) - {r}) \<and>
     (\<forall>c s. \<not> is_rewrite_write c \<longrightarrow> RW (snd (e_call e c s)) = RW s)"

lemma keeps_rewrites_list:
  "keeps_rewrites e RW \<Longrightarrow> e_call e AG_list_rewrites s = (Inr j, s') \<Longrightarrow>
   j = JList (map rewrite_json (RW s))"
  by (simp add: keeps_rewrites_def)

lemma keeps_rewrites_add:
  "keeps_rewrites e RW \<Longrightarrow> e_call e (AG_add_rewrite r) s = (Inr j, s') \<Longrightarrow>
   \<exists>r'. rw_key r' = rw_key r \<and> set (RW s') = insert r' (set (RW s))"
  by (simp add: keeps_rewrites_def)

lemma keeps_rewrites_delete:
  "keeps_rewrites e RW \<Longrightarrow> e_call e (AG_delete_rewrite r) s = (Inr j, s') \<Longrightarrow>
   set (RW s') = set (RW s) - {r}"
  by (simp add: keeps_rewrites_def)

definition rw_keys :: "rewrite list \<Rightarrow> (string \<times> string) set" where
  "rw_keys rs = rw_key ` set rs"

definition same_rw :: "('s \<Rightarrow> rewrite list) \<Rightarrow> (call, 's, 'm) world_scheme \<Rightarrow> (call, 's, 'm) world_scheme \<Rightarrow> bool" where
  "same_rw RW w w' \<longleftrightarrow> RW (w_out w') = RW (w_out w)"

lemma same_rw_frame:
  assumes "keeps_rewrites e RW"
  shows "client_frame (same_rw RW) (\<lambda>c. \<not> is_rewrite_write c) e"
proof (intro client_frame.intro call_frame.intro frame.intro call_frame_axioms.intro)
  fix c :: call
  assume "\<not> is_rewrite_write c"
  with assms have "RW (snd (e_call e c s)) = RW s" for s by (simp add: keeps_rewrites_def)
  then show "keeps (same_rw RW) (call_io e c)"
    by (auto simp: keeps_def same_rw_def call_io_def split: prod.splits) (metis snd_conv)
qed (simp_all add: same_rw_def)

lemma same_rw_set: "keeps (same_rw RW) (set_result f)" "keeps (same_rw RW) (set_updates g)"
  by (simp_all add: set_result_def set_updates_def keeps_def io_modify_def same_rw_def)

lemma rewrite_of_json_inv [simp]: "rewrite_of_json (rewrite_json r) = Some r"
  by (cases r) (simp add: rewrite_json_def)

lemma list_rewrites_honest:
  assumes honest: "keeps_rewrites e RW" and run: "list_rewrites e w = (Inr rs, w')"
  shows "rs = RW (w_out w)" and "RW (w_out w') = RW (w_out w)"
proof -
  obtain j w1 where c: "call_io e AG_list_rewrites w = (Inr j, w1)"
    and k: "(let rows = map rewrite_of_json (jlist j)
       in if list_all (\<lambda>r. r \<noteq> None) rows then io_return (map the rows)
          else io_raise (AdGuardError ''unexpected rewrite payload'' None None)) w1 = (Inr rs, w')"
    using run unfolding list_rewrites_def by (rule io_bind_Inr)
  have rest: "rs = map the (map rewrite_of_json (jlist j))"
    using k by (cases "list_all (\<lambda>r. r \<noteq> None) (map rewrite_of_json (jlist j))")
      (auto simp: Let_def io_return_def io_raise_def)
  from c obtain s' where "e_call e AG_list_rewrites (w_out w) = (Inr j, s')"
    by (auto simp: call_io_def split: prod.splits)
  then have "j = JList (map rewrite_json (RW (w_out w)))"
    by (rule keeps_rewrites_list [OF honest])
  with rest show "rs = RW (w_out w)"
    by (simp add: list_all_iff o_def)
  have "keeps (same_rw RW) (list_rewrites e)"
    by (rule client_frame.keeps_list_rewrites [OF same_rw_frame [OF honest]]) simp
  from keepsD [OF this run] show "RW (w_out w') = RW (w_out w)" by (simp add: same_rw_def)
qed

lemma add_loop:
  assumes "keeps_rewrites e RW"
    and "io_for rs (\<lambda>r. io_bind (call_io e (AG_add_rewrite r)) (\<lambda>_. io_return ())) w = (Inr (), w')"
  shows "\<exists>A. set (RW (w_out w')) = set (RW (w_out w)) \<union> A \<and> rw_key ` A = rw_key ` set rs"
  using assms(2)
proof (induction rs arbitrary: w)
  case Nil
  then show ?case by (auto simp: io_return_def)
next
  case (Cons r rs)
  then obtain a w1 where step: "call_io e (AG_add_rewrite r) w = (Inr a, w1)"
    and rest: "io_for rs (\<lambda>r. io_bind (call_io e (AG_add_rewrite r)) (\<lambda>_. io_return ())) w1 = (Inr (), w')"
    by (auto elim!: io_seq_Inr io_bind_Inr simp: io_return_Inr)
  from step obtain j s' where "e_call e (AG_add_rewrite r) (w_out w) = (Inr j, s')" and "w_out w1 = s'"
    by (auto simp: call_io_def split: prod.splits)
  with keeps_rewrites_add [OF assms(1)] obtain r' where
    r': "rw_key r' = rw_key r" "set (RW (w_out w1)) = insert r' (set (RW (w_out w)))"
    by blast
  obtain A where A: "set (RW (w_out w')) = set (RW (w_out w1)) \<union> A" "rw_key ` A = rw_key ` set rs"
    using Cons.IH [OF rest] by blast
  show ?case using r' A by (intro exI [of _ "insert r' A"]) auto
qed

lemma delete_loop:
  assumes "keeps_rewrites e RW"
    and "io_for rs (\<lambda>r. io_bind (call_io e (AG_delete_rewrite r)) (\<lambda>_. io_return ())) w = (Inr (), w')"
  shows "set (RW (w_out w')) = set (RW (w_out w)) - set rs"
  using assms(2)
proof (induction rs arbitrary: w)
  case Nil
  then show ?case by (simp add: io_return_def)
next
  case (Cons r rs)
  then obtain a w1 where step: "call_io e (AG_delete_rewrite r) w = (Inr a, w1)"
    and rest: "io_for rs (\<lambda>r. io_bind (call_io e (AG_delete_rewrite r)) (\<lambda>_. io_return ())) w1 = (Inr (), w')"
    by (auto elim!: io_seq_Inr io_bind_Inr simp: io_return_Inr)
  from step obtain j s' where "e_call e (AG_delete_rewrite r) (w_out w) = (Inr j, s')" and "w_out w1 = s'"
    by (auto simp: call_io_def split: prod.splits)
  with keeps_rewrites_delete [OF assms(1)] have "set (RW (w_out w1)) = set (RW (w_out w)) - {r}"
    by blast
  with Cons.IH [OF rest] show ?case by auto
qed

text \<open>The keys a pass leaves, as a function of those it found: the abstract effect.\<close>

definition converged_keys :: "server_plan \<Rightarrow> (string \<times> string) set \<Rightarrow> (string \<times> string) set" where
  "converged_keys plan keys =
     (if p_prune plan then rw_keys (p_rewrites plan) else keys \<union> rw_keys (p_rewrites plan))"

lemma image_outside: "f ` {x \<in> S. f x \<notin> K} = f ` S - K"
  by auto

lemma diff_keys:
  assumes "rw_key ` A = rw_key ` set (rewrites_to_add plan cur)"
  shows "rw_key ` (set cur \<union> A - set (rewrites_to_delete plan cur)) = converged_keys plan (rw_keys cur)"
proof (cases "p_prune plan")
  case False
  with assms show ?thesis
    by (auto simp: converged_keys_def rewrites_to_delete_def rewrites_to_add_def rw_keys_def image_Un)
next
  case True
  let ?D = "rw_keys (p_rewrites plan)"
  have kept: "set cur \<union> A - set (rewrites_to_delete plan cur) = {r \<in> set cur \<union> A. rw_key r \<in> ?D}"
    using True assms by (auto simp: rewrites_to_delete_def rewrites_to_add_def rw_keys_def)
  have A: "rw_key ` A = ?D - rw_keys cur"
    using assms image_outside [of rw_key "set (p_rewrites plan)"]
    by (simp add: rewrites_to_add_def rw_keys_def)
  have "rw_key ` {r \<in> set cur \<union> A. rw_key r \<in> ?D} = rw_key ` (set cur \<union> A) \<inter> ?D" by auto
  also have "\<dots> = ?D" using A by (auto simp: image_Un rw_keys_def)
  finally show ?thesis using True kept by (simp add: converged_keys_def)
qed

lemma apply_rewrites_honest:
  assumes honest: "keeps_rewrites e RW"
    and run: "apply_rewrites e plan dry p = (Inr (add, del), p')"
  shows "add = rewrites_to_add plan (py_set (RW (w_out p)))"
    and "del = rewrites_to_delete plan (py_set (RW (w_out p)))"
    and "\<not> dry \<Longrightarrow> rw_keys (RW (w_out p')) = converged_keys plan (rw_keys (RW (w_out p)))"
proof -
  obtain rs p1 where l: "list_rewrites e p = (Inr rs, p1)"
    and add: "add = rewrites_to_add plan (py_set rs)" and del: "del = rewrites_to_delete plan (py_set rs)"
    and loops: "\<not> dry \<Longrightarrow> \<exists>p2.
      push_rewrites e add del p1 = (Inr (), p2) \<and> w_out p' = w_out p2"
    using run unfolding apply_rewrites_def Let_def
    by (cases dry) (auto elim!: io_bind_Inr io_seq_Inr simp: set_result_run io_return_Inr io_when_def)
  have rs: "rs = RW (w_out p)" "RW (w_out p1) = RW (w_out p)"
    using list_rewrites_honest [OF honest l] by auto
  show "add = rewrites_to_add plan (py_set (RW (w_out p)))"
    and "del = rewrites_to_delete plan (py_set (RW (w_out p)))"
    using add del rs by simp_all
  assume "\<not> dry"
  then obtain p2 p3 where
    1: "io_for add (\<lambda>r. io_bind (call_io e (AG_add_rewrite r)) (\<lambda>_. io_return ())) p1 = (Inr (), p2)"
    and 2: "io_for del (\<lambda>r. io_bind (call_io e (AG_delete_rewrite r)) (\<lambda>_. io_return ())) p2 = (Inr (), p3)"
    and out: "w_out p' = w_out p3"
    using loops by (auto elim!: io_seq_Inr simp: push_rewrites_def)
  obtain A where A: "set (RW (w_out p2)) = set (RW (w_out p1)) \<union> A" "rw_key ` A = rw_key ` set add"
    using add_loop [OF honest 1] by blast
  have "set (RW (w_out p3)) = set (py_set rs) \<union> A - set del"
    using delete_loop [OF honest 2] A rs by simp
  then show "rw_keys (RW (w_out p')) = converged_keys plan (rw_keys (RW (w_out p)))"
    using diff_keys [of A plan "py_set rs"] A(2) add del rs out by (simp add: rw_keys_def)
qed

lemma same_rw_pass:
  assumes "keeps_rewrites e RW"
  shows "pass_frame (same_rw RW) (\<lambda>c. \<not> is_rewrite_write c) e"
  by (intro pass_frame.intro pass_frame_axioms.intro same_rw_frame same_rw_set assms)

lemma apply_main_honest:
  assumes honest: "keeps_rewrites e RW" and run: "apply_main e plan dry p = (Inr b, p')"
  shows "\<not> dry \<Longrightarrow> rw_keys (RW (w_out p')) = converged_keys plan (rw_keys (RW (w_out p)))"
    and "sr_added (ps_result p') = map rw_text (rewrites_to_add plan (py_set (RW (w_out p))))"
    and "sr_deleted (ps_result p') = map rw_text (rewrites_to_delete plan (py_set (RW (w_out p))))"
proof -
  obtain p1 p2 add del up filt where
    1: "apply_contact e p = (Inr (), p1)" and
    2: "apply_rewrites e plan dry p1 = (Inr (add, del), p2)" and
    3: "apply_config e plan dry p2 = (Inr (up, filt), p')"
    using run by (rule apply_main_Inr)
  have "keeps (same_rw RW) (apply_contact e)"
    by (rule pass_frame.keeps_contact [OF same_rw_pass [OF honest], where plan = plan and dry = dry])
  from keepsD [OF this 1] have s1: "RW (w_out p1) = RW (w_out p)" by (simp add: same_rw_def)
  have "keeps (same_rw RW) (apply_config e plan dry)"
    by (rule pass_frame.keeps_config [OF same_rw_pass [OF honest]])
  from keepsD [OF this 3] have s3: "RW (w_out p') = RW (w_out p2)" by (simp add: same_rw_def)
  note r = apply_rewrites_honest [OF honest 2]
  show "\<not> dry \<Longrightarrow> rw_keys (RW (w_out p')) = converged_keys plan (rw_keys (RW (w_out p)))"
    using r(3) s1 s3 by simp
  show "sr_added (ps_result p') = map rw_text (rewrites_to_add plan (py_set (RW (w_out p))))"
    and "sr_deleted (ps_result p') = map rw_text (rewrites_to_delete plan (py_set (RW (w_out p))))"
    using r(1,2) s1 apply_rewrites_Inr [OF 2] apply_config_Inr [OF 3] by simp_all
qed

text \<open>An online report comes from a completed \<open>apply_main\<close> followed by the write-back.\<close>

lemma apply_plan_online:
  assumes "apply_plan build e plan dry w = ((r, u), w')" and "su_status u = St_online"
  obtains p b p1 where
    "p = \<lparr>w_log = w_log w, w_out = w_out w,
      ps_result = init_result (p_server_id plan) (p_name plan), ps_updates = init_updates\<rparr>"
    and "apply_main e plan dry p = (Inr b, p1)" and "r = ps_result p1" and "w_out w' = w_out p1"
proof -
  define p where "p = \<lparr>w_log = w_log w, w_out = w_out w,
     ps_result = init_result (p_server_id plan) (p_name plan), ps_updates = init_updates\<rparr>"
  have built: "build (p_url plan) (p_username plan) (p_password_enc plan) (p_tls_cert plan) = None"
    using assms by (auto simp: apply_plan_def Let_def split: option.splits)
  obtain m p1 where main: "apply_main e plan dry p = (m, p1)" by fastforce
  show thesis
  proof (cases m)
    case (Inl x)
    have "su_status (ps_updates (snd (apply_failed e x p1))) \<noteq> St_online"
      by (cases x) (auto simp: apply_failed_def io_defs set_updates_def set_result_def now_io_def Let_def)
    with assms built main Inl show thesis
      by (auto simp: apply_plan_def Let_def p_def io_finally_def io_except_def apply_body_def
          io_bind_def log_call_def split: prod.splits)
  next
    case (Inr b)
    have fin: "w_out (snd (apply_finish e dry b p1)) = w_out p1"
      "ps_result (snd (apply_finish e dry b p1)) = ps_result p1"
      "\<exists>q. apply_finish e dry b p1 = (Inr (), q)"
      by (cases dry; auto simp: apply_finish_def io_defs set_updates_def now_io_def)+
    with assms built main Inr have "r = ps_result p1" and "w_out w' = w_out p1"
      by (auto simp: apply_plan_def Let_def p_def io_finally_def io_except_def apply_body_def
          io_bind_def log_call_def)
    with that [OF p_def] main Inr show thesis by simp
  qed
qed

lemma nothing_left:
  assumes "rw_keys cur = converged_keys plan keys"
  shows "rewrites_to_add plan (py_set cur) = []" and "rewrites_to_delete plan (py_set cur) = []"
  using assms by (auto simp: rewrites_to_add_def rewrites_to_delete_def rw_keys_def
      converged_keys_def filter_empty_conv split: if_splits)


section \<open>Rejected credentials\<close>

text \<open>When the first request fails, nothing else is sent; the log shows exactly that.\<close>

lemma apply_plan_contact_error:
  assumes "build (p_url plan) (p_username plan) (p_password_enc plan) (p_tls_cert plan) = None"
    and "e_call e AG_status (w_out w) = (Inl (AdGuardError m code ra), s)"
  shows "w_log (snd (apply_plan build e plan dry w)) = w_log w @ [AG_status, AG_close]"
    and "su_status (snd (fst (apply_plan build e plan dry w))) =
      (if is_auth_status code then St_error else St_offline)"
    and "su_cooldown_until (snd (fst (apply_plan build e plan dry w))) =
      (if is_auth_status code then Some (e_now e s + backoff_seconds code ra * second_us) else None)"
    and "\<not> su_clear_cooldown (snd (fst (apply_plan build e plan dry w)))"
  using assms
  by (simp_all add: apply_plan_def Let_def io_finally_def io_except_def apply_body_def apply_main_def
      apply_contact_def io_defs call_obj_def call_io_def log_call_def apply_failed_def
      set_result_def set_updates_def now_io_def init_updates_def)

section \<open>A small honest instance\<close>

text \<open>An AdGuard instance reduced to its rewrite list, for the witnesses.\<close>

definition demo_instance :: "rewrite list wenv" where
  "demo_instance =
     \<lparr>e_call = (\<lambda>c s. case c of
        AG_list_rewrites \<Rightarrow> (Inr (JList (map rewrite_json s)), s)
      | AG_add_rewrite r \<Rightarrow> (Inr JNull, s @ [r])
      | AG_delete_rewrite r \<Rightarrow> (Inr JNull, filter (\<lambda>x. x \<noteq> r) s)
      | _ \<Rightarrow> (Inr (JObj []), s)),
      e_now = (\<lambda>_. 0), e_loop_time = (\<lambda>_. 0)\<rparr>"

lemma demo_instance_honest: "keeps_rewrites demo_instance (\<lambda>s. s)"
  unfolding keeps_rewrites_def demo_instance_def
  by (auto split: call.splits)

definition demo_plan :: server_plan where
  "demo_plan =
     \<lparr>p_server_id = 1, p_name = ''dns1'', p_url = ''http://10.0.0.2'', p_username = None,
      p_password_enc = None, p_tls_cert = None, p_prune = True, p_manage_upstreams = False,
      p_manage_filtering = False,
      p_rewrites = [\<lparr>rw_domain = ''nas.lan'', rw_answer = ''10.0.0.5''\<rparr>],
      p_upstream_lists = [], p_filters = [], p_blocked_services = []\<rparr>"

definition demo_world :: "(call, rewrite list) world" where
  "demo_world = \<lparr>w_log = [], w_out = [\<lparr>rw_domain = ''old.lan'', rw_answer = ''10.0.0.9''\<rparr>]\<rparr>"

lemma demo_online:
  "su_status (snd (fst (apply_plan (\<lambda>_ _ _ _. None) demo_instance demo_plan False demo_world))) = St_online"
  by code_simp

end
