(* ===== verification/RateLimit.thy ===== *)
theory RateLimit
  imports Rows
begin

text \<open>
  backend/app/ratelimit.py: the sliding-window limiter behind the login endpoints. The state
  is the two dictionaries of the class; \<open>now\<close> is the monotonic clock in microseconds, and a
  call is one step because the class's lock is held for all of it.
\<close>

record limiter =
  rl_max_attempts :: nat
  rl_window_seconds :: int
  rl_lockout_seconds :: int
  rl_failures :: "(string \<times> int list) list"
  rl_locked_until :: "(string \<times> int) list"

definition new_limiter :: "nat \<Rightarrow> int \<Rightarrow> int \<Rightarrow> limiter" where
  "new_limiter m w l =
     \<lparr>rl_max_attempts = m, rl_window_seconds = w, rl_lockout_seconds = l, rl_failures = [], rl_locked_until = []\<rparr>"

definition forget :: "string \<Rightarrow> limiter \<Rightarrow> limiter" where
  "forget k l = l\<lparr>rl_failures := dict_del k (rl_failures l), rl_locked_until := dict_del k (rl_locked_until l)\<rparr>"

definition retry_after :: "int \<Rightarrow> string \<Rightarrow> limiter \<Rightarrow> int \<times> limiter" where
  "retry_after now k l =
     (case map_of (rl_locked_until l) k of
        None \<Rightarrow> (0, l)
      | Some until \<Rightarrow>
          let remaining = until - now in
          if remaining \<le> 0 then (0, forget k l) else (remaining div second_us + 1, l))"

definition attempts_of :: "string \<Rightarrow> limiter \<Rightarrow> int list" where
  "attempts_of k l = (case map_of (rl_failures l) k of None \<Rightarrow> [] | Some ts \<Rightarrow> ts)"

definition record_failure :: "int \<Rightarrow> string \<Rightarrow> limiter \<Rightarrow> limiter" where
  "record_failure now k l =
     (let cutoff = now - rl_window_seconds l * second_us;
          attempts = dropWhile (\<lambda>t. t < cutoff) (attempts_of k l @ [now])
      in if length attempts \<ge> rl_max_attempts l
         then l\<lparr>rl_failures := dict_set k [] (rl_failures l),
                rl_locked_until := dict_set k (now + rl_lockout_seconds l * second_us) (rl_locked_until l)\<rparr>
         else l\<lparr>rl_failures := dict_set k attempts (rl_failures l)\<rparr>)"

definition record_success :: "string \<Rightarrow> limiter \<Rightarrow> limiter" where
  "record_success k l = forget k l"

definition reset_limiter :: "limiter \<Rightarrow> limiter" where
  "reset_limiter l = l\<lparr>rl_failures := [], rl_locked_until := []\<rparr>"

section \<open>Facts\<close>

definition locked_until :: "string \<Rightarrow> limiter \<Rightarrow> int option" where
  "locked_until k l = map_of (rl_locked_until l) k"

lemma attempts_forget: "attempts_of j (forget k l) = (if j = k then [] else attempts_of j l)"
  by (simp add: attempts_of_def forget_def)

lemma locked_forget: "locked_until j (forget k l) = (if j = k then None else locked_until j l)"
  by (simp add: locked_until_def forget_def)

text \<open>The failures inside the window that ends at \<open>now\<close>: the specification's view.\<close>

definition in_window :: "limiter \<Rightarrow> int \<Rightarrow> int list \<Rightarrow> int list" where
  "in_window l now ts = filter (\<lambda>t. now - rl_window_seconds l * second_us \<le> t) ts"

lemma sorted_dropWhile_filter: "sorted ts \<Longrightarrow> dropWhile (\<lambda>t. t < c) ts = filter (\<lambda>t. c \<le> t) (ts :: int list)"
proof (induction ts)
  case (Cons t ts)
  show ?case
  proof (cases "t < c")
    case True
    with Cons show ?thesis by simp
  next
    case False
    with Cons have "filter (\<lambda>t. c \<le> t) ts = ts" by (intro filter_True) force
    with False show ?thesis by simp
  qed
qed simp

lemma limiter_params:
  "rl_max_attempts (record_failure now k l) = rl_max_attempts l"
  "rl_window_seconds (record_failure now k l) = rl_window_seconds l"
  "rl_lockout_seconds (record_failure now k l) = rl_lockout_seconds l"
  by (simp_all add: record_failure_def Let_def)

lemma record_failure_other:
  "j \<noteq> k \<Longrightarrow> attempts_of j (record_failure now k l) = attempts_of j l"
  "j \<noteq> k \<Longrightarrow> locked_until j (record_failure now k l) = locked_until j l"
  by (simp_all add: record_failure_def Let_def attempts_of_def locked_until_def)

text \<open>A history of failures of one key, none of which has locked it, against the stored deque.\<close>

definition failures :: "string \<Rightarrow> int list \<Rightarrow> limiter \<Rightarrow> limiter" where
  "failures k ts l = fold (\<lambda>t. record_failure t k) ts l"

definition quiet_history :: "limiter \<Rightarrow> int list \<Rightarrow> bool" where
  "quiet_history l ts \<longleftrightarrow>
     (\<forall>n < length ts. length (in_window l (ts ! n) (take (Suc n) ts)) < rl_max_attempts l)"

lemma failures_snoc: "failures k (ts @ [t]) l = record_failure t k (failures k ts l)"
  by (simp add: failures_def)

lemma failures_params:
  "rl_max_attempts (failures k ts l) = rl_max_attempts l"
  "rl_window_seconds (failures k ts l) = rl_window_seconds l"
  "rl_lockout_seconds (failures k ts l) = rl_lockout_seconds l"
  by (induction ts rule: rev_induct) (simp_all add: failures_snoc limiter_params, simp_all add: failures_def)

lemma quiet_history_snoc:
  "quiet_history l (ts @ [t]) \<longleftrightarrow> quiet_history l ts \<and> length (in_window l t (ts @ [t])) < rl_max_attempts l"
  by (auto simp: quiet_history_def nth_append less_Suc_eq)

lemma in_window_again:
  "t \<le> u \<Longrightarrow> in_window l u (in_window l t ts @ rest) = in_window l u (ts @ rest)"
  by (auto simp: in_window_def intro: filter_cong)

lemma failures_step:
  assumes "sorted (ts @ [t])" and at: "attempts_of k (failures k ts l) = (if ts = [] then [] else in_window l (last ts) ts)"
  shows "dropWhile (\<lambda>u. u < t - rl_window_seconds l * second_us) (attempts_of k (failures k ts l) @ [t]) =
    in_window l t (ts @ [t])"
proof (cases "ts = []")
  case True
  then show ?thesis using at by (simp add: in_window_def)
next
  case False
  then have "last ts \<le> t" using assms(1) by (auto simp: sorted_append)
  have "sorted (in_window l (last ts) ts @ [t])"
    using assms(1) by (auto simp: in_window_def sorted_append sorted_wrt_filter)
  then show ?thesis
    using False at in_window_again [OF \<open>last ts \<le> t\<close>, of l ts "[t]"]
    by (simp add: sorted_dropWhile_filter) (simp add: in_window_def)
qed

lemma failures_state:
  assumes "sorted ts" and "quiet_history l ts" and "attempts_of k l = []" and "locked_until k l = None"
  shows "attempts_of k (failures k ts l) = (if ts = [] then [] else in_window l (last ts) ts) \<and>
    locked_until k (failures k ts l) = None"
  using assms(1,2)
proof (induction ts rule: rev_induct)
  case Nil
  then show ?case using assms by (simp add: failures_def)
next
  case (snoc t ts)
  then have ih: "attempts_of k (failures k ts l) = (if ts = [] then [] else in_window l (last ts) ts)"
    "locked_until k (failures k ts l) = None"
    by (auto simp: quiet_history_snoc sorted_append)
  have drop: "dropWhile (\<lambda>u. u < t - rl_window_seconds l * second_us) (attempts_of k (failures k ts l) @ [t]) =
      in_window l t (ts @ [t])"
    by (rule failures_step [OF snoc.prems(1) ih(1)])
  have "length (in_window l t (ts @ [t])) < rl_max_attempts l"
    using snoc.prems(2) by (simp add: quiet_history_snoc)
  then show ?case
    using ih(2) drop
    by (simp add: failures_snoc record_failure_def Let_def failures_params)
      (simp add: attempts_of_def locked_until_def)
qed

section \<open>Properties\<close>



text \<open>
  A locked key stays locked until its time: asked before, the limiter names a positive number
  of seconds and changes nothing, and a caller who waits that many seconds is let through, with
  its record wiped.
\<close>

theorem lockout_honoured:
  assumes "locked_until k l = Some u" and "now < u"
  shows "fst (retry_after now k l) > 0 \<and> snd (retry_after now k l) = l \<and>
    (\<forall>later. now + fst (retry_after now k l) * second_us \<le> later \<longrightarrow>
       retry_after later k l = (0, forget k l))"
proof -
  have "(u - now) div second_us \<ge> 0" using assms(2) by (simp add: second_us_def)
  moreover have "u \<le> now + ((u - now) div second_us + 1) * second_us"
    by (simp add: second_us_def)
  ultimately show ?thesis using assms by (auto simp: retry_after_def Let_def locked_until_def)
qed

theorem lockout_honoured_witness:
  "retry_after 5000000 ''k'' (failures ''k'' [0] (new_limiter 1 60 3)) =
    (0, forget ''k'' (failures ''k'' [0] (new_limiter 1 60 3)))"
proof -
  have "locked_until ''k'' (failures ''k'' [0] (new_limiter 1 60 3)) = Some 3000000" by code_simp
  from lockout_honoured [OF this, of 2500000] show ?thesis
    by (simp add: retry_after_def failures_def record_failure_def new_limiter_def attempts_of_def second_us_def)
qed

end
