(* ===== verification/Config.thy ===== *)
theory Config
  imports Prelude
begin

text \<open>
  backend/app/config.py: the settings the modelled code reads, the parsers of the two settings
  that have a syntax of their own (the maintenance window and the scope of the AdGuard
  compatible API) and the check that runs before the application starts. Durations keep the
  unit of the setting. A fatal misconfiguration is a constructor of \<open>problem\<close> instead of its
  message; whether a Fernet key is well formed is the cryptography library's answer.
\<close>

record settings =
  cf_app_name :: string
  cf_database_url :: string
  cf_db_pool_size :: int
  cf_db_max_overflow :: int
  cf_db_pool_timeout_seconds :: int
  cf_secret_key :: string
  cf_fernet_key :: string
  cf_access_token_expire_minutes :: int
  cf_jwt_algorithm :: string
  cf_allow_insecure_config :: bool
  cf_admin_username :: string
  cf_admin_password :: string
  cf_public_base_url :: string
  cf_provision_token_ttl_hours :: int
  cf_adguard_default_http_port :: int
  cf_adguard_default_https_port :: int
  cf_adguard_dns_port :: int
  cf_agent_bin_dir :: string
  cf_pki_dir :: string
  cf_agent_timeout_seconds :: int
  cf_agent_default_port :: int
  cf_agent_auto_update :: bool
  cf_agent_update_retry_minutes :: int
  cf_adguard_image :: string
  cf_dnsdist_image :: string
  cf_adguard_colocated_dns_port :: int
  cf_sync_interval_seconds :: int
  cf_sync_max_concurrency :: int
  cf_adguard_timeout_seconds :: int
  cf_default_prune :: bool
  cf_auto_update_enabled :: bool
  cf_auto_update_default :: bool
  cf_auto_update_interval_seconds :: int
  cf_auto_update_window :: string
  cf_auto_update_retry_hours :: int
  cf_auto_update_restart_timeout_seconds :: int
  cf_auto_update_max_concurrency :: int
  cf_metrics_enabled :: bool
  cf_metrics_retention_days :: int
  cf_metrics_rollup_retention_days :: int
  cf_metrics_token :: string
  cf_login_max_attempts :: nat
  cf_login_window_seconds :: int
  cf_login_lockout_seconds :: int
  cf_ui_proxy_enabled :: bool
  cf_proxy_token_ttl_minutes :: int
  cf_ha_compat_enabled :: bool
  cf_ha_compat_scope :: string
  cf_ha_compat_cache_seconds :: int
  cf_oidc_enabled :: bool
  cf_oidc_issuer :: string
  cf_oidc_client_id :: string
  cf_oidc_client_secret :: string
  cf_oidc_display_name :: string
  cf_oidc_scopes :: string
  cf_oidc_pkce :: bool
  cf_oidc_redirect_uri :: string
  cf_frontend_url :: string
  cf_oidc_default_role :: string
  cf_oidc_admin_group :: string
  cf_oidc_allow_username_linking :: bool
  cf_cors_origins :: string

definition default_settings :: settings where
  "default_settings =
     \<lparr>cf_app_name = ''AdGuard Admin'', cf_database_url = ''sqlite:///./adguard_admin.db'',
      cf_db_pool_size = 10, cf_db_max_overflow = 20, cf_db_pool_timeout_seconds = 10,
      cf_secret_key = ''change-me-please-generate-a-long-random-string'', cf_fernet_key = [],
      cf_access_token_expire_minutes = 720, cf_jwt_algorithm = ''HS256'',
      cf_allow_insecure_config = False, cf_admin_username = ''admin'', cf_admin_password = ''admin'',
      cf_public_base_url = ''http://localhost:8000'', cf_provision_token_ttl_hours = 24,
      cf_adguard_default_http_port = 3000, cf_adguard_default_https_port = 443,
      cf_adguard_dns_port = 53, cf_agent_bin_dir = ''/app/agent-bin'', cf_pki_dir = [],
      cf_agent_timeout_seconds = 15, cf_agent_default_port = 8443, cf_agent_auto_update = True,
      cf_agent_update_retry_minutes = 30, cf_adguard_image = ''adguard/adguardhome:latest'',
      cf_dnsdist_image = ''powerdns/dnsdist-20:2.0.8'', cf_adguard_colocated_dns_port = 5335,
      cf_sync_interval_seconds = 60, cf_sync_max_concurrency = 8, cf_adguard_timeout_seconds = 10,
      cf_default_prune = False, cf_auto_update_enabled = True, cf_auto_update_default = False,
      cf_auto_update_interval_seconds = 3600, cf_auto_update_window = [],
      cf_auto_update_retry_hours = 6, cf_auto_update_restart_timeout_seconds = 300,
      cf_auto_update_max_concurrency = 1, cf_metrics_enabled = True, cf_metrics_retention_days = 7,
      cf_metrics_rollup_retention_days = 90, cf_metrics_token = [], cf_login_max_attempts = 10,
      cf_login_window_seconds = 300, cf_login_lockout_seconds = 300, cf_ui_proxy_enabled = True,
      cf_proxy_token_ttl_minutes = 60, cf_ha_compat_enabled = True, cf_ha_compat_scope = ''fleet'',
      cf_ha_compat_cache_seconds = 15, cf_oidc_enabled = False, cf_oidc_issuer = [],
      cf_oidc_client_id = [], cf_oidc_client_secret = [], cf_oidc_display_name = ''SSO'',
      cf_oidc_scopes = ''openid email profile'', cf_oidc_pkce = True,
      cf_oidc_redirect_uri = ''http://localhost:8000/api/auth/oidc/callback'',
      cf_frontend_url = ''http://localhost:5173'', cf_oidc_default_role = ''viewer'',
      cf_oidc_admin_group = [], cf_oidc_allow_username_linking = False,
      cf_cors_origins = ''http://localhost:5173,http://localhost:8000''\<rparr>"

section \<open>The maintenance window\<close>

definition minutes_of :: "string \<Rightarrow> int option" where
  "minutes_of hhmm =
     (case py_split (CHR '':'') (py_strip hhmm) of
        [hours, minutes] \<Rightarrow>
          (case (py_int hours, py_int minutes) of
             (Some h, Some m) \<Rightarrow> if 0 \<le> h \<and> h \<le> 23 \<and> 0 \<le> m \<and> m \<le> 59 then Some (h * 60 + m) else None
           | _ \<Rightarrow> None)
      | _ \<Rightarrow> None)"

datatype 'a parsed = Malformed | Parsed 'a

definition parse_window :: "string \<Rightarrow> (int \<times> int) option parsed" where
  "parse_window value =
     (let text = py_strip value in
      if text = [] then Parsed None
      else case py_partition (CHR ''-'') text of
        (_, False, _) \<Rightarrow> Malformed
      | (start_s, True, end_s) \<Rightarrow>
          (case (minutes_of start_s, minutes_of end_s) of
             (Some start, Some end) \<Rightarrow> if start = end then Malformed else Parsed (Some (start, end))
           | _ \<Rightarrow> Malformed))"

section \<open>The scope of the compatible API\<close>

datatype compat_scope = Scope_fleet | Scope_zone string | Scope_server string

definition parse_compat_scope :: "string \<Rightarrow> compat_scope parsed" where
  "parse_compat_scope value =
     (let text = py_strip value in
      if text = [] \<or> py_lower text = ''fleet'' then Parsed Scope_fleet
      else case py_partition (CHR '':'') text of
        (kind, _, selector) \<Rightarrow>
          (let kind = py_lower (py_strip kind); selector = py_strip selector in
           if selector = [] then Malformed
           else if kind = ''zone'' then Parsed (Scope_zone selector)
           else if kind = ''server'' then Parsed (Scope_server selector)
           else Malformed))"

section \<open>The startup check\<close>

definition placeholder_secrets :: "string list" where
  "placeholder_secrets =
     [[], ''change-me-please-generate-a-long-random-string'', ''changeme'', ''change-me'', ''secret'',
      ''supersecret'']"

definition min_secret_key_length :: nat where
  "min_secret_key_length = 32"

definition cors_origin_list :: "settings \<Rightarrow> string list" where
  "cors_origin_list s =
     map py_strip (filter (\<lambda>x. py_strip x \<noteq> []) (py_split (CHR '','') (cf_cors_origins s)))"

datatype problem =
    Secret_placeholder
  | Secret_short nat
  | Fernet_missing
  | Fernet_invalid
  | Admin_password_default
  | Cors_wildcard
  | Window_invalid
  | Scope_invalid
  | Role_invalid string
  | Oidc_incomplete

definition config_problems :: "(string \<Rightarrow> bool) \<Rightarrow> settings \<Rightarrow> problem list" where
  "config_problems fernet_ok s =
     (if py_lower (py_strip (cf_secret_key s)) \<in> set placeholder_secrets then [Secret_placeholder]
      else if length (cf_secret_key s) < min_secret_key_length then [Secret_short (length (cf_secret_key s))]
      else []) @
     (if py_strip (cf_fernet_key s) = [] then [Fernet_missing]
      else if fernet_ok (cf_fernet_key s) then [] else [Fernet_invalid]) @
     (if cf_admin_password s = ''admin'' then [Admin_password_default] else []) @
     (if ''*'' \<in> set (cors_origin_list s) then [Cors_wildcard] else []) @
     (case parse_window (cf_auto_update_window s) of Malformed \<Rightarrow> [Window_invalid] | _ \<Rightarrow> []) @
     (case parse_compat_scope (cf_ha_compat_scope s) of Malformed \<Rightarrow> [Scope_invalid] | _ \<Rightarrow> []) @
     (if cf_oidc_default_role s \<in> {''admin'', ''editor'', ''viewer''} then []
      else [Role_invalid (cf_oidc_default_role s)]) @
     (if cf_oidc_enabled s \<and> \<not> (cf_oidc_issuer s \<noteq> [] \<and> cf_oidc_client_id s \<noteq> [] \<and> cf_oidc_client_secret s \<noteq> [])
      then [Oidc_incomplete] else [])"

section \<open>Facts\<close>

lemma minutes_of_range: "minutes_of t = Some m \<Longrightarrow> 0 \<le> m \<and> m < 1440"
  by (auto simp: minutes_of_def split: list.splits option.splits if_splits)

lemma parse_window_range:
  "parse_window v = Parsed (Some (s, e)) \<Longrightarrow> 0 \<le> s \<and> s < 1440 \<and> 0 \<le> e \<and> e < 1440 \<and> s \<noteq> e"
  by (auto simp: parse_window_def Let_def split: prod.splits bool.splits option.splits if_splits
      dest!: minutes_of_range)

text \<open>Two digits, as the interface shows a time of day.\<close>

definition two_digits :: "nat \<Rightarrow> string" where
  "two_digits n = [digit_char (n div 10), digit_char (n mod 10)]"

definition show_time :: "nat \<Rightarrow> string" where
  "show_time m = two_digits (m div 60) @ '':'' @ two_digits (m mod 60)"

lemma two_digits_int: "n < 100 \<Longrightarrow> py_int (two_digits n) = Some (int n)"
proof -
  assume n: "n < 100"
  then have d: "n div 10 < 10" "n mod 10 < 10" by auto
  then have "list_all is_digit_char (two_digits n)" by (simp add: two_digits_def is_digit_digit_char)
  then have "py_int (two_digits n) = Some (int (nat_of_digits 0 (two_digits n)))"
    by (rule py_int_digits) (simp add: two_digits_def)
  with d show ?thesis by (simp add: two_digits_def digit_char_value)
qed

lemma two_digits_clean:
  "n < 100 \<Longrightarrow> c \<in> set (two_digits n) \<Longrightarrow> c \<noteq> CHR '':'' \<and> c \<noteq> CHR ''-'' \<and> \<not> py_isspace c"
proof -
  assume n: "n < 100" and c: "c \<in> set (two_digits n)"
  then have "n div 10 < 10" by simp
  with c have "is_digit_char c" by (auto simp: two_digits_def is_digit_digit_char)
  then show ?thesis by (auto simp: digit_not_space is_digit_char_def)
qed

lemma show_time_clean:
  assumes "m < 1440" and "c \<in> set (show_time m)"
  shows "c \<noteq> CHR ''-'' \<and> \<not> py_isspace c"
proof -
  have "m div 60 < 100" "m mod 60 < 100" using assms(1) by auto
  moreover have "\<not> py_isspace (CHR '':'')" by code_simp
  ultimately show ?thesis using assms(2) two_digits_clean [of "m div 60" c] two_digits_clean [of "m mod 60" c]
    by (auto simp: show_time_def)
qed

lemma clean_strip: "\<forall>c\<in>set s. \<not> py_isspace c \<Longrightarrow> py_strip s = s"
  by (rule strip_id) (cases s; auto)

lemma minutes_of_show: "m < 1440 \<Longrightarrow> minutes_of (show_time m) = Some (int m)"
proof -
  assume m: "m < 1440"
  then have d: "m div 60 < 100" "m mod 60 < 100" "m div 60 \<le> 23" "m mod 60 \<le> 59" by auto
  have "py_strip (show_time m) = show_time m" using show_time_clean [OF m] by (intro clean_strip) blast
  moreover have "py_split (CHR '':'') (show_time m) = [two_digits (m div 60), two_digits (m mod 60)]"
  proof -
    have "CHR '':'' \<notin> set (two_digits (m div 60))" "CHR '':'' \<notin> set (two_digits (m mod 60))"
      using two_digits_clean d by blast+
    then show ?thesis by (simp add: show_time_def py_split_at py_split_none)
  qed
  moreover have "int (m div 60) * 60 + int (m mod 60) = int m"
    by (metis div_mult_mod_eq of_nat_add of_nat_mult of_nat_numeral)
  ultimately show ?thesis using d by (simp add: minutes_of_def two_digits_int)
qed

section \<open>Properties\<close>

text \<open>
  A window written in the documented form is read back as the two times it names, for every
  pair of distinct times of day, including the windows that wrap midnight.
\<close>

theorem window_roundtrip:
  assumes "s < 1440" and "e < 1440" and "s \<noteq> e"
  shows "parse_window (show_time s @ ''-'' @ show_time e) = Parsed (Some (int s, int e))"
proof -
  let ?t = "show_time s @ ''-'' @ show_time e"
  have dash: "\<not> py_isspace (CHR ''-'')" by code_simp
  then have "py_strip ?t = ?t"
    using show_time_clean [OF assms(1)] show_time_clean [OF assms(2)] by (intro clean_strip) auto
  moreover have "py_partition (CHR ''-'') ?t = (show_time s, True, show_time e)"
    using show_time_clean [OF assms(1)] py_partition_at [of "CHR ''-''" "show_time s" "show_time e"] by auto
  ultimately show ?thesis
    using assms by (simp add: parse_window_def minutes_of_show)
qed

theorem window_roundtrip_witness:
  "parse_window (show_time 1380 @ ''-'' @ show_time 120) = Parsed (Some (1380, 120)) \<and>
    show_time 1380 = ''23:00''"
proof -
  have "show_time 1380 = ''23:00''" by code_simp
  with window_roundtrip [of 1380 120] show ?thesis by simp
qed

end
