(* ===== verification/Auth.thy ===== *)
theory Auth
  imports RateLimit Config Clients
begin

text \<open>
  Authentication and accounts: backend/app/deps.py, the token half of backend/app/security.py
  and the handlers of backend/app/routers/auth.py and users.py. PyJWT, the password hash and
  Fernet are parameters; what is relied on of PyJWT is the named hypothesis \<open>jwt_ok\<close>: a token
  that has not expired decodes to the claims it was made from.
\<close>

section \<open>Tokens\<close>

record 't jwt =
  jw_encode :: "(string \<times> json) list \<Rightarrow> 't"
  jw_decode :: "int \<Rightarrow> 't \<Rightarrow> (string \<times> json) list option"

definition jwt_ok :: "'t jwt \<Rightarrow> bool" where
  "jwt_ok J \<longleftrightarrow>
     (\<forall>claims now e. map_of claims ''exp'' = Some (JInt e) \<longrightarrow> now < e * second_us \<longrightarrow>
        jw_decode J now (jw_encode J claims) = Some claims)"

definition minutes_from :: "int \<Rightarrow> int \<Rightarrow> int" where
  "minutes_from now minutes = (now + minutes * 60 * second_us) div second_us"

definition create_access_token :: "'t jwt \<Rightarrow> settings \<Rightarrow> int \<Rightarrow> string \<Rightarrow> (string \<times> json) list \<Rightarrow> 't" where
  "create_access_token J cfg now subject extra =
     jw_encode J (fold (\<lambda>(k, v). dict_set k v) extra
       [(''sub'', JStr subject), (''exp'', JInt (minutes_from now (cf_access_token_expire_minutes cfg))),
        (''iat'', JInt (now div second_us))])"

definition create_proxy_token :: "'t jwt \<Rightarrow> settings \<Rightarrow> int \<Rightarrow> int \<Rightarrow> int \<Rightarrow> int option \<Rightarrow> 't" where
  "create_proxy_token J cfg now server_id user_id minutes =
     (let ttl = (case minutes of None \<Rightarrow> cf_proxy_token_ttl_minutes cfg | Some m \<Rightarrow> m)
      in jw_encode J [(''typ'', JStr ''proxy''), (''psrv'', JInt server_id),
           (''sub'', JStr (show_int user_id)), (''exp'', JInt (minutes_from now ttl))])"

text \<open>\<open>int(claims["sub"])\<close>, \<open>None\<close> for the three exceptions the code names.\<close>

fun claim_int :: "json option \<Rightarrow> int option" where
  "claim_int (Some (JStr s)) = py_int s"
| "claim_int (Some (JInt i)) = Some i"
| "claim_int (Some (JBool b)) = Some (if b then 1 else 0)"
| "claim_int (Some (JNum r)) = json_int (JNum r)"
| "claim_int _ = None"

definition decode_proxy_token :: "'t jwt \<Rightarrow> int \<Rightarrow> 't \<Rightarrow> int \<Rightarrow> int option" where
  "decode_proxy_token J now token server_id =
     (case jw_decode J now token of
        None \<Rightarrow> None
      | Some claims \<Rightarrow>
          if map_of claims ''typ'' \<noteq> Some (JStr ''proxy'') \<or> map_of claims ''psrv'' \<noteq> Some (JInt server_id)
          then None else claim_int (map_of claims ''sub''))"

abbreviation get_user :: "db \<Rightarrow> int \<Rightarrow> user option" where
  "get_user d i \<equiv> row_get u_id i (db_users d)"

definition credentials_error :: http_error where
  "credentials_error = HTTPException 401 ''Could not validate credentials''"

text \<open>A subject that is not a number is not caught: \<open>int(user_id)\<close> is outside the \<open>try\<close>.\<close>

definition get_current_user :: "'t jwt \<Rightarrow> int \<Rightarrow> 't \<Rightarrow> db \<Rightarrow> user http" where
  "get_current_user J now token d =
     (case jw_decode J now token of
        None \<Rightarrow> Inl credentials_error
      | Some payload \<Rightarrow>
          (case map_of payload ''sub'' of
             None \<Rightarrow> Inl credentials_error
           | Some JNull \<Rightarrow> Inl credentials_error
           | sub \<Rightarrow>
               (case claim_int sub of
                  None \<Rightarrow> Inl (HTTPException 500 ''Internal Server Error'')
                | Some i \<Rightarrow>
                    (case get_user d i of
                       None \<Rightarrow> Inl credentials_error
                     | Some u \<Rightarrow> if u_is_active u then Inr u else Inl credentials_error))))"

section \<open>Roles\<close>

fun role_rank :: "role \<Rightarrow> nat" where
  "role_rank Role_viewer = 0"
| "role_rank Role_editor = 1"
| "role_rank Role_admin = 2"

fun role_value :: "role \<Rightarrow> string" where
  "role_value Role_admin = ''admin''"
| "role_value Role_editor = ''editor''"
| "role_value Role_viewer = ''viewer''"

definition user_has_role :: "user \<Rightarrow> role \<Rightarrow> bool" where
  "user_has_role u minimum = (role_rank minimum \<le> role_rank (u_role u))"

definition require_role :: "role \<Rightarrow> user \<Rightarrow> user http" where
  "require_role minimum u =
     (if user_has_role u minimum then Inr u
      else Inl (HTTPException 403 (''Requires '' @ role_value minimum @ '' role or higher'')))"

section \<open>Password login\<close>

definition login_keys :: "string \<Rightarrow> string \<Rightarrow> string list" where
  "login_keys ip username = [''ip:'' @ ip, ''user:'' @ py_lower username]"

fun throttled :: "int \<Rightarrow> string list \<Rightarrow> limiter \<Rightarrow> int \<times> limiter" where
  "throttled now [] l = (0, l)"
| "throttled now (k # ks) l =
     (case retry_after now k l of (n, l') \<Rightarrow> if n \<noteq> 0 then (n, l') else throttled now ks l')"

definition fail_all :: "int \<Rightarrow> string list \<Rightarrow> limiter \<Rightarrow> limiter" where
  "fail_all now keys l = fold (\<lambda>k. record_failure now k) keys l"

definition find_username :: "db \<Rightarrow> string \<Rightarrow> user option" where
  "find_username d name = find (\<lambda>u. u_username u = name) (db_users d)"

definition truthy_text :: "string option \<Rightarrow> bool" where
  "truthy_text s = (s \<noteq> None \<and> s \<noteq> Some [])"

definition token_for :: "'t jwt \<Rightarrow> settings \<Rightarrow> int \<Rightarrow> user \<Rightarrow> 't" where
  "token_for J cfg now u =
     create_access_token J cfg now (show_int (u_id u))
       [(''role'', JStr (role_value (u_role u))), (''username'', JStr (u_username u))]"

definition login ::
  "(string \<Rightarrow> string \<Rightarrow> bool) \<Rightarrow> 't jwt \<Rightarrow> settings \<Rightarrow> int \<Rightarrow> string \<Rightarrow> string \<Rightarrow> string \<Rightarrow> db \<Rightarrow> limiter
   \<Rightarrow> 't http \<times> limiter" where
  "login verify J cfg now ip username password d l =
     (let keys = login_keys ip username in
      case throttled now keys l of
        (n, l) \<Rightarrow>
          if n \<noteq> 0 then (Inl (HTTPException 429 ''Too many failed login attempts. Try again later.''), l)
          else case find_username d username of
            None \<Rightarrow> (Inl (HTTPException 401 ''Incorrect username or password''), fail_all now keys l)
          | Some u \<Rightarrow>
              if \<not> truthy_text (u_hashed_password u) \<or> \<not> verify password (the (u_hashed_password u))
              then (Inl (HTTPException 401 ''Incorrect username or password''), fail_all now keys l)
              else if \<not> u_is_active u
              then (Inl (HTTPException 403 ''Account disabled''), fail_all now keys l)
              else (Inr (token_for J cfg now u), fold record_success keys l))"

section \<open>OIDC\<close>

definition claim_groups :: "json \<Rightarrow> string list" where
  "claim_groups raw =
     (case raw of
        JStr s \<Rightarrow> re_tokens s
      | JList xs \<Rightarrow> filter (\<lambda>g. g \<noteq> []) (map py_strip (List.map_filter json_text xs))
      | _ \<Rightarrow> [])"

definition in_admin_group :: "settings \<Rightarrow> string list \<Rightarrow> bool" where
  "in_admin_group cfg groups =
     (let wanted = py_strip (cf_oidc_admin_group cfg) in
      wanted \<noteq> [] \<and>
      list_ex (\<lambda>g. g = wanted \<or> (CHR ''@'' \<notin> set wanted \<and> fst (py_partition (CHR ''@'') g) = wanted)) groups)"

definition resolve_oidc_user :: "settings \<Rightarrow> db \<Rightarrow> string \<Rightarrow> string \<Rightarrow> user option" where
  "resolve_oidc_user cfg d sub username =
     (case find (\<lambda>u. u_oidc_sub u = Some sub) (db_users d) of
        Some u \<Rightarrow> Some u
      | None \<Rightarrow>
          if \<not> cf_oidc_allow_username_linking cfg then None
          else case find_username d username of
            None \<Rightarrow> None
          | Some c \<Rightarrow>
              if truthy_text (u_oidc_sub c) \<and> u_oidc_sub c \<noteq> Some sub then None
              else if truthy_text (u_hashed_password c) then None
              else Some c)"

definition role_of_value :: "string \<Rightarrow> role option" where
  "role_of_value s =
     (if s = ''admin'' then Some Role_admin else if s = ''editor'' then Some Role_editor
      else if s = ''viewer'' then Some Role_viewer else None)"

definition put_user :: "user \<Rightarrow> db \<Rightarrow> db" where
  "put_user u d = d\<lparr>db_users := row_put u_id u (db_users d)\<rparr>"

definition linked_user :: "bool \<Rightarrow> string \<Rightarrow> string option \<Rightarrow> user \<Rightarrow> user" where
  "linked_user admin sub email u =
     (let u = u\<lparr>u_oidc_sub := Some sub\<rparr>;
          u = (if truthy_text email then u\<lparr>u_email := email\<rparr> else u)
      in if admin then u\<lparr>u_role := Role_admin\<rparr> else u)"

definition nonempty :: "string option \<Rightarrow> string option" where
  "nonempty s = (if truthy_text s then s else None)"

definition first_text :: "string option \<Rightarrow> string option \<Rightarrow> string \<Rightarrow> string" where
  "first_text a b c = str_or a (str_or b c)"

text \<open>The account the subject ends up with, and the database with it.\<close>

definition oidc_account :: "settings \<Rightarrow> json \<Rightarrow> string \<Rightarrow> db \<Rightarrow> (user \<times> db) http" where
  "oidc_account cfg claims sub d =
     (let email = (if truthy (jget claims ''email_verified'') then json_text (jget claims ''email'') else None);
          username = first_text (json_text (jget claims ''preferred_username'')) email sub;
          admin = in_admin_group cfg (claim_groups (jget claims ''groups'')) in
      case resolve_oidc_user cfg d sub username of
        None \<Rightarrow>
          if find_username d username \<noteq> None
          then Inl (HTTPException 409 ''An account with this username already exists. An administrator must link it to your identity provider.'')
          else (case (if admin then Some Role_admin else role_of_value (cf_oidc_default_role cfg)) of
            None \<Rightarrow> Inl (HTTPException 500 ''Internal Server Error'')
          | Some r \<Rightarrow>
              let u = \<lparr>u_id = next_id u_id (db_users d), u_username = username, u_email = email,
                       u_hashed_password = None, u_role = r, u_is_active = True, u_oidc_sub = Some sub\<rparr>
              in Inr (u, d\<lparr>db_users := db_users d @ [u]\<rparr>))
      | Some u \<Rightarrow> let u' = linked_user admin sub email u in Inr (u', put_user u' d))"

definition oidc_callback :: "'t jwt \<Rightarrow> settings \<Rightarrow> int \<Rightarrow> json \<Rightarrow> db \<Rightarrow> 't http \<times> db" where
  "oidc_callback J cfg now claims d =
     (case nonempty (json_text (jget claims ''sub'')) of
        None \<Rightarrow> (Inl (HTTPException 400 ''OIDC response missing subject''), d)
      | Some sub \<Rightarrow>
          (case oidc_account cfg claims sub d of
             Inl e \<Rightarrow> (Inl e, d)
           | Inr (u, d') \<Rightarrow>
               if u_is_active u then (Inr (token_for J cfg now u), d')
               else (Inl (HTTPException 403 ''Account disabled''), d')))"

section \<open>Accounts\<close>

record user_create =
  uc_username :: string
  uc_password :: string
  uc_email :: "string option"
  uc_role :: role

record user_update =
  uu_email :: "string option option"
  uu_role :: "role option option"
  uu_is_active :: "bool option option"
  uu_password :: "string option option"

definition create_user :: "(string \<Rightarrow> string) \<Rightarrow> user_create \<Rightarrow> db \<Rightarrow> db http" where
  "create_user hash p d =
     (if find_username d (uc_username p) \<noteq> None then Inl (HTTPException 409 ''Username already exists'')
      else Inr (d\<lparr>db_users := row_add u_id
        (\<lambda>i. \<lparr>u_id = i, u_username = uc_username p, u_email = uc_email p,
              u_hashed_password = Some (hash (uc_password p)), u_role = uc_role p, u_is_active = True,
              u_oidc_sub = None\<rparr>) (db_users d)\<rparr>))"

definition update_user :: "(string \<Rightarrow> string) \<Rightarrow> user \<Rightarrow> int \<Rightarrow> user_update \<Rightarrow> db \<Rightarrow> db http" where
  "update_user hash admin i p d =
     (case get_user d i of
        None \<Rightarrow> Inl (HTTPException 404 ''User not found'')
      | Some u \<Rightarrow>
          let u1 = (case uu_password p of
                      Some (Some pw) \<Rightarrow> if pw \<noteq> [] then u\<lparr>u_hashed_password := Some (hash pw)\<rparr> else u
                    | _ \<Rightarrow> u) in
          if u_id u = u_id admin \<and>
             ((case uu_role p of None \<Rightarrow> False | Some r \<Rightarrow> r \<noteq> Some (u_role u)) \<or> uu_is_active p = Some (Some False))
          then Inl (HTTPException 400 ''You cannot change your own role or disable yourself'')
          else (case (patch (uu_role p) (u_role u), patch (uu_is_active p) (u_is_active u)) of
            (Some r, Some a) \<Rightarrow>
              Inr (put_user (u1\<lparr>u_email := patch_null (uu_email p) (u_email u), u_role := r, u_is_active := a\<rparr>) d)
          | _ \<Rightarrow> Inl (HTTPException 500 ''Internal Server Error'')))"

definition delete_user :: "user \<Rightarrow> int \<Rightarrow> db \<Rightarrow> db http" where
  "delete_user admin i d =
     (case get_user d i of
        None \<Rightarrow> Inl (HTTPException 404 ''User not found'')
      | Some u \<Rightarrow>
          if u_id u = u_id admin then Inl (HTTPException 400 ''You cannot delete yourself'')
          else Inr (d\<lparr>db_users := row_del u_id i (db_users d)\<rparr>))"

section \<open>Secrets at rest\<close>

text \<open>Fernet under the configured key; \<open>None\<close> is its \<open>InvalidToken\<close>.\<close>

record fernet =
  fe_encrypt :: "string \<Rightarrow> string \<Rightarrow> string"
  fe_decrypt :: "string \<Rightarrow> string \<Rightarrow> string option"

definition encrypt_secret :: "fernet \<Rightarrow> settings \<Rightarrow> string option \<Rightarrow> exn + string option" where
  "encrypt_secret F cfg plaintext =
     (if \<not> truthy_text plaintext then Inr None
      else if cf_fernet_key cfg = [] then Inl (PyError ''FERNET_KEY is not set; cannot store server credentials securely.'')
      else Inr (Some (fe_encrypt F (cf_fernet_key cfg) (the plaintext))))"

definition decrypt_secret :: "fernet \<Rightarrow> settings \<Rightarrow> string option \<Rightarrow> string option" where
  "decrypt_secret F cfg token =
     (if \<not> truthy_text token then None
      else if cf_fernet_key cfg = [] then None
      else fe_decrypt F (cf_fernet_key cfg) (the token))"

section \<open>Facts\<close>

definition open_at :: "int \<Rightarrow> string \<Rightarrow> limiter \<Rightarrow> bool" where
  "open_at now k l = (case locked_until k l of None \<Rightarrow> True | Some u \<Rightarrow> u \<le> now)"

lemma retry_after_cases:
  "retry_after now k l = (n, l') \<Longrightarrow>
     (n = 0 \<longleftrightarrow> open_at now k l) \<and> 0 \<le> n \<and> (\<forall>j. open_at now j l' = open_at now j l) \<and> (n \<noteq> 0 \<longrightarrow> l' = l)"
proof -
  assume run: "retry_after now k l = (n, l')"
  show ?thesis
  proof (cases "map_of (rl_locked_until l) k")
    case None
    with run show ?thesis by (auto simp: retry_after_def open_at_def locked_until_def)
  next
    case (Some u)
    show ?thesis
    proof (cases "u - now \<le> 0")
      case True
      then have "n = 0" and l': "l' = forget k l" using run Some by (simp_all add: retry_after_def)
      moreover have "open_at now k l" using True Some by (simp add: open_at_def locked_until_def)
      moreover have "open_at now j l' = open_at now j l" for j
        using True Some l' by (cases "j = k") (simp_all add: open_at_def locked_forget, simp add: locked_until_def)
      ultimately show ?thesis by simp
    next
      case False
      then have n: "n = (u - now) div second_us + 1" and l': "l' = l" using run Some by (simp_all add: retry_after_def)
      have "0 \<le> (u - now) div second_us" using False by (simp add: second_us_def)
      with n l' False Some show ?thesis by (simp add: open_at_def locked_until_def)
    qed
  qed
qed

lemma throttled_open:
  "throttled now ks l = (n, l') \<Longrightarrow> (n = 0 \<longleftrightarrow> list_all (\<lambda>k. open_at now k l) ks)"
proof (induction ks arbitrary: l)
  case (Cons k ks)
  obtain m l1 where m: "retry_after now k l = (m, l1)" by fastforce
  note r = retry_after_cases [OF m]
  show ?case
  proof (cases "m = 0")
    case True
    with Cons m have "n = 0 \<longleftrightarrow> list_all (\<lambda>k. open_at now k l1) ks" by simp
    with r True show ?thesis by (simp add: list_all_iff)
  next
    case False
    with Cons.prems m r show ?thesis by auto
  qed
qed simp

lemma login_Inr:
  assumes "login verify J cfg now ip username password d l = (Inr token, l')"
  shows "\<exists>u. find_username d username = Some u \<and> u_is_active u \<and> truthy_text (u_hashed_password u) \<and>
    verify password (the (u_hashed_password u)) \<and> token = token_for J cfg now u \<and>
    list_all (\<lambda>k. open_at now k l) (login_keys ip username) \<and>
    (\<forall>k \<in> set (login_keys ip username). attempts_of k l' = [] \<and> locked_until k l' = None)"
proof -
  obtain n l1 where n: "throttled now (login_keys ip username) l = (n, l1)" by fastforce
  with assms have "n = 0" by (auto simp: login_def Let_def split: if_splits)
  then have op: "list_all (\<lambda>k. open_at now k l) (login_keys ip username)" using throttled_open [OF n] by simp
  obtain u where "find_username d username = Some u" and rest: "u_is_active u" "truthy_text (u_hashed_password u)"
    "verify password (the (u_hashed_password u))" "token = token_for J cfg now u"
    "l' = fold record_success (login_keys ip username) l1"
    using assms n \<open>n = 0\<close> by (auto simp: login_def Let_def split: option.splits if_splits)
  moreover have "attempts_of k l' = [] \<and> locked_until k l' = None" if "k \<in> set (login_keys ip username)" for k
    using that rest(5) by (auto simp: login_keys_def record_success_def attempts_forget locked_forget)
  ultimately show ?thesis using op by blast
qed

lemma find_username_row: "find_username d name = Some u \<Longrightarrow> u \<in> set (db_users d) \<and> u_username u = name"
  by (auto simp: find_username_def find_Some_iff)

lemma resolve_oidc_user_safe:
  "resolve_oidc_user cfg d sub username = Some u \<Longrightarrow>
     u \<in> set (db_users d) \<and>
     (u_oidc_sub u = Some sub \<or>
      (cf_oidc_allow_username_linking cfg \<and> u_username u = username \<and> \<not> truthy_text (u_hashed_password u) \<and>
       \<not> truthy_text (u_oidc_sub u)))"
  by (auto simp: resolve_oidc_user_def find_Some_iff split: option.splits if_splits dest: find_username_row)

lemma linked_user_fields:
  "u_id (linked_user admin sub email u) = u_id u" "u_username (linked_user admin sub email u) = u_username u"
  "u_hashed_password (linked_user admin sub email u) = u_hashed_password u"
  "u_role (linked_user admin sub email u) = (if admin then Role_admin else u_role u)"
  "u_is_active (linked_user admin sub email u) = u_is_active u"
  "u_oidc_sub (linked_user admin sub email u) = Some sub"
  by (simp_all add: linked_user_def Let_def)

lemma get_user_put: "get_user (put_user u d) i = (if i = u_id u \<and> get_user d i \<noteq> None then Some u else get_user d i)"
  by (simp add: put_user_def row_get_put)

lemma update_user_row:
  assumes "update_user hash admin i p d = Inr d'"
  shows "\<exists>u v. get_user d i = Some u \<and> u_id v = u_id u \<and> d' = put_user v d"
proof -
  have ex: "\<exists>v. u_id v = u_id u \<and> put_user w d = put_user v d" if "u_id w = u_id u" for u w
    using that by blast
  show ?thesis
    using assms by (auto simp: update_user_def Let_def intro!: ex split: option.splits if_splits)
qed

section \<open>Properties\<close>

text \<open>
  C10. A password login hands out a token only for an active local account whose password was
  verified, while neither the source address nor the account name is locked out; it then wipes
  the failure record of both.
\<close>

theorem login_sound:
  assumes "login verify J cfg now ip username password d l = (Inr token, l')"
  shows "\<exists>u. u \<in> set (db_users d) \<and> u_username u = username \<and> u_is_active u \<and>
    verify password (the (u_hashed_password u)) \<and> token = token_for J cfg now u \<and>
    open_at now (''ip:'' @ ip) l \<and> open_at now (''user:'' @ py_lower username) l"
  using login_Inr [OF assms] find_username_row by (fastforce simp: login_keys_def)

definition sample_user :: user where
  "sample_user = \<lparr>u_id = 1, u_username = ''root'', u_email = None, u_hashed_password = Some ''secret'',
     u_role = Role_admin, u_is_active = True, u_oidc_sub = None\<rparr>"

definition plain_jwt :: "string jwt" where
  "plain_jwt = \<lparr>jw_encode = (\<lambda>_. ''token''), jw_decode = (\<lambda>_ _. None)\<rparr>"

theorem login_sound_witness:
  "fst (login (=) plain_jwt default_settings 0 ''10.0.0.9'' ''root'' ''secret''
     (empty_db\<lparr>db_users := [sample_user]\<rparr>) (new_limiter 3 60 300)) = Inr ''token'' \<and>
   sample_user \<in> set [sample_user]"
proof -
  let ?run = "login (=) plain_jwt default_settings 0 ''10.0.0.9'' ''root'' ''secret''
     (empty_db\<lparr>db_users := [sample_user]\<rparr>) (new_limiter 3 60 300)"
  have "fst ?run = Inr ''token''" by code_simp
  then obtain l' where run: "?run = (Inr ''token'', l')" by (metis prod.collapse)
  from login_sound [OF run] run show ?thesis by auto
qed

text \<open>
  C36. Signing in through the identity provider never takes over a local account: the account a
  token is issued for is a new one, or one already bound to that subject, or, with linking
  switched on, an unbound account of that name without a password. Its role changes only to
  admin and only for a member of the configured group.
\<close>

theorem oidc_no_takeover:
  assumes "oidc_account cfg claims sub d = Inr (u', d')"
    and "get_user d (u_id u') = Some u" and "distinct (map u_id (db_users d))"
  shows "(u_oidc_sub u = Some sub \<or>
      cf_oidc_allow_username_linking cfg \<and> \<not> truthy_text (u_hashed_password u) \<and> \<not> truthy_text (u_oidc_sub u)) \<and>
    u_is_active u' = u_is_active u \<and> u_hashed_password u' = u_hashed_password u \<and>
    (u_role u' = u_role u \<or> u_role u' = Role_admin \<and> in_admin_group cfg (claim_groups (jget claims ''groups'')))"
proof -
  have row: "u \<in> set (db_users d)" "u_id u = u_id u'" using row_get_Some [OF assms(2)] by auto
  have fresh: "u_id u' \<noteq> next_id u_id (db_users d)"
    using next_id_fresh [of u_id "db_users d"] row by (metis imageI)
  obtain v email admin username where v: "resolve_oidc_user cfg d sub username = Some v"
    "u' = linked_user admin sub email v" "admin = in_admin_group cfg (claim_groups (jget claims ''groups''))"
    using assms(1) fresh by (auto simp: oidc_account_def Let_def split: option.splits if_splits)
  have "v = u"
    using resolve_oidc_user_safe [OF v(1)] v(2) row assms(3)
    by (metis distinct_map inj_onD linked_user_fields(1))
  with resolve_oidc_user_safe [OF v(1)] v show ?thesis by (auto simp: linked_user_fields)
qed

definition oidc_claims :: json where
  "oidc_claims = JObj [(''sub'', JStr ''s-1''), (''preferred_username'', JStr ''root'')]"

theorem oidc_no_takeover_witness:
  "oidc_account default_settings oidc_claims ''s-1''
     (empty_db\<lparr>db_users := [sample_user\<lparr>u_oidc_sub := Some ''s-1''\<rparr>]\<rparr>) =
   Inr (sample_user\<lparr>u_oidc_sub := Some ''s-1''\<rparr>, empty_db\<lparr>db_users := [sample_user\<lparr>u_oidc_sub := Some ''s-1''\<rparr>]\<rparr>) \<and>
   u_role sample_user = Role_admin"
proof -
  let ?u = "sample_user\<lparr>u_oidc_sub := Some ''s-1''\<rparr>" and ?d = "empty_db\<lparr>db_users := [sample_user\<lparr>u_oidc_sub := Some ''s-1''\<rparr>]\<rparr>"
  have run: "oidc_account default_settings oidc_claims ''s-1'' ?d = Inr (?u, ?d)" by code_simp
  have "get_user ?d (u_id ?u) = Some ?u" by code_simp
  from oidc_no_takeover [OF run this] run show ?thesis
    by (simp add: sample_user_def)
qed

text \<open>
  An administrator cannot lock themselves out: whatever they change or delete through the
  account handlers, their own account stays present, active and with its role.
\<close>

theorem admin_keeps_access:
  assumes "get_user d (u_id admin) = Some admin" and "u_is_active admin"
    and "update_user hash admin i p d = Inr d' \<or> delete_user admin i d = Inr d'"
  shows "\<exists>u. get_user d' (u_id admin) = Some u \<and> u_is_active u \<and> u_role u = u_role admin"
  using assms(3)
proof
  assume up: "update_user hash admin i p d = Inr d'"
  show ?thesis
  proof (cases "i = u_id admin")
    case True
    with up assms(1,2) show ?thesis
      by (auto simp: update_user_def Let_def get_user_put patch_def split: option.splits if_splits)
  next
    case False
    obtain u v where "get_user d i = Some u" "u_id v = u_id u" "d' = put_user v d"
      using update_user_row [OF up] by blast
    moreover from this have "u_id u = i" using row_get_Some by metis
    ultimately show ?thesis using False assms(1,2) by (auto simp: get_user_put)
  qed
next
  assume del: "delete_user admin i d = Inr d'"
  then obtain u where u: "get_user d i = Some u" "u_id u \<noteq> u_id admin" "d' = d\<lparr>db_users := row_del u_id i (db_users d)\<rparr>"
    by (auto simp: delete_user_def split: option.splits if_splits)
  then have "i \<noteq> u_id admin" using row_get_Some [OF u(1)] by auto
  with u(3) assms(1,2) show ?thesis by (auto simp: row_get_del)
qed

theorem admin_keeps_access_witness:
  "\<exists>d'. update_user id sample_user 1 \<lparr>uu_email = Some (Some ''a@b''), uu_role = None, uu_is_active = None, uu_password = None\<rparr>
     (empty_db\<lparr>db_users := [sample_user]\<rparr>) = Inr d' \<and>
     (\<exists>u. get_user d' 1 = Some u \<and> u_is_active u \<and> u_role u = Role_admin)"
proof -
  let ?p = "\<lparr>uu_email = Some (Some ''a@b''), uu_role = None, uu_is_active = None, uu_password = None\<rparr>"
  let ?d = "empty_db\<lparr>db_users := [sample_user]\<rparr>"
  obtain d' where d': "update_user id sample_user 1 ?p ?d = Inr d'"
    by (simp add: update_user_def row_get_def sample_user_def patch_def)
  have "get_user ?d (u_id sample_user) = Some sample_user" "u_is_active sample_user" by code_simp+
  from admin_keeps_access [OF this disjI1, OF d'] d' show ?thesis by (auto simp: sample_user_def)
qed

text \<open>
  The failure budget of a source address is renewed by every successful login: however many
  rounds of fewer than \<open>max_attempts\<close> failures, each followed by one login with an account of
  the attacker's own, the address is never locked, although the limiter is keyed by address so
  that one source cannot try many accounts.
\<close>

theorem source_budget_renewed:
  assumes "\<forall>ts \<in> set (rounds @ [now]). length ts < rl_max_attempts l"
    and "sorted now" and "locked_until k l = None" and "attempts_of k l = []"
  shows "locked_until k (failures k now (fold (\<lambda>ts l. record_success k (failures k ts l)) rounds l)) = None"
proof -
  let ?l = "fold (\<lambda>ts l. record_success k (failures k ts l)) rounds l"
  have clean: "locked_until k ?l = None \<and> attempts_of k ?l = []"
    using assms(3,4) by (cases rounds rule: rev_cases)
      (simp_all add: record_success_def attempts_forget locked_forget)
  have params: "rl_max_attempts ?l = rl_max_attempts l"
    by (induction rounds arbitrary: l) (simp_all add: record_success_def forget_def failures_params)
  have "quiet_history ?l now"
    unfolding quiet_history_def params
  proof (intro allI impI)
    fix n assume "n < length now"
    have "length (in_window ?l (now ! n) (take (Suc n) now)) \<le> length now"
      unfolding in_window_def by (rule order_trans [OF length_filter_le]) simp
    then show "length (in_window ?l (now ! n) (take (Suc n) now)) < rl_max_attempts l"
      using assms(1) by (meson le_less_trans in_set_conv_decomp)
  qed
  with failures_state [OF assms(2)] clean show ?thesis by blast
qed

theorem source_budget_renewed_witness:
  "locked_until ''ip'' (failures ''ip'' [7, 8] (fold (\<lambda>ts l. record_success ''ip'' (failures ''ip'' ts l)) (replicate 5 [1, 2])
     (new_limiter 3 60 300))) = None"
  by (rule source_budget_renewed) (simp_all add: new_limiter_def locked_until_def attempts_of_def)

text \<open>
  A proxy cookie is not confined to the proxy: until it expires, the token minted for one
  server's embedded interface is accepted as an API access token of the user, because nothing
  on the API side looks at its type.
\<close>

theorem proxy_token_is_access_token:
  assumes "jwt_ok J" and "get_user d i = Some u" and "u_is_active u" and "0 \<le> i"
    and "now < minutes_from minted (case ttl of None \<Rightarrow> cf_proxy_token_ttl_minutes cfg | Some m \<Rightarrow> m) * second_us"
  shows "get_current_user J now (create_proxy_token J cfg minted server i ttl) d = Inr u \<and>
    decode_proxy_token J now (create_proxy_token J cfg minted server i ttl) server = Some i \<and>
    (other \<noteq> server \<longrightarrow> decode_proxy_token J now (create_proxy_token J cfg minted server i ttl) other = None)"
proof -
  let ?claims = "[(''typ'', JStr ''proxy''), (''psrv'', JInt server), (''sub'', JStr (show_int i)),
    (''exp'', JInt (minutes_from minted (case ttl of None \<Rightarrow> cf_proxy_token_ttl_minutes cfg | Some m \<Rightarrow> m)))]"
  have dec: "jw_decode J now (jw_encode J ?claims) = Some ?claims"
    using assms(1,5) unfolding jwt_ok_def by simp
  have "py_int (show_int i) = Some i"
    using assms(4) py_int_digits [of "show_nat (nat i)"] show_nat_digits [of "nat i"]
    by (simp add: show_int_def list_all_iff nat_of_show_nat)
  with dec assms(2,3) show ?thesis
    by (simp add: get_current_user_def decode_proxy_token_def create_proxy_token_def Let_def)
qed

definition open_jwt :: "(string \<times> json) list jwt" where
  "open_jwt = \<lparr>jw_encode = (\<lambda>c. c),
     jw_decode = (\<lambda>now c. case map_of c ''exp'' of
       Some (JInt e) \<Rightarrow> if now < e * second_us then Some c else None | _ \<Rightarrow> None)\<rparr>"

theorem proxy_token_is_access_token_witness:
  "get_current_user open_jwt 5 (create_proxy_token open_jwt default_settings 0 9 1 None) (empty_db\<lparr>db_users := [sample_user]\<rparr>) =
    Inr sample_user"
proof -
  have ok: "jwt_ok open_jwt" by (simp add: jwt_ok_def open_jwt_def)
  have u: "get_user (empty_db\<lparr>db_users := [sample_user]\<rparr>) 1 = Some sample_user" "u_is_active sample_user"
    by code_simp+
  have "(5 :: int) < minutes_from 0 (case None of None \<Rightarrow> cf_proxy_token_ttl_minutes default_settings | Some m \<Rightarrow> m) * second_us"
    by code_simp
  from proxy_token_is_access_token [OF ok u _ this, of 9] show ?thesis by simp
qed

text \<open>
  Stored server passwords: what \<open>encrypt_secret\<close> returns decrypts to the password under a
  library that decrypts what it encrypted; a password is never stored without a key, and an
  empty one is stored as nothing.
\<close>

theorem secret_roundtrip:
  assumes "\<forall>key s. fe_decrypt F key (fe_encrypt F key s) = Some s \<and> fe_encrypt F key s \<noteq> []"
  shows "(\<forall>c. encrypt_secret F cfg p = Inr c \<longrightarrow> decrypt_secret F cfg c = nonempty p) \<and>
    (cf_fernet_key cfg = [] \<and> truthy_text p \<longleftrightarrow> (\<exists>x. encrypt_secret F cfg p = Inl x))"
  using assms by (cases p) (auto simp: encrypt_secret_def decrypt_secret_def truthy_text_def nonempty_def)

theorem secret_roundtrip_witness:
  "\<exists>c. encrypt_secret \<lparr>fe_encrypt = (\<lambda>k s. ''x'' @ s), fe_decrypt = (\<lambda>k s. Some (tl s))\<rparr>
       (default_settings\<lparr>cf_fernet_key := ''k''\<rparr>) (Some ''pw'') = Inr c \<and>
     decrypt_secret \<lparr>fe_encrypt = (\<lambda>k s. ''x'' @ s), fe_decrypt = (\<lambda>k s. Some (tl s))\<rparr>
       (default_settings\<lparr>cf_fernet_key := ''k''\<rparr>) c = Some ''pw''"
proof -
  let ?F = "\<lparr>fe_encrypt = (\<lambda>k s. ''x'' @ s), fe_decrypt = (\<lambda>k s. Some (tl s))\<rparr> :: fernet"
  have "\<forall>key s. fe_decrypt ?F key (fe_encrypt ?F key s) = Some s \<and> fe_encrypt ?F key s \<noteq> []" by simp
  from secret_roundtrip [OF this, of "default_settings\<lparr>cf_fernet_key := ''k''\<rparr>" "Some ''pw''"]
  show ?thesis by (simp add: encrypt_secret_def truthy_text_def nonempty_def)
qed

end
