(* ===== verification/Locks.thy ===== *)
theory Locks
  imports SyncFacts
begin

text \<open>
  Mutual exclusion between the reconcile passes (\<open>_reconcile_one\<close> in backend/app/sync.py) and
  the upgrades (\<open>update_server\<close> in backend/app/updater.py), which share one lock per server
  (\<open>lock_for\<close>). A job tests \<open>lock.locked()\<close> and takes the lock with no suspension point in
  between, so the two are one step of the relation; every \<open>await\<close> of the network phase lets
  the other jobs and the API handlers run. A state holds the database, the servers whose
  lock is taken and the phase of every job; the network phase is \<open>apply_plan\<close> over an
  arbitrary environment, and a handler may put any database in place of the current one.
\<close>

section \<open>Jobs\<close>

datatype job = Pass int bool | Upgrade int

fun job_server :: "job \<Rightarrow> int" where
  "job_server (Pass i dry) = i"
| "job_server (Upgrade i) = i"

datatype phase =
    Ready                                   \<comment> \<open>about to test the lock\<close>
  | Planned server_plan                     \<comment> \<open>lock held, snapshot taken, talking to the server\<close>
  | Applied sync_result server_updates      \<comment> \<open>lock held, outcome not written yet\<close>
  | Upgrading                               \<comment> \<open>lock held by an upgrade\<close>
  | Reported "sync_result option"           \<comment> \<open>finished; \<open>None\<close> if the server was deleted\<close>

fun holds_lock :: "phase \<Rightarrow> bool" where
  "holds_lock (Planned _) = True"
| "holds_lock (Applied _ _) = True"
| "holds_lock Upgrading = True"
| "holds_lock _ = False"

definition anonymous_result :: "int \<Rightarrow> sync_status \<Rightarrow> string \<Rightarrow> sync_result" where
  "anonymous_result i st msg =
     (init_result i (''server #'' @ show_int i))\<lparr>sr_status := st, sr_error := Some msg\<rparr>"

definition busy_result :: "int \<Rightarrow> sync_result" where
  "busy_result i = anonymous_result i St_unknown ''A sync for this server is already in progress.''"

record cycle =
  y_db :: db
  y_held :: "int list"
  y_jobs :: "(nat \<times> job \<times> phase) list"

definition set_phase :: "nat \<Rightarrow> job \<Rightarrow> phase \<Rightarrow> cycle \<Rightarrow> cycle" where
  "set_phase n j ph c = c\<lparr>y_jobs := dict_set n (j, ph) (y_jobs c)\<rparr>"

definition acquire :: "int \<Rightarrow> cycle \<Rightarrow> cycle" where
  "acquire i c = c\<lparr>y_held := i # y_held c\<rparr>"

definition release :: "int \<Rightarrow> cycle \<Rightarrow> cycle" where
  "release i c = c\<lparr>y_held := remove1 i (y_held c)\<rparr>"

definition edit_db :: "(db \<Rightarrow> db) \<Rightarrow> cycle \<Rightarrow> cycle" where
  "edit_db f c = c\<lparr>y_db := f (y_db c)\<rparr>"

section \<open>Steps\<close>

text \<open>The first step of a job: the lock test, the acquisition and the snapshot.\<close>

definition start_job :: "nat \<Rightarrow> job \<Rightarrow> cycle \<Rightarrow> cycle" where
  "start_job n j c =
     (let i = job_server j in
      if i \<in> set (y_held c) then set_phase n j (Reported (Some (busy_result i))) c
      else case get_server (y_db c) i of
        None \<Rightarrow> set_phase n j (Reported None) c
      | Some s \<Rightarrow>
          acquire i (set_phase n j
            (case j of Pass _ _ \<Rightarrow> Planned (build_plan (y_db c) s) | Upgrade _ \<Rightarrow> Upgrading) c))"

inductive cycle_step :: "cycle \<Rightarrow> cycle \<Rightarrow> bool" where
  step_start: "map_of (y_jobs c) n = Some (j, Ready) \<Longrightarrow> cycle_step c (start_job n j c)"
| step_fail: "map_of (y_jobs c) n = Some (Pass i dry, Ready) \<Longrightarrow> i \<notin> set (y_held c) \<Longrightarrow>
    cycle_step c (set_phase n (Pass i dry) (Reported (Some (anonymous_result i St_error msg))) c)"
| step_network: "map_of (y_jobs c) n = Some (Pass i dry, Planned plan) \<Longrightarrow>
    apply_plan build (e :: nat wenv) plan dry w = ((r, u), w') \<Longrightarrow>
    cycle_step c (set_phase n (Pass i dry) (Applied r u) c)"
| step_write: "map_of (y_jobs c) n = Some (Pass i dry, Applied r u) \<Longrightarrow>
    cycle_step c (release i (set_phase n (Pass i dry) (Reported (Some r)) (edit_db (apply_updates i u) c)))"
| step_crash: "map_of (y_jobs c) n = Some (Pass i dry, ph) \<Longrightarrow> holds_lock ph \<Longrightarrow>
    cycle_step c (release i (set_phase n (Pass i dry) (Reported (Some (anonymous_result i St_error msg))) c))"
| step_upgraded: "map_of (y_jobs c) n = Some (Upgrade i, Upgrading) \<Longrightarrow>
    cycle_step c (release i (set_phase n (Upgrade i) (Reported None) (edit_db f c)))"
| step_handler: "cycle_step c (edit_db f c)"
| step_submit: "map_of (y_jobs c) n = None \<Longrightarrow> cycle_step c (set_phase n j Ready c)"

definition cycle_start :: "db \<Rightarrow> cycle" where
  "cycle_start d = \<lparr>y_db = d, y_held = [], y_jobs = []\<rparr>"

section \<open>The invariant\<close>

definition holders :: "cycle \<Rightarrow> int \<Rightarrow> nat set" where
  "holders c i = {n. \<exists>j ph. map_of (y_jobs c) n = Some (j, ph) \<and> holds_lock ph \<and> job_server j = i}"

text \<open>The phases a job goes through; the snapshot of a pass is of its own server.\<close>

fun phase_ok :: "job \<Rightarrow> phase \<Rightarrow> bool" where
  "phase_ok (Pass i dry) (Planned plan) = (p_server_id plan = i)"
| "phase_ok (Pass i dry) Upgrading = False"
| "phase_ok (Upgrade i) (Planned plan) = False"
| "phase_ok (Upgrade i) (Applied r u) = False"
| "phase_ok j ph = True"

text \<open>
  Every taken lock has exactly one job behind it and is listed once, and every job is in one of
  its own phases.
\<close>

definition locks_ok :: "cycle \<Rightarrow> bool" where
  "locks_ok c \<longleftrightarrow> distinct (y_held c) \<and>
     (\<forall>i. if i \<in> set (y_held c) then \<exists>n. holders c i = {n} else holders c i = {}) \<and>
     (\<forall>n j ph. map_of (y_jobs c) n = Some (j, ph) \<longrightarrow> phase_ok j ph)"

lemma holders_set_phase:
  "holders (set_phase n j ph c) i =
     (if holds_lock ph \<and> job_server j = i then insert n (holders c i - {n}) else holders c i - {n})"
  by (auto simp: holders_def set_phase_def)

lemma holders_frame [simp]:
  "holders (acquire k c) i = holders c i" "holders (release k c) i = holders c i"
  "holders (edit_db f c) i = holders c i"
  by (simp_all add: holders_def acquire_def release_def edit_db_def)

lemma cycle_fields [simp]:
  "y_held (set_phase n j ph c) = y_held c" "y_held (edit_db f c) = y_held c"
  "y_held (acquire i c) = i # y_held c" "y_held (release i c) = remove1 i (y_held c)"
  "y_jobs (acquire i c) = y_jobs c" "y_jobs (release i c) = y_jobs c" "y_jobs (edit_db f c) = y_jobs c"
  "y_jobs (set_phase n j ph c) = dict_set n (j, ph) (y_jobs c)"
  "y_db (set_phase n j ph c) = y_db c" "y_db (acquire i c) = y_db c" "y_db (release i c) = y_db c"
  "y_db (edit_db f c) = f (y_db c)"
  by (simp_all add: set_phase_def edit_db_def acquire_def release_def)

lemma not_holding:
  "map_of (y_jobs c) n = Some (j, ph) \<Longrightarrow> \<not> holds_lock ph \<Longrightarrow> n \<notin> holders c i"
  by (auto simp: holders_def)

lemma holding:
  "map_of (y_jobs c) n = Some (j, ph) \<Longrightarrow> holds_lock ph \<Longrightarrow> n \<in> holders c i \<longleftrightarrow> i = job_server j"
  by (auto simp: holders_def)

text \<open>The three moves every step is made of: change a phase without the lock, take it, give it up.\<close>

lemma locks_ok_quiet:
  assumes ok: "locks_ok c" and same: "\<And>i. holders c' i = holders c i" and "y_held c' = y_held c"
    and phases: "\<And>n j ph. map_of (y_jobs c') n = Some (j, ph) \<Longrightarrow> phase_ok j ph"
  shows "locks_ok c'"
  using assms by (auto simp: locks_ok_def)

lemma locks_ok_acquire:
  assumes ok: "locks_ok c" and i: "i \<notin> set (y_held c)" "holds_lock ph" "job_server j = i"
    and n: "\<And>i. n \<notin> holders c i"
    and kind: "phase_ok j ph"
  shows "locks_ok (acquire i (set_phase n j ph c))"
proof -
  have "holders c i = {}" using ok i by (auto simp: locks_ok_def dest: spec [of _ i])
  then have "holders (acquire i (set_phase n j ph c)) k = (if k = i then {n} else holders c k)" for k
    using i n by (auto simp: holders_set_phase)
  with ok i kind show ?thesis by (auto simp: locks_ok_def)
qed

lemma locks_ok_release:
  assumes ok: "locks_ok c" and n: "map_of (y_jobs c) n = Some (j, ph)" "holds_lock ph"
    and rep: "\<not> holds_lock ph'" "phase_ok j ph'" and i: "i = job_server j"
  shows "locks_ok (release i (set_phase n j ph' c))"
proof -
  have mem: "n \<in> holders c i" using holding [OF n] i by simp
  then have held: "i \<in> set (y_held c)" using ok by (auto simp: locks_ok_def split: if_splits)
  with ok obtain m where "holders c i = {m}" by (auto simp: locks_ok_def dest!: spec [of _ i])
  with mem have one: "holders c i = {n}" by simp
  have "holders (release i (set_phase n j ph' c)) k = (if k = i then {} else holders c k)" for k
    using one holding [OF n] rep i by (auto simp: holders_set_phase)
  with ok rep show ?thesis by (auto simp: locks_ok_def)
qed

lemma start_job_ok:
  assumes ok: "locks_ok c" and n: "map_of (y_jobs c) n = Some (j, Ready)"
  shows "locks_ok (start_job n j c)"
proof -
  have free: "n \<notin> holders c i" for i using not_holding [OF n] by simp
  have quiet: "locks_ok (set_phase n j (Reported r) c)" for r
    using ok free by (intro locks_ok_quiet [OF ok]) (auto simp: holders_set_phase locks_ok_def split: if_splits)
  show ?thesis
  proof (cases "job_server j \<in> set (y_held c) \<or> get_server (y_db c) (job_server j) = None")
    case True
    then show ?thesis using quiet by (auto simp: start_job_def Let_def)
  next
    case False
    then obtain s where s: "get_server (y_db c) (job_server j) = Some s" and
      i: "job_server j \<notin> set (y_held c)" by auto
    then have "s_id s = job_server j" using row_get_Some by fastforce
    then have "p_server_id (build_plan (y_db c) s) = job_server j" by (simp add: build_plan_def)
    with s i show ?thesis
      by (auto simp: start_job_def Let_def split: job.split intro!: locks_ok_acquire [OF ok _ _ _ free])
  qed
qed

lemma cycle_step_ok:
  assumes "cycle_step c c'" and ok: "locks_ok c"
  shows "locks_ok c'"
  using assms(1)
proof cases
  case (step_start n j)
  then show ?thesis using start_job_ok [OF ok] by simp
next
  case (step_fail n i dry msg)
  have free: "n \<notin> holders c k" for k using not_holding [OF step_fail(2)] by simp
  show ?thesis unfolding step_fail(1)
    using ok free by (intro locks_ok_quiet [OF ok]) (auto simp: holders_set_phase locks_ok_def split: if_splits)
next
  case (step_network n i dry plan build e w r u w')
  have mem: "n \<in> holders c k \<longleftrightarrow> k = i" for k using holding [OF step_network(2)] by simp
  show ?thesis unfolding step_network(1)
    using ok mem by (intro locks_ok_quiet [OF ok]) (auto simp: holders_set_phase locks_ok_def split: if_splits)
next
  case (step_write n i dry r u)
  have "locks_ok (edit_db (apply_updates i u) c)" using ok by (simp add: locks_ok_def)
  then show ?thesis unfolding step_write(1)
    by (rule locks_ok_release) (use step_write in auto)
next
  case (step_crash n i dry ph msg)
  show ?thesis unfolding step_crash(1) by (rule locks_ok_release [OF ok]) (use step_crash in auto)
next
  case (step_upgraded n i f)
  have "locks_ok (edit_db f c)" using ok by (simp add: locks_ok_def)
  then show ?thesis unfolding step_upgraded(1)
    by (rule locks_ok_release) (use step_upgraded in auto)
next
  case (step_handler f)
  then show ?thesis using ok by (simp add: locks_ok_def)
next
  case (step_submit n j)
  have "n \<notin> holders c k" for k using step_submit by (auto simp: holders_def)
  then show ?thesis unfolding step_submit(1)
    using ok by (intro locks_ok_quiet [OF ok]) (auto simp: holders_set_phase locks_ok_def split: if_splits)
qed

lemma cycle_start_ok: "locks_ok (cycle_start d)"
  by (simp add: locks_ok_def cycle_start_def holders_def)

abbreviation reaches :: "cycle \<Rightarrow> cycle \<Rightarrow> bool" where
  "reaches \<equiv> cycle_step\<^sup>*\<^sup>*"

lemma reaches_ok: "reaches (cycle_start d) c \<Longrightarrow> locks_ok c"
  by (induction rule: rtranclp_induct) (auto intro: cycle_start_ok cycle_step_ok)

lemma held_has_holder: "locks_ok c \<Longrightarrow> i \<in> set (y_held c) \<Longrightarrow> holders c i \<noteq> {}"
  by (auto simp: locks_ok_def dest: spec [of _ i])

lemma phase_kind: "locks_ok c \<Longrightarrow> map_of (y_jobs c) n = Some (j, ph) \<Longrightarrow> phase_ok j ph"
  by (simp add: locks_ok_def)

lemma one_holder: "locks_ok c \<Longrightarrow> n \<in> holders c i \<Longrightarrow> m \<in> holders c i \<Longrightarrow> n = m"
  by (auto simp: locks_ok_def dest!: spec [of _ i] split: if_splits)

text \<open>How many of its own steps a job is from its end.\<close>

fun distance :: "phase \<Rightarrow> nat" where
  "distance Ready = 3"
| "distance (Planned _) = 2"
| "distance (Applied _ _) = 1"
| "distance Upgrading = 1"
| "distance (Reported _) = 0"

lemma job_progress:
  assumes "locks_ok c" and "map_of (y_jobs c) n = Some (j, ph)" and "distance ph > 0"
  shows "\<exists>c' ph'. cycle_step c c' \<and> map_of (y_jobs c') n = Some (j, ph') \<and> distance ph' < distance ph \<and>
    (ph = Ready \<and> job_server j \<in> set (y_held c) \<longrightarrow>
       ph' = Reported (Some (busy_result (job_server j))) \<and> y_db c' = y_db c \<and> y_held c' = y_held c)"
proof (cases ph)
  case Ready
  with assms(2) have "cycle_step c (start_job n j c)" by (simp add: step_start)
  moreover have "\<exists>ph'. map_of (y_jobs (start_job n j c)) n = Some (j, ph') \<and> distance ph' < 3 \<and>
      (job_server j \<in> set (y_held c) \<longrightarrow> ph' = Reported (Some (busy_result (job_server j))) \<and>
        y_db (start_job n j c) = y_db c \<and> y_held (start_job n j c) = y_held c)"
    by (simp add: start_job_def Let_def split: option.split job.split)
  ultimately show ?thesis using Ready by auto
next
  case (Planned plan)
  with assms(1,2) obtain i dry where j: "j = Pass i dry" using phase_kind [OF assms(1,2)] by (cases j) auto
  obtain r u w' where "apply_plan (\<lambda>_ _ _ _. None) (undefined :: nat wenv) plan dry undefined = ((r, u), w')"
    by (metis prod.exhaust)
  with assms(2) j Planned have "cycle_step c (set_phase n j (Applied r u) c)"
    by (metis step_network)
  then show ?thesis using Planned by (intro exI [of _ "set_phase n j (Applied r u) c"]) auto
next
  case (Applied r u)
  with assms(1,2) obtain i dry where j: "j = Pass i dry" using phase_kind [OF assms(1,2)] by (cases j) auto
  with assms(2) Applied have "cycle_step c (release i (set_phase n j (Reported (Some r)) (edit_db (apply_updates i u) c)))"
    using step_write by simp
  then show ?thesis using Applied
    by (intro exI [of _ "release i (set_phase n j (Reported (Some r)) (edit_db (apply_updates i u) c))"]) auto
next
  case Upgrading
  with assms(1,2) obtain i where j: "j = Upgrade i" using phase_kind [OF assms(1,2)] by (cases j) auto
  with assms(2) Upgrading have "cycle_step c (release i (set_phase n j (Reported None) (edit_db id c)))"
    using step_upgraded by simp
  then show ?thesis using Upgrading
    by (intro exI [of _ "release i (set_phase n j (Reported None) (edit_db id c))"]) auto
next
  case (Reported x)
  with assms(3) show ?thesis by simp
qed

section \<open>Properties\<close>

text \<open>
  C2. Mutual exclusion: in every reachable state, whatever the interleaving of passes, upgrades
  and API edits, at most one job is past the lock of a server; so no two jobs ever talk to the
  same server, and a pass's snapshot is of the server whose lock it holds.
\<close>

theorem one_job_per_server:
  assumes "reaches (cycle_start d) c"
    and "map_of (y_jobs c) n = Some (j, ph)" and "holds_lock ph"
    and "map_of (y_jobs c) m = Some (k, ph')" and "holds_lock ph'"
    and "job_server j = job_server k"
  shows "n = m \<and> (\<forall>plan. ph = Planned plan \<longrightarrow> p_server_id plan = job_server j)"
proof -
  have ok: "locks_ok c" by (rule reaches_ok [OF assms(1)])
  have "n \<in> holders c (job_server j)" "m \<in> holders c (job_server j)"
    using holding [OF assms(2,3)] holding [OF assms(4,5)] assms(6) by simp_all
  moreover have "phase_ok j ph" using ok assms(2) by (auto simp: locks_ok_def)
  ultimately show ?thesis using one_holder [OF ok] by (cases j) auto
qed

definition two_jobs :: cycle where
  "two_jobs = start_job 0 (Upgrade 7) (set_phase 0 (Upgrade 7) Ready
     (edit_db (\<lambda>d. d\<lparr>db_servers := [sample_server 7 ''ns1'' ''http://10.0.0.2'']\<rparr>) (cycle_start empty_db)))"

lemma two_jobs_reached: "reaches (cycle_start empty_db) two_jobs"
proof -
  let ?d = "\<lambda>d. d\<lparr>db_servers := [sample_server 7 ''ns1'' ''http://10.0.0.2'']\<rparr>"
  let ?c = "edit_db ?d (cycle_start empty_db)"
  have "cycle_step (cycle_start empty_db) ?c" by (rule step_handler)
  moreover have "cycle_step ?c (set_phase 0 (Upgrade 7) Ready ?c)"
    by (rule step_submit) (simp add: cycle_start_def)
  moreover have "cycle_step (set_phase 0 (Upgrade 7) Ready ?c) two_jobs"
    unfolding two_jobs_def by (rule step_start) simp
  ultimately show ?thesis by (meson converse_rtranclp_into_rtranclp rtranclp.rtrancl_refl)
qed

theorem one_job_per_server_witness:
  "map_of (y_jobs two_jobs) 0 = Some (Upgrade 7, Upgrading) \<and> (0 :: nat) = 0"
proof -
  have j: "map_of (y_jobs two_jobs) 0 = Some (Upgrade 7, Upgrading)" by code_simp
  from one_job_per_server [OF two_jobs_reached j _ j] j show ?thesis by simp
qed



text \<open>
  No lock is leaked: once every job has reported, by whatever path (success, deleted server,
  busy, an exception), no lock is taken.
\<close>

theorem locks_all_released:
  assumes "reaches (cycle_start d) c"
    and "\<forall>n j ph. map_of (y_jobs c) n = Some (j, ph) \<longrightarrow> distance ph = 0"
  shows "y_held c = []"
proof (rule ccontr)
  assume "y_held c \<noteq> []"
  then obtain i where "i \<in> set (y_held c)" by (cases "y_held c") auto
  then obtain n where "n \<in> holders c i" using held_has_holder [OF reaches_ok [OF assms(1)]] by blast
  then obtain j ph where "map_of (y_jobs c) n = Some (j, ph)" "holds_lock ph" by (auto simp: holders_def)
  moreover from this have "distance ph = 0" using assms(2) by blast
  ultimately show False by (cases ph) auto
qed

theorem locks_all_released_witness:
  "\<exists>c'. reaches (cycle_start empty_db) c' \<and> map_of (y_jobs c') 0 = Some (Upgrade 7, Reported None) \<and> y_held c' = []"
proof -
  let ?c = "release 7 (set_phase 0 (Upgrade 7) (Reported None) (edit_db id two_jobs))"
  have j: "map_of (y_jobs two_jobs) 0 = Some (Upgrade 7, Upgrading)" by code_simp
  have r: "reaches (cycle_start empty_db) ?c"
    using two_jobs_reached step_upgraded [OF j, of id] by (rule rtranclp.rtrancl_into_rtrancl)
  have "y_jobs ?c = [(0, Upgrade 7, Reported None)]"
    by (simp add: two_jobs_def start_job_def Let_def cycle_start_def empty_db_def sample_server_def row_get_def)
  then have "y_held ?c = []" by (intro locks_all_released [OF r]) (auto split: if_splits)
  with r show ?thesis by (intro exI [of _ ?c]) simp
qed

end
