(* ===== verification/Net.thy ===== *)
theory Net
  imports Prelude
begin

text \<open>
  The parts of Python's \<open>ipaddress\<close> and \<open>urllib.parse\<close> the program uses: parsing and printing
  of IPv4 and IPv6 literals, and the scheme, host and port of a URL. An address is its
  number; an IPv6 literal may carry a scope. Bracketed URL hosts are IPv6 literals (the
  IPvFuture form is refused). Address text is ASCII.
\<close>

section \<open>IPv4\<close>

definition parse_octet :: "string \<Rightarrow> nat option" where
  "parse_octet s =
     (if s = [] \<or> \<not> list_all is_digit_char s then None
      else if length s > 3 then None
      else if s \<noteq> ''0'' \<and> hd s = CHR ''0'' then None
      else let n = nat_of_digits 0 s in if n > 255 then None else Some n)"

definition parse_ipv4 :: "string \<Rightarrow> nat option" where
  "parse_ipv4 s =
     (case map parse_octet (py_split (CHR ''.'') s) of
        [Some a, Some b, Some c, Some d] \<Rightarrow> Some (((a * 256 + b) * 256 + c) * 256 + d)
      | _ \<Rightarrow> None)"

definition show_ipv4 :: "nat \<Rightarrow> string" where
  "show_ipv4 n =
     py_join ''.'' (map show_nat [n div 16777216 mod 256, n div 65536 mod 256, n div 256 mod 256, n mod 256])"

section \<open>IPv6\<close>

definition is_hex_char :: "char \<Rightarrow> bool" where
  "is_hex_char c =
     (let n = (of_char c :: nat)
      in (48 \<le> n \<and> n \<le> 57) \<or> (65 \<le> n \<and> n \<le> 70) \<or> (97 \<le> n \<and> n \<le> 102))"

definition hex_value :: "char \<Rightarrow> nat" where
  "hex_value c =
     (let n = (of_char c :: nat) in if n \<le> 57 then n - 48 else if n \<le> 70 then n - 55 else n - 87)"

definition parse_hextet :: "string \<Rightarrow> nat option" where
  "parse_hextet s =
     (if s = [] \<or> length s > 4 \<or> \<not> list_all is_hex_char s then None
      else Some (fold (\<lambda>c acc. acc * 16 + hex_value c) s 0))"

fun parse_hextets :: "string list \<Rightarrow> nat list option" where
  "parse_hextets [] = Some []"
| "parse_hextets (s # ss) =
     (case (parse_hextet s, parse_hextets ss) of (Some n, Some ns) \<Rightarrow> Some (n # ns) | _ \<Rightarrow> None)"

definition hextets_value :: "nat list \<Rightarrow> nat" where
  "hextets_value hs = fold (\<lambda>h acc. acc * 65536 + h) hs 0"

fun show_hex :: "nat \<Rightarrow> string" where
  "show_hex n =
     (let d = n mod 16; c = (if d < 10 then char_of (48 + d) else char_of (87 + d))
      in if n < 16 then [c] else show_hex (n div 16) @ [c])"

declare show_hex.simps [simp del]

text \<open>An IPv4 tail (\<open>::ffff:10.0.0.1\<close>) stands for two groups.\<close>

definition expand_ipv4_tail :: "string list \<Rightarrow> string list option" where
  "expand_ipv4_tail parts =
     (if CHR ''.'' \<in> set (last parts)
      then (case parse_ipv4 (last parts) of
              None \<Rightarrow> None
            | Some n \<Rightarrow> Some (butlast parts @ [show_hex (n div 65536), show_hex (n mod 65536)]))
      else Some parts)"

text \<open>The positions of the empty inner groups.\<close>

definition inner_gaps :: "string list \<Rightarrow> nat list" where
  "inner_gaps parts = filter (\<lambda>i. parts ! i = []) [1..<length parts - 1]"

definition parse_ipv6_groups :: "string list \<Rightarrow> nat option" where
  "parse_ipv6_groups parts =
     (case inner_gaps parts of
        [] \<Rightarrow>
          (if length parts \<noteq> 8 then None else map_option hextets_value (parse_hextets parts))
      | [i] \<Rightarrow>
          (let hi = (if hd parts = [] then i - 1 else i);
               lo = (if last parts = [] then length parts - i - 2 else length parts - i - 1)
           in if (hd parts = [] \<and> hi \<noteq> 0) \<or> (last parts = [] \<and> lo \<noteq> 0) then None
              else if hi + lo \<ge> 8 then None
              else (case (parse_hextets (take hi parts), parse_hextets (drop (length parts - lo) parts)) of
                      (Some hs, Some ls) \<Rightarrow>
                        Some (hextets_value (hs @ replicate (8 - (hi + lo)) 0 @ ls))
                    | _ \<Rightarrow> None))
      | _ \<Rightarrow> None)"

definition parse_ipv6_number :: "string \<Rightarrow> nat option" where
  "parse_ipv6_number s =
     (let parts = py_split (CHR '':'') s in
      if length parts < 3 then None
      else (case expand_ipv4_tail parts of
              None \<Rightarrow> None
            | Some parts \<Rightarrow> if length parts > 9 then None else parse_ipv6_groups parts))"

datatype ip = IPv4 nat | IPv6 nat "string option"

definition parse_ipv6 :: "string \<Rightarrow> ip option" where
  "parse_ipv6 s =
     (if CHR ''/'' \<in> set s then None
      else case py_partition (CHR ''%'') s of
        (addr, False, _) \<Rightarrow> map_option (\<lambda>n. IPv6 n None) (parse_ipv6_number addr)
      | (addr, True, scope) \<Rightarrow>
          if scope = [] \<or> CHR ''%'' \<in> set scope then None
          else map_option (\<lambda>n. IPv6 n (Some scope)) (parse_ipv6_number addr))"

text \<open>\<open>ipaddress.ip_address(s)\<close>: \<open>None\<close> for its \<open>ValueError\<close>.\<close>

definition parse_ip :: "string \<Rightarrow> ip option" where
  "parse_ip s =
     (case parse_ipv4 s of Some n \<Rightarrow> Some (IPv4 n) | None \<Rightarrow> parse_ipv6 s)"

subsection \<open>Printing\<close>

definition ipv6_groups :: "nat \<Rightarrow> nat list" where
  "ipv6_groups n = map (\<lambda>i. n div 65536 ^ (7 - i) mod 65536) [0..<8]"

fun zero_run :: "nat list \<Rightarrow> nat" where
  "zero_run (0 # xs) = Suc (zero_run xs)"
| "zero_run _ = 0"

text \<open>Start and length of the first longest run of zero groups.\<close>

fun longest_zero_run :: "nat \<Rightarrow> nat list \<Rightarrow> nat \<times> nat" where
  "longest_zero_run i [] = (i, 0)"
| "longest_zero_run i (x # xs) =
     (let (j, m) = longest_zero_run (Suc i) xs; k = zero_run (x # xs)
      in if k \<ge> m \<and> k > 0 then (i, k) else (j, m))"

definition show_ipv6 :: "nat \<Rightarrow> string" where
  "show_ipv6 n =
     (let gs = ipv6_groups n; ss = map show_hex gs; (i, m) = longest_zero_run 0 gs
      in if m \<le> 1 then py_join '':'' ss
         else py_join '':'' (take i ss) @ ''::'' @ py_join '':'' (drop (i + m) ss))"

fun show_ip :: "ip \<Rightarrow> string" where
  "show_ip (IPv4 n) = show_ipv4 n"
| "show_ip (IPv6 n None) = show_ipv6 n"
| "show_ip (IPv6 n (Some scope)) = show_ipv6 n @ ''%'' @ scope"

fun is_ipv6 :: "ip \<Rightarrow> bool" where
  "is_ipv6 (IPv6 _ _) = True"
| "is_ipv6 (IPv4 _) = False"

section \<open>URLs\<close>

definition is_alpha :: "char \<Rightarrow> bool" where
  "is_alpha c = (let n = (of_char c :: nat) in (65 \<le> n \<and> n \<le> 90) \<or> (97 \<le> n \<and> n \<le> 122))"

definition is_alnum :: "char \<Rightarrow> bool" where
  "is_alnum c = (is_alpha c \<or> is_digit_char c)"

definition is_scheme_char :: "char \<Rightarrow> bool" where
  "is_scheme_char c = (is_alnum c \<or> c = CHR ''+'' \<or> c = CHR ''-'' \<or> c = CHR ''.'')"

definition url_clean :: "string \<Rightarrow> string" where
  "url_clean s =
     filter (\<lambda>c. c \<noteq> CHR 0x09 \<and> c \<noteq> CHR 0x0A \<and> c \<noteq> CHR 0x0D)
       (dropWhile (\<lambda>c. (of_char c :: nat) \<le> 32) s)"

definition url_scheme :: "string \<Rightarrow> string \<times> string" where
  "url_scheme s =
     (case py_partition (CHR '':'') s of
        (a, True, b) \<Rightarrow>
          if a \<noteq> [] \<and> is_alpha (hd a) \<and> list_all is_scheme_char a then (py_lower a, b) else ([], s)
      | _ \<Rightarrow> ([], s))"

definition url_netloc :: "string \<Rightarrow> string" where
  "url_netloc rest =
     (if py_startswith rest ''//''
      then takeWhile (\<lambda>c. c \<noteq> CHR ''/'' \<and> c \<noteq> CHR ''?'' \<and> c \<noteq> CHR ''#'') (drop 2 rest)
      else [])"

text \<open>The text after the last \<open>@\<close>.\<close>

definition after_userinfo :: "string \<Rightarrow> string" where
  "after_userinfo netloc = rev (takeWhile (\<lambda>c. c \<noteq> CHR ''@'') (rev netloc))"

definition split_hostinfo :: "string \<Rightarrow> string \<times> string option" where
  "split_hostinfo hostinfo =
     (case py_partition (CHR ''['') hostinfo of
        (_, True, bracketed) \<Rightarrow>
          (case py_partition (CHR '']'') bracketed of
             (host, _, rest) \<Rightarrow> (case py_partition (CHR '':'') rest of
               (_, _, port) \<Rightarrow> (host, none_if_empty port)))
      | _ \<Rightarrow> (case py_partition (CHR '':'') hostinfo of
               (host, _, port) \<Rightarrow> (host, none_if_empty port)))"

text \<open>\<open>_check_bracketed_netloc\<close>: brackets enclose an IPv6 literal and nothing precedes them.\<close>

definition netloc_ok :: "string \<Rightarrow> bool" where
  "netloc_ok netloc =
     (let has_open = CHR ''['' \<in> set netloc; has_close = CHR '']'' \<in> set netloc in
      if has_open \<noteq> has_close then False
      else if \<not> has_open then True
      else case py_partition (CHR ''['') (after_userinfo netloc) of
        (before, True, bracketed) \<Rightarrow>
          (case py_partition (CHR '']'') bracketed of
             (host, _, rest) \<Rightarrow>
               before = [] \<and> (rest = [] \<or> hd rest = CHR '':'') \<and>
               (case parse_ip host of Some a \<Rightarrow> is_ipv6 a | None \<Rightarrow> False))
      | _ \<Rightarrow> False)"

record url_parts =
  url_scheme_of :: string
  url_host_of :: "string option"
  url_port_of :: "string option"

text \<open>\<open>urlsplit\<close>, \<open>None\<close> for its \<open>ValueError\<close>; the host in lower case up to a zone id.\<close>

definition url_host_text :: "string \<Rightarrow> string option" where
  "url_host_text host =
     (case py_partition (CHR ''%'') host of
        (a, True, z) \<Rightarrow> Some (py_lower a @ ''%'' @ z)
      | (a, False, _) \<Rightarrow> none_if_empty (py_lower a))"

definition url_split :: "string \<Rightarrow> url_parts option" where
  "url_split s =
     (case url_scheme (url_clean s) of
        (scheme, rest) \<Rightarrow>
          (let netloc = url_netloc rest in
           if \<not> netloc_ok netloc then None
           else case split_hostinfo (after_userinfo netloc) of
             (host, port) \<Rightarrow>
               Some \<lparr>url_scheme_of = scheme, url_host_of = url_host_text host, url_port_of = port\<rparr>))"

text \<open>The \<open>port\<close> property: \<open>Inl\<close> for its \<open>ValueError\<close>.\<close>

definition url_port :: "url_parts \<Rightarrow> string + nat option" where
  "url_port u =
     (case url_port_of u of
        None \<Rightarrow> Inr None
      | Some t \<Rightarrow>
          if \<not> list_all is_digit_char t then Inl ''Port could not be cast to integer value''
          else let n = nat_of_digits 0 t in
            if n \<le> 65535 then Inr (Some n) else Inl ''Port out of range 0-65535'')"

section \<open>Facts\<close>

lemma parse_octet_range: "parse_octet s = Some n \<Longrightarrow> n \<le> 255"
  by (auto simp: parse_octet_def Let_def split: if_splits)

lemma parse_ipv4_range: "parse_ipv4 s = Some n \<Longrightarrow> n < 2 ^ 32"
  by (auto simp: parse_ipv4_def split: list.splits option.splits dest!: parse_octet_range)

lemma show_nat_small: "n < 10 \<Longrightarrow> show_nat n = [digit_char n]"
  by (subst show_nat.simps) simp

lemma show_nat_step: "10 \<le> n \<Longrightarrow> show_nat n = show_nat (n div 10) @ [digit_char (n mod 10)]"
  by (subst show_nat.simps) simp

lemma length_show_nat_le3: "n \<le> 255 \<Longrightarrow> length (show_nat n) \<le> 3"
  by (cases "n < 10"; cases "n < 100") (auto simp: show_nat_small show_nat_step)

lemma digit_char_zero: "n < 10 \<Longrightarrow> digit_char n = CHR ''0'' \<longleftrightarrow> n = 0"
proof -
  assume n: "n < 10"
  have zero: "CHR ''0'' = digit_char 0" by code_simp
  show ?thesis
  proof
    assume "digit_char n = CHR ''0''"
    then have "of_char (digit_char n) - 48 = (of_char (digit_char 0) - 48 :: nat)" by (simp add: zero)
    with n show "n = 0" by (simp only: digit_char_value)
  qed (simp add: zero)
qed

lemma hd_show_nat: "0 < n \<Longrightarrow> hd (show_nat n) \<noteq> CHR ''0''"
proof (induction n rule: show_nat.induct)
  case (1 n)
  show ?case
  proof (cases "n < 10")
    case True
    with 1 show ?thesis by (simp add: show_nat_small digit_char_zero)
  next
    case False
    with 1 show ?thesis by (simp add: show_nat_step hd_append)
  qed
qed

lemma parse_octet_show: "n \<le> 255 \<Longrightarrow> parse_octet (show_nat n) = Some n"
proof (cases "n = 0")
  case True
  then show ?thesis by (simp add: parse_octet_def show_nat_small digit_char_def) code_simp
next
  case False
  assume "n \<le> 255"
  with False show ?thesis
    using show_nat_digits [of n] length_show_nat_le3 [of n] hd_show_nat [of n] nat_of_show_nat [of n]
    by (auto simp: parse_octet_def list_all_iff)
qed

lemma dot_not_digit: "CHR ''.'' \<notin> set (show_nat n)"
  using show_nat_digits [of n] by (force simp: is_digit_char_def)

lemma ipv4_bytes:
  fixes n :: nat
  shows "((n div 16777216 * 256 + n div 65536 mod 256) * 256 + n div 256 mod 256) * 256 + n mod 256 = n"
proof -
  define q where "q = n div 256"
  define r where "r = q div 256"
  have d: "n div 65536 = r" "n div 16777216 = r div 256"
    by (simp_all add: q_def r_def div_mult2_eq [symmetric])
  have "(r div 256 * 256 + r mod 256) * 256 + q mod 256 = q"
    unfolding r_def by (simp only: div_mult_mod_eq)
  then show ?thesis unfolding d q_def [symmetric] by (simp only: q_def div_mult_mod_eq)
qed

text \<open>Printing and reading back an IPv4 address is the identity.\<close>

lemma ipv4_roundtrip: "n < 2 ^ 32 \<Longrightarrow> parse_ipv4 (show_ipv4 n) = Some n"
proof -
  assume n: "n < 2 ^ 32"
  let ?os = "[n div 16777216 mod 256, n div 65536 mod 256, n div 256 mod 256, n mod 256]"
  have "py_split (CHR ''.'') (show_ipv4 n) = map show_nat ?os"
    unfolding show_ipv4_def by (rule split_join_clean) (simp_all add: dot_not_digit)
  moreover have "map parse_octet (map show_nat ?os) = map Some ?os"
    using parse_octet_show [of "_ mod 256"] by simp
  ultimately show ?thesis
    using ipv4_bytes [of n] n by (simp add: parse_ipv4_def)
qed

end
