(* ===== verification/Records.thy ===== *)
theory Records
  imports SyncPlan Net
begin

text \<open>
  DNS records: the handlers of backend/app/routers/records.py and the automatic hostname
  records of backend/app/sync.py (\<open>reconcile_hostname_records\<close>). The two own disjoint rows:
  the handlers refuse a \<open>managed\<close> record, the reconciler touches nothing else. The name
  resolver is a parameter (\<open>dns\<close>, the answer of \<open>socket.gethostbyname\<close> or \<open>None\<close> for its
  \<open>OSError\<close>).
\<close>

section \<open>The handlers\<close>

record record_create =
  rc_domain :: string
  rc_answer :: string
  rc_scope :: record_scope
  rc_zone_ids :: "int list"
  rc_enabled :: bool
  rc_description :: "string option"

record record_update =
  ru_domain :: "string option option"
  ru_answer :: "string option option"
  ru_scope :: "record_scope option option"
  ru_zone_ids :: "int list option option"
  ru_enabled :: "bool option option"
  ru_description :: "string option option"

definition validate_scope :: "db \<Rightarrow> record_scope option \<Rightarrow> int list option \<Rightarrow> unit http" where
  "validate_scope d scope zone_ids =
     (if scope = Some Rec_zone then
        (case zone_ids of
           None \<Rightarrow> Inl (HTTPException 400 ''zone-scoped records require at least one zone'')
         | Some ids \<Rightarrow>
             if ids = [] then Inl (HTTPException 400 ''zone-scoped records require at least one zone'')
             else case find (\<lambda>z. get_zone d z = None) ids of
               Some z \<Rightarrow> Inl (HTTPException 400 (''zone '' @ show_int z @ '' does not exist''))
             | None \<Rightarrow> Inr ())
      else Inr ())"

definition create_record :: "int \<Rightarrow> record_create \<Rightarrow> db \<Rightarrow> db http" where
  "create_record now p d =
     (case validate_scope d (Some (rc_scope p)) (Some (rc_zone_ids p)) of
        Inl e \<Rightarrow> Inl e
      | Inr _ \<Rightarrow> Inr (d\<lparr>db_records := row_add r_id
          (\<lambda>i. \<lparr>r_id = i, r_domain = py_lower (py_strip (rc_domain p)), r_answer = py_strip (rc_answer p),
                r_scope = rc_scope p,
                r_zone_ids = (if rc_scope p = Rec_zone then sort (remdups (rc_zone_ids p)) else []),
                r_enabled = rc_enabled p, r_description = rc_description p, r_managed = False,
                r_updated_at = now\<rparr>) (db_records d)\<rparr>))"

text \<open>The \<open>data\<close> of a PATCH, normalised; an explicit null is left for the database to refuse.\<close>

definition strip_field :: "(string \<Rightarrow> string) \<Rightarrow> string option option \<Rightarrow> string option option" where
  "strip_field f v = (case v of Some (Some s) \<Rightarrow> if s = [] then v else Some (Some (f s)) | _ \<Rightarrow> v)"

definition server_error :: http_error where
  "server_error = HTTPException 500 ''Internal Server Error''"

definition patched_record :: "int \<Rightarrow> record_update \<Rightarrow> int list \<Rightarrow> dns_record \<Rightarrow> dns_record http" where
  "patched_record now p zones r =
     (case (patch (strip_field (\<lambda>s. py_lower (py_strip s)) (ru_domain p)) (r_domain r),
            patch (strip_field py_strip (ru_answer p)) (r_answer r),
            patch (ru_scope p) (r_scope r), patch (ru_enabled p) (r_enabled r)) of
        (Some nm, Some ans, Some sc, Some en) \<Rightarrow>
          Inr (r\<lparr>r_domain := nm, r_answer := ans, r_scope := sc, r_zone_ids := zones, r_enabled := en,
                 r_description := patch_null (ru_description p) (r_description r), r_updated_at := now\<rparr>)
      | _ \<Rightarrow> Inl server_error)"

definition put_record :: "dns_record \<Rightarrow> db \<Rightarrow> db" where
  "put_record r d = d\<lparr>db_records := row_put r_id r (db_records d)\<rparr>"

definition update_record :: "int \<Rightarrow> int \<Rightarrow> record_update \<Rightarrow> db \<Rightarrow> db http" where
  "update_record now i p d =
     (case row_get r_id i (db_records d) of
        None \<Rightarrow> Inl (HTTPException 404 ''Record not found'')
      | Some r \<Rightarrow>
          if r_managed r then Inl (HTTPException 409 ''This record is auto-managed from the servers list'')
          else
            let new_scope = patch (ru_scope p) (r_scope r); new_zones = patch (ru_zone_ids p) (r_zone_ids r) in
            case validate_scope d new_scope new_zones of
              Inl e \<Rightarrow> Inl e
            | Inr _ \<Rightarrow>
                (case (if new_scope = Some Rec_global then Some []
                       else case ru_zone_ids p of
                         None \<Rightarrow> Some (r_zone_ids r)
                       | Some z \<Rightarrow> map_option (\<lambda>ids. sort (remdups ids)) z) of
                   None \<Rightarrow> Inl server_error
                 | Some zones \<Rightarrow>
                     (case patched_record now p zones r of
                        Inl e \<Rightarrow> Inl e
                      | Inr r' \<Rightarrow> Inr (put_record r' d))))"

definition delete_record :: "int \<Rightarrow> db \<Rightarrow> db http" where
  "delete_record i d =
     (case row_get r_id i (db_records d) of
        None \<Rightarrow> Inl (HTTPException 404 ''Record not found'')
      | Some r \<Rightarrow>
          if r_managed r then Inl (HTTPException 409 ''This record is auto-managed; remove the server instead'')
          else Inr (d\<lparr>db_records := row_del r_id i (db_records d)\<rparr>))"

section \<open>Hostname records\<close>

definition host_from_url :: "string \<Rightarrow> string option" where
  "host_from_url url =
     (case url_split (if py_contains ''://'' url then url else ''//'' @ url) of
        None \<Rightarrow> None
      | Some u \<Rightarrow> url_host_of u)"

definition is_ip :: "string \<Rightarrow> bool" where
  "is_ip host = (parse_ip host \<noteq> None)"

text \<open>The host name a server is reached under, if it is one.\<close>

definition server_hostname :: "server \<Rightarrow> string option" where
  "server_hostname s =
     (case host_from_url (s_url s) of
        None \<Rightarrow> None
      | Some host \<Rightarrow> if host = [] \<or> is_ip host then None else Some (py_lower host))"

definition managed_hostnames :: "db \<Rightarrow> string list" where
  "managed_hostnames d = py_set (List.map_filter server_hostname (db_servers d))"

definition resolve_host :: "(string \<Rightarrow> string option) \<Rightarrow> string \<Rightarrow> (string \<times> string) list \<Rightarrow> (string \<times> string) list" where
  "resolve_host dns host m = (case dns host of None \<Rightarrow> m | Some ip \<Rightarrow> dict_set host ip m)"

definition resolved_hosts :: "(string \<Rightarrow> string option) \<Rightarrow> db \<Rightarrow> (string \<times> string) list" where
  "resolved_hosts dns d = fold (resolve_host dns) (List.map_filter server_hostname (db_servers d)) []"

definition auto_records :: "db \<Rightarrow> (string \<times> dns_record) list" where
  "auto_records d = fold (\<lambda>r. dict_set (r_domain r) r) (filter r_managed (db_records d)) []"

definition user_global :: "db \<Rightarrow> string list" where
  "user_global d = map r_domain (filter (\<lambda>r. \<not> r_managed r \<and> r_scope r = Rec_global) (db_records d))"

definition auto_record :: "int \<Rightarrow> string \<Rightarrow> string \<Rightarrow> int \<Rightarrow> dns_record" where
  "auto_record now host ip i =
     \<lparr>r_id = i, r_domain = host, r_answer = ip, r_scope = Rec_global, r_zone_ids = [], r_enabled = True,
      r_description = Some ''Auto-registered from servers list'', r_managed = True, r_updated_at = now\<rparr>"

definition upsert_hostname ::
  "int \<Rightarrow> string list \<Rightarrow> (string \<times> dns_record) list \<Rightarrow> string \<times> string \<Rightarrow> db \<Rightarrow> db" where
  "upsert_hostname now users autos hip d =
     (case hip of (host, ip) \<Rightarrow>
        if host \<in> set users then d
        else case map_of autos host of
          None \<Rightarrow> d\<lparr>db_records := row_add r_id (auto_record now host ip) (db_records d)\<rparr>
        | Some rec \<Rightarrow>
            if r_answer rec \<noteq> ip then put_record (rec\<lparr>r_answer := ip, r_updated_at := now\<rparr>) d else d)"

definition drop_hostname :: "string list \<Rightarrow> string \<times> dns_record \<Rightarrow> db \<Rightarrow> db" where
  "drop_hostname names dr d =
     (case dr of (domain, rec) \<Rightarrow>
        if domain \<in> set names then d else d\<lparr>db_records := row_del r_id (r_id rec) (db_records d)\<rparr>)"

definition reconcile_hostname_records :: "(string \<Rightarrow> string option) \<Rightarrow> int \<Rightarrow> db \<Rightarrow> db" where
  "reconcile_hostname_records dns now d =
     (let autos = auto_records d;
          d' = fold (upsert_hostname now (user_global d) autos) (resolved_hosts dns d) d
      in fold (drop_hostname (managed_hostnames d)) autos d')"

section \<open>Facts\<close>

text \<open>
  What the reconciler relies on and keeps: ids are primary keys, no two managed rows have the
  same domain, and managed rows are global and enabled.
\<close>

definition records_ok :: "db \<Rightarrow> bool" where
  "records_ok d \<longleftrightarrow>
     distinct (map r_id (db_records d)) \<and>
     distinct (map r_domain (filter r_managed (db_records d))) \<and>
     list_all (\<lambda>r. r_managed r \<longrightarrow> r_scope r = Rec_global \<and> r_enabled r) (db_records d)"

definition user_rows :: "db \<Rightarrow> dns_record list" where
  "user_rows d = filter (\<lambda>r. \<not> r_managed r) (db_records d)"

text \<open>The managed row of a host name.\<close>

definition managed_at :: "db \<Rightarrow> string \<Rightarrow> dns_record option" where
  "managed_at d h = find (\<lambda>r. r_managed r \<and> r_domain r = h) (db_records d)"

lemma map_of_fold_dict_set:
  "map_of (fold (\<lambda>r. dict_set (f r) r) rs m) h =
     (case find (\<lambda>r. f r = h) (rev rs) of Some r \<Rightarrow> Some r | None \<Rightarrow> map_of m h)"
  by (induction rs arbitrary: m) (auto simp: find_snoc split: option.split)

lemma auto_records_at:
  "records_ok d \<Longrightarrow> map_of (auto_records d) h = managed_at d h"
  by (simp add: auto_records_def map_of_fold_dict_set find_rev_distinct records_ok_def managed_at_def
      find_filter split: option.split)

lemma managed_at_Some:
  "managed_at d h = Some r \<Longrightarrow> r \<in> set (db_records d) \<and> r_managed r \<and> r_domain r = h"
  by (auto simp: managed_at_def find_Some_iff)

lemma managed_at_iff:
  assumes "records_ok d"
  shows "managed_at d h = Some r \<longleftrightarrow> r \<in> set (db_records d) \<and> r_managed r \<and> r_domain r = h"
proof
  assume r: "r \<in> set (db_records d) \<and> r_managed r \<and> r_domain r = h"
  then obtain r' where r': "managed_at d h = Some r'"
    by (cases "managed_at d h") (auto simp: managed_at_def find_None_iff)
  have "inj_on r_domain (set (filter r_managed (db_records d)))"
    using assms by (simp add: records_ok_def distinct_map)
  then have "r' = r" using managed_at_Some [OF r'] r by (auto dest: inj_onD)
  with r' show "managed_at d h = Some r" by simp
qed (rule managed_at_Some)

text \<open>The three table operations, on tables whose ids are distinct.\<close>

lemma row_del_row: "distinct (map key rs) \<Longrightarrow> r \<in> set rs \<Longrightarrow>
    row_del key (key r) rs = filter (\<lambda>x. x \<noteq> r) rs"
  unfolding row_del_def by (rule filter_cong) (auto simp: distinct_map dest: inj_onD)

lemma row_put_row: "distinct (map key rs) \<Longrightarrow> r \<in> set rs \<Longrightarrow> key r' = key r \<Longrightarrow>
    row_put key r' rs = map (\<lambda>x. if x = r then r' else x) rs"
  unfolding row_put_def by (rule map_cong) (auto simp: distinct_map dest: inj_onD)

text \<open>What one step does to the managed row of each name, and that it does nothing else.\<close>

definition steps_to :: "db \<Rightarrow> (string \<Rightarrow> dns_record option) \<Rightarrow> db \<Rightarrow> bool" where
  "steps_to d m d' \<longleftrightarrow> records_ok d' \<and> user_rows d' = user_rows d \<and> managed_at d' = m \<and>
     (\<exists>rs. d' = d\<lparr>db_records := rs\<rparr>)"

lemma steps_to_add:
  fixes now :: int and h ip :: string
  assumes ok: "records_ok d" and none: "managed_at d h = None"
  defines "r \<equiv> auto_record now h ip (next_id r_id (db_records d))"
  shows "steps_to d ((managed_at d)(h \<mapsto> r)) (d\<lparr>db_records := db_records d @ [r]\<rparr>)"
proof -
  have r: "r_managed r" "r_domain r = h" "r_scope r = Rec_global" "r_enabled r" "r_id r = next_id r_id (db_records d)"
    by (simp_all add: r_def auto_record_def)
  have "h \<notin> set (map r_domain (filter r_managed (db_records d)))"
    using none by (auto simp: managed_at_def find_None_iff)
  then have "records_ok (d\<lparr>db_records := db_records d @ [r]\<rparr>)"
    using ok r next_id_fresh [of r_id "db_records d"] by (auto simp: records_ok_def)
  then show ?thesis
    using r none by (auto simp: steps_to_def user_rows_def managed_at_def find_snoc fun_eq_iff split: option.split)
qed

lemma steps_to_put:
  fixes now :: int and ip :: string
  assumes ok: "records_ok d" and some: "managed_at d h = Some rec"
  defines "r \<equiv> rec\<lparr>r_answer := ip, r_updated_at := now\<rparr>"
  shows "steps_to d ((managed_at d)(h \<mapsto> r)) (put_record r d)"
proof -
  let ?f = "\<lambda>x. if x = rec then r else x"
  have rec: "rec \<in> set (db_records d)" "r_managed rec" "r_domain rec = h"
    using managed_at_Some [OF some] by auto
  have rows: "db_records (put_record r d) = map ?f (db_records d)"
    using row_put_row [of r_id "db_records d" rec r] ok rec by (simp add: put_record_def records_ok_def r_def)
  have f: "r_managed (?f x) = r_managed x" "r_domain (?f x) = r_domain x" "r_id (?f x) = r_id x"
    "r_scope (?f x) = r_scope x" "r_enabled (?f x) = r_enabled x" for x
    by (simp_all add: r_def)
  have "filter r_managed (map ?f (db_records d)) = map ?f (filter r_managed (db_records d))"
    using f(1) by (simp only: filter_map o_def)
  then have "records_ok (put_record r d)"
    using ok f rec by (simp only: records_ok_def rows map_map o_def list_all_iff) (auto simp: r_def)
  moreover have "user_rows (put_record r d) = user_rows d"
    unfolding user_rows_def rows filter_map o_def f
    by (rule map_idI) (use rec in auto)
  moreover have "managed_at (put_record r d) h' = ((managed_at d)(h \<mapsto> r)) h'" for h'
  proof -
    have "managed_at (put_record r d) h' = map_option ?f (managed_at d h')"
      unfolding managed_at_def rows by (rule find_map_inv) (simp only: f)
    then show ?thesis using some managed_at_Some [of d h'] rec(3) by (cases "managed_at d h'") auto
  qed
  ultimately show ?thesis by (auto simp: steps_to_def put_record_def)
qed

lemma steps_to_del:
  assumes ok: "records_ok d" and some: "managed_at d h = Some rec"
  shows "steps_to d ((managed_at d)(h := None)) (d\<lparr>db_records := row_del r_id (r_id rec) (db_records d)\<rparr>)"
proof -
  have rec: "rec \<in> set (db_records d)" "r_managed rec" "r_domain rec = h"
    using managed_at_Some [OF some] by auto
  let ?rs = "filter (\<lambda>x. x \<noteq> rec) (db_records d)"
  have rows: "row_del r_id (r_id rec) (db_records d) = ?rs"
    using row_del_row [of r_id "db_records d" rec] ok rec by (simp add: records_ok_def)
  have "distinct (map r_domain (filter r_managed ?rs))"
  proof -
    have "filter r_managed ?rs = filter (\<lambda>x. x \<noteq> rec) (filter r_managed (db_records d))"
      by (simp add: conj_commute)
    with ok show ?thesis by (simp only: records_ok_def distinct_map_filter)
  qed
  then have "records_ok (d\<lparr>db_records := ?rs\<rparr>)"
    using ok by (auto simp: records_ok_def distinct_map_filter list_all_iff)
  moreover have "filter (\<lambda>r. \<not> r_managed r) ?rs = filter (\<lambda>r. \<not> r_managed r) (db_records d)"
    using rec by (auto intro!: filter_cong simp: filter_filter)
  moreover have "find (\<lambda>r. r_managed r \<and> r_domain r = h') ?rs = ((managed_at d)(h := None)) h'" for h'
  proof (cases "h' = h")
    case True
    have "x = rec" if "x \<in> set (db_records d)" "r_managed x" "r_domain x = h" for x
      using managed_at_iff [OF ok, of h x] some that by simp
    with True have "find (\<lambda>r. r_managed r \<and> r_domain r = h') ?rs = None"
      by (auto simp: find_None_iff)
    with True show ?thesis by simp
  next
    case False
    then show ?thesis
      using rec(3) by (auto simp: managed_at_def find_filter intro!: find_cong_set)
  qed
  ultimately show ?thesis
    by (auto simp: steps_to_def user_rows_def managed_at_def rows fun_eq_iff)
qed


section \<open>The whole pass\<close>

lemma resolve_host_map: "map_of (resolve_host dns h m) = (case dns h of None \<Rightarrow> map_of m | Some ip \<Rightarrow> (map_of m)(h \<mapsto> ip))"
  by (simp add: resolve_host_def split: option.split)

lemma resolve_fold:
  "map_of (fold (resolve_host dns) hs m) h =
     (if h \<in> set hs \<and> dns h \<noteq> None then dns h else map_of m h)"
  by (induction hs arbitrary: m) (auto simp: resolve_host_map split: option.splits)

lemma resolved_hosts_at:
  "map_of (resolved_hosts dns d) h = (if h \<in> set (managed_hostnames d) then dns h else None)"
  by (auto simp: resolved_hosts_def resolve_fold managed_hostnames_def)

lemma resolve_distinct: "distinct (map fst m) \<Longrightarrow> distinct (map fst (fold (resolve_host dns) hs m))"
  by (induction hs arbitrary: m) (auto simp: resolve_host_def dict_set_distinct split: option.split)

lemma resolved_hosts_distinct: "distinct (map fst (resolved_hosts dns d))"
  unfolding resolved_hosts_def by (rule resolve_distinct) simp

lemma auto_records_distinct: "distinct (map fst (auto_records d))"
  using dict.put_fold_distinct [of "[]" r_domain "\<lambda>r. r" "filter r_managed (db_records d)"]
  by (simp add: auto_records_def)

text \<open>The row of one name after the upserts: its answer follows the resolver unless the user owns
  the name.\<close>

definition upsert_row :: "int \<Rightarrow> string list \<Rightarrow> string \<times> string \<Rightarrow> dns_record option \<Rightarrow> dns_record option \<Rightarrow> bool" where
  "upsert_row now users hip r r' \<longleftrightarrow>
     (case hip of (h, ip) \<Rightarrow>
        if h \<in> set users then r' = r
        else case r of
          None \<Rightarrow> map_option r_answer r' = Some ip
        | Some rec \<Rightarrow> r' = (if r_answer rec = ip then r else Some (rec\<lparr>r_answer := ip, r_updated_at := now\<rparr>)))"

lemma steps_to_refl: "records_ok d \<Longrightarrow> steps_to d (managed_at d) d"
  by (auto simp: steps_to_def intro!: exI [of _ "db_records d"])

lemma steps_to_trans:
  assumes "steps_to d m d1" and "steps_to d1 m' d2" shows "steps_to d m' d2"
  using assms by (auto simp: steps_to_def)

lemma upsert_step:
  assumes ok: "records_ok d" and autos: "map_of autos h = managed_at d h"
  shows "\<exists>r'. steps_to d ((managed_at d)(h := r')) (upsert_hostname now users autos (h, ip) d) \<and>
    upsert_row now users (h, ip) (managed_at d h) r'"
proof (cases "h \<in> set users")
  case True
  then show ?thesis using steps_to_refl [OF ok]
    by (intro exI [of _ "managed_at d h"]) (simp add: upsert_hostname_def upsert_row_def)
next
  case False
  show ?thesis
  proof (cases "managed_at d h")
    case None
    have "r_answer (auto_record now h ip i) = ip" for i by (simp add: auto_record_def)
    then show ?thesis using steps_to_add [OF ok None, where ip = ip and now = now] None False autos
      by (intro exI [of _ "Some (auto_record now h ip (next_id r_id (db_records d)))"])
        (simp add: upsert_hostname_def upsert_row_def row_add_def)
  next
    case (Some rec)
    then show ?thesis
      using steps_to_put [OF ok Some, where ip = ip and now = now] steps_to_refl [OF ok] False autos
      by (cases "r_answer rec = ip") (auto simp: upsert_hostname_def upsert_row_def fun_upd_idem)
  qed
qed

lemma upsert_fold:
  assumes "records_ok d" and "distinct (map fst L)" and "\<And>h. h \<in> fst ` set L \<Longrightarrow> map_of autos h = managed_at d h"
  shows "\<exists>m. steps_to d m (fold (upsert_hostname now users autos) L d) \<and>
    (\<forall>h. case map_of L h of None \<Rightarrow> m h = managed_at d h
       | Some ip \<Rightarrow> upsert_row now users (h, ip) (managed_at d h) (m h))"
  using assms
proof (induction L arbitrary: d)
  case Nil
  then show ?case using steps_to_refl by auto
next
  case (Cons e L)
  obtain h ip where e: "e = (h, ip)" by (cases e)
  let ?d = "upsert_hostname now users autos (h, ip) d"
  obtain r' where r': "steps_to d ((managed_at d)(h := r')) ?d" "upsert_row now users (h, ip) (managed_at d h) r'"
    using upsert_step [OF Cons.prems(1), of autos h now users ip] Cons.prems(3) [of h] e by auto
  have at: "managed_at ?d = (managed_at d)(h := r')" and ok: "records_ok ?d"
    using r'(1) by (auto simp: steps_to_def)
  have dist: "distinct (map fst L)" and hL: "h \<notin> fst ` set L" using Cons.prems(2) e by simp_all
  have autos: "map_of autos h' = managed_at ?d h'" if "h' \<in> fst ` set L" for h'
  proof -
    have "h' \<noteq> h" and "h' \<in> fst ` set (e # L)" using that hL by auto
    with Cons.prems(3) [of h'] show ?thesis by (simp add: at)
  qed
  obtain m where m: "steps_to ?d m (fold (upsert_hostname now users autos) L ?d)"
    "\<forall>h. case map_of L h of None \<Rightarrow> m h = managed_at ?d h
       | Some ip \<Rightarrow> upsert_row now users (h, ip) (managed_at ?d h) (m h)"
    using Cons.IH [OF ok dist autos] by blast
  have none: "map_of L h = None" using hL by (simp add: map_of_eq_None_iff)
  have "case map_of (e # L) h' of None \<Rightarrow> m h' = managed_at d h'
       | Some ip \<Rightarrow> upsert_row now users (h', ip) (managed_at d h') (m h')" for h'
    using spec [OF m(2), of h'] r'(2) e at none by (cases "h' = h"; cases "map_of L h'") simp_all
  then have "\<forall>h'. case map_of (e # L) h' of None \<Rightarrow> m h' = managed_at d h'
       | Some ip \<Rightarrow> upsert_row now users (h', ip) (managed_at d h') (m h')" by blast
  moreover have "steps_to d m (fold (upsert_hostname now users autos) (e # L) d)"
    using steps_to_trans [OF r'(1) m(1)] e by simp
  ultimately show ?case by blast
qed

lemma drop_fold:
  assumes "records_ok d" and "distinct (map fst L)"
    and "\<And>h rec. (h, rec) \<in> set L \<Longrightarrow> h \<notin> set names \<Longrightarrow> managed_at d h = Some rec"
  shows "steps_to d (\<lambda>h. if h \<in> fst ` set L \<and> h \<notin> set names then None else managed_at d h)
    (fold (drop_hostname names) L d)"
  using assms
proof (induction L arbitrary: d)
  case Nil
  then show ?case using steps_to_refl by auto
next
  case (Cons e L)
  obtain h rec where e: "e = (h, rec)" by (cases e)
  show ?case
  proof (cases "h \<in> set names")
    case True
    have same: "(\<lambda>x. if x \<in> fst ` set (e # L) \<and> x \<notin> set names then None else managed_at d x) =
        (\<lambda>x. if x \<in> fst ` set L \<and> x \<notin> set names then None else managed_at d x)"
      using True e by (auto simp: fun_eq_iff)
    have "steps_to d (\<lambda>x. if x \<in> fst ` set L \<and> x \<notin> set names then None else managed_at d x)
        (fold (drop_hostname names) L d)"
      by (rule Cons.IH) (use Cons.prems in auto)
    moreover have "drop_hostname names e d = d" using True e by (simp add: drop_hostname_def)
    ultimately show ?thesis unfolding same by simp
  next
    case False
    let ?d = "d\<lparr>db_records := row_del r_id (r_id rec) (db_records d)\<rparr>"
    have step: "steps_to d ((managed_at d)(h := None)) ?d"
      by (rule steps_to_del) (use Cons.prems e False in auto)
    then have ok: "records_ok ?d" and at: "managed_at ?d = (managed_at d)(h := None)"
      by (auto simp: steps_to_def)
    have "h \<notin> fst ` set L" using Cons.prems(2) e by simp
    then have "steps_to ?d (\<lambda>x. if x \<in> fst ` set L \<and> x \<notin> set names then None else managed_at ?d x)
        (fold (drop_hostname names) L ?d)"
      by (intro Cons.IH ok) (use Cons.prems at in \<open>auto simp: rev_image_eqI\<close>)
    moreover have "(\<lambda>x. if x \<in> fst ` set L \<and> x \<notin> set names then None else managed_at ?d x) =
        (\<lambda>x. if x \<in> fst ` set (e # L) \<and> x \<notin> set names then None else managed_at d x)"
      using False e by (auto simp: fun_eq_iff at)
    moreover have "drop_hostname names e d = ?d" using False e by (simp add: drop_hostname_def)
    ultimately show ?thesis using steps_to_trans [OF step] by (simp only: fold_simps)
  qed
qed

text \<open>
  The managed row of every name after a pass: gone if no server uses the name; otherwise the
  resolver's answer, or the old row where the resolver fails or the user owns the name.
\<close>

lemma reconcile_hostnames_effect:
  assumes "records_ok d"
  shows "\<exists>m. steps_to d m (reconcile_hostname_records dns now d) \<and>
    (\<forall>h. if h \<notin> set (managed_hostnames d) then m h = None
         else case dns h of None \<Rightarrow> m h = managed_at d h
           | Some ip \<Rightarrow> upsert_row now (user_global d) (h, ip) (managed_at d h) (m h))"
proof -
  let ?L = "resolved_hosts dns d" and ?A = "auto_records d" and ?N = "managed_hostnames d"
  let ?d1 = "fold (upsert_hostname now (user_global d) ?A) ?L d"
  obtain m where m: "steps_to d m ?d1"
    "\<forall>h. case map_of ?L h of None \<Rightarrow> m h = managed_at d h
       | Some ip \<Rightarrow> upsert_row now (user_global d) (h, ip) (managed_at d h) (m h)"
    using upsert_fold [OF assms resolved_hosts_distinct, where autos = ?A and now = now and users = "user_global d"]
      auto_records_at [OF assms] by blast
  have at: "managed_at ?d1 = m" and ok: "records_ok ?d1" using m(1) by (auto simp: steps_to_def)
  let ?m = "\<lambda>h. if h \<in> fst ` set ?A \<and> h \<notin> set ?N then None else m h"
  have stale: "m h = managed_at d h" if "h \<notin> set ?N" for h
    using spec [OF m(2), of h] that by (simp add: resolved_hosts_at)
  have A: "map_of ?A h = managed_at d h" for h by (rule auto_records_at [OF assms])
  have "steps_to ?d1 ?m (fold (drop_hostname ?N) ?A ?d1)"
    unfolding at [symmetric]
  proof (rule drop_fold [OF ok auto_records_distinct])
    fix h rec assume "(h, rec) \<in> set ?A" and "h \<notin> set ?N"
    then show "managed_at ?d1 h = Some rec"
      using A [of h] stale auto_records_distinct at by (metis map_of_is_SomeI)
  qed
  then have "steps_to d ?m (reconcile_hostname_records dns now d)"
    using steps_to_trans [OF m(1)] by (simp add: reconcile_hostname_records_def Let_def)
  moreover have "?m h = None" if "h \<notin> set ?N" for h
    using A [of h] stale [OF that] that map_of_eq_None_iff [of ?A h] by (cases "h \<in> fst ` set ?A") simp_all
  moreover have "case dns h of None \<Rightarrow> ?m h = managed_at d h
      | Some ip \<Rightarrow> upsert_row now (user_global d) (h, ip) (managed_at d h) (?m h)" if "h \<in> set ?N" for h
    using spec [OF m(2), of h] that by (simp add: resolved_hosts_at)
  ultimately show ?thesis by (intro exI [of _ ?m]) auto
qed


lemma user_global_rows: "user_global d = map r_domain (filter (\<lambda>r. r_scope r = Rec_global) (user_rows d))"
  by (simp add: user_global_def user_rows_def conj_commute)

lemma reconcile_hostnames_frame:
  assumes "records_ok d"
  shows "records_ok (reconcile_hostname_records dns now d)"
    and "user_rows (reconcile_hostname_records dns now d) = user_rows d"
    and "db_servers (reconcile_hostname_records dns now d) = db_servers d"
    and "h \<notin> set (managed_hostnames d) \<Longrightarrow> managed_at (reconcile_hostname_records dns now d) h = None"
  using reconcile_hostnames_effect [OF assms, of dns now] by (auto simp: steps_to_def split: if_splits)

text \<open>The resolver's answer is in the row of every name the user does not own.\<close>

lemma reconcile_hostnames_row:
  assumes "records_ok d" and "h \<in> set (managed_hostnames d)" and "dns h = Some ip" and "h \<notin> set (user_global d)"
  shows "\<exists>r. managed_at (reconcile_hostname_records dns now d) h = Some r \<and> r_answer r = ip"
proof -
  obtain m where m: "managed_at (reconcile_hostname_records dns now d) = m"
    "upsert_row now (user_global d) (h, ip) (managed_at d h) (m h)"
    using reconcile_hostnames_effect [OF assms(1), of dns now] assms(2,3)
    by (fastforce simp: steps_to_def split: if_splits)
  then show ?thesis using assms(4) by (auto simp: upsert_row_def split: option.splits if_splits)
qed

text \<open>A pass over a database where every managed row is right changes nothing.\<close>

lemma reconcile_hostnames_noop:
  assumes ok: "records_ok d"
    and rows: "\<And>h ip. h \<in> set (managed_hostnames d) \<Longrightarrow> dns h = Some ip \<Longrightarrow> h \<notin> set (user_global d) \<Longrightarrow>
      \<exists>r. managed_at d h = Some r \<and> r_answer r = ip"
    and stale: "\<And>h. h \<notin> set (managed_hostnames d) \<Longrightarrow> managed_at d h = None"
  shows "reconcile_hostname_records dns now d = d"
proof -
  have "upsert_hostname now (user_global d) (auto_records d) e = id" if "e \<in> set (resolved_hosts dns d)" for e
  proof (cases e)
    case (Pair h ip)
    have "map_of (resolved_hosts dns d) h = Some ip"
      using that Pair resolved_hosts_distinct [of dns d] by simp
    then have "h \<in> set (managed_hostnames d)" "dns h = Some ip"
      by (auto simp: resolved_hosts_at split: if_splits)
    then show ?thesis
      using rows [of h ip] Pair auto_records_at [OF ok, of h]
      by (cases "h \<in> set (user_global d)") (auto simp: upsert_hostname_def fun_eq_iff)
  qed
  then have 1: "fold (upsert_hostname now (user_global d) (auto_records d)) (resolved_hosts dns d) d = d"
    by (simp add: fold_id)
  have "drop_hostname (managed_hostnames d) e = id" if "e \<in> set (auto_records d)" for e
  proof (cases e)
    case (Pair h rec)
    have "managed_at d h = Some rec"
      using that Pair auto_records_distinct [of d] auto_records_at [OF ok, of h] by (metis map_of_is_SomeI)
    with stale [of h] show ?thesis using Pair by (auto simp: drop_hostname_def fun_eq_iff)
  qed
  then have "fold (drop_hostname (managed_hostnames d)) (auto_records d) d = d"
    by (simp add: fold_id)
  with 1 show ?thesis by (simp add: reconcile_hostname_records_def Let_def)
qed

lemma reconcile_hostnames_again:
  assumes "records_ok d"
  shows "reconcile_hostname_records dns later (reconcile_hostname_records dns now d) =
    reconcile_hostname_records dns now d"
proof (rule reconcile_hostnames_noop)
  note frame = reconcile_hostnames_frame [OF assms, where dns = dns and now = now]
  show "records_ok (reconcile_hostname_records dns now d)" by (rule frame)
  have names: "managed_hostnames (reconcile_hostname_records dns now d) = managed_hostnames d"
    by (simp add: managed_hostnames_def frame)
  have users: "user_global (reconcile_hostname_records dns now d) = user_global d"
    by (simp add: user_global_rows frame)
  show "\<exists>r. managed_at (reconcile_hostname_records dns now d) h = Some r \<and> r_answer r = ip"
    if "h \<in> set (managed_hostnames (reconcile_hostname_records dns now d))" "dns h = Some ip"
      "h \<notin> set (user_global (reconcile_hostname_records dns now d))" for h ip
    using reconcile_hostnames_row [OF assms] that by (simp add: names users)
  show "managed_at (reconcile_hostname_records dns now d) h = None"
    if "h \<notin> set (managed_hostnames (reconcile_hostname_records dns now d))" for h
    using frame(4) that by (simp add: names)
qed

text \<open>A managed row is in every server's desired rewrites.\<close>

lemma managed_row_desired:
  assumes "records_ok d" and "managed_at d h = Some r"
  shows "\<lparr>rw_domain = h, rw_answer = r_answer r\<rparr> \<in> set (desired_rewrites_for_server d s)"
proof -
  have r: "r \<in> set (db_records d)" "r_managed r" "r_domain r = h"
    using managed_at_Some [OF assms(2)] by auto
  then have "r_enabled r" "r_scope r = Rec_global" using assms(1) by (auto simp: records_ok_def list_all_iff)
  then have "record_applies s r" by (simp add: record_applies_def)
  then have "rewrite_of r \<in> set (desired_rewrites_for_server d s)"
    using r \<open>r_enabled r\<close> by (simp add: desired_rewrites_for_server_def image_iff) blast
  then show ?thesis using r by (simp add: rewrite_of_def)
qed


section \<open>The handlers keep to the user's rows\<close>

definition managed_rows :: "db \<Rightarrow> dns_record list" where
  "managed_rows d = filter r_managed (db_records d)"

lemma records_ok_managed:
  assumes "records_ok d" and "managed_rows d' = managed_rows d" and "distinct (map r_id (db_records d'))"
  shows "records_ok d'"
proof -
  have "list_all (\<lambda>r. r_managed r \<longrightarrow> r_scope r = Rec_global \<and> r_enabled r) rs \<longleftrightarrow>
      list_all (\<lambda>r. r_scope r = Rec_global \<and> r_enabled r) (filter r_managed rs)" for rs
    by (auto simp: list_all_iff)
  note all_filter = this
  from assms show ?thesis unfolding records_ok_def managed_rows_def all_filter by simp
qed

lemma create_record_managed:
  assumes "create_record now p d = Inr d'"
  shows "managed_rows d' = managed_rows d" and "records_ok d \<Longrightarrow> records_ok d'"
proof -
  obtain mk where mk: "d' = d\<lparr>db_records := row_add r_id mk (db_records d)\<rparr>" "\<And>i. r_id (mk i) = i" "\<And>i. \<not> r_managed (mk i)"
    using assms by (auto simp: create_record_def split: sum.splits)
  show same: "managed_rows d' = managed_rows d" using mk by (simp add: managed_rows_def row_add_def)
  assume ok: "records_ok d"
  then show "records_ok d'"
    using rows.add_keeps_distinct [of r_id "db_records d" mk] mk
    by (intro records_ok_managed [OF ok same]) (simp add: records_ok_def)
qed

lemma patched_record_row:
  "patched_record now p zones r = Inr r' \<Longrightarrow> r_id r' = r_id r \<and> r_managed r' = r_managed r"
  by (auto simp: patched_record_def split: option.splits)

lemma filter_row_put:
  assumes "distinct (map key rs)" and "r \<in> set rs" and "key r' = key r" and "\<not> P r" and "\<not> P r'"
  shows "filter P (row_put key r' rs) = filter P rs"
proof -
  have "filter P (map (\<lambda>x. if x = r then r' else x) rs) = filter P rs"
    using assms(4,5) by (induction rs) auto
  then show ?thesis using row_put_row [OF assms(1-3)] by simp
qed

lemma update_record_managed:
  assumes "update_record now i p d = Inr d'" and ok: "records_ok d"
  shows "managed_rows d' = managed_rows d" and "records_ok d'"
proof -
  obtain r r' zones where r: "row_get r_id i (db_records d) = Some r" "\<not> r_managed r"
    "patched_record now p zones r = Inr r'" "d' = put_record r' d"
    using assms(1) by (auto simp: update_record_def Let_def split: option.splits sum.splits if_splits)
  show same: "managed_rows d' = managed_rows d"
    using r patched_record_row [OF r(3)] ok row_get_Some [OF r(1)]
      filter_row_put [of r_id "db_records d" r r' r_managed]
    by (simp add: managed_rows_def put_record_def records_ok_def)
  show "records_ok d'"
    using r(4) ok by (intro records_ok_managed [OF ok same]) (simp add: put_record_def records_ok_def keys_row_put)
qed

lemma delete_record_managed:
  assumes "delete_record i d = Inr d'" and ok: "records_ok d"
  shows "managed_rows d' = managed_rows d" and "records_ok d'"
proof -
  obtain r where r: "row_get r_id i (db_records d) = Some r" "\<not> r_managed r"
    and d': "d' = d\<lparr>db_records := row_del r_id i (db_records d)\<rparr>"
    using assms(1) by (auto simp: delete_record_def split: option.splits if_splits)
  have "row_del r_id i (db_records d) = filter (\<lambda>x. x \<noteq> r) (db_records d)"
    using row_del_row [of r_id "db_records d" r] row_get_Some [OF r(1)] ok by (simp add: records_ok_def)
  then show same: "managed_rows d' = managed_rows d"
    using r(2) d' by (auto simp: managed_rows_def filter_filter intro!: filter_cong)
  show "records_ok d'"
    using d' ok by (intro records_ok_managed [OF ok same]) (simp add: records_ok_def row_del_def distinct_map_filter)
qed

section \<open>Properties\<close>

text \<open>
  C7. Every server can resolve every other: after a pass, the desired rewrites of every server
  map the host name of every server that resolves to its address, unless the user has a
  global record of that name.
\<close>

theorem hostname_records_served:
  assumes "records_ok d" and "s0 \<in> set (db_servers d)" and "server_hostname s0 = Some h"
    and "dns h = Some ip" and "h \<notin> set (user_global d)"
  shows "\<lparr>rw_domain = h, rw_answer = ip\<rparr> \<in>
    set (desired_rewrites_for_server (reconcile_hostname_records dns now d) s)"
proof -
  have "h \<in> set (managed_hostnames d)"
    using assms(2,3) by (force simp: managed_hostnames_def List.map_filter_def)
  then obtain r where "managed_at (reconcile_hostname_records dns now d) h = Some r" "r_answer r = ip"
    using reconcile_hostnames_row [OF assms(1)] assms(4,5) by blast
  with managed_row_desired [OF reconcile_hostnames_frame(1) [OF assms(1)]] show ?thesis by blast
qed

definition hostname_db :: db where
  "hostname_db = empty_db\<lparr>db_servers := [sample_server 1 ''ns1'' ''http://NS1.lan:3000'']\<rparr>"

theorem hostname_records_served_witness:
  "\<lparr>rw_domain = ''ns1.lan'', rw_answer = ''10.0.0.2''\<rparr> \<in>
    set (desired_rewrites_for_server
      (reconcile_hostname_records (\<lambda>_. Some ''10.0.0.2'') 0 hostname_db) (sample_server 2 ''ns2'' ''x''))"
proof (rule hostname_records_served)
  show "records_ok hostname_db" by code_simp
  show "sample_server 1 ''ns1'' ''http://NS1.lan:3000'' \<in> set (db_servers hostname_db)"
    by (simp add: hostname_db_def)
  show "server_hostname (sample_server 1 ''ns1'' ''http://NS1.lan:3000'') = Some ''ns1.lan''" by code_simp
  show "''ns1.lan'' \<notin> set (user_global hostname_db)" by code_simp
qed simp

text \<open>
  The pass owns the managed rows only: it keeps the user's rows (and their order), it keeps
  its own invariant, and no name that is not a server's keeps a managed row.
\<close>

theorem hostname_records_frame:
  assumes "records_ok d"
  shows "records_ok (reconcile_hostname_records dns now d) \<and>
    user_rows (reconcile_hostname_records dns now d) = user_rows d \<and>
    (\<forall>h. managed_at (reconcile_hostname_records dns now d) h \<noteq> None \<longrightarrow> h \<in> set (managed_hostnames d))"
proof (intro conjI allI impI)
  fix h assume "managed_at (reconcile_hostname_records dns now d) h \<noteq> None"
  then show "h \<in> set (managed_hostnames d)"
    using reconcile_hostnames_frame(4) [OF assms, where h = h and dns = dns and now = now] by argo
qed (rule reconcile_hostnames_frame [OF assms])+

theorem hostname_records_frame_witness:
  "user_rows (reconcile_hostname_records (\<lambda>_. None) 0 hostname_db) = []"
proof -
  have "records_ok hostname_db" and "user_rows hostname_db = []" by code_simp+
  with hostname_records_frame [of hostname_db "\<lambda>_. None" 0] show ?thesis by simp
qed

text \<open>
  The pass is idempotent: run again with the same answers of the resolver, at any later
  time, it changes nothing, so the loop does not keep rewriting its records.
\<close>

theorem hostname_records_idempotent:
  assumes "records_ok d"
  shows "reconcile_hostname_records dns later (reconcile_hostname_records dns now d) =
    reconcile_hostname_records dns now d"
  by (rule reconcile_hostnames_again [OF assms])

theorem hostname_records_idempotent_witness:
  "reconcile_hostname_records (\<lambda>_. Some ''10.0.0.2'') 9 (reconcile_hostname_records (\<lambda>_. Some ''10.0.0.2'') 5 hostname_db) =
    reconcile_hostname_records (\<lambda>_. Some ''10.0.0.2'') 5 hostname_db"
proof (rule hostname_records_idempotent)
  show "records_ok hostname_db" by code_simp
qed

text \<open>
  The handlers own the other rows only: creating, changing or deleting a record through the
  API keeps every managed row as it is and keeps the reconciler's invariant.
\<close>

theorem record_handlers_frame:
  assumes "records_ok d"
    and "create_record now pc d = Inr d' \<or> update_record now i pu d = Inr d' \<or> delete_record i d = Inr d'"
  shows "managed_rows d' = managed_rows d \<and> records_ok d'"
  using assms(2)
  by (elim disjE) (use assms(1) create_record_managed update_record_managed delete_record_managed in metis)+

definition nas_record :: record_create where
  "nas_record = \<lparr>rc_domain = '' NAS.lan '', rc_answer = ''10.0.0.5'', rc_scope = Rec_global, rc_zone_ids = [],
     rc_enabled = True, rc_description = None\<rparr>"

theorem record_handlers_frame_witness:
  "\<exists>d'. create_record 7 nas_record hostname_db = Inr d' \<and> managed_rows d' = [] \<and>
     user_global d' = [''nas.lan'']"
proof -
  obtain d' where d': "create_record 7 nas_record hostname_db = Inr d'"
    by (simp add: create_record_def validate_scope_def nas_record_def)
  have "records_ok hostname_db" by code_simp
  with record_handlers_frame [OF _ disjI1, OF _ d'] have "managed_rows d' = managed_rows hostname_db" by simp
  moreover have "managed_rows hostname_db = []" by code_simp
  moreover have "map_option user_global (case create_record 7 nas_record hostname_db of Inl _ \<Rightarrow> None | Inr d \<Rightarrow> Some d) =
      Some [''nas.lan'']" by code_simp
  ultimately show ?thesis using d' by simp
qed

end
