(* ===== verification/Updater.thy ===== *)
theory Updater
  imports SyncApply Config
begin

text \<open>
  backend/app/updater.py: when a server may be upgraded (\<open>in_maintenance_window\<close>,
  \<open>skip_reason\<close>, \<open>due_server_ids\<close>), one upgrade call by call (\<open>update_server\<close>, behind the lock
  modelled in Locks) and the pass over the due servers. The two polling loops run until a
  deadline of the event loop's clock; they take fuel, and \<open>Diverged\<close> is the outcome of a run
  whose fuel ended first: with a clock that advances by at least the time slept, a fuel of one
  poll per interval up to the deadline is enough. Database operations of the updater succeed.
\<close>

section \<open>When to upgrade\<close>

definition minute_of_day :: "int \<Rightarrow> int" where
  "minute_of_day now = (now div (60 * second_us)) mod 1440"

definition in_maintenance_window :: "settings \<Rightarrow> int \<Rightarrow> bool" where
  "in_maintenance_window cfg now =
     (case parse_window (cf_auto_update_window cfg) of
        Malformed \<Rightarrow> False
      | Parsed None \<Rightarrow> True
      | Parsed (Some (start, end)) \<Rightarrow>
          let minutes = minute_of_day now in
          if start < end then start \<le> minutes \<and> minutes < end
          else minutes \<ge> start \<or> minutes < end)"

datatype skip =
    Skip_disabled | Skip_not_opted_in | Skip_kept_on_box | Skip_check_disabled | Skip_latest
  | Skip_cooldown | Skip_delegated | Skip_retry_after int

definition stripped :: "string option \<Rightarrow> string" where
  "stripped s = py_strip (str_or s [])"

definition hours_us :: "int \<Rightarrow> int" where
  "hours_us h = h * 3600 * second_us"

definition skip_reason :: "settings \<Rightarrow> server \<Rightarrow> int \<Rightarrow> skip option" where
  "skip_reason cfg s now =
     (if \<not> s_enabled s then Some Skip_disabled
      else if \<not> s_auto_update s then Some Skip_not_opted_in
      else if \<not> s_update_available s \<or> stripped (s_latest_version s) = [] then
        (if s_update_check_disabled s then
           (if s_install_method s = Some Inst_docker \<and> s_agent_id s = None then Some Skip_kept_on_box
            else Some Skip_check_disabled)
         else Some Skip_latest)
      else if (case s_cooldown_until s of None \<Rightarrow> False | Some c \<Rightarrow> c > now) then Some Skip_cooldown
      else
        let target = stripped (s_latest_version s); attempted = stripped (s_update_attempted_version s) in
        if s_update_state s = Upd_delegated \<and> attempted = target then Some Skip_delegated
        else if s_update_state s = Upd_failed \<and> attempted = target then
          (case s_update_attempted_at s of
             None \<Rightarrow> None
           | Some tried \<Rightarrow>
               let retry_at = tried + hours_us (max 0 (cf_auto_update_retry_hours cfg)) in
               if retry_at > now then Some (Skip_retry_after retry_at) else None)
        else None)"

definition forced_due :: "server \<Rightarrow> bool" where
  "forced_due s =
     ((s_agent_id s \<noteq> None \<and> s_install_method s = Some Inst_docker) \<or>
      (s_update_available s \<and> stripped (s_latest_version s) \<noteq> []))"

definition due_server_ids :: "settings \<Rightarrow> int \<Rightarrow> bool \<Rightarrow> int option \<Rightarrow> db \<Rightarrow> int list" where
  "due_server_ids cfg now force only d =
     (if \<not> force \<and> \<not> in_maintenance_window cfg now then []
      else map s_id (filter (\<lambda>s. if force then forced_due s else skip_reason cfg s now = None)
             (filter (\<lambda>s. only = None \<or> only = Some (s_id s)) (db_servers d))))"

section \<open>Recording an attempt\<close>

record update_outcome =
  uo_server_id :: int
  uo_server_name :: string
  uo_state :: update_state
  uo_from_version :: "string option"
  uo_to_version :: "string option"
  uo_message :: string

definition recorded_row :: "int \<Rightarrow> update_outcome \<Rightarrow> string option \<Rightarrow> server \<Rightarrow> server" where
  "recorded_row now outcome target s =
     (let s = s\<lparr>s_update_state := uo_state outcome, s_update_attempted_at := Some now,
                s_update_attempted_version := target,
                s_update_error := (if uo_state outcome = Upd_succeeded then None
                                   else none_if_empty (uo_message outcome))\<rparr>;
          s = (if uo_state outcome = Upd_idle then s\<lparr>s_update_error := None\<rparr> else s)
      in if uo_state outcome = Upd_succeeded then
           (let s = s\<lparr>s_update_completed_at := Some now, s_update_error := None\<rparr>;
                s = (case uo_to_version outcome of
                       Some v \<Rightarrow> if v \<noteq> [] then s\<lparr>s_version := Some v\<rparr> else s | None \<Rightarrow> s)
            in s\<lparr>s_update_available := False, s_latest_version := None\<rparr>)
         else s)"

definition record_outcome :: "int \<Rightarrow> int \<Rightarrow> update_outcome \<Rightarrow> string option \<Rightarrow> db \<Rightarrow> db" where
  "record_outcome now i outcome target d =
     (case get_server d i of None \<Rightarrow> d | Some s \<Rightarrow> put_server (recorded_row now outcome target s) d)"

section \<open>One upgrade\<close>

record 's upd = "(call, 's) world" +
  up_db :: db
  up_target :: "string option"
  up_current :: "string option"

type_synonym ('s, 'a) upd_io = "('s upd, 'a) io"

datatype 'a run = Diverged | Done 'a

text \<open>What the updater read of the server before the network phase.\<close>

record upd_snapshot =
  un_id :: int
  un_name :: string
  un_method :: "install_method option"
  un_agent_url :: "string option"
  un_timeout :: int

definition poll_interval_us :: int where
  "poll_interval_us = 5 * second_us"

definition back_interval_us :: int where
  "back_interval_us = 3 * second_us"

definition poll_status :: "'s wenv \<Rightarrow> ((call, 's, 'm) world_scheme, json option) io" where
  "poll_status e =
     io_bind (io_except is_adguard_error
       (io_bind (call_io e AG_status) (\<lambda>j. io_return (Some j))) (\<lambda>_. io_return None)) (\<lambda>r.
     case r of None \<Rightarrow> io_return None
     | Some j \<Rightarrow> io_seq (expect_obj j) (io_return (Some j)))"

definition status_version :: "json \<Rightarrow> string" where
  "status_version j = stripped (json_text (jget j ''version''))"

text \<open>\<open>_await_new_version\<close>: poll until the box reports another version.\<close>

fun await_new_version ::
  "'s wenv \<Rightarrow> string option \<Rightarrow> int \<Rightarrow> nat \<Rightarrow> ((call, 's, 'm) world_scheme, string option run) io" where
  "await_new_version e previous deadline 0 = io_return Diverged"
| "await_new_version e previous deadline (Suc n) =
     io_bind (loop_time_io e) (\<lambda>t.
       if \<not> t < deadline then io_return (Done None)
       else io_seq (tick_io e (SYS_sleep poll_interval_us))
         (io_bind (poll_status e) (\<lambda>status.
            case status of
              None \<Rightarrow> await_new_version e previous deadline n
            | Some j \<Rightarrow>
                let current = status_version j in
                if current \<noteq> [] \<and> current \<noteq> stripped previous then io_return (Done (Some current))
                else await_new_version e previous deadline n)))"

text \<open>\<open>_await_back\<close>: poll until it answers at all. The loop starts after one sleep.\<close>

fun back_loop :: "'s wenv \<Rightarrow> int \<Rightarrow> nat \<Rightarrow> ((call, 's, 'm) world_scheme, string option run) io" where
  "back_loop e deadline 0 = io_return Diverged"
| "back_loop e deadline (Suc n) =
     io_bind (loop_time_io e) (\<lambda>t.
       if \<not> t < deadline then io_return (Done None)
       else io_bind (poll_status e) (\<lambda>status.
         case (case status of None \<Rightarrow> [] | Some j \<Rightarrow> status_version j) of
           [] \<Rightarrow> io_seq (tick_io e (SYS_sleep back_interval_us)) (back_loop e deadline n)
         | c # cs \<Rightarrow> io_return (Done (Some (c # cs)))))"

definition await_back :: "'s wenv \<Rightarrow> int \<Rightarrow> nat \<Rightarrow> ((call, 's, 'm) world_scheme, string option run) io" where
  "await_back e deadline n = io_seq (tick_io e (SYS_sleep back_interval_us)) (back_loop e deadline n)"

text \<open>\<open>_record\<close> followed by the return of the outcome.\<close>

definition finish ::
  "'s wenv \<Rightarrow> upd_snapshot \<Rightarrow> update_state \<Rightarrow> string option \<Rightarrow> string \<Rightarrow> string option
   \<Rightarrow> ('s, update_outcome run) upd_io" where
  "finish e snap state to msg target =
     io_bind (io_get up_current) (\<lambda>current.
     let outcome = \<lparr>uo_server_id = un_id snap, uo_server_name = un_name snap, uo_state = state,
           uo_from_version = current, uo_to_version = to, uo_message = msg\<rparr> in
     io_bind (now_io e) (\<lambda>now.
     io_seq (io_modify (\<lambda>w. w\<lparr>up_db := record_outcome now (un_id snap) outcome target (up_db w)\<rparr>))
       (io_return (Done outcome))))"

definition or_question :: "string option \<Rightarrow> string" where
  "or_question s = str_or s ''?''"

definition after_recreate ::
  "'s wenv \<Rightarrow> upd_snapshot \<Rightarrow> string option \<Rightarrow> string option run \<Rightarrow> ('s, update_outcome run) upd_io" where
  "after_recreate e snap target r =
     (case r of
        Diverged \<Rightarrow> io_return Diverged
      | Done None \<Rightarrow> finish e snap Upd_failed target
          (''The agent recreated the container but the server did not answer again within ''
            @ show_int (un_timeout snap) @ ''s.'') target
      | Done (Some v) \<Rightarrow>
          io_bind (io_get up_current) (\<lambda>current.
          finish e snap Upd_succeeded (Some v)
            (''Recreated from the current image: '' @ or_question current @ '' -> '' @ v @ '' (via agent).'')
            (if target = None then Some v else target)))"

definition via_agent :: "'s wenv \<Rightarrow> upd_snapshot \<Rightarrow> string option \<Rightarrow> nat \<Rightarrow> ('s, update_outcome run) upd_io" where
  "via_agent e snap target fuel =
     io_bind (io_finally (call_io e AT_adguard_update) (log_call AT_close)) (\<lambda>reply.
     io_seq (expect_obj reply)
     (if truthy (jget reply ''started'')
      then io_bind (loop_time_io e) (\<lambda>t.
        io_bind (await_back e (t + un_timeout snap * second_us) fuel) (after_recreate e snap target))
      else finish e snap Upd_idle target
             (str_or (json_text (jget reply ''message'')) ''Already on the latest image.'') None))"

text \<open>
  \<open>update_now\<close>: a refusal carries a status code and fails the upgrade; any other
  \<open>AdGuardError\<close> is the connection dying as the process restarts.
\<close>

definition request_upgrade :: "'s wenv \<Rightarrow> ((call, 's, 'm) world_scheme, unit) io" where
  "request_upgrade e =
     io_except is_adguard_error
       (io_bind (call_io e AG_update_now) (\<lambda>_. io_return ()))
       (\<lambda>x. case x of
          AdGuardError m (Some code) ra \<Rightarrow>
            io_raise (AdGuardError (m @ '' - AdGuard refused to upgrade itself. This usually means the install cannot be replaced in place (a container, a package install, or a read-only binary), even though it reported that it could. Set this server'' @ apostrophe @ ''s install method so the right updater is used.'') (Some code) None)
        | _ \<Rightarrow> io_return ())"

definition after_restart ::
  "'s wenv \<Rightarrow> upd_snapshot \<Rightarrow> string \<Rightarrow> string option \<Rightarrow> string option run \<Rightarrow> ('s, update_outcome run) upd_io" where
  "after_restart e snap target current r =
     (case r of
        Diverged \<Rightarrow> io_return Diverged
      | Done None \<Rightarrow> finish e snap Upd_failed (Some target)
          (''Upgrade to '' @ target @ '' was started but the server did not come back within ''
            @ show_int (un_timeout snap)
            @ ''s. It may still be restarting - check the server before retrying.'') (Some target)
      | Done (Some v) \<Rightarrow> finish e snap Upd_succeeded (Some v)
          (''Updated '' @ or_question current @ '' -> '' @ v @ ''.'') (Some target))"

definition in_place :: "'s wenv \<Rightarrow> upd_snapshot \<Rightarrow> string \<Rightarrow> nat \<Rightarrow> ('s, update_outcome run) upd_io" where
  "in_place e snap target fuel =
     io_seq (request_upgrade e)
     (io_bind (loop_time_io e) (\<lambda>t.
      io_bind (io_get up_current) (\<lambda>current.
      io_bind (await_new_version e current (t + un_timeout snap * second_us) fuel)
        (after_restart e snap target current))))"

definition check_disabled_message :: "install_method option \<Rightarrow> string" where
  "check_disabled_message m =
     (if m = Some Inst_docker then ''AdGuard Home in Docker ships with --no-check-update, so it never reports new releases. That is expected and cannot be changed from its UI - the on-box updater keeps the container up to date instead.''
      else ''This server'' @ apostrophe @ ''s update check is switched off, so it cannot report new releases. Turn on '' @ apostrophe
             @ ''Automatically check for updates'' @ apostrophe @ '' in its AdGuard Home settings, or - if it is started with --no-check-update - remove that flag.'')"

definition delegated_message :: "install_method option \<Rightarrow> string \<Rightarrow> string" where
  "delegated_message m target =
     ''AdGuard Home '' @ target @
     (if m = Some Inst_docker then '' is available. A container cannot replace its own image, so the on-box updater installs it - see Updates -> '' @ apostrophe @ ''Docker servers'' @ apostrophe @ ''.''
      else '' is available, but this instance reports it cannot upgrade itself (a container, a package install, or a read-only binary). Install the on-box updater, or update it the way it was installed.'')"

text \<open>Who installs the release: the agent, nobody, the on-box updater, or the server itself.\<close>

definition choose_upgrade ::
  "'s wenv \<Rightarrow> upd_snapshot \<Rightarrow> nat \<Rightarrow> string option \<Rightarrow> bool \<Rightarrow> bool \<Rightarrow> string option \<Rightarrow> ('s, update_outcome run) upd_io" where
  "choose_upgrade e snap fuel target can_autoupdate disabled current =
     (if un_agent_url snap \<noteq> None \<and> un_agent_url snap \<noteq> Some [] \<and> un_method snap = Some Inst_docker
      then via_agent e snap target fuel
      else if target = None \<or> target = Some (str_or current [])
      then finish e snap Upd_idle None
        (if disabled then check_disabled_message (un_method snap) else ''Already on the latest version.'') None
      else if un_method snap = Some Inst_docker \<or> \<not> can_autoupdate
      then finish e snap Upd_delegated target (delegated_message (un_method snap) (the target)) target
      else in_place e snap (the target) fuel)"

definition update_try :: "'s wenv \<Rightarrow> upd_snapshot \<Rightarrow> nat \<Rightarrow> ('s, update_outcome run) upd_io" where
  "update_try e snap fuel =
     io_bind (call_obj e (AG_version_check True)) (\<lambda>info.
     let target = none_if_empty (stripped (json_text (jget info ''new_version''))) in
     io_seq (io_modify (\<lambda>w. w\<lparr>up_target := target\<rparr>))
     (io_bind (call_obj e AG_status) (\<lambda>status.
     io_seq (io_modify (\<lambda>w. w\<lparr>up_current :=
         (if status_version status = [] then up_current w else Some (status_version status))\<rparr>))
     (io_bind (io_get up_current)
       (choose_upgrade e snap fuel target (truthy (jget info ''can_autoupdate'')) (truthy (jget info ''disabled'')))))))"

definition snapshot_of :: "settings \<Rightarrow> db \<Rightarrow> server \<Rightarrow> upd_snapshot" where
  "snapshot_of cfg d s =
     \<lparr>un_id = s_id s, un_name = s_name s, un_method = s_install_method s,
      un_agent_url = (case s_agent_id s of None \<Rightarrow> None | Some a \<Rightarrow> map_option a_url (get_agent d a)),
      un_timeout = cf_auto_update_restart_timeout_seconds cfg\<rparr>"

text \<open>Every exception of the \<open>try\<close> block becomes a recorded failure; the client is always closed.\<close>

definition guarded_update :: "'s wenv \<Rightarrow> upd_snapshot \<Rightarrow> nat \<Rightarrow> ('s, update_outcome run) upd_io" where
  "guarded_update e snap fuel =
     io_finally
       (io_except (\<lambda>_. True) (update_try e snap fuel)
         (\<lambda>x. io_bind (io_get up_target) (\<lambda>target. finish e snap Upd_failed target (exn_str x) target)))
       (log_call AG_close)"

definition update_locked ::
  "settings \<Rightarrow> client_builder \<Rightarrow> 's wenv \<Rightarrow> nat \<Rightarrow> int \<Rightarrow> ('s, update_outcome option run) upd_io" where
  "update_locked cfg build e fuel i =
     io_bind (io_get up_db) (\<lambda>d.
     case get_server d i of
       None \<Rightarrow> io_return (Done None)
     | Some s \<Rightarrow>
         let snap = snapshot_of cfg d s in
         io_seq (io_modify (\<lambda>w. w\<lparr>up_target := None, up_current := s_version s\<rparr>))
         (io_bind
           (case build (s_url s) (s_username s) (s_password_enc s) (s_tls_cert s) of
              Some x \<Rightarrow> finish e snap Upd_failed None (''Server configuration error: '' @ exn_str x) None
            | None \<Rightarrow> guarded_update e snap fuel)
           (\<lambda>r. io_return (case r of Diverged \<Rightarrow> Diverged | Done out \<Rightarrow> Done (Some out)))))"

definition busy_outcome :: "db \<Rightarrow> int \<Rightarrow> update_outcome" where
  "busy_outcome d i =
     \<lparr>uo_server_id = i,
      uo_server_name = (case get_server d i of None \<Rightarrow> ''server #'' @ show_int i | Some s \<Rightarrow> s_name s),
      uo_state = Upd_idle, uo_from_version = None, uo_to_version = None,
      uo_message = ''Busy with another operation; will be picked up next pass.''\<rparr>"

definition update_server ::
  "settings \<Rightarrow> client_builder \<Rightarrow> 's wenv \<Rightarrow> nat \<Rightarrow> bool \<Rightarrow> int \<Rightarrow> ('s, update_outcome option run) upd_io" where
  "update_server cfg build e fuel locked i =
     (if locked then io_bind (io_get up_db) (\<lambda>d. io_return (Done (Some (busy_outcome d i))))
      else update_locked cfg build e fuel i)"

section \<open>A pass\<close>

text \<open>
  What one task of the fan-out ended with: an exception, nothing, or an outcome;
  \<open>collect_outcomes\<close> is the loop after \<open>asyncio.gather\<close>.
\<close>

definition collect_outcomes :: "(int \<times> (exn + update_outcome option)) list \<Rightarrow> update_outcome list" where
  "collect_outcomes settled =
     List.map_filter (\<lambda>(i, item). case item of
       Inl x \<Rightarrow> Some \<lparr>uo_server_id = i, uo_server_name = ''server #'' @ show_int i, uo_state = Upd_failed,
         uo_from_version = None, uo_to_version = None, uo_message = exn_str x\<rparr>
     | Inr out \<Rightarrow> out) settled"

definition updates_to_run :: "settings \<Rightarrow> int \<Rightarrow> bool \<Rightarrow> int option \<Rightarrow> db \<Rightarrow> int list" where
  "updates_to_run cfg now force only d =
     (if \<not> cf_auto_update_enabled cfg \<and> \<not> force then [] else due_server_ids cfg now force only d)"

definition run_updates ::
  "settings \<Rightarrow> int \<Rightarrow> bool \<Rightarrow> int option \<Rightarrow> (int \<Rightarrow> exn + update_outcome option) \<Rightarrow> db \<Rightarrow> update_outcome list" where
  "run_updates cfg now force only task d =
     collect_outcomes (map (\<lambda>i. (i, task i)) (updates_to_run cfg now force only d))"

section \<open>Facts\<close>

lemma skip_reason_None:
  assumes "skip_reason cfg s now = None"
  shows "s_enabled s" and "s_auto_update s" and "s_update_available s" and "stripped (s_latest_version s) \<noteq> []"
    and "s_cooldown_until s = Some c \<Longrightarrow> c \<le> now"
    and "s_update_state s = Upd_delegated \<Longrightarrow> stripped (s_update_attempted_version s) \<noteq> stripped (s_latest_version s)"
    and "s_update_state s = Upd_failed \<Longrightarrow> stripped (s_update_attempted_version s) = stripped (s_latest_version s) \<Longrightarrow>
      s_update_attempted_at s = Some t \<Longrightarrow> t + hours_us (max 0 (cf_auto_update_retry_hours cfg)) \<le> now"
  using assms by (auto simp: skip_reason_def Let_def split: if_splits option.splits)

subsection \<open>The loops end\<close>

text \<open>The clock of the event loop never runs backwards and advances by what was slept.\<close>

definition clock_ok :: "'s wenv \<Rightarrow> bool" where
  "clock_ok e \<longleftrightarrow>
     (\<forall>c s. e_loop_time e s \<le> e_loop_time e (snd (e_call e c s))) \<and>
     (\<forall>us s. e_loop_time e s + us \<le> e_loop_time e (snd (e_call e (SYS_sleep us) s)))"

definition later :: "'s wenv \<Rightarrow> (call, 's, 'm) world_scheme \<Rightarrow> (call, 's, 'm) world_scheme \<Rightarrow> bool" where
  "later e w w' \<longleftrightarrow> e_loop_time e (w_out w) \<le> e_loop_time e (w_out w')"

lemma later_frame:
  assumes "clock_ok e" shows "client_frame (later e) (\<lambda>_. True) e"
proof (intro client_frame.intro call_frame.intro frame.intro call_frame_axioms.intro)
  fix c
  have "e_loop_time e s \<le> e_loop_time e (snd (e_call e c s))" for s using assms by (simp add: clock_ok_def)
  then show "keeps (later e) (call_io e c)"
    by (simp add: keeps_def later_def call_io_def case_prod_beta)
qed (simp_all add: later_def)

context client_frame
begin

lemma keeps_poll [frame_intros]: "P AG_status \<Longrightarrow> keeps R (poll_status e)"
  unfolding poll_status_def by (auto intro!: frame_intros split: option.splits)

lemma keeps_await_new [frame_intros]:
  assumes "P AG_status" and "P (SYS_sleep poll_interval_us)"
  shows "keeps R (await_new_version e previous deadline fuel)"
proof (induction fuel)
  case (Suc n)
  show ?case unfolding await_new_version.simps Let_def
    by (auto intro!: frame_intros Suc assms split: option.splits)
qed (simp add: keeps_return)

lemma keeps_await_back [frame_intros]:
  assumes "P AG_status" and "P (SYS_sleep back_interval_us)"
  shows "keeps R (await_back e deadline fuel)"
proof -
  have "keeps R (back_loop e deadline fuel)"
  proof (induction fuel)
    case (Suc n)
    show ?case unfolding back_loop.simps
      by (auto intro!: frame_intros Suc assms split: option.splits list.splits)
  qed (simp add: keeps_return)
  with assms show ?thesis unfolding await_back_def by (intro frame_intros)
qed

end

lemma poll_later: "clock_ok e \<Longrightarrow> poll_status e w = (r, w') \<Longrightarrow> e_loop_time e (w_out w) \<le> e_loop_time e (w_out w')"
  using keepsD [OF client_frame.keeps_poll [OF later_frame]] by (fastforce simp: later_def)

lemma sleep_later: "clock_ok e \<Longrightarrow> tick_io e (SYS_sleep us) w = (r, w') \<Longrightarrow>
    e_loop_time e (w_out w) + us \<le> e_loop_time e (w_out w')"
  by (auto simp: tick_io_def clock_ok_def)

lemma io_run_Inr: "io_bind m f w = (case m w of (Inr a, w') \<Rightarrow> f a w' | (Inl x, w') \<Rightarrow> (Inl x, w'))"
  by (simp add: io_bind_def split: prod.split sum.split)

lemma await_new_ends:
  assumes "clock_ok e"
  shows "deadline \<le> e_loop_time e (w_out w) + int n * poll_interval_us \<Longrightarrow> n < fuel \<Longrightarrow>
    fst (await_new_version e previous deadline fuel w) \<noteq> Inr Diverged"
proof (induction fuel arbitrary: n w)
  case (Suc k)
  let ?t = "e_loop_time e (w_out w)"
  show ?case
  proof (cases "?t < deadline")
    case False
    then show ?thesis by (simp add: loop_time_io_def io_defs)
  next
    case True
    with Suc.prems(1) obtain m where n: "n = Suc m" by (cases n) auto
    obtain w1 where w1: "tick_io e (SYS_sleep poll_interval_us) w = (Inr (), w1)" by (simp add: tick_io_def)
    obtain r w2 where w2: "poll_status e w1 = (r, w2)" by fastforce
    have "deadline \<le> e_loop_time e (w_out w2) + int m * poll_interval_us"
      using Suc.prems(1) n sleep_later [OF assms w1] poll_later [OF assms w2] by (simp add: algebra_simps)
    with Suc.IH n Suc.prems(2) have "fst (await_new_version e previous deadline k w2) \<noteq> Inr Diverged" by simp
    with True w1 w2 show ?thesis
      by (auto simp: io_run_Inr io_seq_def loop_time_io_def io_get_def io_return_def Let_def split: sum.split option.split)
  qed
qed simp

lemma back_loop_ends:
  assumes "clock_ok e"
  shows "deadline \<le> e_loop_time e (w_out w) + int n * back_interval_us \<Longrightarrow> n < fuel \<Longrightarrow>
    fst (back_loop e deadline fuel w) \<noteq> Inr Diverged"
proof (induction fuel arbitrary: n w)
  case (Suc k)
  let ?t = "e_loop_time e (w_out w)"
  show ?case
  proof (cases "?t < deadline")
    case False
    then show ?thesis by (simp add: loop_time_io_def io_defs)
  next
    case True
    with Suc.prems(1) obtain m where n: "n = Suc m" by (cases n) auto
    obtain r w1 where w1: "poll_status e w = (r, w1)" by fastforce
    obtain w2 where w2: "tick_io e (SYS_sleep back_interval_us) w1 = (Inr (), w2)" by (simp add: tick_io_def)
    have "deadline \<le> e_loop_time e (w_out w2) + int m * back_interval_us"
      using Suc.prems(1) n sleep_later [OF assms w2] poll_later [OF assms w1] by (simp add: algebra_simps)
    with Suc.IH n Suc.prems(2) have "fst (back_loop e deadline k w2) \<noteq> Inr Diverged" by simp
    with True w1 w2 show ?thesis
      by (auto simp: io_run_Inr io_seq_def loop_time_io_def io_get_def io_return_def split: sum.split list.split)
  qed
qed simp

subsection \<open>Every run is recorded\<close>

text \<open>
  What every piece of an upgrade satisfies: an exception leaves the database alone, an outcome
  has been recorded for the server, a success names the version that was observed (another
  one than before, unless a container was recreated), and the fuel is not used up.
\<close>

definition honest_outcome :: "upd_snapshot \<Rightarrow> update_outcome \<Rightarrow> bool" where
  "honest_outcome snap out \<longleftrightarrow> uo_server_id out = un_id snap \<and>
     (uo_state out = Upd_succeeded \<longrightarrow>
        (\<exists>v. uo_to_version out = Some v \<and> v \<noteq> [] \<and>
           (un_method snap \<noteq> Some Inst_docker \<longrightarrow> v \<noteq> stripped (uo_from_version out))))"

fun concluded :: "bool \<Rightarrow> upd_snapshot \<Rightarrow> db \<Rightarrow> exn + update_outcome run \<Rightarrow> db \<Rightarrow> bool" where
  "concluded enough snap d (Inl x) d' = (d' = d)"
| "concluded enough snap d (Inr Diverged) d' = (\<not> enough)"
| "concluded enough snap d (Inr (Done out)) d' =
     (honest_outcome snap out \<and> (\<exists>now target. d' = record_outcome now (un_id snap) out target d))"

definition concludes :: "bool \<Rightarrow> upd_snapshot \<Rightarrow> ('s, update_outcome run) upd_io \<Rightarrow> 's upd \<Rightarrow> bool" where
  "concludes enough snap m w \<longleftrightarrow> concluded enough snap (up_db w) (fst (m w)) (up_db (snd (m w)))"

lemma same_more_db: "same_more w w' \<Longrightarrow> up_db w' = up_db w \<and> up_current w' = up_current w \<and> up_target w' = up_target w"
  by (cases w, cases w') (simp add: same_more_def)

lemma concludes_bind:
  assumes m: "keeps same_more m" and f: "\<And>a w1. m w = (Inr a, w1) \<Longrightarrow> up_db w1 = up_db w \<Longrightarrow>
      up_current w1 = up_current w \<Longrightarrow> concludes enough snap (f a) w1"
  shows "concludes enough snap (io_bind m f) w"
proof (cases "m w")
  case (Pair r w1)
  have same: "up_db w1 = up_db w \<and> up_current w1 = up_current w"
    using same_more_db [OF keepsD [OF m Pair]] by blast
  show ?thesis
  proof (cases r)
    case (Inl x)
    with Pair same show ?thesis by (simp add: concludes_def io_bind_def)
  next
    case (Inr a)
    with f [of a w1] Pair same show ?thesis by (simp add: concludes_def io_bind_def)
  qed
qed

lemma concludes_seq:
  assumes "keeps same_more m" and "\<And>w1. up_db w1 = up_db w \<Longrightarrow> up_current w1 = up_current w \<Longrightarrow> concludes enough snap n w1"
  shows "concludes enough snap (io_seq m n) w"
  unfolding io_seq_def by (rule concludes_bind [OF assms(1)]) (rule assms(2))

lemma concludes_set:
  "(\<And>w1. up_db w1 = up_db w \<Longrightarrow> concludes enough snap n w1) \<Longrightarrow> (\<And>w. up_db (f w) = up_db w) \<Longrightarrow>
   concludes enough snap (io_seq (io_modify f) n) w"
  by (simp add: concludes_def io_seq_def io_bind_def io_modify_def)

lemma concludes_finish:
  assumes "state = Upd_succeeded \<Longrightarrow> \<exists>v. to = Some v \<and> v \<noteq> [] \<and> (un_method snap \<noteq> Some Inst_docker \<longrightarrow> v \<noteq> stripped (up_current w))"
  shows "concludes enough snap (finish e snap state to msg target) w"
  using assms by (auto simp: concludes_def finish_def io_defs now_io_def honest_outcome_def Let_def)

lemma concludes_other: "state \<noteq> Upd_succeeded \<Longrightarrow> concludes enough snap (finish e snap state to msg target) w"
  by (rule concludes_finish) simp

lemma await_new_result:
  "fst (await_new_version e previous deadline fuel w) = Inr (Done (Some v)) \<Longrightarrow> v \<noteq> [] \<and> v \<noteq> stripped previous"
proof (induction fuel arbitrary: w)
  case (Suc n)
  then show ?case
    by (auto simp: io_run_Inr io_seq_def loop_time_io_def io_get_def io_return_def Let_def tick_io_def
        split: sum.splits option.splits prod.splits if_splits)
qed (simp add: io_return_def)

lemma back_loop_result: "fst (back_loop e deadline fuel w) = Inr (Done (Some v)) \<Longrightarrow> v \<noteq> []"
proof (induction fuel arbitrary: w)
  case (Suc n)
  then show ?case
    by (auto simp: io_run_Inr io_seq_def loop_time_io_def io_get_def io_return_def tick_io_def
        split: sum.splits option.splits prod.splits if_splits list.splits)
qed (simp add: io_return_def)

lemma await_back_result: "fst (await_back e deadline fuel w) = Inr (Done (Some v)) \<Longrightarrow> v \<noteq> []"
proof -
  assume r: "fst (await_back e deadline fuel w) = Inr (Done (Some v))"
  obtain w1 where "tick_io e (SYS_sleep back_interval_us) w = (Inr (), w1)" by (simp add: tick_io_def)
  with r have "fst (back_loop e deadline fuel w1) = Inr (Done (Some v))"
    by (simp add: await_back_def io_seq_def io_run_Inr)
  then show "v \<noteq> []" by (rule back_loop_result)
qed

text \<open>One poll per interval up to the deadline, and one more.\<close>

definition enough_fuel :: "int \<Rightarrow> nat \<Rightarrow> bool" where
  "enough_fuel timeout fuel \<longleftrightarrow> nat (timeout div 3) + 1 < fuel"

lemma fuel_covers:
  assumes "enough_fuel timeout fuel" and "3 * second_us \<le> interval"
  shows "\<exists>n < fuel. t + timeout * second_us \<le> t + int n * interval"
proof (intro exI conjI)
  let ?n = "nat (timeout div 3) + 1"
  show "?n < fuel" using assms(1) by (simp add: enough_fuel_def)
  have "timeout < (timeout div 3 + 1) * 3" by presburger
  then have "timeout \<le> int ?n * 3" by simp
  then have "timeout * second_us \<le> int ?n * (3 * second_us)" by (simp add: second_us_def)
  also have "\<dots> \<le> int ?n * interval" using assms(2) by (rule mult_left_mono) simp
  finally show "t + timeout * second_us \<le> t + int ?n * interval" by simp
qed

lemma intervals: "3 * second_us \<le> poll_interval_us" "3 * second_us \<le> back_interval_us"
  by (simp_all add: poll_interval_us_def back_interval_us_def second_us_def)

lemma await_new_done:
  assumes "clock_ok e" and "enough_fuel timeout fuel"
  shows "fst (await_new_version e p (e_loop_time e (w_out w) + timeout * second_us) fuel w) \<noteq> Inr Diverged"
  using fuel_covers [OF assms(2) intervals(1)] await_new_ends [OF assms(1)] by blast

lemma await_back_done:
  assumes "clock_ok e" and "enough_fuel timeout fuel"
  shows "fst (await_back e (e_loop_time e (w_out w) + timeout * second_us) fuel w) \<noteq> Inr Diverged"
proof -
  obtain w1 where w1: "tick_io e (SYS_sleep back_interval_us) w = (Inr (), w1)" by (simp add: tick_io_def)
  obtain n where n: "n < fuel" "e_loop_time e (w_out w) + timeout * second_us \<le> e_loop_time e (w_out w) + int n * back_interval_us"
    using fuel_covers [OF assms(2) intervals(2)] by blast
  have "e_loop_time e (w_out w) \<le> e_loop_time e (w_out w1)"
    using sleep_later [OF assms(1) w1] by (simp add: back_interval_us_def second_us_def)
  with n back_loop_ends [OF assms(1), of _ w1 n fuel] w1 show ?thesis
    by (simp add: await_back_def io_seq_def io_run_Inr)
qed

lemma keeps_request: "keeps same_more (request_upgrade e)"
  unfolding request_upgrade_def
  by (auto intro!: more.keeps_except more.keeps_bind more.keeps_call more.keeps_return more.keeps_raise
      split: exn.splits option.splits)

lemma loop_time_run: "loop_time_io e w = (Inr (e_loop_time e (w_out w)), w)"
  by (simp add: loop_time_io_def io_get_def)

lemma concludes_loop_time:
  "concludes enough snap (f (e_loop_time e (w_out w))) w \<Longrightarrow> concludes enough snap (io_bind (loop_time_io e) f) w"
  by (simp add: concludes_def io_run_Inr loop_time_run)

lemma concludes_get:
  "concludes enough snap (f (g w)) w \<Longrightarrow> concludes enough snap (io_bind (io_get g) f) w"
  by (simp add: concludes_def io_run_Inr io_get_def)

lemma concludes_diverged: "\<not> enough \<Longrightarrow> concludes enough snap (io_return Diverged) w"
  by (simp add: concludes_def io_return_def)

lemma keeps_adguard_update:
  fixes e :: "'s wenv"
  shows "keeps same_more (io_finally (call_io e AT_adguard_update) (log_call AT_close))"
proof (rule more.keeps_finally)
  show "keeps same_more (call_io e AT_adguard_update)" by (rule more.keeps_call) simp
qed (simp add: same_more_def log_call_def)

lemma concludes_after_restart:
  assumes "r = Diverged \<Longrightarrow> \<not> enough"
    and "\<And>v. r = Done (Some v) \<Longrightarrow> v \<noteq> [] \<and> v \<noteq> stripped (up_current w)"
  shows "concludes enough snap (after_restart e snap target current r) w"
proof (cases r)
  case Diverged
  with assms(1) show ?thesis by (simp add: after_restart_def concludes_diverged)
next
  case (Done x)
  with assms(2) show ?thesis by (cases x) (auto simp: after_restart_def intro!: concludes_finish)
qed

lemma concludes_after_recreate:
  assumes "r = Diverged \<Longrightarrow> \<not> enough" and "\<And>v. r = Done (Some v) \<Longrightarrow> v \<noteq> []"
    and "un_method snap = Some Inst_docker"
  shows "concludes enough snap (after_recreate e snap target r) w"
proof (cases r)
  case Diverged
  with assms(1) show ?thesis by (simp add: after_recreate_def concludes_diverged)
next
  case (Done x)
  with assms(2,3) show ?thesis
    by (cases x) (auto simp: after_recreate_def intro!: concludes_get concludes_finish)
qed

lemma concludes_in_place:
  assumes "clock_ok e"
  shows "concludes (enough_fuel (un_timeout snap) fuel) snap (in_place e snap target fuel) w"
  unfolding in_place_def
proof (intro concludes_seq concludes_loop_time concludes_get concludes_bind keeps_request more.keeps_await_new
    concludes_after_restart)
  fix w1 r w2 v
  assume run: "await_new_version e (up_current w1) (e_loop_time e (w_out w1) + un_timeout snap * second_us) fuel w1 = (Inr r, w2)"
  show "\<not> enough_fuel (un_timeout snap) fuel" if "r = Diverged"
    using await_new_done [OF assms, of "un_timeout snap" fuel "up_current w1" w1] run that by auto
  show "v \<noteq> [] \<and> v \<noteq> stripped (up_current w2)" if "r = Done (Some v)" "up_current w2 = up_current w1"
  proof -
    have "fst (await_new_version e (up_current w1) (e_loop_time e (w_out w1) + un_timeout snap * second_us) fuel w1) =
        Inr (Done (Some v))" using run that(1) by simp
    from await_new_result [OF this] that(2) show ?thesis by simp
  qed
qed simp_all

lemma concludes_via_agent:
  assumes "clock_ok e" and docker: "un_method snap = Some Inst_docker"
  shows "concludes (enough_fuel (un_timeout snap) fuel) snap (via_agent e snap target fuel) w"
proof -
  have agent: "concludes (enough_fuel (un_timeout snap) fuel) snap
      (io_bind (loop_time_io e) (\<lambda>t.
        io_bind (await_back e (t + un_timeout snap * second_us) fuel) (after_recreate e snap target))) w" for w
  proof (intro concludes_loop_time concludes_bind more.keeps_await_back concludes_after_recreate docker)
    fix r w2 v
    assume run: "await_back e (e_loop_time e (w_out w) + un_timeout snap * second_us) fuel w = (Inr r, w2)"
    show "\<not> enough_fuel (un_timeout snap) fuel" if "r = Diverged"
      using await_back_done [OF assms(1), of "un_timeout snap" fuel w] run that by auto
    show "v \<noteq> []" if "r = Done (Some v)"
    proof -
      have "fst (await_back e (e_loop_time e (w_out w) + un_timeout snap * second_us) fuel w) = Inr (Done (Some v))"
        using run that by simp
      from await_back_result [OF this] show ?thesis .
    qed
  qed simp_all
  show ?thesis unfolding via_agent_def
    by (intro concludes_bind concludes_seq keeps_adguard_update more.keeps_expect_obj)
      (simp add: agent concludes_other)
qed

lemma concludes_choose:
  assumes "clock_ok e"
  shows "concludes (enough_fuel (un_timeout snap) fuel) snap (choose_upgrade e snap fuel target can dis cur) w"
  unfolding choose_upgrade_def
  by (simp add: concludes_via_agent [OF assms] concludes_in_place [OF assms] concludes_other)

lemma concludes_try:
  assumes "clock_ok e"
  shows "concludes (enough_fuel (un_timeout snap) fuel) snap (update_try e snap fuel) w"
  unfolding update_try_def Let_def
  by (intro concludes_bind concludes_set concludes_get more.keeps_call_obj concludes_choose assms) simp_all

lemma concludes_guarded:
  assumes "clock_ok e"
  shows "concludes (enough_fuel (un_timeout snap) fuel) snap (guarded_update e snap fuel) w \<and>
    (\<exists>r. fst (guarded_update e snap fuel w) = Inr r)"
proof -
  obtain r w1 where run: "update_try e snap fuel w = (r, w1)" by fastforce
  have "concludes (enough_fuel (un_timeout snap) fuel) snap (update_try e snap fuel) w" by (rule concludes_try [OF assms])
  then have c: "concluded (enough_fuel (un_timeout snap) fuel) snap (up_db w) r (up_db w1)"
    using run by (simp add: concludes_def)
  show ?thesis
  proof (cases r)
    case (Inl x)
    let ?h = "finish e snap Upd_failed (up_target w1) (exn_str x) (up_target w1)"
    have h: "concludes (enough_fuel (un_timeout snap) fuel) snap ?h w1" by (rule concludes_finish) simp
    have "guarded_update e snap fuel w = (fst (?h w1), log_call AG_close (snd (?h w1)))"
      using run Inl by (simp add: guarded_update_def io_finally_def io_except_def io_run_Inr io_get_def case_prod_beta)
    moreover have "\<exists>r. fst (?h w1) = Inr r" by (simp add: finish_def io_defs now_io_def Let_def)
    ultimately show ?thesis using h c Inl by (simp add: concludes_def log_call_def)
  next
    case (Inr a)
    then have "guarded_update e snap fuel w = (Inr a, log_call AG_close w1)"
      using run by (simp add: guarded_update_def io_finally_def io_except_def)
    with c Inr show ?thesis by (simp add: concludes_def log_call_def)
  qed
qed

text \<open>The whole of one upgrade: it ends, is recorded and tells the truth.\<close>

lemma update_locked_concludes:
  assumes "clock_ok e" and "enough_fuel (cf_auto_update_restart_timeout_seconds cfg) fuel"
    and s: "get_server (up_db w) i = Some s"
  shows "\<exists>out now target w'. update_locked cfg build e fuel i w = (Inr (Done (Some out)), w') \<and>
    honest_outcome (snapshot_of cfg (up_db w) s) out \<and> up_db w' = record_outcome now i out target (up_db w)"
proof -
  let ?snap = "snapshot_of cfg (up_db w) s"
  let ?w = "w\<lparr>up_target := None, up_current := s_version s\<rparr>"
  have i: "un_id ?snap = i" "un_timeout ?snap = cf_auto_update_restart_timeout_seconds cfg"
    using row_get_Some [OF s] by (simp_all add: snapshot_of_def)
  define m where "m = (case build (s_url s) (s_username s) (s_password_enc s) (s_tls_cert s) of
      Some x \<Rightarrow> finish e ?snap Upd_failed None (''Server configuration error: '' @ exn_str x) None
    | None \<Rightarrow> guarded_update e ?snap fuel)"
  have m: "concludes True ?snap m ?w \<and> (\<exists>r. fst (m ?w) = Inr r)"
  proof (cases "build (s_url s) (s_username s) (s_password_enc s) (s_tls_cert s)")
    case None
    then show ?thesis
      using concludes_guarded [OF assms(1), of ?snap fuel ?w] assms(2) i by (simp add: m_def)
  next
    case (Some x)
    then show ?thesis
      by (auto simp: m_def intro!: concludes_finish) (simp add: finish_def io_defs now_io_def Let_def)
  qed
  then obtain r w' where run: "m ?w = (Inr r, w')" by (metis prod.collapse)
  with m have "concluded True ?snap (up_db w) (Inr r) (up_db w')" by (simp add: concludes_def)
  then obtain out now target where out: "r = Done out" "honest_outcome ?snap out"
    "up_db w' = record_outcome now i out target (up_db w)"
    using i by (cases r) auto
  have "update_locked cfg build e fuel i w = (Inr (Done (Some out)), w')"
    using s run out(1) by (simp add: update_locked_def io_run_Inr io_get_def io_seq_def io_modify_def Let_def
        m_def [symmetric] io_return_def)
  with out show ?thesis by blast
qed

section \<open>Properties\<close>

text \<open>
  The maintenance window is the half-open arc of the day from its start to its end: the
  test agrees with the cyclic distance from the start being smaller than the window's length,
  for windows inside a day and windows that wrap midnight alike.
\<close>

theorem maintenance_window_cyclic:
  assumes "parse_window (cf_auto_update_window cfg) = Parsed (Some (s, e))"
  shows "in_maintenance_window cfg now \<longleftrightarrow> (minute_of_day now - s) mod 1440 < (e - s) mod 1440"
proof -
  have r: "0 \<le> s" "s < 1440" "0 \<le> e" "e < 1440" "s \<noteq> e" using parse_window_range [OF assms] by auto
  define m where "m = minute_of_day now"
  have m: "0 \<le> m" "m < 1440" by (simp_all add: m_def minute_of_day_def)
  have cyc: "(a - b) mod 1440 = (if b \<le> a then a - b else a - b + 1440)"
    if "0 \<le> a" "a < 1440" "0 \<le> b" "b < 1440" for a b :: int
    using that mod_pos_pos_trivial [of "a - b + 1440" 1440] by auto
  show ?thesis
    using r m by (simp add: in_maintenance_window_def assms Let_def m_def [symmetric] cyc)
qed

theorem maintenance_window_cyclic_witness:
  "in_maintenance_window (default_settings\<lparr>cf_auto_update_window := ''23:00-02:00''\<rparr>) (90 * 60 * second_us) \<longleftrightarrow>
     (minute_of_day (90 * 60 * second_us) - 1380) mod 1440 < (120 - 1380) mod 1440"
proof (rule maintenance_window_cyclic)
  show "parse_window (cf_auto_update_window (default_settings\<lparr>cf_auto_update_window := ''23:00-02:00''\<rparr>)) = Parsed (Some (1380, 120))"
    by code_simp
qed

text \<open>
  C35. An automatic pass upgrades only what was opted in: with the master switch on, inside the
  window, enabled, with its own flag set, with a release to install, outside an authentication
  cooldown, not handed to the on-box updater for that release and not retried early.
\<close>

theorem automatic_only_opted_in:
  assumes "i \<in> set (updates_to_run cfg now False only d)"
  shows "\<exists>s \<in> set (db_servers d). s_id s = i \<and> cf_auto_update_enabled cfg \<and> in_maintenance_window cfg now \<and>
    s_enabled s \<and> s_auto_update s \<and> s_update_available s \<and> stripped (s_latest_version s) \<noteq> [] \<and>
    (\<forall>c. s_cooldown_until s = Some c \<longrightarrow> c \<le> now) \<and>
    \<not> (s_update_state s = Upd_delegated \<and> stripped (s_update_attempted_version s) = stripped (s_latest_version s)) \<and>
    (\<forall>t. s_update_state s = Upd_failed \<and> stripped (s_update_attempted_version s) = stripped (s_latest_version s) \<and>
       s_update_attempted_at s = Some t \<longrightarrow> t + hours_us (max 0 (cf_auto_update_retry_hours cfg)) \<le> now)"
proof -
  from assms have on: "cf_auto_update_enabled cfg" "in_maintenance_window cfg now"
    and "\<exists>s \<in> set (db_servers d). s_id s = i \<and> skip_reason cfg s now = None"
    by (auto simp: updates_to_run_def due_server_ids_def split: if_splits)
  then obtain s where s: "s \<in> set (db_servers d)" "s_id s = i" "skip_reason cfg s now = None" by blast
  from skip_reason_None [OF s(3)] on s(1,2) show ?thesis by (intro bexI [of _ s]) auto
qed

definition outdated_server :: server where
  "outdated_server = (sample_server 4 ''ns1'' ''http://10.0.0.2'')\<lparr>s_auto_update := True,
     s_latest_version := Some ''v0.107.60'', s_update_available := True\<rparr>"

theorem automatic_only_opted_in_witness:
  "4 \<in> set (updates_to_run default_settings 0 False None (empty_db\<lparr>db_servers := [outdated_server]\<rparr>)) \<and>
   (\<exists>s \<in> set [outdated_server]. s_auto_update s)"
proof -
  have i: "4 \<in> set (updates_to_run default_settings 0 False None (empty_db\<lparr>db_servers := [outdated_server]\<rparr>))"
    by code_simp
  from automatic_only_opted_in [OF i] i show ?thesis by auto
qed

text \<open>
  A forced pass over the fleet ignores every opt-in: with the master switch off, outside the
  window, it still covers each server that has a release waiting, whether or not the server is
  enabled or has automatic updates switched on.
\<close>

theorem forced_pass_ignores_opt_in:
  assumes "s \<in> set (db_servers d)" and "s_update_available s" and "stripped (s_latest_version s) \<noteq> []"
  shows "s_id s \<in> set (updates_to_run (cfg\<lparr>cf_auto_update_enabled := False\<rparr>) now True None d)"
  using assms by (auto simp: updates_to_run_def due_server_ids_def forced_due_def)

theorem forced_pass_ignores_opt_in_witness:
  "4 \<in> set (updates_to_run (default_settings\<lparr>cf_auto_update_enabled := False\<rparr>) 0 True None
     (empty_db\<lparr>db_servers := [outdated_server\<lparr>s_enabled := False, s_auto_update := False\<rparr>]\<rparr>))"
  using forced_pass_ignores_opt_in [of "outdated_server\<lparr>s_enabled := False, s_auto_update := False\<rparr>"
      "empty_db\<lparr>db_servers := [outdated_server\<lparr>s_enabled := False, s_auto_update := False\<rparr>]\<rparr>" default_settings 0]
  by (simp add: outdated_server_def sample_server_def stripped_def str_or_def py_strip_def py_rstrip_def
      py_lstrip_def py_isspace_def)

text \<open>
  C4. Every upgrade of an existing server ends and is accounted for, whatever the server and the
  agent answer: with one poll of fuel per interval up to the restart timeout it returns an
  outcome, that very outcome is what the server's row records, and a success names a version
  that was observed, different from the one before unless a container was recreated.
\<close>

theorem upgrade_ends_and_is_recorded:
  assumes "clock_ok e" and "enough_fuel (cf_auto_update_restart_timeout_seconds cfg) fuel"
    and "get_server (up_db w) i = Some s"
  shows "\<exists>out now target w' s'. update_server cfg build e fuel False i w = (Inr (Done (Some out)), w') \<and>
    uo_server_id out = i \<and> get_server (up_db w') i = Some s' \<and> s' = recorded_row now out target s \<and>
    s_update_state s' = uo_state out \<and>
    (uo_state out = Upd_succeeded \<longrightarrow>
       (\<exists>v. uo_to_version out = Some v \<and> v \<noteq> [] \<and> s_version s' = Some v \<and> \<not> s_update_available s' \<and>
          (s_install_method s \<noteq> Some Inst_docker \<longrightarrow> v \<noteq> stripped (uo_from_version out))))"
proof -
  obtain out now target w' where run: "update_locked cfg build e fuel i w = (Inr (Done (Some out)), w')"
    and honest: "honest_outcome (snapshot_of cfg (up_db w) s) out"
    and db: "up_db w' = record_outcome now i out target (up_db w)"
    using update_locked_concludes [OF assms] by blast
  have id: "s_id s = i" "s_id (recorded_row now out target s) = i"
    using row_get_Some [OF assms(3)] by (auto simp: recorded_row_def Let_def split: option.split)
  have row: "get_server (up_db w') i = Some (recorded_row now out target s)"
    using db assms(3) id by (simp add: record_outcome_def)
  have state: "s_update_state (recorded_row now out target s) = uo_state out"
    by (simp add: recorded_row_def Let_def split: option.split)
  have "uo_server_id out = i" using honest id by (simp add: honest_outcome_def snapshot_of_def)
  moreover have "\<exists>v. uo_to_version out = Some v \<and> v \<noteq> [] \<and> s_version (recorded_row now out target s) = Some v \<and>
      \<not> s_update_available (recorded_row now out target s) \<and>
      (s_install_method s \<noteq> Some Inst_docker \<longrightarrow> v \<noteq> stripped (uo_from_version out))"
    if "uo_state out = Upd_succeeded"
    using honest that by (auto simp: honest_outcome_def snapshot_of_def recorded_row_def Let_def)
  ultimately show ?thesis using run row state by (auto simp: update_server_def)
qed

text \<open>A box whose clock ticks by what is slept and which reports a new version after the request.\<close>

definition demo_box :: "(int \<times> bool) wenv" where
  "demo_box =
     \<lparr>e_call = (\<lambda>c (t, upgraded). case c of
        SYS_sleep us \<Rightarrow> (Inr JNull, (t + max 0 us, upgraded))
      | AG_update_now \<Rightarrow> (Inl (AdGuardError ''connection reset'' None None), (t, True))
      | AG_version_check _ \<Rightarrow> (Inr (JObj [(''new_version'', JStr ''v2''), (''can_autoupdate'', JBool True)]), (t, upgraded))
      | AG_status \<Rightarrow> (Inr (JObj [(''version'', JStr (if upgraded then ''v2'' else ''v1''))]), (t, upgraded))
      | _ \<Rightarrow> (Inr (JObj []), (t, upgraded))),
      e_now = fst, e_loop_time = fst\<rparr>"

lemma demo_box_clock: "clock_ok demo_box"
  by (auto simp: clock_ok_def demo_box_def split: call.split)

definition demo_upd :: "(int \<times> bool) upd" where
  "demo_upd = \<lparr>w_log = [], w_out = (0, False), up_db = empty_db\<lparr>db_servers := [outdated_server]\<rparr>,
     up_target = None, up_current = None\<rparr>"

theorem upgrade_ends_and_is_recorded_witness:
  "\<exists>out now target w'. update_server default_settings (\<lambda>_ _ _ _. None) demo_box 102 False 4 demo_upd =
     (Inr (Done (Some out)), w') \<and> get_server (up_db w') 4 = Some (recorded_row now out target outdated_server)"
proof -
  have "enough_fuel (cf_auto_update_restart_timeout_seconds default_settings) 102"
    by (simp add: enough_fuel_def default_settings_def)
  moreover have "get_server (up_db demo_upd) 4 = Some outdated_server" by code_simp
  ultimately show ?thesis using upgrade_ends_and_is_recorded [OF demo_box_clock] by blast
qed

end
