(* ===== verification/Validators.thy ===== *)
theory Validators
  imports Net
begin

text \<open>
  backend/app/validators.py: the checks on values that reach a shell, a URL or a certificate.
  A rejected value is \<open>Inl (field, reason)\<close> (the message without the echoed value); an
  accepted one is \<open>Inr\<close> of what the code stores. The regular expressions are written out as
  predicates; \<open>$\<close> also matches before one final newline, which \<open>dollar\<close> keeps.
\<close>

type_synonym verror = "string \<times> string"

type_synonym 'a checked = "verror + 'a"

text \<open>What a pattern that ends in \<open>$\<close> has to match of \<open>s\<close>.\<close>

definition dollar :: "string \<Rightarrow> string" where
  "dollar s = (if s \<noteq> [] \<and> last s = CHR 0x0A then butlast s else s)"

definition is_control :: "char \<Rightarrow> bool" where
  "is_control c = (let n = (of_char c :: nat) in n \<le> 31 \<or> n = 127)"

definition max_name_length :: nat where
  "max_name_length = 100"

definition validate_display_name :: "string option \<Rightarrow> string \<Rightarrow> string checked" where
  "validate_display_name v field =
     (case v of
        None \<Rightarrow> Inl (field, ''is required'')
      | Some value \<Rightarrow>
          let value = py_strip value in
          if value = [] then Inl (field, ''must not be empty'')
          else if length value > max_name_length then Inl (field, ''must be at most 100 characters'')
          else if list_ex is_control value then Inl (field, ''must not contain control characters'')
          else Inr value)"

section \<open>Hosts\<close>

definition is_label_char :: "char \<Rightarrow> bool" where
  "is_label_char c = (is_alnum c \<or> c = CHR ''-'')"

definition is_label :: "string \<Rightarrow> bool" where
  "is_label l =
     (1 \<le> length l \<and> length l \<le> 63 \<and> list_all is_label_char l \<and>
      hd l \<noteq> CHR ''-'' \<and> last l \<noteq> CHR ''-'')"

definition hostname_labels :: "string \<Rightarrow> string list" where
  "hostname_labels s =
     (let ls = py_split (CHR ''.'') s in if length ls > 1 \<and> last ls = [] then butlast ls else ls)"

definition hostname_re :: "string \<Rightarrow> bool" where
  "hostname_re s =
     (let t = dollar s in 1 \<le> length t \<and> length t \<le> 253 \<and> list_all is_label (hostname_labels t))"

definition is_valid_host :: "string \<Rightarrow> bool" where
  "is_valid_host value =
     (if value = [] then False else if parse_ip value \<noteq> None then True else hostname_re value)"

definition validate_host :: "string option \<Rightarrow> string \<Rightarrow> string checked" where
  "validate_host v field =
     (case v of
        None \<Rightarrow> Inl (field, ''is required'')
      | Some value \<Rightarrow>
          let value = py_strip value in
          if \<not> is_valid_host value then Inl (field, ''must be a hostname or IP address'') else Inr value)"

definition format_host_port :: "string \<Rightarrow> int \<Rightarrow> string" where
  "format_host_port host port =
     (case parse_ip host of
        Some (IPv6 _ _) \<Rightarrow> ''['' @ host @ '']:'' @ show_int port
      | _ \<Rightarrow> host @ '':'' @ show_int port)"

definition validate_port :: "int \<Rightarrow> string \<Rightarrow> int checked" where
  "validate_port value field =
     (if \<not> (1 \<le> value \<and> value \<le> 65535) then Inl (field, ''must be between 1 and 65535'') else Inr value)"

definition validate_server_url :: "string option \<Rightarrow> string \<Rightarrow> string checked" where
  "validate_server_url v field =
     (case v of
        None \<Rightarrow> Inl (field, ''is required'')
      | Some value \<Rightarrow>
          let value = py_rstrip_char (CHR ''/'') (py_strip value) in
          if list_ex is_control value then Inl (field, ''must not contain control characters'')
          else case url_split value of
            None \<Rightarrow> Inl ([], ''Invalid URL'')
          | Some parsed \<Rightarrow>
              if url_scheme_of parsed \<noteq> ''http'' \<and> url_scheme_of parsed \<noteq> ''https''
              then Inl (field, ''must start with http:// or https://'')
              else case url_host_of parsed of
                None \<Rightarrow> Inl (field, ''must include a host'')
              | Some host \<Rightarrow>
                  if \<not> is_valid_host host then Inl (field, ''has an invalid host'')
                  else case url_port parsed of
                    Inl _ \<Rightarrow> Inl (field, ''has an invalid port'')
                  | Inr None \<Rightarrow> Inr value
                  | Inr (Some port) \<Rightarrow>
                      (case validate_port (int port) (field @ '' port'') of
                         Inl e \<Rightarrow> Inl e | Inr _ \<Rightarrow> Inr value))"

section \<open>Networks and virtual addresses\<close>

definition parse_prefix :: "nat \<Rightarrow> string \<Rightarrow> nat option" where
  "parse_prefix max_len s =
     (if s = [] \<or> \<not> list_all is_digit_char s then None
      else let n = nat_of_digits 0 s in if n \<le> max_len then Some n else None)"

text \<open>The prefix length of a dotted netmask, or of a hostmask (\<open>0.0.0.255\<close>).\<close>

definition prefix_of_mask :: "nat \<Rightarrow> nat option" where
  "prefix_of_mask n = find (\<lambda>p. n = (2 ^ p - 1) * 2 ^ (32 - p)) [0..<33]"

definition parse_mask4 :: "string \<Rightarrow> nat option" where
  "parse_mask4 s =
     (case parse_prefix 32 s of
        Some p \<Rightarrow> Some p
      | None \<Rightarrow>
          (case parse_ipv4 s of
             None \<Rightarrow> None
           | Some n \<Rightarrow> (case prefix_of_mask n of
               Some p \<Rightarrow> Some p | None \<Rightarrow> prefix_of_mask (4294967295 - n))))"

text \<open>An address with an optional prefix: \<open>ip_interface\<close> and \<open>ip_network\<close> before masking.\<close>

definition parse_ip_prefix :: "string \<Rightarrow> (ip \<times> nat) option" where
  "parse_ip_prefix s =
     (case py_split (CHR ''/'') s of
        [a] \<Rightarrow>
          (case parse_ip a of
             Some (IPv4 n) \<Rightarrow> Some (IPv4 n, 32)
           | Some (IPv6 n sc) \<Rightarrow> Some (IPv6 n sc, 128)
           | None \<Rightarrow> None)
      | [a, m] \<Rightarrow>
          (case parse_ip a of
             Some (IPv4 n) \<Rightarrow> map_option (\<lambda>p. (IPv4 n, p)) (parse_mask4 m)
           | Some (IPv6 n sc) \<Rightarrow> map_option (\<lambda>p. (IPv6 n sc, p)) (parse_prefix 128 m)
           | None \<Rightarrow> None)
      | _ \<Rightarrow> None)"

text \<open>\<open>packed & netmask\<close>; a scope is kept only when nothing is masked away.\<close>

fun network_address :: "ip \<Rightarrow> nat \<Rightarrow> ip" where
  "network_address (IPv4 n) p = IPv4 (n div 2 ^ (32 - p) * 2 ^ (32 - p))"
| "network_address (IPv6 n sc) p =
     (let m = n div 2 ^ (128 - p) * 2 ^ (128 - p) in if m = n then IPv6 n sc else IPv6 m None)"

definition show_ip_prefix :: "ip \<Rightarrow> nat \<Rightarrow> string" where
  "show_ip_prefix a p = show_ip a @ ''/'' @ show_nat p"

definition validate_cidr :: "string option \<Rightarrow> string \<Rightarrow> string checked" where
  "validate_cidr v field =
     (case v of
        None \<Rightarrow> Inl (field, ''is required'')
      | Some value \<Rightarrow>
          (case parse_ip_prefix (py_strip value) of
             None \<Rightarrow> Inl (field, ''must be an IP network in CIDR form'')
           | Some (a, p) \<Rightarrow> Inr (show_ip_prefix (network_address a p) p)))"

fun is_unspecified :: "ip \<Rightarrow> bool" where
  "is_unspecified (IPv4 n) = (n = 0)"
| "is_unspecified (IPv6 n _) = (n = 0)"

fun is_loopback :: "ip \<Rightarrow> bool" where
  "is_loopback (IPv4 n) = (n div 16777216 = 127)"
| "is_loopback (IPv6 n _) = (n = 1)"

fun is_multicast :: "ip \<Rightarrow> bool" where
  "is_multicast (IPv4 n) = (n div 268435456 = 14)"
| "is_multicast (IPv6 n _) = (n div 2 ^ 120 = 255)"

definition validate_vip :: "string option \<Rightarrow> string \<Rightarrow> string option checked" where
  "validate_vip v field =
     (case v of
        None \<Rightarrow> Inr None
      | Some value \<Rightarrow>
          let value = py_strip value in
          if value = [] then Inr None
          else if CHR ''/'' \<notin> set value then Inl (field, ''must include a prefix length, e.g. 10.0.0.53/24'')
          else case parse_ip_prefix value of
            None \<Rightarrow> Inl (field, ''must be an IP address with prefix'')
          | Some (a, p) \<Rightarrow>
              if is_unspecified a \<or> is_loopback a \<or> is_multicast a
              then Inl (field, ''must be a unicast address'')
              else Inr (Some (show_ip_prefix a p)))"

definition validate_router_id :: "int option \<Rightarrow> string \<Rightarrow> int option checked" where
  "validate_router_id v field =
     (case v of
        None \<Rightarrow> Inr None
      | Some value \<Rightarrow>
          if \<not> (1 \<le> value \<and> value \<le> 255) then Inl (field, ''must be between 1 and 255'') else Inr (Some value))"

definition validate_priority :: "int \<Rightarrow> string \<Rightarrow> int checked" where
  "validate_priority value field =
     (if \<not> (1 \<le> value \<and> value \<le> 254) then Inl (field, ''must be between 1 and 254'') else Inr value)"

section \<open>Names, listeners and images\<close>

definition is_iface_char :: "char \<Rightarrow> bool" where
  "is_iface_char c = (is_alnum c \<or> c = CHR ''_'' \<or> c = CHR ''.'' \<or> c = CHR '':'' \<or> c = CHR ''-'')"

definition iface_re :: "string \<Rightarrow> bool" where
  "iface_re s = (let t = dollar s in 1 \<le> length t \<and> length t \<le> 15 \<and> list_all is_iface_char t)"

definition validate_interface :: "string option \<Rightarrow> string \<Rightarrow> string checked" where
  "validate_interface v field =
     (let value = py_strip (str_or v []) in
      if value \<noteq> [] \<and> \<not> iface_re value then Inl (field, ''must be an interface name like eth0'') else Inr value)"

definition int_port :: "string \<Rightarrow> string \<Rightarrow> int checked" where
  "int_port text field =
     (case py_int text of
        None \<Rightarrow> Inl (field, ''has a non-numeric port'')
      | Some p \<Rightarrow> validate_port p (field @ '' port''))"

definition split_listen :: "string \<Rightarrow> string \<Rightarrow> (string \<times> int) checked" where
  "split_listen value field =
     (if py_startswith value ''['' then
        (case py_partition (CHR '']'') (tl value) of
           (host, False, _) \<Rightarrow> Inl (field, ''has an unterminated IPv6 literal'')
         | (host, True, rest) \<Rightarrow>
             if rest = [] then Inr (host, 53)
             else if hd rest \<noteq> CHR '':'' then Inl (field, ''must look like [addr]:port'')
             else (case int_port (tl rest) field of Inl e \<Rightarrow> Inl e | Inr p \<Rightarrow> Inr (host, p)))
      else if count_list value (CHR '':'') = 1 then
        (case py_partition (CHR '':'') value of
           (host, _, port_s) \<Rightarrow>
             (case int_port port_s field of Inl e \<Rightarrow> Inl e | Inr p \<Rightarrow> Inr (host, p)))
      else Inr (value, 53))"

definition validate_listen_address :: "string option \<Rightarrow> string \<Rightarrow> string checked" where
  "validate_listen_address v field =
     (let value = py_strip (str_or v []) in
      if list_ex is_control value \<or> value = [] then Inl (field, ''is required'')
      else case split_listen value field of
        Inl e \<Rightarrow> Inl e
      | Inr (host, port) \<Rightarrow>
          (case parse_ip host of
             None \<Rightarrow> Inl (field, ''must be an IP address'')
           | Some a \<Rightarrow> Inr (format_host_port (show_ip a) port)))"

definition is_lower_alnum :: "char \<Rightarrow> bool" where
  "is_lower_alnum c = (let n = (of_char c :: nat) in (48 \<le> n \<and> n \<le> 57) \<or> (97 \<le> n \<and> n \<le> 122))"

definition is_image_sep :: "char \<Rightarrow> bool" where
  "is_image_sep c = (c = CHR ''.'' \<or> c = CHR ''_'' \<or> c = CHR ''-'')"

text \<open>\<open>[a-z0-9]+(?:[._-][a-z0-9]+)*\<close>\<close>

fun image_component_from :: "bool \<Rightarrow> string \<Rightarrow> bool" where
  "image_component_from after_sep [] = (\<not> after_sep)"
| "image_component_from after_sep (c # cs) =
     (if is_lower_alnum c then image_component_from False cs
      else if is_image_sep c \<and> \<not> after_sep then image_component_from True cs else False)"

definition is_tag_char :: "char \<Rightarrow> bool" where
  "is_tag_char c = (is_alnum c \<or> c = CHR ''_'' \<or> c = CHR ''.'' \<or> c = CHR ''-'')"

definition image_name_re :: "string \<Rightarrow> bool" where
  "image_name_re s = list_all (image_component_from True) (py_split (CHR ''/'') s)"

definition image_name_tag_re :: "string \<Rightarrow> bool" where
  "image_name_tag_re s =
     (case py_partition (CHR '':'') s of
        (name, False, _) \<Rightarrow> image_name_re name
      | (name, True, tag) \<Rightarrow>
          image_name_re name \<and> 1 \<le> length tag \<and> length tag \<le> 128 \<and> list_all is_tag_char tag)"

definition is_lower_hex :: "char \<Rightarrow> bool" where
  "is_lower_hex c = (let n = (of_char c :: nat) in (48 \<le> n \<and> n \<le> 57) \<or> (97 \<le> n \<and> n \<le> 102))"

definition image_re :: "string \<Rightarrow> bool" where
  "image_re s =
     (case py_partition (CHR ''@'') (dollar s) of
        (rest, False, _) \<Rightarrow> image_name_tag_re rest
      | (rest, True, digest) \<Rightarrow>
          image_name_tag_re rest \<and> py_startswith digest ''sha256:'' \<and>
          length digest = 71 \<and> list_all is_lower_hex (drop 7 digest))"

definition validate_image_ref :: "string option \<Rightarrow> string \<Rightarrow> string checked" where
  "validate_image_ref v field =
     (let value = py_strip (str_or v []) in
      if \<not> image_re value \<or> length value > 255
      then Inl (field, ''must be a container image reference like repo/name:tag'') else Inr value)"

definition backend_name_re :: "string \<Rightarrow> bool" where
  "backend_name_re s = (let t = dollar s in 1 \<le> length t \<and> length t \<le> 64 \<and> list_all is_tag_char t)"

definition validate_backend_name :: "string option \<Rightarrow> string \<Rightarrow> string checked" where
  "validate_backend_name v field =
     (let value = py_strip (str_or v []) in
      if \<not> backend_name_re value then Inl (field, ''must match [A-Za-z0-9_.-]{1,64}'') else Inr value)"

text \<open>\<open>re.sub(r"[^A-Za-z0-9_.-]+", "-", s)\<close>: each maximal run of other characters becomes one dash.\<close>

fun dash_runs :: "bool \<Rightarrow> string \<Rightarrow> string" where
  "dash_runs in_run [] = []"
| "dash_runs in_run (c # cs) =
     (if is_tag_char c then c # dash_runs False cs
      else if in_run then dash_runs True cs else CHR ''-'' # dash_runs True cs)"

definition strip_dash_dot :: "string \<Rightarrow> string" where
  "strip_dash_dot s =
     (let p = (\<lambda>c. c = CHR ''-'' \<or> c = CHR ''.'')
      in rev (dropWhile p (rev (dropWhile p s))))"

definition backend_name_for :: "string \<Rightarrow> int \<Rightarrow> string" where
  "backend_name_for server_name server_id =
     (let base = strip_dash_dot (dash_runs False (py_strip server_name));
          base = (if base = [] then ''server'' else base)
      in take 50 base @ ''-'' @ show_int server_id)"

section \<open>Facts\<close>

lemma image_component_chars:
  "image_component_from b s \<Longrightarrow> \<forall>c\<in>set s. is_lower_alnum c \<or> is_image_sep c"
  by (induction b s rule: image_component_from.induct) (auto split: if_splits)

lemma dash_runs_chars: "c \<in> set (dash_runs b s) \<Longrightarrow> is_tag_char c"
  by (induction b s rule: dash_runs.induct) (auto split: if_splits simp: is_tag_char_def)

lemma strip_dash_dot_subset: "set (strip_dash_dot s) \<subseteq> set s"
  by (auto simp: strip_dash_dot_def Let_def dest!: set_dropWhileD)

lemma digit_is_tag: "is_digit_char c \<Longrightarrow> is_tag_char c"
  by (simp add: is_tag_char_def is_alnum_def)

lemma show_nat_tag_chars: "c \<in> set (show_nat n) \<Longrightarrow> is_tag_char c"
  using show_nat_digits digit_is_tag by blast

lemma length_show_nat: "n < 10 ^ Suc k \<Longrightarrow> length (show_nat n) \<le> Suc k"
proof (induction k arbitrary: n)
  case 0
  then show ?case by (simp add: show_nat_small)
next
  case (Suc k)
  show ?case
  proof (cases "n < 10")
    case True
    then show ?thesis by (simp add: show_nat_small)
  next
    case False
    have "n div 10 < 10 ^ Suc k" using Suc.prems by (simp add: less_mult_imp_div_less mult.commute)
    with Suc.IH [of "n div 10"] False show ?thesis by (simp add: show_nat_step)
  qed
qed

lemma backend_base:
  obtains b where "backend_name_for n i = take 50 b @ ''-'' @ show_int i" "b \<noteq> []" "\<forall>c\<in>set b. is_tag_char c"
proof -
  let ?b = "strip_dash_dot (dash_runs False (py_strip n))"
  have "\<forall>c\<in>set ?b. is_tag_char c" using strip_dash_dot_subset dash_runs_chars by blast
  moreover have "\<forall>c\<in>set ''server''. is_tag_char c" by code_simp
  ultimately show thesis
    using that [of "if ?b = [] then ''server'' else ?b"] by (auto simp: backend_name_for_def Let_def)
qed

lemma show_int_nat: "0 \<le> i \<Longrightarrow> show_int i = show_nat (nat i)"
  by (simp add: show_int_def)

lemma newline_not_tag: "is_tag_char c \<Longrightarrow> c \<noteq> CHR 0x0A"
  by (auto simp: is_tag_char_def is_alnum_def is_alpha_def is_digit_char_def)

lemma dollar_tag: "\<forall>c\<in>set s. is_tag_char c \<Longrightarrow> dollar s = s"
  using newline_not_tag last_in_set by (fastforce simp: dollar_def)

lemma dash_not_digit: "\<not> is_digit_char (CHR ''-'')"
  by code_simp

lemma takeWhile_digits:
  "\<forall>c\<in>set d. is_digit_char c \<Longrightarrow> takeWhile is_digit_char (rev (x @ CHR ''-'' # d)) = rev d"
  by (simp add: takeWhile_append dash_not_digit)

lemma backend_name_for_id:
  assumes "0 \<le> i" and "0 \<le> j" and "backend_name_for n i = backend_name_for m j"
  shows "i = j"
proof -
  have digits: "takeWhile is_digit_char (rev (backend_name_for n i)) = rev (show_nat (nat i))" if "0 \<le> i" for n i
  proof -
    obtain b where b: "backend_name_for n i = take 50 b @ ''-'' @ show_int i" by (rule backend_base)
    show ?thesis using takeWhile_digits [of "show_nat (nat i)" "take 50 b"] show_nat_digits that
      by (simp add: b show_int_nat)
  qed
  from assms(3) have "rev (show_nat (nat i)) = rev (show_nat (nat j))"
    using digits [OF assms(1), of n] digits [OF assms(2), of m] by simp
  with assms(1,2) show ?thesis by simp
qed

text \<open>
  A backend name derived from a server is accepted by the name check the agent's
  configuration depends on, whatever the operator called the server.
\<close>

theorem backend_name_valid:
  assumes "0 \<le> i" and "i < 10 ^ 13"
  shows "validate_backend_name (Some (backend_name_for n i)) f = Inr (backend_name_for n i)"
proof -
  obtain b where b: "backend_name_for n i = take 50 b @ ''-'' @ show_int i" "b \<noteq> []"
    "\<forall>c\<in>set b. is_tag_char c" by (rule backend_base)
  have "nat i < 10 ^ Suc 12" using assms by (simp add: nat_less_iff)
  then have len: "length (show_int i) \<le> 13" using length_show_nat [of "nat i" 12] assms(1)
    by (simp add: show_int_nat)
  have chars: "\<forall>c\<in>set (backend_name_for n i). is_tag_char c"
    using b(3) assms(1) show_nat_tag_chars by (auto simp: b(1) show_int_nat is_tag_char_def dest: in_set_takeD)
  have space: "\<not> py_isspace c" if "is_tag_char c" for c
    using that by (auto simp: is_tag_char_def is_alnum_def is_alpha_def is_digit_char_def py_isspace_def Let_def)
  have "py_strip (backend_name_for n i) = backend_name_for n i"
  proof (rule strip_id)
    have "backend_name_for n i \<noteq> []" using b(1) by simp
    then show "backend_name_for n i = [] \<or>
        \<not> py_isspace (hd (backend_name_for n i)) \<and> \<not> py_isspace (last (backend_name_for n i))"
      using chars space hd_in_set last_in_set by blast
  qed
  moreover have "backend_name_re (backend_name_for n i)"
    using chars len by (simp add: backend_name_re_def dollar_tag Let_def list_all_iff b(1))
  ultimately show ?thesis
    using b(1) by (simp add: validate_backend_name_def str_or_def)
qed

theorem backend_name_valid_witness:
  "validate_backend_name (Some (backend_name_for ''office dns/1'' 7)) ''name'' = Inr (backend_name_for ''office dns/1'' 7)"
  by (rule backend_name_valid) simp_all

text \<open>
  Backend names are unique by server id: two servers, however named, never share one,
  so a balancer's per-backend row is attributed to one server.
\<close>

theorem backend_name_unique:
  assumes "0 \<le> i" and "0 \<le> j" and "backend_name_for n i = backend_name_for m j"
  shows "i = j"
  using assms by (rule backend_name_for_id)

theorem backend_name_unique_witness:
  "backend_name_for ''a'' 12 = backend_name_for ''a '' 12 \<and> (12 :: int) = 12"
proof -
  have "backend_name_for ''a'' 12 = backend_name_for ''a '' 12" by code_simp
  with backend_name_unique [OF _ _ this] show ?thesis by simp
qed

text \<open>
  A display name that passed the check is what reaches the install script: not empty, at
  most 100 characters, free of control characters, with no white space at either end, and
  checking it again changes nothing.
\<close>

theorem display_name_safe:
  assumes "validate_display_name v f = Inr s"
  shows "s \<noteq> [] \<and> length s \<le> 100 \<and> \<not> list_ex is_control s \<and>
    \<not> py_isspace (hd s) \<and> \<not> py_isspace (last s) \<and> validate_display_name (Some s) g = Inr s"
  using assms py_strip_hd py_strip_last
  by (auto simp: validate_display_name_def Let_def max_name_length_def split: option.splits if_splits)

theorem display_name_safe_witness:
  "validate_display_name (Some '' dns 1 '') ''name'' = Inr ''dns 1'' \<and> length ''dns 1'' \<le> 100"
proof -
  have "validate_display_name (Some '' dns 1 '') ''name'' = Inr ''dns 1''" by code_simp
  with display_name_safe [OF this] show ?thesis by blast
qed

text \<open>
  The host check does not bound the scope of an IPv6 literal: any text without a percent
  sign or a slash is accepted after the percent sign, line breaks and quotes included,
  although the check is documented to let only bare literals and host names through.
\<close>

theorem scoped_host_accepted:
  assumes "scope \<noteq> []" and "CHR ''%'' \<notin> set scope" and "CHR ''/'' \<notin> set scope"
  shows "is_valid_host (''fe80::1%'' @ scope)"
proof -
  let ?a = "''fe80::1''"
  have ok: "parse_ipv6_number ?a \<noteq> None"
    by (simp add: parse_ipv6_number_def Let_def expand_ipv4_tail_def parse_ipv6_groups_def inner_gaps_def
        upt_rec parse_hextet_def is_hex_char_def)
  have part: "py_partition (CHR ''%'') (?a @ CHR ''%'' # scope) = (?a, True, scope)" by simp
  have slash: "CHR ''/'' \<notin> set (?a @ CHR ''%'' # scope)" using assms(3) by simp
  obtain n where n: "parse_ipv6_number ?a = Some n" using ok by blast
  have "parse_ipv6 (?a @ CHR ''%'' # scope) = Some (IPv6 n (Some scope))"
    unfolding parse_ipv6_def part if_not_P [OF slash] using assms(1,2) n
    by (simp only: prod.case bool.case if_False option.map simp_thms)
  then have "parse_ip (?a @ CHR ''%'' # scope) \<noteq> None"
    unfolding parse_ip_def by (simp only: split: option.split) simp
  then have "is_valid_host (?a @ CHR ''%'' # scope)"
    unfolding is_valid_host_def by (simp only: append_is_Nil_conv list.distinct if_False if_True simp_thms)
  then show ?thesis by (simp only: append.simps)
qed

theorem scoped_host_accepted_witness:
  "is_valid_host (''fe80::1%'' @ ''eth0'' @ [CHR 0x0A] @ ''reboot'')"
  by (rule scoped_host_accepted) simp_all

end
