(* ===== verification/HostSpecs.thy ===== *)
theory HostSpecs
  imports Validators Auth
begin

text \<open>
  The first half of backend/app/hosts.py: the role specifications an agent receives as
  functions of the database (\<open>adguard_spec\<close>, \<open>desired_backends\<close>, \<open>dnsdist_spec\<close>,
  \<open>keepalived_spec\<close>), the plans of a host and of a balancer, the decision to push an agent
  build, and the release of foreign keys before a deletion. A specification is the JSON document
  that goes over the wire.
\<close>

definition agent_api_suffix :: string where
  "agent_api_suffix = ''/v1/adguard/api''"

definition agent_url :: "string \<Rightarrow> int \<Rightarrow> string" where
  "agent_url address port = ''https://'' @ format_host_port address port"

definition adguard_url_via_agent :: "agent \<Rightarrow> string" where
  "adguard_url_via_agent a = py_rstrip_char (CHR ''/'') (a_url a) @ agent_api_suffix"

definition host_of_url :: "string \<Rightarrow> string option" where
  "host_of_url url = (case url_split url of None \<Rightarrow> None | Some u \<Rightarrow> url_host_of u)"

section \<open>Foreign keys\<close>

definition release_agent :: "int \<Rightarrow> db \<Rightarrow> db" where
  "release_agent i d =
     d\<lparr>db_tokens := map (\<lambda>t. if t_agent_id t = Some i then t\<lparr>t_agent_id := None\<rparr> else t) (db_tokens d)\<rparr>"

definition release_server :: "int \<Rightarrow> db \<Rightarrow> db" where
  "release_server i d =
     d\<lparr>db_tokens := map (\<lambda>t. if t_server_id t = Some i then t\<lparr>t_server_id := None\<rparr> else t) (db_tokens d),
       db_backends := filter (\<lambda>o'. o_server_id o' \<noteq> i) (db_backends d)\<rparr>"

definition release_balancer :: "int \<Rightarrow> db \<Rightarrow> db" where
  "release_balancer i d =
     d\<lparr>db_tokens := map (\<lambda>t. if t_load_balancer_id t = Some i then t\<lparr>t_load_balancer_id := None\<rparr> else t) (db_tokens d),
       db_backends := filter (\<lambda>o'. o_load_balancer_id o' \<noteq> i) (db_backends d)\<rparr>"

definition release_references :: "int option \<Rightarrow> int option \<Rightarrow> int option \<Rightarrow> db \<Rightarrow> db" where
  "release_references agent_id server_id lb_id d =
     (let d = (case agent_id of None \<Rightarrow> d | Some i \<Rightarrow> release_agent i d);
          d = (case server_id of None \<Rightarrow> d | Some i \<Rightarrow> release_server i d)
      in case lb_id of None \<Rightarrow> d | Some i \<Rightarrow> release_balancer i d)"

section \<open>Specifications\<close>

definition zone_has_balancer_on_agent :: "db \<Rightarrow> int \<Rightarrow> bool" where
  "zone_has_balancer_on_agent d agent_id =
     list_ex (\<lambda>b. b_agent_id b = agent_id \<and> b_enabled b \<and> b_mode b = Mode_dnsdist) (db_balancers d)"

definition zone_mode :: "db \<Rightarrow> int option \<Rightarrow> lb_mode option" where
  "zone_mode d zone_id =
     (case zone_id of
        None \<Rightarrow> None
      | Some z \<Rightarrow> map_option b_mode (find (\<lambda>b. b_zone_id b = Some z) (db_balancers d)))"

definition zone_vip_address :: "zone option \<Rightarrow> string option" where
  "zone_vip_address z =
     (case z of
        None \<Rightarrow> None
      | Some z \<Rightarrow> if truthy_text (z_vip z) then Some (fst (py_partition (CHR ''/'') (the (z_vip z)))) else None)"

definition jstrs :: "string list \<Rightarrow> json" where
  "jstrs xs = JList (map JStr xs)"

definition port_or :: "int \<Rightarrow> int \<Rightarrow> int" where
  "port_or p d = (if p \<noteq> 0 then p else d)"

definition method_value :: "install_method option \<Rightarrow> string" where
  "method_value m = install_method_value (case m of None \<Rightarrow> Inst_docker | Some m \<Rightarrow> m)"

text \<open>Where AdGuard listens: on every address for direct routing, behind dnsdist on loopback.\<close>

definition dns_listen :: "settings \<Rightarrow> server \<Rightarrow> bool \<Rightarrow> bool \<Rightarrow> string \<times> int" where
  "dns_listen cfg s colocated ipvs =
     (if ipvs then (''0.0.0.0'', 53)
      else if colocated then (''127.0.0.1'', cf_adguard_colocated_dns_port cfg)
      else (''0.0.0.0'', port_or (s_dns_port s) 53))"

definition adguard_spec :: "settings \<Rightarrow> server \<Rightarrow> bool \<Rightarrow> string option \<Rightarrow> bool \<Rightarrow> json" where
  "adguard_spec cfg s colocated password ipvs =
     JObj [(''enabled'', JBool (s_enabled s)),
           (''install_method'', JStr (method_value (s_install_method s))),
           (''image'', JStr (cf_adguard_image cfg)),
           (''network'', JStr ''host''),
           (''web_bind'', JStr (if s_expose_web_ui s then ''0.0.0.0'' else ''127.0.0.1'')),
           (''web_port'', JInt 3000),
           (''dns_bind'', jstrs [fst (dns_listen cfg s colocated ipvs)]),
           (''dns_port'', JInt (snd (dns_listen cfg s colocated ipvs))),
           (''admin_username'', JStr (str_or (s_username s) ''admin'')),
           (''admin_password'', JStr (str_or password []))]"

record backend_target =
  bt_server_id :: int
  bt_server_name :: string
  bt_name :: string
  bt_address :: string
  bt_port :: int
  bt_enabled :: bool
  bt_weight :: int
  bt_order :: int

definition ipvs_backend_spec :: "zone option \<Rightarrow> bool \<Rightarrow> json" where
  "ipvs_backend_spec z enabled =
     JObj [(''enabled'', JBool (enabled \<and> truthy_text (zone_vip_address z))),
           (''vip'', JStr (str_or (zone_vip_address z) []))]"

text \<open>The address and port a balancer reaches a server under; \<open>None\<close> if its host is gone.\<close>

definition backend_address :: "settings \<Rightarrow> db \<Rightarrow> load_balancer \<Rightarrow> server \<Rightarrow> (string \<times> int) option" where
  "backend_address cfg d lb s =
     (case s_agent_id s of
        Some a \<Rightarrow>
          (case get_agent d a of
             None \<Rightarrow> None
           | Some agent \<Rightarrow>
               if b_mode lb = Mode_ipvs then Some (a_address agent, 53)
               else if a = b_agent_id lb then Some (''127.0.0.1'', cf_adguard_colocated_dns_port cfg)
               else Some (a_address agent,
                 if zone_has_balancer_on_agent d (a_id agent) then cf_adguard_colocated_dns_port cfg
                 else port_or (s_dns_port s) 53))
      | None \<Rightarrow> Some (str_or (host_of_url (s_url s)) [],
                    if b_mode lb = Mode_ipvs then 53 else port_or (s_dns_port s) 53))"

definition override_for :: "db \<Rightarrow> load_balancer \<Rightarrow> int \<Rightarrow> lb_backend option" where
  "override_for d lb server_id =
     find (\<lambda>o'. o_server_id o' = server_id) (rev (filter (\<lambda>o'. o_load_balancer_id o' = b_id lb) (db_backends d)))"

definition target_of :: "settings \<Rightarrow> db \<Rightarrow> load_balancer \<Rightarrow> server \<Rightarrow> backend_target option" where
  "target_of cfg d lb s =
     (case backend_address cfg d lb s of
        None \<Rightarrow> None
      | Some (address, port) \<Rightarrow>
          if address = [] then None
          else let ov = override_for d lb (s_id s) in
            Some \<lparr>bt_server_id = s_id s, bt_server_name = s_name s,
              bt_name = backend_name_for (s_name s) (s_id s), bt_address = address, bt_port = port,
              bt_enabled = (case ov of None \<Rightarrow> True | Some r \<Rightarrow> o_enabled r),
              bt_weight = (case ov of None \<Rightarrow> 1 | Some r \<Rightarrow> o_weight r),
              bt_order = (case ov of None \<Rightarrow> 1 | Some r \<Rightarrow> o_order r)\<rparr>)"

definition desired_backends :: "settings \<Rightarrow> db \<Rightarrow> load_balancer \<Rightarrow> backend_target list" where
  "desired_backends cfg d lb =
     (case b_zone_id lb of
        None \<Rightarrow> []
      | Some z \<Rightarrow> List.map_filter (target_of cfg d lb)
          (sort_key s_name (filter (\<lambda>s. s_zone_id s = Some z \<and> s_enabled s) (db_servers d))))"

definition int_or :: "int \<Rightarrow> int \<Rightarrow> int" where
  "int_or n d = (if n \<noteq> 0 then n else d)"

definition dnsdist_spec :: "settings \<Rightarrow> load_balancer \<Rightarrow> backend_target list \<Rightarrow> json" where
  "dnsdist_spec cfg lb backends =
     JObj [(''enabled'', JBool (b_enabled lb)),
           (''install_method'', JStr (install_method_value (b_install_method lb))),
           (''image'', JStr (if b_image lb \<noteq> [] then b_image lb else cf_dnsdist_image cfg)),
           (''listen'', jstrs (if b_listen_addresses lb \<noteq> [] then b_listen_addresses lb else [''0.0.0.0:53''])),
           (''policy'', JStr (lb_policy_value (b_policy lb))),
           (''ecs'', JBool (b_ecs lb)),
           (''cache'', JObj [(''enabled'', JBool (b_cache_enabled lb)),
              (''max_entries'', JInt (int_or (b_cache_max_entries lb) 100000))]),
           (''healthcheck'', JObj [
              (''name'', JStr (if b_hc_name lb \<noteq> [] then b_hc_name lb else ''a.root-servers.net.'')),
              (''interval_s'', JInt (int_or (b_hc_interval_s lb) 1)),
              (''max_failures'', JInt (int_or (b_hc_max_failures lb) 3)),
              (''rise'', JInt (int_or (b_hc_rise lb) 2)),
              (''mode'', JStr (hc_mode_value (b_hc_mode lb)))]),
           (''acl'', jstrs (b_acl lb)),
           (''backends'', JList (map (\<lambda>b. JObj [(''name'', JStr (bt_name b)), (''address'', JStr (bt_address b)),
              (''port'', JInt (bt_port b)), (''weight'', JInt (bt_weight b)), (''order'', JInt (bt_order b))])
              (filter bt_enabled backends)))]"

text \<open>\<open>tok\<close> is what \<open>generate_token(6)\<close> returned.\<close>

definition ensure_zone_vrrp :: "fernet \<Rightarrow> settings \<Rightarrow> string \<Rightarrow> zone \<Rightarrow> db \<Rightarrow> exn + db" where
  "ensure_zone_vrrp F cfg tok z d =
     (let z1 = (if z_vrrp_router_id z = None then z\<lparr>z_vrrp_router_id := Some (50 + z_id z mod 200)\<rparr> else z) in
      if truthy_text (z_vrrp_auth_enc z) then Inr (put_zone z1 d)
      else case encrypt_secret F cfg (Some (take 8 tok)) of
        Inl x \<Rightarrow> Inl x
      | Inr enc \<Rightarrow> Inr (put_zone (z1\<lparr>z_vrrp_auth_enc := enc\<rparr>) d))"

definition keepalived_spec ::
  "fernet \<Rightarrow> settings \<Rightarrow> load_balancer \<Rightarrow> zone \<Rightarrow> agent \<Rightarrow> string list \<Rightarrow> backend_target list \<Rightarrow> json option" where
  "keepalived_spec F cfg lb z a peers backends =
     (if \<not> truthy_text (z_vip z) then None
      else let ipvs = (b_mode lb = Mode_ipvs) in
        Some (JObj ([(''enabled'', JBool (b_enabled lb)),
           (''vip'', JStr (the (z_vip z))),
           (''interface'', JStr (b_vip_interface lb)),
           (''router_id'', JInt (int_or (case z_vrrp_router_id z of None \<Rightarrow> 0 | Some r \<Rightarrow> r) 53)),
           (''priority'', JInt (int_or (b_vrrp_priority lb) 100)),
           (''auth_pass'', JStr (take 8 (str_or (decrypt_secret F cfg (z_vrrp_auth_enc z)) []))),
           (''peers'', jstrs (sort (filter (\<lambda>p. p \<noteq> [] \<and> p \<noteq> a_address a) peers))),
           (''src_ip'', JStr (a_address a)),
           (''check_dns'', JStr (if ipvs then [] else ''127.0.0.1:53''))] @
          (if ipvs then
             [(''ipvs'', JObj [(''enabled'', JBool (b_enabled lb)),
                (''vip'', JStr (str_or (zone_vip_address (Some z)) [])),
                (''ports'', JList [JInt 53]),
                (''protocols'', jstrs [''udp'', ''tcp'']),
                (''algo'', JStr (ipvs_algo_value (b_ipvs_algo lb))),
                (''backends'', JList (map (\<lambda>b. JObj [(''name'', JStr (bt_name b)), (''address'', JStr (bt_address b)),
                   (''port'', JInt (bt_port b)), (''weight'', JInt (bt_weight b))]) (filter bt_enabled backends))),
                (''check'', JObj [(''interval_s'', JInt (int_or (b_hc_interval_s lb) 2)), (''timeout_s'', JInt 2),
                   (''retry'', JInt (int_or (b_hc_max_failures lb) 2))])])]
           else []))))"

definition disabled_dnsdist :: json where
  "disabled_dnsdist = JObj [(''enabled'', JBool False), (''backends'', JList []), (''listen'', jstrs [''0.0.0.0:53''])]"

definition disabled_keepalived :: json where
  "disabled_keepalived = JObj [(''enabled'', JBool False), (''vip'', JStr []), (''interface'', JStr []),
     (''router_id'', JInt 1), (''priority'', JInt 1), (''auth_pass'', JStr ''x''), (''peers'', JList []),
     (''src_ip'', JStr []), (''check_dns'', JStr [])]"

definition disabled_ipvs_backend :: json where
  "disabled_ipvs_backend = JObj [(''enabled'', JBool False), (''vip'', JStr [])]"

section \<open>The plan of a host\<close>

record agent_plan =
  ap_agent_id :: int
  ap_name :: string
  ap_url :: string
  ap_cert_pem :: string
  ap_cert_not_after :: "int option"
  ap_arch :: "string option"
  ap_version :: "string option"
  ap_update_attempted_at :: "int option"
  ap_adguard :: "(int \<times> json) list"
  ap_ipvs_backend :: "json option"

definition server_ipvs :: "db \<Rightarrow> server \<Rightarrow> bool" where
  "server_ipvs d s =
     (zone_mode d (s_zone_id s) = Some Mode_ipvs \<and>
      truthy_text (zone_vip_address (case s_zone_id s of None \<Rightarrow> None | Some z \<Rightarrow> get_zone d z)))"

definition agent_servers :: "db \<Rightarrow> int \<Rightarrow> server list" where
  "agent_servers d i = filter (\<lambda>s. s_agent_id s = Some i) (db_servers d)"

definition server_spec :: "fernet \<Rightarrow> settings \<Rightarrow> db \<Rightarrow> int \<Rightarrow> server \<Rightarrow> json" where
  "server_spec F cfg d agent_id s =
     adguard_spec cfg s (zone_has_balancer_on_agent d agent_id) (decrypt_secret F cfg (s_password_enc s)) (server_ipvs d s)"

definition agent_plan_of :: "fernet \<Rightarrow> settings \<Rightarrow> db \<Rightarrow> int \<Rightarrow> agent_plan option" where
  "agent_plan_of F cfg d i =
     (case get_agent d i of
        None \<Rightarrow> None
      | Some a \<Rightarrow> Some
          \<lparr>ap_agent_id = a_id a, ap_name = a_name a, ap_url = a_url a,
           ap_cert_pem = a_cert_pem a, ap_cert_not_after = a_cert_not_after a,
           ap_arch = a_arch a, ap_version = a_version a, ap_update_attempted_at = a_update_attempted_at a,
           ap_adguard = map (\<lambda>s. (s_id s, server_spec F cfg d (a_id a) s)) (agent_servers d (a_id a)),
           ap_ipvs_backend = fold (\<lambda>s acc. if server_ipvs d s \<and> s_enabled s
               then Some (ipvs_backend_spec (case s_zone_id s of None \<Rightarrow> None | Some z \<Rightarrow> get_zone d z) True)
               else acc) (agent_servers d (a_id a)) None\<rparr>)"

section \<open>Agent builds\<close>

text \<open>What \<open>agent_bin.build_manifest\<close> reads from the image: the version and the checksum of each
  architecture's binary.\<close>

record manifest =
  mf_version :: string
  mf_files :: "(string \<times> string) list"

definition shipped_version :: "manifest \<Rightarrow> string option" where
  "shipped_version m =
     (if mf_files m = [] \<or> mf_version m \<in> {[], ''unknown'', ''dev''} then None else Some (mf_version m))"

definition update_for :: "settings \<Rightarrow> manifest \<Rightarrow> string \<Rightarrow> (string \<times> string \<times> string) option" where
  "update_for cfg m arch =
     (case (shipped_version m, map_of (mf_files m) (''linux/'' @ py_strip arch)) of
        (Some version, Some sha) \<Rightarrow>
          Some (version,
            py_rstrip_char (CHR ''/'') (cf_public_base_url cfg) @ ''/api/agents/download/linux/'' @ py_strip arch, sha)
      | _ \<Rightarrow> None)"

definition update_due :: "settings \<Rightarrow> manifest \<Rightarrow> string \<Rightarrow> int option \<Rightarrow> bool \<Rightarrow> int \<Rightarrow> bool" where
  "update_due cfg m reported attempted_at force now =
     (case shipped_version m of
        None \<Rightarrow> False
      | Some shipped \<Rightarrow>
          if \<not> force \<and> \<not> cf_agent_auto_update cfg then False
          else if \<not> force \<and> (case attempted_at of None \<Rightarrow> False
                 | Some t \<Rightarrow> now - t < cf_agent_update_retry_minutes cfg * 60 * second_us) then False
          else py_strip reported \<noteq> shipped)"

section \<open>The plan of a balancer\<close>

record lb_plan =
  lp_lb_id :: int
  lp_name :: string
  lp_agent_url :: string
  lp_agent_name :: string
  lp_enabled :: bool
  lp_mode :: lb_mode
  lp_dnsdist :: "json option"
  lp_keepalived :: "json option"
  lp_backends :: "backend_target list"

definition lb_peers :: "db \<Rightarrow> load_balancer \<Rightarrow> int \<Rightarrow> string list" where
  "lb_peers d lb zone_id =
     List.map_filter (\<lambda>b. map_option a_address (get_agent d (b_agent_id b)))
       (filter (\<lambda>b. b_zone_id b = Some zone_id \<and> b_enabled b \<and> b_id b \<noteq> b_id lb) (db_balancers d))"

text \<open>
  \<open>_lb_plan\<close>: the plan and the database with the VRRP secrets it may have filled in; the
  exception is that of \<open>encrypt_secret\<close>.
\<close>

definition lb_plan_of :: "fernet \<Rightarrow> settings \<Rightarrow> string \<Rightarrow> int \<Rightarrow> db \<Rightarrow> exn + (lb_plan option \<times> db)" where
  "lb_plan_of F cfg tok lb_id d =
     (case get_balancer d lb_id of
        None \<Rightarrow> Inr (None, d)
      | Some lb \<Rightarrow>
          (case get_agent d (b_agent_id lb) of
             None \<Rightarrow> Inr (None, d)
           | Some a \<Rightarrow>
               let backends = desired_backends cfg d lb;
                   zone = (case b_zone_id lb of None \<Rightarrow> None | Some z \<Rightarrow> get_zone d z);
                   plan = (\<lambda>ka. \<lparr>lp_lb_id = b_id lb, lp_name = b_name lb, lp_agent_url = a_url a,
                     lp_agent_name = a_name a,
                     lp_enabled = b_enabled lb, lp_mode = b_mode lb,
                     lp_dnsdist = (if b_mode lb = Mode_ipvs then None else Some (dnsdist_spec cfg lb backends)),
                     lp_keepalived = ka, lp_backends = backends\<rparr>)
               in case zone of
                    None \<Rightarrow> Inr (Some (plan None), d)
                  | Some z \<Rightarrow>
                      if \<not> truthy_text (z_vip z) then Inr (Some (plan None), d)
                      else (case ensure_zone_vrrp F cfg tok z d of
                        Inl x \<Rightarrow> Inl x
                      | Inr d' \<Rightarrow>
                          (case get_zone d' (z_id z) of
                             None \<Rightarrow> Inr (Some (plan None), d')
                           | Some z' \<Rightarrow>
                               Inr (Some (plan (keepalived_spec F cfg lb z' a (lb_peers d' lb (z_id z)) backends)), d')))))"

section \<open>Facts\<close>

lemma set_map_filter: "y \<in> set (List.map_filter f xs) \<longleftrightarrow> (\<exists>x \<in> set xs. f x = Some y)"
  by (auto simp: List.map_filter_def image_iff)

lemma target_of_Some:
  assumes "target_of cfg d lb s = Some t"
  shows "bt_server_id t = s_id s" and "bt_name t = backend_name_for (s_name s) (s_id s)"
    and "backend_address cfg d lb s = Some (bt_address t, bt_port t)" and "bt_address t \<noteq> []"
  using assms by (auto simp: target_of_def Let_def split: option.splits prod.splits if_splits)

lemma desired_backendsD:
  assumes "t \<in> set (desired_backends cfg d lb)"
  obtains s z where "s \<in> set (db_servers d)" and "s_enabled s" and "s_zone_id s = Some z" and "b_zone_id lb = Some z"
    and "target_of cfg d lb s = Some t"
proof (cases "b_zone_id lb")
  case None
  with assms show thesis by (simp add: desired_backends_def)
next
  case (Some z)
  with assms that show thesis by (auto simp: desired_backends_def set_map_filter)
qed

lemma distinct_map_filter_names:
  assumes "distinct (map s_id ss)" and "\<forall>s \<in> set ss. 0 \<le> s_id s"
  shows "distinct (map bt_name (List.map_filter (target_of cfg d lb) ss))"
  using assms
proof (induction ss)
  case (Cons s ss)
  show ?case
  proof (cases "target_of cfg d lb s")
    case None
    with Cons show ?thesis by (simp add: List.map_filter_simps)
  next
    case (Some t)
    have "bt_name t \<noteq> bt_name u" if u: "u \<in> set (List.map_filter (target_of cfg d lb) ss)" for u
    proof
      assume same: "bt_name t = bt_name u"
      obtain s' where s': "s' \<in> set ss" "target_of cfg d lb s' = Some u" using u by (auto simp: set_map_filter)
      have "s_id s = s_id s'"
        using same target_of_Some(2) [OF Some] target_of_Some(2) [OF s'(2)] Cons.prems s'(1)
        by (intro backend_name_for_id) auto
      with Cons.prems(1) s'(1) show False by auto
    qed
    with Some Cons show ?thesis by (auto simp: List.map_filter_simps)
  qed
qed (simp add: List.map_filter_simps)

text \<open>One mode per zone, as the balancer handlers keep it.\<close>

definition one_mode_per_zone :: "db \<Rightarrow> bool" where
  "one_mode_per_zone d \<longleftrightarrow>
     (\<forall>b \<in> set (db_balancers d). \<forall>b' \<in> set (db_balancers d).
        b_zone_id b = b_zone_id b' \<and> b_zone_id b \<noteq> None \<longrightarrow> b_mode b = b_mode b')"

lemma zone_mode_of:
  assumes "one_mode_per_zone d" and "lb \<in> set (db_balancers d)" and "b_zone_id lb = Some z"
  shows "zone_mode d (Some z) = Some (b_mode lb)"
proof -
  obtain b where b: "find (\<lambda>b. b_zone_id b = Some z) (db_balancers d) = Some b"
    using assms(2,3) find_None_iff [of "\<lambda>b. b_zone_id b = Some z" "db_balancers d"] by blast
  then have b': "b \<in> set (db_balancers d)" "b_zone_id b = Some z" by (auto simp: find_Some_iff)
  have "b_zone_id b = b_zone_id lb \<and> b_zone_id b \<noteq> None \<longrightarrow> b_mode b = b_mode lb"
    using assms(1,2) b'(1) unfolding one_mode_per_zone_def by blast
  with b'(2) assms(3) have "b_mode b = b_mode lb" by simp
  with b show ?thesis by (simp add: zone_mode_def)
qed

lemma has_balancer:
  "lb \<in> set (db_balancers d) \<Longrightarrow> b_enabled lb \<Longrightarrow> b_mode lb = Mode_dnsdist \<Longrightarrow>
   zone_has_balancer_on_agent d (b_agent_id lb)"
  by (auto simp: zone_has_balancer_on_agent_def list_ex_iff)

lemma server_ipvs_dnsdist:
  assumes "one_mode_per_zone d" and "lb \<in> set (db_balancers d)" and "b_zone_id lb = Some z"
    and "b_mode lb = Mode_dnsdist" and "s_zone_id s = Some z"
  shows "\<not> server_ipvs d s"
  using zone_mode_of [OF assms(1-3)] assms(4,5) by (simp add: server_ipvs_def)

lemma spec_fields:
  "jget (adguard_spec cfg s co pw ipvs) ''dns_port'' = JInt (snd (dns_listen cfg s co ipvs))"
  "jget (adguard_spec cfg s co pw ipvs) ''dns_bind'' = jstrs [fst (dns_listen cfg s co ipvs)]"
  by (simp_all add: adguard_spec_def)

lemma plan_has_server:
  assumes "agent_plan_of F cfg d a = Some p" and "s \<in> set (db_servers d)" and "s_agent_id s = Some a"
  shows "(s_id s, server_spec F cfg d a s) \<in> set (ap_adguard p)"
proof -
  obtain ag where ag: "get_agent d a = Some ag" and p: "ap_adguard p = map (\<lambda>s. (s_id s, server_spec F cfg d (a_id ag) s)) (agent_servers d (a_id ag))"
    using assms(1) by (auto simp: agent_plan_of_def split: option.splits)
  have "a_id ag = a" using row_get_Some [OF ag] by simp
  with p assms(2,3) show ?thesis by (auto simp: agent_servers_def)
qed

section \<open>Properties\<close>

text \<open>Two hosts, each with a dnsdist balancer and a server of the same zone.\<close>

definition two_hosts :: db where
  "two_hosts = empty_db\<lparr>db_zones := [sample_zone 1],
     db_agents := [sample_agent 1 ''10.0.0.11'', sample_agent 2 ''10.0.0.12''],
     db_balancers := [sample_balancer 1 1 1, sample_balancer 2 1 2],
     db_servers := [(sample_server 1 ''ns1'' ''x'')\<lparr>s_zone_id := Some 1, s_agent_id := Some 1\<rparr>,
                    (sample_server 2 ''ns2'' ''x'')\<lparr>s_zone_id := Some 1, s_agent_id := Some 2\<rparr>]\<rparr>"

definition no_fernet :: fernet where
  "no_fernet = \<lparr>fe_encrypt = (\<lambda>_ s. s), fe_decrypt = (\<lambda>_ _. None)\<rparr>"

lemma two_hosts_modes: "one_mode_per_zone two_hosts"
  by (simp add: one_mode_per_zone_def two_hosts_def sample_balancer_def)

text \<open>
  C14. The balancer and the host agree on the DNS port: for an enabled balancer and each of its
  backends that lives on an agent, the specification that agent receives for the server makes
  AdGuard listen on exactly the port the balancer's configuration names, in both modes and
  whether or not the host runs a balancer of its own.
\<close>

theorem backend_port_agrees:
  assumes "one_mode_per_zone d" and "lb \<in> set (db_balancers d)" and "b_enabled lb"
    and "t \<in> set (desired_backends cfg d lb)"
    and "b_mode lb = Mode_ipvs \<Longrightarrow> \<forall>z. b_zone_id lb = Some z \<longrightarrow> truthy_text (zone_vip_address (get_zone d z))"
  shows "\<exists>s \<in> set (db_servers d). s_id s = bt_server_id t \<and> s_enabled s \<and> s_zone_id s = b_zone_id lb \<and>
    (\<forall>a. s_agent_id s = Some a \<longrightarrow>
       (\<exists>p. agent_plan_of F cfg d a = Some p \<and>
          (\<exists>spec. (s_id s, spec) \<in> set (ap_adguard p) \<and> jget spec ''dns_port'' = JInt (bt_port t))))"
proof -
  obtain s z where s: "s \<in> set (db_servers d)" "s_enabled s" "s_zone_id s = Some z" "b_zone_id lb = Some z"
    "target_of cfg d lb s = Some t" using assms(4) by (rule desired_backendsD)
  note t = target_of_Some [OF s(5)]
  have port: "\<exists>p. agent_plan_of F cfg d a = Some p \<and>
      (\<exists>spec. (s_id s, spec) \<in> set (ap_adguard p) \<and> jget spec ''dns_port'' = JInt (bt_port t))"
    if a: "s_agent_id s = Some a" for a
  proof -
    obtain ag where ag: "get_agent d a = Some ag" using t(3) a by (auto simp: backend_address_def split: option.splits)
    then obtain p where p: "agent_plan_of F cfg d a = Some p" by (simp add: agent_plan_of_def)
    have id: "a_id ag = a" using row_get_Some [OF ag] by simp
    have "snd (dns_listen cfg s (zone_has_balancer_on_agent d a) (server_ipvs d s)) = bt_port t"
    proof (cases "b_mode lb = Mode_ipvs")
      case True
      then have "server_ipvs d s"
        using assms(5) s(3,4) zone_mode_of [OF assms(1,2) s(4)] by (simp add: server_ipvs_def)
      with True t(3) a ag show ?thesis by (auto simp: backend_address_def dns_listen_def)
    next
      case False
      then have mode: "b_mode lb = Mode_dnsdist" by (cases "b_mode lb") auto
      have no: "\<not> server_ipvs d s" by (rule server_ipvs_dnsdist [OF assms(1,2) s(4) mode s(3)])
      show ?thesis using t(3) a ag id mode no has_balancer [OF assms(2,3) mode]
        by (auto simp: backend_address_def dns_listen_def split: if_splits)
    qed
    then have "jget (server_spec F cfg d a s) ''dns_port'' = JInt (bt_port t)"
      by (simp add: server_spec_def spec_fields)
    with plan_has_server [OF p s(1) a] p show ?thesis by blast
  qed
  show ?thesis using s t(1) port by (intro bexI [of _ s]) auto
qed

theorem backend_port_agrees_witness:
  "\<exists>t s. desired_backends default_settings two_hosts (sample_balancer 1 1 1) = t # [s] \<and> bt_server_id s = 2 \<and>
     (\<exists>sv \<in> set (db_servers two_hosts). s_id sv = 2 \<and> s_enabled sv)"
proof -
  let ?bs = "desired_backends default_settings two_hosts (sample_balancer 1 1 1)"
  have "map bt_server_id ?bs = [1, 2]" by code_simp
  then obtain t s where bs: "?bs = [t, s]" "bt_server_id s = 2" by auto
  have "sample_balancer 1 1 1 \<in> set (db_balancers two_hosts)" "b_enabled (sample_balancer 1 1 1)"
    "b_mode (sample_balancer 1 1 1) \<noteq> Mode_ipvs" "s \<in> set ?bs"
    using bs(1) by (simp_all add: two_hosts_def sample_balancer_def)
  with backend_port_agrees [OF two_hosts_modes, of "sample_balancer 1 1 1" s default_settings no_fernet] bs
  show ?thesis by auto
qed

text \<open>
  A backend on another balancer's host is unreachable: in a zone with two dnsdist hosts, the
  first balancer's configuration names the second host's AdGuard by the host's address, while
  the specification the second host receives binds AdGuard to the loopback address only.
\<close>

theorem remote_backend_bound_to_loopback:
  assumes "one_mode_per_zone d" and "lb \<in> set (db_balancers d)" and "b_mode lb = Mode_dnsdist"
    and "s \<in> set (db_servers d)" and "s_agent_id s = Some a" and "a \<noteq> b_agent_id lb" and "get_agent d a = Some ag"
    and "zone_has_balancer_on_agent d a" and "s_enabled s" and "s_zone_id s = b_zone_id lb" and "b_zone_id lb \<noteq> None"
    and "a_address ag \<noteq> []"
  shows "(\<exists>t \<in> set (desired_backends cfg d lb). bt_server_id t = s_id s \<and> bt_address t = a_address ag \<and>
      bt_port t = cf_adguard_colocated_dns_port cfg) \<and>
    (\<exists>p. agent_plan_of F cfg d a = Some p \<and> (s_id s, server_spec F cfg d a s) \<in> set (ap_adguard p)) \<and>
    jget (server_spec F cfg d a s) ''dns_bind'' = JList [JStr ''127.0.0.1'']"
proof -
  obtain z where z: "b_zone_id lb = Some z" "s_zone_id s = Some z" using assms(10,11) by auto
  have id: "a_id ag = a" using row_get_Some [OF assms(7)] by simp
  have addr: "backend_address cfg d lb s = Some (a_address ag, cf_adguard_colocated_dns_port cfg)"
    using assms(3,5-8) id by (simp add: backend_address_def)
  then obtain t where t: "target_of cfg d lb s = Some t" using assms(12) by (simp add: target_of_def Let_def)
  note f = target_of_Some [OF t]
  have "t \<in> set (desired_backends cfg d lb)"
    using t z assms(4,9) by (auto simp: desired_backends_def set_map_filter)
  moreover have "\<exists>p. agent_plan_of F cfg d a = Some p" using assms(7) by (simp add: agent_plan_of_def)
  moreover have "\<not> server_ipvs d s" by (rule server_ipvs_dnsdist [OF assms(1,2) z(1) assms(3) z(2)])
  ultimately show ?thesis
    using f addr assms(8) plan_has_server [OF _ assms(4,5)]
    by (auto simp: server_spec_def spec_fields dns_listen_def jstrs_def)
qed

theorem remote_backend_bound_to_loopback_witness:
  "\<exists>t \<in> set (desired_backends default_settings two_hosts (sample_balancer 1 1 1)).
     bt_server_id t = 2 \<and> bt_address t = ''10.0.0.12'' \<and> bt_port t = 5335"
proof -
  let ?s = "(sample_server 2 ''ns2'' ''x'')\<lparr>s_zone_id := Some 1, s_agent_id := Some 2\<rparr>"
  have f: "sample_balancer 1 1 1 \<in> set (db_balancers two_hosts)" "b_mode (sample_balancer 1 1 1) = Mode_dnsdist"
    "?s \<in> set (db_servers two_hosts)" "s_agent_id ?s = Some 2" "2 \<noteq> b_agent_id (sample_balancer 1 1 1)"
    by (simp_all add: two_hosts_def sample_balancer_def)
  have g: "get_agent two_hosts 2 = Some (sample_agent 2 ''10.0.0.12'')" "zone_has_balancer_on_agent two_hosts 2"
    "s_enabled ?s" "s_zone_id ?s = b_zone_id (sample_balancer 1 1 1)" "b_zone_id (sample_balancer 1 1 1) \<noteq> None"
    "a_address (sample_agent 2 ''10.0.0.12'') \<noteq> []"
    by code_simp+
  from remote_backend_bound_to_loopback [OF two_hosts_modes f g, of default_settings]
  show ?thesis by (simp add: sample_server_def sample_agent_def default_settings_def)
qed

text \<open>
  Backends are told apart: the names a balancer is configured with are pairwise distinct and
  none of its addresses is empty.
\<close>

theorem backends_told_apart:
  assumes "distinct (map s_id (db_servers d))" and "\<forall>s \<in> set (db_servers d). 0 \<le> s_id s"
  shows "distinct (map bt_name (desired_backends cfg d lb)) \<and> (\<forall>t \<in> set (desired_backends cfg d lb). bt_address t \<noteq> [])"
proof (cases "b_zone_id lb")
  case None
  then show ?thesis by (simp add: desired_backends_def)
next
  case (Some z)
  let ?ss = "sort_key s_name (filter (\<lambda>s. s_zone_id s = Some z \<and> s_enabled s) (db_servers d))"
  have "inj_on s_id (set (db_servers d))" and "distinct (db_servers d)" using assms(1) by (simp_all add: distinct_map)
  then have "distinct (map s_id ?ss)" by (auto simp: distinct_map intro: inj_on_subset)
  then have "distinct (map bt_name (List.map_filter (target_of cfg d lb) ?ss))"
    by (rule distinct_map_filter_names) (use assms(2) in auto)
  moreover have "bt_address t \<noteq> []" if "t \<in> set (desired_backends cfg d lb)" for t
    using that by (rule desired_backendsD) (rule target_of_Some(4))
  ultimately show ?thesis using Some by (simp add: desired_backends_def)
qed

theorem backends_told_apart_witness:
  "distinct (map bt_name (desired_backends default_settings two_hosts (sample_balancer 1 1 1)))"
proof -
  have "distinct (map s_id (db_servers two_hosts))" "\<forall>s \<in> set (db_servers two_hosts). 0 \<le> s_id s" by code_simp+
  from backends_told_apart [OF this] show ?thesis by blast
qed

end
