(* ===== verification/HostPass.thy ===== *)
theory HostPass
  imports HostSpecs
begin

text \<open>
  The second half of backend/app/hosts.py: one pass over a host (\<open>_run_agent_plan\<close>) and over a
  balancer (\<open>_run_lb_plan\<close>) call by call, and what each writes to the database
  (\<open>_record_agent\<close>, \<open>_record_lb\<close>). The certificate operations of backend/app/pki.py are the
  record \<open>pki\<close>: signing and parsing belong to the cryptography library, SHA-256 to hashlib;
  the canonical JSON form, the threshold of the renewal and every guard are modelled.
\<close>

section \<open>The deployment's PKI\<close>

record pki =
  pk_ca_cert :: string
  pk_ca_key :: string
  pk_digest :: "string \<Rightarrow> string"
  pk_float :: "rat \<Rightarrow> string"
  pk_sign :: "string \<Rightarrow> string \<Rightarrow> string \<Rightarrow> string \<Rightarrow> string \<Rightarrow> exn + string"
  pk_not_after :: "string \<Rightarrow> int"
  pk_client :: "string \<Rightarrow> exn option"

definition hex_digit :: "nat \<Rightarrow> char" where
  "hex_digit d = (if d < 10 then char_of (48 + d) else char_of (87 + d))"

definition json_escape :: "char \<Rightarrow> string" where
  "json_escape c =
     (let n = (of_char c :: nat) in
      if n = 0x22 \<or> n = 0x5C then [CHR 0x5C, c]
      else if n = 0x0A then [CHR 0x5C, CHR ''n''] else if n = 0x0D then [CHR 0x5C, CHR ''r'']
      else if n = 0x09 then [CHR 0x5C, CHR ''t''] else if n = 0x08 then [CHR 0x5C, CHR ''b'']
      else if n = 0x0C then [CHR 0x5C, CHR ''f'']
      else if n < 32 then [CHR 0x5C] @ ''u00'' @ [hex_digit (n div 16), hex_digit (n mod 16)]
      else [c])"

definition json_quote :: "string \<Rightarrow> string" where
  "json_quote s = [CHR 0x22] @ concat (map json_escape s) @ [CHR 0x22]"

text \<open>\<open>json.dumps(spec, sort_keys=True, separators=(",", ":"), ensure_ascii=False)\<close>\<close>

fun canonical_json :: "(rat \<Rightarrow> string) \<Rightarrow> json \<Rightarrow> string" where
  "canonical_json F JNull = ''null''"
| "canonical_json F (JBool b) = (if b then ''true'' else ''false'')"
| "canonical_json F (JInt i) = show_int i"
| "canonical_json F (JNum r) = F r"
| "canonical_json F (JStr s) = json_quote s"
| "canonical_json F (JList xs) = ''['' @ py_join '','' (map (canonical_json F) xs) @ '']''"
| "canonical_json F (JObj d) =
     ''{'' @ py_join '','' (map (\<lambda>(k, t). json_quote k @ '':'' @ t)
       (sort_key fst (map (\<lambda>(k, v). (k, canonical_json F v)) d))) @ ''}''"

definition spec_hash :: "pki \<Rightarrow> json \<Rightarrow> string" where
  "spec_hash K spec = pk_digest K (canonical_json (pk_float K) spec)"

definition needs_renewal :: "int option \<Rightarrow> int \<Rightarrow> bool" where
  "needs_renewal not_after now =
     (case not_after of None \<Rightarrow> False | Some t \<Rightarrow> t - now < 120 * 86400 * second_us)"

section \<open>One pass over a host\<close>

record agent_outcome =
  ao_agent_id :: int
  ao_name :: string
  ao_status :: sync_status
  ao_error :: "string option"
  ao_info :: json                                \<comment> \<open>\<open>JNull\<close> for \<open>None\<close>, as in the next field\<close>
  ao_health :: json
  ao_adguard_status :: "(int \<times> json) list"
  ao_ipvs_backend_status :: "json option"
  ao_renewed_cert :: "string option"
  ao_update_requested :: bool
  ao_update_error :: "string option"

definition new_agent_outcome :: "agent_plan \<Rightarrow> agent_outcome" where
  "new_agent_outcome plan =
     \<lparr>ao_agent_id = ap_agent_id plan, ao_name = ap_name plan, ao_status = St_unknown, ao_error = None,
      ao_info = JNull, ao_health = JNull, ao_adguard_status = [], ao_ipvs_backend_status = None,
      ao_renewed_cert = None, ao_update_requested = False, ao_update_error = None\<rparr>"

record 's host_run = "(call, 's) world" +
  hr_outcome :: agent_outcome

type_synonym ('s, 'a) host_io = "('s host_run, 'a) io"

definition set_outcome :: "(agent_outcome \<Rightarrow> agent_outcome) \<Rightarrow> ('s, unit) host_io" where
  "set_outcome f = io_modify (\<lambda>w. w\<lparr>hr_outcome := f (hr_outcome w)\<rparr>)"

text \<open>\<open>(x or {})\<close>, on which the code calls \<open>get\<close>.\<close>

definition object_of :: "json \<Rightarrow> ('w, json) io" where
  "object_of j = io_seq (expect_obj (obj_or j)) (io_return (obj_or j))"

definition info_object :: "('s, json) host_io" where
  "info_object = io_bind (io_get (\<lambda>w. ao_info (hr_outcome w))) object_of"

definition send_self_update ::
  "'s wenv \<Rightarrow> string \<times> string \<times> string \<Rightarrow> ('s, bool) host_io" where
  "send_self_update e target =
     (case target of (version, url, sha) \<Rightarrow>
        io_seq (set_outcome (\<lambda>u. u\<lparr>ao_update_requested := True\<rparr>))
        (io_bind
          (io_except is_agent_error
            (io_bind (call_io e (AT_self_update version url sha)) (\<lambda>reply. io_return (Some reply)))
            (\<lambda>x. io_seq (set_outcome (\<lambda>u. u\<lparr>ao_update_error := Some (exn_str x)\<rparr>)) (io_return None)))
          (\<lambda>reply. case reply of
             None \<Rightarrow> io_return False
           | Some j \<Rightarrow> io_bind (object_of j) (\<lambda>o'. io_return (truthy (jget_def o' ''ok'' (JBool True)))))))"

definition self_update_if_due ::
  "settings \<Rightarrow> manifest \<Rightarrow> 's wenv \<Rightarrow> agent_plan \<Rightarrow> bool \<Rightarrow> ('s, bool) host_io" where
  "self_update_if_due cfg m e plan force =
     io_bind info_object (\<lambda>info.
     io_bind (now_io e) (\<lambda>now.
     let reported = text_or (jget info ''agent_version'') (str_or (ap_version plan) []);
         arch = text_or (jget info ''arch'') (str_or (ap_arch plan) []) in
     if \<not> update_due cfg m reported (ap_update_attempted_at plan) force now then io_return False
     else case update_for cfg m arch of
       None \<Rightarrow> io_seq (set_outcome (\<lambda>u. u\<lparr>ao_update_requested := True,
           ao_update_error := Some (''no agent build for linux/'' @ (if arch = [] then ''?'' else arch)
             @ '' on this control plane'')\<rparr>))
         (io_return False)
     | Some target \<Rightarrow> send_self_update e target))"

definition renewed_csr :: "'s wenv \<Rightarrow> ('s, string) host_io" where
  "renewed_csr e =
     io_bind (call_io e AT_renew_csr) (\<lambda>data.
     io_bind (object_of data) (\<lambda>o'.
       case text_or (jget o' ''csr_pem'') [] of
         [] \<Rightarrow> io_raise (AgentError ''agent returned no CSR'' None)
       | c # cs \<Rightarrow> io_return (c # cs)))"

text \<open>\<open>addr\<close> is the address column of the agents the session sees at that moment.\<close>

definition renew_if_due ::
  "pki \<Rightarrow> 's wenv \<Rightarrow> (int \<Rightarrow> string option) \<Rightarrow> agent_plan \<Rightarrow> ('s, unit) host_io" where
  "renew_if_due K e addr plan =
     io_bind (now_io e) (\<lambda>now.
     if \<not> needs_renewal (ap_cert_not_after plan) now then io_return ()
     else case addr (ap_agent_id plan) of
       None \<Rightarrow> io_return ()
     | Some address \<Rightarrow>
         io_bind (renewed_csr e) (\<lambda>csr.
         case pk_sign K (pk_ca_cert K) (pk_ca_key K) csr (ap_name plan) address of
           Inl x \<Rightarrow> io_raise x
         | Inr cert \<Rightarrow>
             io_bind (call_io e (AT_install_cert cert (pk_ca_cert K))) (\<lambda>_.
             set_outcome (\<lambda>u. u\<lparr>ao_renewed_cert := Some cert\<rparr>))))"

definition role_error :: "exn \<Rightarrow> json" where
  "role_error x = JObj [(''state'', JStr ''error''), (''message'', JStr (exn_str x))]"

text \<open>The status of a role, or the error entry that stands for a refusal.\<close>

definition role_status :: "'s wenv \<Rightarrow> string \<Rightarrow> ((call, 's, 'm) world_scheme, json) io" where
  "role_status e role =
     io_except is_agent_error (call_io e (AT_get_role role)) (\<lambda>x. io_return (role_error x))"

text \<open>The specification is sent only when the agent reports another hash.\<close>

definition put_if_changed ::
  "pki \<Rightarrow> 's wenv \<Rightarrow> json \<Rightarrow> string \<Rightarrow> string \<Rightarrow> json \<Rightarrow> ((call, 's, 'm) world_scheme, unit) io" where
  "put_if_changed K e desired key role spec =
     io_seq (expect_obj desired)
     (io_when (jget desired key \<noteq> JStr (spec_hash K spec))
       (io_bind (call_io e (AT_put_role role spec)) (\<lambda>_. io_return ())))"

definition stand_down ::
  "'s wenv \<Rightarrow> json \<Rightarrow> string \<Rightarrow> string \<Rightarrow> json \<Rightarrow> ((call, 's, 'm) world_scheme, unit) io" where
  "stand_down e desired key role spec =
     io_seq (expect_obj desired)
     (io_when (truthy (jget desired key)) (io_bind (call_io e (AT_put_role role spec)) (\<lambda>_. io_return ())))"

definition converge_adguard :: "pki \<Rightarrow> 's wenv \<Rightarrow> json \<Rightarrow> int \<times> json \<Rightarrow> ('s, unit) host_io" where
  "converge_adguard K e desired srv =
     (case srv of (i, spec) \<Rightarrow>
        io_seq (put_if_changed K e desired ''adguard'' ''adguard'' spec)
        (io_bind (role_status e ''adguard'') (\<lambda>st.
          set_outcome (\<lambda>u. u\<lparr>ao_adguard_status := dict_set i st (ao_adguard_status u)\<rparr>))))"

definition converge_ipvs_backend :: "pki \<Rightarrow> 's wenv \<Rightarrow> json \<Rightarrow> json option \<Rightarrow> ('s, unit) host_io" where
  "converge_ipvs_backend K e desired spec =
     (case spec of
        Some spec \<Rightarrow>
          io_seq (put_if_changed K e desired ''ipvs_backend'' ''ipvs-backend'' spec)
          (io_bind (role_status e ''ipvs-backend'') (\<lambda>st.
            set_outcome (\<lambda>u. u\<lparr>ao_ipvs_backend_status := Some st\<rparr>)))
      | None \<Rightarrow> stand_down e desired ''ipvs_backend'' ''ipvs-backend'' disabled_ipvs_backend)"

definition converge_roles ::
  "pki \<Rightarrow> 's wenv \<Rightarrow> (int \<Rightarrow> string option) \<Rightarrow> agent_plan \<Rightarrow> ('s, unit) host_io" where
  "converge_roles K e addr plan =
     io_bind (call_io e AT_health) (\<lambda>health.
     io_seq (set_outcome (\<lambda>u. u\<lparr>ao_health := health\<rparr>))
     (io_bind info_object (\<lambda>info.
      let desired = obj_or (jget info ''desired_hashes'') in
      io_seq (io_for (ap_adguard plan) (converge_adguard K e desired))
      (io_seq (converge_ipvs_backend K e desired (ap_ipvs_backend plan))
      (io_seq (io_except is_agent_error (renew_if_due K e addr plan) (\<lambda>_. io_return ()))
      (set_outcome (\<lambda>u. u\<lparr>ao_status := St_online\<rparr>)))))))"

definition agent_body ::
  "settings \<Rightarrow> manifest \<Rightarrow> pki \<Rightarrow> 's wenv \<Rightarrow> (int \<Rightarrow> string option) \<Rightarrow> agent_plan \<Rightarrow> ('s, unit) host_io" where
  "agent_body cfg m K e addr plan =
     io_bind (call_io e AT_info) (\<lambda>info.
     io_seq (set_outcome (\<lambda>u. u\<lparr>ao_info := info\<rparr>))
     (io_bind (self_update_if_due cfg m e plan False) (\<lambda>updating.
      if updating then set_outcome (\<lambda>u. u\<lparr>ao_status := St_online\<rparr>)
      else converge_roles K e addr plan)))"

definition failed_status :: "exn \<Rightarrow> sync_status" where
  "failed_status x =
     (case x of AgentError _ code \<Rightarrow> (if code = None \<or> code = Some 0 then St_offline else St_error) | _ \<Rightarrow> St_error)"

definition agent_failed :: "exn \<Rightarrow> ('s, unit) host_io" where
  "agent_failed x = set_outcome (\<lambda>u. u\<lparr>ao_status := failed_status x, ao_error := Some (exn_str x)\<rparr>)"

definition run_agent_plan ::
  "settings \<Rightarrow> manifest \<Rightarrow> pki \<Rightarrow> 's wenv \<Rightarrow> (int \<Rightarrow> string option) \<Rightarrow> agent_plan \<Rightarrow> (call, 's) world
   \<Rightarrow> agent_outcome \<times> (call, 's) world" where
  "run_agent_plan cfg m K e addr plan w =
     (let outcome = new_agent_outcome plan in
      case pk_client K (ap_url plan) of
        Some x \<Rightarrow> (outcome\<lparr>ao_status := St_error, ao_error := Some (''PKI error: '' @ exn_str x)\<rparr>, w)
      | None \<Rightarrow>
          (let p = \<lparr>w_log = w_log w, w_out = w_out w, hr_outcome = outcome\<rparr>;
               p' = snd (io_finally (io_except (\<lambda>_. True) (agent_body cfg m K e addr plan) agent_failed)
                      (log_call AT_close) p)
           in (hr_outcome p', \<lparr>w_log = w_log p', w_out = w_out p'\<rparr>)))"

text \<open>\<open>update_agent_now\<close>, whose only handler is for \<open>AgentError\<close>: another exception reaches the API.\<close>

definition forced_update :: "settings \<Rightarrow> manifest \<Rightarrow> 's wenv \<Rightarrow> agent_plan \<Rightarrow> ('s, unit) host_io" where
  "forced_update cfg m e plan =
     io_bind (call_io e AT_info) (\<lambda>info.
     io_seq (set_outcome (\<lambda>u. u\<lparr>ao_info := info\<rparr>))
     (io_bind (self_update_if_due cfg m e plan True) (\<lambda>started.
      io_seq (set_outcome (\<lambda>u.
        if \<not> started \<and> (ao_update_error u = None \<or> ao_update_error u = Some []) \<and> \<not> ao_update_requested u
        then u\<lparr>ao_update_requested := True, ao_update_error := Some ''already on the shipped version''\<rparr> else u))
      (set_outcome (\<lambda>u. u\<lparr>ao_status := St_online\<rparr>)))))"

definition update_agent_now ::
  "settings \<Rightarrow> manifest \<Rightarrow> pki \<Rightarrow> 's wenv \<Rightarrow> agent_plan \<Rightarrow> (call, 's) world
   \<Rightarrow> (exn + agent_outcome) \<times> (call, 's) world" where
  "update_agent_now cfg m K e plan w =
     (let outcome = new_agent_outcome plan in
      case pk_client K (ap_url plan) of
        Some x \<Rightarrow> (Inr (outcome\<lparr>ao_status := St_error, ao_error := Some (''PKI error: '' @ exn_str x)\<rparr>), w)
      | None \<Rightarrow>
          (case io_finally (io_except is_agent_error (forced_update cfg m e plan) agent_failed) (log_call AT_close)
                  \<lparr>w_log = w_log w, w_out = w_out w, hr_outcome = outcome\<rparr> of
             (r, p') \<Rightarrow> ((case r of Inl x \<Rightarrow> Inl x | Inr _ \<Rightarrow> Inr (hr_outcome p')),
                         \<lparr>w_log = w_log p', w_out = w_out p'\<rparr>)))"

section \<open>What a host pass writes\<close>

definition text50 :: "nat \<Rightarrow> json \<Rightarrow> string option \<Rightarrow> string option" where
  "text50 n j old = none_if_empty (take n (text_or j (str_or old [])))"

definition not_an_object :: exn where
  "not_an_object = PyError ''has no attribute get''"

definition recorded_agent :: "pki \<Rightarrow> int \<Rightarrow> agent_outcome \<Rightarrow> agent \<Rightarrow> agent" where
  "recorded_agent K now u a =
     (let info = ao_info u;
          a = a\<lparr>a_status := ao_status u, a_last_error := ao_error u\<rparr>;
          a = (if info = JNull then a else a\<lparr>a_info := Some info,
                 a_version := text50 50 (jget info ''agent_version'') (a_version a),
                 a_hostname := text50 100 (jget info ''hostname'') (a_hostname a),
                 a_os := text50 50 (jget info ''os'') (a_os a),
                 a_arch := text50 50 (jget info ''arch'') (a_arch a)\<rparr>);
          a = (if ao_health u = JNull then a else a\<lparr>a_health := Some (ao_health u)\<rparr>);
          a = (if ao_status u = St_online then a\<lparr>a_last_seen := Some now\<rparr> else a);
          a = (case ao_renewed_cert u of
                 None \<Rightarrow> a
               | Some c \<Rightarrow> if c = [] then a else a\<lparr>a_cert_pem := c, a_cert_not_after := Some (pk_not_after K c)\<rparr>)
      in if ao_update_requested u then a\<lparr>a_update_attempted_at := Some now, a_update_error := ao_update_error u\<rparr>
         else a)"

definition not_ready_message :: "json \<Rightarrow> string" where
  "not_ready_message st = text_or (jget st ''message'') (text_or (jget st ''state'') ''not ready'')"

definition role_recorded :: "json option \<Rightarrow> json \<Rightarrow> server \<Rightarrow> server" where
  "role_recorded ipvs st s =
     (let st = (case (ipvs, st) of (Some v, JObj kv) \<Rightarrow> JObj (dict_set ''ipvs_backend'' v kv) | _ \<Rightarrow> st);
          s = s\<lparr>s_agent_state := Some st\<rparr>
      in if jget st ''state'' \<noteq> JStr ''ready''
         then s\<lparr>s_status := St_provisioning, s_in_sync := False,
                s_last_error := Some (''AdGuard role: '' @ not_ready_message st)\<rparr>
         else s)"

text \<open>A status body that is not an object has no \<open>get\<close>: the exception leaves \<open>_record_agent\<close>.\<close>

fun record_roles :: "json option \<Rightarrow> (int \<times> json) list \<Rightarrow> db \<Rightarrow> exn + db" where
  "record_roles ipvs [] d = Inr d"
| "record_roles ipvs ((i, st) # rest) d =
     (case get_server d i of
        None \<Rightarrow> record_roles ipvs rest d
      | Some s \<Rightarrow> if is_obj st then record_roles ipvs rest (put_server (role_recorded ipvs st s) d)
          else Inl not_an_object)"

definition unreachable_row :: "agent_outcome \<Rightarrow> server \<Rightarrow> server" where
  "unreachable_row u s =
     s\<lparr>s_status := (if ao_status u = St_offline then St_offline else St_error), s_in_sync := False,
       s_last_error := Some (''Agent unreachable: '' @ (case ao_error u of None \<Rightarrow> ''None'' | Some x \<Rightarrow> x))\<rparr>"

definition mark_unreachable :: "agent_outcome \<Rightarrow> db \<Rightarrow> db" where
  "mark_unreachable u d =
     d\<lparr>db_servers := map (\<lambda>s. if s_agent_id s = Some (ao_agent_id u) then unreachable_row u s else s) (db_servers d)\<rparr>"

definition record_agent :: "pki \<Rightarrow> int \<Rightarrow> agent_outcome \<Rightarrow> db \<Rightarrow> exn + db" where
  "record_agent K now u d =
     (case get_agent d (ao_agent_id u) of
        None \<Rightarrow> Inr d
      | Some a \<Rightarrow>
          if ao_info u \<noteq> JNull \<and> \<not> is_obj (ao_info u) then Inl not_an_object
          else (case record_roles (ao_ipvs_backend_status u) (ao_adguard_status u)
                       (put_agent (recorded_agent K now u a) d) of
            Inl x \<Rightarrow> Inl x
          | Inr d' \<Rightarrow> Inr (if ao_status u \<noteq> St_online then mark_unreachable u d' else d')))"

text \<open>
  \<open>reconcile_agent\<close>: the plan is read, the network phase runs over whatever the database has
  become by then (\<open>addr\<close>), and the outcome is written to the database of that moment (\<open>d'\<close>).
\<close>

definition reconcile_agent ::
  "fernet \<Rightarrow> settings \<Rightarrow> manifest \<Rightarrow> pki \<Rightarrow> 's wenv \<Rightarrow> (int \<Rightarrow> string option) \<Rightarrow> int \<Rightarrow> int \<Rightarrow> db \<Rightarrow> db
   \<Rightarrow> (call, 's) world \<Rightarrow> (exn + agent_outcome option \<times> db) \<times> (call, 's) world" where
  "reconcile_agent F cfg m K e addr now i d d' w =
     (case agent_plan_of F cfg d i of
        None \<Rightarrow> (Inr (None, d'), w)
      | Some plan \<Rightarrow>
          (case run_agent_plan cfg m K e addr plan w of
             (u, w') \<Rightarrow> ((case record_agent K now u d' of Inl x \<Rightarrow> Inl x | Inr r \<Rightarrow> Inr (Some u, r)), w')))"

section \<open>One pass over a balancer\<close>

record lb_outcome =
  lo_lb_id :: int
  lo_name :: string
  lo_status :: sync_status
  lo_error :: "string option"
  lo_desired_hash :: "string option"
  lo_applied_hash :: json                        \<comment> \<open>\<open>JNull\<close> for \<open>None\<close>, as in the next but one\<close>
  lo_in_sync :: bool
  lo_state :: json
  lo_keepalived_state :: json
  lo_backends :: "backend_target list"

record 's lb_run = "(call, 's) world" +
  lr_outcome :: lb_outcome

type_synonym ('s, 'a) lb_io = "('s lb_run, 'a) io"

definition set_lb :: "(lb_outcome \<Rightarrow> lb_outcome) \<Rightarrow> ('s, unit) lb_io" where
  "set_lb f = io_modify (\<lambda>w. w\<lparr>lr_outcome := f (lr_outcome w)\<rparr>)"

text \<open>\<open>spec_hash(None)\<close> is the hash of \<open>null\<close>.\<close>

definition desired_hash :: "pki \<Rightarrow> lb_plan \<Rightarrow> string" where
  "desired_hash K plan =
     spec_hash K (case (if lp_mode plan = Mode_ipvs then lp_keepalived plan else lp_dnsdist plan) of
       None \<Rightarrow> JNull | Some s \<Rightarrow> s)"

definition new_lb_outcome :: "pki \<Rightarrow> lb_plan \<Rightarrow> lb_outcome" where
  "new_lb_outcome K plan =
     \<lparr>lo_lb_id = lp_lb_id plan, lo_name = lp_name plan, lo_status = St_unknown, lo_error = None,
      lo_desired_hash = Some (desired_hash K plan), lo_applied_hash = JNull, lo_in_sync = False,
      lo_state = JNull, lo_keepalived_state = JNull, lo_backends = lp_backends plan\<rparr>"

definition push_dnsdist :: "pki \<Rightarrow> 's wenv \<Rightarrow> json \<Rightarrow> json option \<Rightarrow> ('s, unit) lb_io" where
  "push_dnsdist K e desired spec =
     (case spec of
        Some spec \<Rightarrow> put_if_changed K e desired ''dnsdist'' ''dnsdist'' spec
      | None \<Rightarrow> stand_down e desired ''dnsdist'' ''dnsdist'' disabled_dnsdist)"

definition push_keepalived :: "pki \<Rightarrow> 's wenv \<Rightarrow> json \<Rightarrow> json option \<Rightarrow> ('s, unit) lb_io" where
  "push_keepalived K e desired spec =
     (case spec of
        Some spec \<Rightarrow>
          io_seq (put_if_changed K e desired ''keepalived'' ''keepalived'' spec)
          (io_bind (role_status e ''keepalived'') (\<lambda>st. set_lb (\<lambda>u. u\<lparr>lo_keepalived_state := st\<rparr>)))
      | None \<Rightarrow> stand_down e desired ''keepalived'' ''keepalived'' disabled_keepalived)"

text \<open>The verdict on the status of the role that balances (keepalived for IPVS, else dnsdist).\<close>

definition judged :: "string \<Rightarrow> json \<Rightarrow> lb_outcome \<Rightarrow> lb_outcome" where
  "judged role st u =
     (let applied = jget st ''applied_hash''; state = jget st ''state'';
          u = u\<lparr>lo_applied_hash := applied,
                lo_in_sync := (applied = (case lo_desired_hash u of None \<Rightarrow> JNull | Some h \<Rightarrow> JStr h) \<and>
                  state \<in> {JStr ''ready'', JStr ''stopped''})\<rparr>
      in if state = JStr ''error''
         then u\<lparr>lo_status := St_error,
                lo_error := Some (role @ '' role: '' @ text_or (jget st ''message'') ''error'')\<rparr>
         else u\<lparr>lo_status := St_online\<rparr>)"

definition judge_role :: "string \<Rightarrow> json \<Rightarrow> ('s, unit) lb_io" where
  "judge_role role st = io_bind (object_of st) (\<lambda>o'. set_lb (judged role o'))"

definition lb_body :: "pki \<Rightarrow> 's wenv \<Rightarrow> lb_plan \<Rightarrow> ('s, unit) lb_io" where
  "lb_body K e plan =
     io_bind (call_io e AT_info) (\<lambda>reply.
     io_bind (object_of reply) (\<lambda>info.
     let desired = obj_or (jget info ''desired_hashes'') in
     io_seq (push_dnsdist K e desired (lp_dnsdist plan))
     (io_seq (push_keepalived K e desired (lp_keepalived plan))
     (if lp_mode plan = Mode_ipvs then
        io_bind (io_get (\<lambda>w. lo_keepalived_state (lr_outcome w))) (\<lambda>ks.
          if lp_keepalived plan = None
          then set_lb (\<lambda>u. u\<lparr>lo_status := St_error, lo_error := Some ''ipvs mode needs a VIP on the zone''\<rparr>)
          else judge_role ''keepalived'' ks)
      else
        io_bind (call_io e (AT_get_role ''dnsdist'')) (\<lambda>st.
        io_seq (set_lb (\<lambda>u. u\<lparr>lo_state := st\<rparr>)) (judge_role ''dnsdist'' st))))))"

definition lb_failed :: "exn \<Rightarrow> ('s, unit) lb_io" where
  "lb_failed x = set_lb (\<lambda>u. u\<lparr>lo_status := failed_status x, lo_error := Some (exn_str x)\<rparr>)"

definition run_lb_plan ::
  "pki \<Rightarrow> 's wenv \<Rightarrow> lb_plan \<Rightarrow> (call, 's) world \<Rightarrow> lb_outcome \<times> (call, 's) world" where
  "run_lb_plan K e plan w =
     (let outcome = new_lb_outcome K plan in
      case pk_client K (lp_agent_url plan) of
        Some x \<Rightarrow> (outcome\<lparr>lo_status := St_error, lo_error := Some (''PKI error: '' @ exn_str x)\<rparr>, w)
      | None \<Rightarrow>
          (let p = \<lparr>w_log = w_log w, w_out = w_out w, lr_outcome = outcome\<rparr>;
               p' = snd (io_finally (io_except (\<lambda>_. True) (lb_body K e plan) lb_failed) (log_call AT_close) p)
           in (lr_outcome p', \<lparr>w_log = w_log p', w_out = w_out p'\<rparr>)))"

section \<open>What a balancer pass writes\<close>

text \<open>A row of the agent's IPVS table in the shape of dnsdist's.\<close>

definition ipvs_row :: "json \<Rightarrow> json" where
  "ipvs_row b =
     JObj [(''name'', jget b ''name''), (''address'', jget b ''address''), (''state'', jget b ''state''),
           (''drained'', JBool (truthy (jget b ''drained''))), (''qps'', jget b ''in_pps''),
           (''queries'', jget b ''in_pkts''), (''conns'', jget b ''conns''),
           (''active_conns'', jget b ''active_conns''), (''inactive_conns'', jget b ''inactive_conns''),
           (''weight'', jget b ''weight'')]"

definition live_backends :: "json \<Rightarrow> json \<Rightarrow> json list" where
  "live_backends dnsdist keepalived =
     (if truthy dnsdist \<and> truthy (jget dnsdist ''backends'') then jlist (jget dnsdist ''backends'')
      else map ipvs_row (filter is_obj (jlist (jget (obj_or (jget (obj_or keepalived) ''ipvs'')) ''backends''))))"

text \<open>The live row of a name: the last one of that name in the reply.\<close>

definition live_entry :: "json list \<Rightarrow> string \<Rightarrow> json" where
  "live_entry rows name =
     (case find (\<lambda>b. jget b ''name'' = JStr name) (rev (filter is_obj rows)) of None \<Rightarrow> JNull | Some b \<Rightarrow> b)"

definition balancer_view :: "load_balancer \<Rightarrow> json \<Rightarrow> backend_target \<Rightarrow> json" where
  "balancer_view lb entry t =
     JObj [(''id'', JInt (b_id lb)), (''name'', JStr (b_name lb)), (''mode'', JStr (lb_mode_value (b_mode lb))),
           (''state'', if truthy entry then jget entry ''state'' else JNull),
           (''drained'', JBool (truthy entry \<and> truthy (jget entry ''drained''))),
           (''qps'', if truthy entry then jget entry ''qps'' else JNull),
           (''enabled'', JBool (bt_enabled t))]"

definition views_of :: "json option \<Rightarrow> json list" where
  "views_of st = jlist (jget (case st of None \<Rightarrow> JNull | Some j \<Rightarrow> j) ''balancers'')"

definition counted :: "(json \<Rightarrow> bool) \<Rightarrow> json list \<Rightarrow> json" where
  "counted P bs = JInt (int (length (filter P bs)))"

definition lb_state_of :: "json list \<Rightarrow> json" where
  "lb_state_of bs =
     JObj [(''up'', counted (\<lambda>b. jget b ''state'' = JStr ''up'' \<and> \<not> truthy (jget b ''drained'')) bs),
           (''down'', counted (\<lambda>b. jget b ''state'' = JStr ''down'') bs),
           (''drained'', counted (\<lambda>b. truthy (jget b ''drained'')) bs),
           (''qps'', JNum (sum_list (map (\<lambda>b. json_rat (jget b ''qps'')) bs))),
           (''balancers'', JList bs)]"

definition lb_viewed :: "load_balancer \<Rightarrow> json list \<Rightarrow> backend_target \<Rightarrow> server \<Rightarrow> server" where
  "lb_viewed lb rows t s =
     s\<lparr>s_lb_state := Some (lb_state_of
        (filter (\<lambda>b. jget b ''id'' \<noteq> JInt (b_id lb)) (views_of (s_lb_state s)) @
         [balancer_view lb (live_entry rows (bt_name t)) t]))\<rparr>"

definition record_view :: "load_balancer \<Rightarrow> json list \<Rightarrow> backend_target \<Rightarrow> db \<Rightarrow> db" where
  "record_view lb rows t d =
     (case get_server d (bt_server_id t) of None \<Rightarrow> d | Some s \<Rightarrow> put_server (lb_viewed lb rows t s) d)"

definition recorded_lb :: "int \<Rightarrow> lb_outcome \<Rightarrow> load_balancer \<Rightarrow> load_balancer" where
  "recorded_lb now u lb =
     (let lb = lb\<lparr>b_status := lo_status u, b_last_error := lo_error u, b_desired_hash := lo_desired_hash u,
                 b_in_sync := lo_in_sync u\<rparr>;
          lb = (case json_text (lo_applied_hash u) of None \<Rightarrow> lb | Some h \<Rightarrow> lb\<lparr>b_applied_hash := Some h\<rparr>);
          lb = (if lo_state u = JNull then lb else lb\<lparr>b_state := Some (lo_state u)\<rparr>);
          lb = (if lo_keepalived_state u = JNull then lb else lb\<lparr>b_keepalived_state := Some (lo_keepalived_state u)\<rparr>)
      in if lo_status u = St_online then lb\<lparr>b_last_synced := Some now\<rparr> else lb)"

definition record_lb :: "int \<Rightarrow> lb_outcome \<Rightarrow> db \<Rightarrow> db" where
  "record_lb now u d =
     (case get_balancer d (lo_lb_id u) of
        None \<Rightarrow> d
      | Some lb \<Rightarrow>
          fold (record_view (recorded_lb now u lb) (live_backends (lo_state u) (lo_keepalived_state u)))
            (lo_backends u) (put_balancer (recorded_lb now u lb) d))"

definition reconcile_load_balancer ::
  "fernet \<Rightarrow> settings \<Rightarrow> string \<Rightarrow> pki \<Rightarrow> 's wenv \<Rightarrow> int \<Rightarrow> int \<Rightarrow> db \<Rightarrow> (db \<Rightarrow> db) \<Rightarrow> (call, 's) world
   \<Rightarrow> (exn + lb_outcome option \<times> db) \<times> (call, 's) world" where
  "reconcile_load_balancer F cfg tok K e now i d others w =
     (case lb_plan_of F cfg tok i d of
        Inl x \<Rightarrow> (Inl x, w)
      | Inr (None, d1) \<Rightarrow> (Inr (None, others d1), w)
      | Inr (Some plan, d1) \<Rightarrow>
          (case run_lb_plan K e plan w of
             (u, w') \<Rightarrow> (Inr (Some u, record_lb now u (others d1)), w')))"

end
