(* ===== verification/HostFacts.thy ===== *)
theory HostFacts
  imports HostPass SyncPlan
begin

text \<open>
  What a pass over a host or a balancer can have done, whatever the agent answers: the calls it
  makes (\<open>host_call_ok\<close>, \<open>lb_call_ok\<close>), the columns it writes, and how its record decides
  whether the AdGuard instance behind the host is synchronised at all.
\<close>

section \<open>Runs that remember what the agent said\<close>

text \<open>As long as the stored reply to \<open>info\<close> is \<open>I\<close>, it stays \<open>I\<close> and only calls in \<open>P\<close> follow.\<close>

definition informed :: "json \<Rightarrow> (call \<Rightarrow> bool) \<Rightarrow> 's host_run \<Rightarrow> 's host_run \<Rightarrow> bool" where
  "informed I P w w' \<longleftrightarrow>
     (ao_info (hr_outcome w) = I \<longrightarrow> log_ext P w w' \<and> ao_info (hr_outcome w') = I)"

lemma informed_frame: "client_frame (informed I P) P e"
proof (intro client_frame.intro call_frame.intro frame.intro call_frame_axioms.intro)
  fix u v w :: "'a host_run"
  show "informed I P w w" by (simp add: informed_def log.frame_refl)
  assume "informed I P u v" and "informed I P v w"
  then show "informed I P u w" by (auto simp: informed_def intro: log.frame_trans)
next
  fix c assume P: "P c"
  have "keeps (log_ext P) (call_io e c :: ('a host_run, json) io)" by (rule log.keeps_call) (rule P)
  moreover have "hr_outcome (snd (call_io e c w)) = hr_outcome w" for w :: "'a host_run"
    by (simp add: call_io_def case_prod_beta)
  ultimately show "keeps (informed I P) (call_io e c)" by (simp add: keeps_def informed_def)
qed

interpretation told: client_frame "informed I P" P e for I P e
  by (rule informed_frame)

lemma told_set: "(\<And>u. ao_info (f u) = ao_info u) \<Longrightarrow> keeps (informed I P) (set_outcome f)"
  by (simp add: keeps_def set_outcome_def io_modify_def informed_def log_ext_same_log)

lemma told_object: "keeps (informed I P) (object_of j)"
  unfolding object_of_def by (intro frame_intros)

lemma told_info:
  assumes "keeps (informed I P) (f (obj_or I))"
  shows "keeps (informed I P) (io_bind info_object f)"
  unfolding keeps_def
proof
  fix w :: "'a host_run"
  show "informed I P w (snd (io_bind info_object f w))"
  proof (cases "ao_info (hr_outcome w) = I")
    case True
    show ?thesis
    proof (cases "is_obj (obj_or I)")
      case True
      with \<open>ao_info (hr_outcome w) = I\<close> assms show ?thesis
        by (simp add: info_object_def object_of_def expect_obj_def io_defs keeps_def)
    next
      case False
      with \<open>ao_info (hr_outcome w) = I\<close> show ?thesis
        by (simp add: info_object_def object_of_def expect_obj_def io_defs informed_def log.frame_refl)
    qed
  qed (simp add: informed_def)
qed

context client_frame
begin

lemma keeps_object [frame_intros]: "keeps R (object_of j)"
  unfolding object_of_def by (intro frame_intros)

lemma keeps_put_if_changed:
  "(jget desired key \<noteq> JStr (spec_hash K spec) \<Longrightarrow> P (AT_put_role role spec)) \<Longrightarrow>
   keeps R (put_if_changed K e desired key role spec)"
  unfolding put_if_changed_def by (intro frame_intros)

lemma keeps_stand_down:
  "(truthy (jget desired key) \<Longrightarrow> P (AT_put_role role spec)) \<Longrightarrow> keeps R (stand_down e desired key role spec)"
  unfolding stand_down_def by (intro frame_intros)

lemma keeps_role_status: "P (AT_get_role role) \<Longrightarrow> keeps R (role_status e role)"
  unfolding role_status_def by (intro frame_intros)

end

section \<open>The calls of a host pass\<close>

definition hashes_of :: "json \<Rightarrow> json" where
  "hashes_of info = obj_or (jget (obj_or info) ''desired_hashes'')"

definition reported_version :: "agent_plan \<Rightarrow> json \<Rightarrow> string" where
  "reported_version plan info = text_or (jget (obj_or info) ''agent_version'') (str_or (ap_version plan) [])"

definition reported_arch :: "agent_plan \<Rightarrow> json \<Rightarrow> string" where
  "reported_arch plan info = text_or (jget (obj_or info) ''arch'') (str_or (ap_arch plan) [])"

text \<open>
  The calls a pass over \<open>plan\<close> may make once the agent has described itself as \<open>info\<close>.
\<close>

fun host_call_ok :: "settings \<Rightarrow> manifest \<Rightarrow> pki \<Rightarrow> 's wenv \<Rightarrow> agent_plan \<Rightarrow> json \<Rightarrow> call \<Rightarrow> bool" where
  "host_call_ok cfg m K e plan info (AT_put_role role spec) =
     ((role = ''adguard'' \<and> spec \<in> snd ` set (ap_adguard plan) \<and>
         jget (hashes_of info) ''adguard'' \<noteq> JStr (spec_hash K spec)) \<or>
      (role = ''ipvs-backend'' \<and>
         (case ap_ipvs_backend plan of
            Some want \<Rightarrow> spec = want \<and> jget (hashes_of info) ''ipvs_backend'' \<noteq> JStr (spec_hash K spec)
          | None \<Rightarrow> spec = disabled_ipvs_backend \<and> truthy (jget (hashes_of info) ''ipvs_backend''))))"
| "host_call_ok cfg m K e plan info (AT_self_update version url sha) =
     (update_for cfg m (reported_arch plan info) = Some (version, url, sha) \<and>
      shipped_version m = Some version \<and> py_strip (reported_version plan info) \<noteq> version)"
| "host_call_ok cfg m K e plan info AT_renew_csr = (\<exists>s. needs_renewal (ap_cert_not_after plan) (e_now e s))"
| "host_call_ok cfg m K e plan info (AT_install_cert cert ca) =
     ((\<exists>s. needs_renewal (ap_cert_not_after plan) (e_now e s)) \<and> ca = pk_ca_cert K \<and>
      (\<exists>csr address. pk_sign K ca (pk_ca_key K) csr (ap_name plan) address = Inr cert))"
| "host_call_ok cfg m K e plan info c = (c \<in> {AT_info, AT_health, AT_get_role ''adguard'', AT_get_role ''ipvs-backend'', AT_close})"

lemma update_for_version: "update_for cfg m arch = Some (v, u, h) \<Longrightarrow> shipped_version m = Some v"
  by (auto simp: update_for_def split: option.splits)

lemma told_self_update:
  "keeps (informed I (host_call_ok cfg m K e plan I)) (self_update_if_due cfg m e plan force)"
  unfolding self_update_if_due_def
proof (rule told_info)
  let ?v = "text_or (jget (obj_or I) ''agent_version'') (str_or (ap_version plan) [])"
  let ?a = "text_or (jget (obj_or I) ''arch'') (str_or (ap_arch plan) [])"
  have send: "keeps (informed I (host_call_ok cfg m K e plan I)) (send_self_update e target)"
    if "update_due cfg m ?v t force now" and "update_for cfg m ?a = Some target" for now t target
  proof -
    obtain v u h where target: "target = (v, u, h)" by (cases target)
    have "host_call_ok cfg m K e plan I (AT_self_update v u h)"
      using that target update_for_version [of cfg m ?a v u h]
      by (auto simp: update_due_def reported_version_def reported_arch_def split: if_splits)
    then show ?thesis
      unfolding send_self_update_def target prod.case
      by (intro told_set frame_intros) (auto intro!: told_set frame_intros split: option.splits)
  qed
  show "keeps (informed I (host_call_ok cfg m K e plan I)) (io_bind (now_io e) (\<lambda>now.
     let reported = ?v; arch = ?a in
     if \<not> update_due cfg m reported (ap_update_attempted_at plan) force now then io_return False
     else case update_for cfg m arch of
       None \<Rightarrow> io_seq (set_outcome (\<lambda>u. u\<lparr>ao_update_requested := True,
           ao_update_error := Some (''no agent build for linux/'' @ (if arch = [] then ''?'' else arch)
             @ '' on this control plane'')\<rparr>))
         (io_return False)
     | Some target \<Rightarrow> send_self_update e target))"
    unfolding Let_def
    by (auto intro!: frame_intros told_set send split: option.splits)
qed

lemma told_renew: "keeps (informed I (host_call_ok cfg m K e plan I)) (renew_if_due K e addr plan)"
proof -
  have csr: "keeps (informed I (host_call_ok cfg m K e plan I)) (renewed_csr e)"
    if "needs_renewal (ap_cert_not_after plan) (e_now e s)" for s
    unfolding renewed_csr_def using that by (auto intro!: frame_intros told.keeps_object split: list.splits)
  show ?thesis
    unfolding keeps_def
  proof
    fix w :: "'a host_run"
    show "informed I (host_call_ok cfg m K e plan I) w (snd (renew_if_due K e addr plan w))"
    proof (cases "needs_renewal (ap_cert_not_after plan) (e_now e (w_out w))")
      case False
      then show ?thesis by (simp add: renew_if_due_def now_io_def io_defs told.frame_refl)
    next
      case True
      have install: "pk_sign K (pk_ca_cert K) (pk_ca_key K) csr (ap_name plan) address = Inr cert \<Longrightarrow>
          host_call_ok cfg m K e plan I (AT_install_cert cert (pk_ca_cert K))" for csr address cert
        using True by auto
      have "keeps (informed I (host_call_ok cfg m K e plan I))
         (case addr (ap_agent_id plan) of
            None \<Rightarrow> io_return ()
          | Some address \<Rightarrow>
              io_bind (renewed_csr e) (\<lambda>csr.
              case pk_sign K (pk_ca_cert K) (pk_ca_key K) csr (ap_name plan) address of
                Inl x \<Rightarrow> io_raise x
              | Inr cert \<Rightarrow>
                  io_bind (call_io e (AT_install_cert cert (pk_ca_cert K))) (\<lambda>_.
                  set_outcome (\<lambda>u. u\<lparr>ao_renewed_cert := Some cert\<rparr>))))"
        by (auto intro!: frame_intros csr [OF True] told_set split: option.splits sum.splits simp del: host_call_ok.simps)
          (erule install)
      with True show ?thesis by (simp add: renew_if_due_def now_io_def io_bind_def io_get_def keeps_def)
    qed
  qed
qed

lemma told_roles: "keeps (informed I (host_call_ok cfg m K e plan I)) (converge_roles K e addr plan)"
proof -
  let ?P = "host_call_ok cfg m K e plan I"
  have ag: "keeps (informed I ?P) (converge_adguard K e (hashes_of I) srv)" if "srv \<in> set (ap_adguard plan)" for srv
  proof -
    obtain i spec where srv: "srv = (i, spec)" by (cases srv)
    with that have "spec \<in> snd ` set (ap_adguard plan)" by force
    then have "?P (AT_put_role ''adguard'' spec)"
      if "jget (hashes_of I) ''adguard'' \<noteq> JStr (spec_hash K spec)" using that by simp
    then show ?thesis
      unfolding converge_adguard_def srv prod.case
      by (intro told.keeps_seq told.keeps_put_if_changed told.keeps_bind told.keeps_role_status told_set) simp_all
  qed
  have ip: "keeps (informed I ?P) (converge_ipvs_backend K e (hashes_of I) (ap_ipvs_backend plan))"
    unfolding converge_ipvs_backend_def
    by (auto intro!: told.keeps_put_if_changed told.keeps_stand_down told.keeps_role_status told_set
        told.keeps_seq told.keeps_bind split: option.splits)
  have rest: "keeps (informed I ?P)
     (io_seq (io_for (ap_adguard plan) (converge_adguard K e (hashes_of I)))
      (io_seq (converge_ipvs_backend K e (hashes_of I) (ap_ipvs_backend plan))
      (io_seq (io_except is_agent_error (renew_if_due K e addr plan) (\<lambda>_. io_return ()))
      (set_outcome (\<lambda>u. u\<lparr>ao_status := St_online\<rparr>)))))"
    by (intro frame_intros ag ip told_renew told_set) simp_all
  have info: "keeps (informed I ?P) (io_bind info_object (\<lambda>info.
      let desired = obj_or (jget info ''desired_hashes'') in
      io_seq (io_for (ap_adguard plan) (converge_adguard K e desired))
      (io_seq (converge_ipvs_backend K e desired (ap_ipvs_backend plan))
      (io_seq (io_except is_agent_error (renew_if_due K e addr plan) (\<lambda>_. io_return ()))
      (set_outcome (\<lambda>u. u\<lparr>ao_status := St_online\<rparr>))))))"
    using rest by (intro told_info) (simp add: hashes_of_def Let_def)
  show ?thesis
    unfolding converge_roles_def
    by (rule told.keeps_bind, rule told.keeps_call, simp, rule told.keeps_seq, rule told_set, simp, rule info)
qed

text \<open>The reply to the first call of a pass.\<close>

definition first_info :: "'s wenv \<Rightarrow> 's \<Rightarrow> json" where
  "first_info e s = (case fst (e_call e AT_info s) of Inl _ \<Rightarrow> JNull | Inr j \<Rightarrow> j)"

lemma agent_body_log:
  fixes w :: "'s host_run"
  shows "log_ext (host_call_ok cfg m K e plan (first_info e (w_out w))) w
    (snd (io_finally (io_except (\<lambda>_. True) (agent_body cfg m K e addr plan) agent_failed) (log_call AT_close) w))"
proof -
  let ?I = "first_info e (w_out w)" let ?P = "host_call_ok cfg m K e plan ?I"
  have fail: "keeps (informed ?I ?P) (agent_failed x)" for x
    unfolding agent_failed_def by (rule told_set) simp
  obtain r s where rs: "e_call e AT_info (w_out w) = (r, s)" by fastforce
  define w1 where "w1 = w\<lparr>w_log := w_log w @ [AT_info], w_out := s\<rparr>"
  have first: "log_ext ?P w w1" by (simp add: w1_def log_ext_def)
  have close: "log_ext ?P w' (log_call AT_close w')" for w' :: "'s host_run" by (rule log_ext_log_call) simp
  show ?thesis
  proof (cases r)
    case (Inl x)
    have "agent_body cfg m K e addr plan w = (Inl x, w1)"
      using rs Inl by (simp add: agent_body_def io_bind_def call_io_def w1_def)
    moreover have "log_ext ?P w1 (snd (agent_failed x w1))"
      by (simp add: agent_failed_def set_outcome_def io_modify_def log_ext_same_log)
    ultimately show ?thesis
      using first close [of "snd (agent_failed x w1)"]
      by (auto simp: io_finally_def io_except_def case_prod_beta intro: log.frame_trans)
  next
    case (Inr I)
    define w2 where "w2 = w1\<lparr>hr_outcome := hr_outcome w1\<lparr>ao_info := I\<rparr>\<rparr>"
    define body where "body = io_bind (self_update_if_due cfg m e plan False) (\<lambda>updating.
      if updating then set_outcome (\<lambda>u. u\<lparr>ao_status := St_online\<rparr>) else converge_roles K e addr plan)"
    have I: "?I = I" using rs Inr by (simp add: first_info_def)
    have run: "agent_body cfg m K e addr plan w = body w2"
      using rs Inr
      by (simp add: agent_body_def io_bind_def io_seq_def call_io_def w1_def w2_def body_def set_outcome_def io_modify_def)
    have "keeps (informed I ?P) (io_except (\<lambda>_. True) body agent_failed)"
      unfolding body_def I
      by (intro frame_intros told_self_update told_roles told_set fail [unfolded I]) simp_all
    then have "informed I ?P w2 (snd (io_except (\<lambda>_. True) body agent_failed w2))"
      by (simp add: keeps_def)
    then have "log_ext ?P w2 (snd (io_except (\<lambda>_. True) body agent_failed w2))"
      by (simp add: informed_def w2_def)
    moreover have "log_ext ?P w w2" using first by (simp add: log_ext_def w2_def)
    ultimately have "log_ext ?P w (snd (io_except (\<lambda>_. True) (agent_body cfg m K e addr plan) agent_failed w))"
      using run by (auto simp: io_except_def intro: log.frame_trans)
    with close show ?thesis by (auto simp: io_finally_def case_prod_beta intro: log.frame_trans)
  qed
qed

lemma run_agent_log:
  "log_ext (host_call_ok cfg m K e plan (first_info e (w_out w))) w (snd (run_agent_plan cfg m K e addr plan w))"
proof (cases "pk_client K (ap_url plan)")
  case None
  let ?p = "\<lparr>w_log = w_log w, w_out = w_out w, hr_outcome = new_agent_outcome plan\<rparr>"
  from None agent_body_log [of cfg m K e plan ?p addr] show ?thesis
    by (simp add: run_agent_plan_def Let_def log_ext_def)
qed (simp add: run_agent_plan_def log.frame_refl)

section \<open>The calls of a balancer pass\<close>

text \<open>As \<open>informed\<close>, for the role status a balancer pass keeps: a predicate on its outcome.\<close>

fun lb_call_ok :: "pki \<Rightarrow> lb_plan \<Rightarrow> json \<Rightarrow> call \<Rightarrow> bool" where
  "lb_call_ok K plan info (AT_put_role role spec) =
     ((role = ''dnsdist'' \<and>
         (case lp_dnsdist plan of
            Some want \<Rightarrow> spec = want \<and> jget (hashes_of info) ''dnsdist'' \<noteq> JStr (spec_hash K spec)
          | None \<Rightarrow> spec = disabled_dnsdist \<and> truthy (jget (hashes_of info) ''dnsdist''))) \<or>
      (role = ''keepalived'' \<and>
         (case lp_keepalived plan of
            Some want \<Rightarrow> spec = want \<and> jget (hashes_of info) ''keepalived'' \<noteq> JStr (spec_hash K spec)
          | None \<Rightarrow> spec = disabled_keepalived \<and> truthy (jget (hashes_of info) ''keepalived''))))"
| "lb_call_ok K plan info c = (c \<in> {AT_info, AT_get_role ''dnsdist'', AT_get_role ''keepalived'', AT_close})"

lemma log_set_lb: "keeps (log_ext P) (set_lb f)"
  by (simp add: keeps_def set_lb_def io_modify_def log_ext_same_log)

lemma log_judge: "keeps (log_ext P) (judge_role role st)"
  unfolding judge_role_def by (intro log.keeps_bind log.keeps_object log_set_lb)

lemma lb_tail_log:
  "keeps (log_ext (lb_call_ok K plan I))
     (io_seq (push_dnsdist K e (hashes_of I) (lp_dnsdist plan))
     (io_seq (push_keepalived K e (hashes_of I) (lp_keepalived plan))
     (if lp_mode plan = Mode_ipvs then
        io_bind (io_get (\<lambda>w. lo_keepalived_state (lr_outcome w))) (\<lambda>ks.
          if lp_keepalived plan = None
          then set_lb (\<lambda>u. u\<lparr>lo_status := St_error, lo_error := Some ''ipvs mode needs a VIP on the zone''\<rparr>)
          else judge_role ''keepalived'' ks)
      else
        io_bind (call_io e (AT_get_role ''dnsdist'')) (\<lambda>st.
        io_seq (set_lb (\<lambda>u. u\<lparr>lo_state := st\<rparr>)) (judge_role ''dnsdist'' st)))))"
  unfolding push_dnsdist_def push_keepalived_def
  by (auto intro!: frame_intros log.keeps_put_if_changed log.keeps_stand_down log.keeps_role_status log_set_lb log_judge
      split: option.splits)

lemma run_lb_log:
  "log_ext (lb_call_ok K plan (first_info e (w_out w))) w (snd (run_lb_plan K e plan w))"
proof (cases "pk_client K (lp_agent_url plan)")
  case None
  let ?I = "first_info e (w_out w)" let ?P = "lb_call_ok K plan ?I"
  let ?p = "\<lparr>w_log = w_log w, w_out = w_out w, lr_outcome = new_lb_outcome K plan\<rparr>"
  obtain r s where rs: "e_call e AT_info (w_out w) = (r, s)" by fastforce
  define w1 where "w1 = ?p\<lparr>w_log := w_log w @ [AT_info], w_out := s\<rparr>"
  have first: "log_ext ?P ?p w1" by (simp add: w1_def log_ext_def)
  have body: "log_ext ?P ?p (snd (lb_body K e plan ?p))"
  proof (cases r)
    case (Inl x)
    with rs first show ?thesis by (simp add: lb_body_def io_bind_def call_io_def w1_def)
  next
    case (Inr I)
    then have I: "?I = I" using rs by (simp add: first_info_def)
    have run: "lb_body K e plan ?p = io_bind (object_of I) (\<lambda>info.
       let desired = obj_or (jget info ''desired_hashes'') in
       io_seq (push_dnsdist K e desired (lp_dnsdist plan))
       (io_seq (push_keepalived K e desired (lp_keepalived plan))
       (if lp_mode plan = Mode_ipvs then
          io_bind (io_get (\<lambda>w. lo_keepalived_state (lr_outcome w))) (\<lambda>ks.
            if lp_keepalived plan = None
            then set_lb (\<lambda>u. u\<lparr>lo_status := St_error, lo_error := Some ''ipvs mode needs a VIP on the zone''\<rparr>)
            else judge_role ''keepalived'' ks)
        else
          io_bind (call_io e (AT_get_role ''dnsdist'')) (\<lambda>st.
          io_seq (set_lb (\<lambda>u. u\<lparr>lo_state := st\<rparr>)) (judge_role ''dnsdist'' st))))) w1"
      using rs Inr by (simp add: lb_body_def io_bind_def call_io_def w1_def)
    show ?thesis
    proof (cases "is_obj (obj_or I)")
      case True
      then have "log_ext ?P w1 (snd (lb_body K e plan ?p))"
        unfolding run using lb_tail_log [of K plan I e]
        by (simp add: object_of_def expect_obj_def io_bind_def io_seq_def io_return_def keeps_def I hashes_of_def Let_def)
      with first show ?thesis by (rule log.frame_trans)
    next
      case False
      with run first show ?thesis by (simp add: object_of_def expect_obj_def io_bind_def io_seq_def io_raise_def)
    qed
  qed
  have "log_ext ?P ?p (snd (io_except (\<lambda>_. True) (lb_body K e plan) lb_failed ?p))"
    using body by (auto simp: io_except_def lb_failed_def set_lb_def io_modify_def log_ext_def split: prod.splits sum.splits)
  moreover have "log_ext ?P w' (log_call AT_close w')" for w' :: "'a lb_run" by (rule log_ext_log_call) simp
  ultimately have "log_ext ?P ?p (snd (io_finally (io_except (\<lambda>_. True) (lb_body K e plan) lb_failed) (log_call AT_close) ?p))"
    by (auto simp: io_finally_def case_prod_beta intro: log.frame_trans)
  with None show ?thesis by (simp add: run_lb_plan_def Let_def log_ext_def)
qed (simp add: run_lb_plan_def log.frame_refl)

section \<open>A settled host\<close>

text \<open>
  The agent reports the hash of every specification it should run, the shipped build, and no
  renewal is due.
\<close>

definition host_settled :: "manifest \<Rightarrow> pki \<Rightarrow> 's wenv \<Rightarrow> agent_plan \<Rightarrow> json \<Rightarrow> bool" where
  "host_settled m K e plan info \<longleftrightarrow>
     (\<forall>(i, spec) \<in> set (ap_adguard plan). jget (hashes_of info) ''adguard'' = JStr (spec_hash K spec)) \<and>
     (case ap_ipvs_backend plan of
        Some spec \<Rightarrow> jget (hashes_of info) ''ipvs_backend'' = JStr (spec_hash K spec)
      | None \<Rightarrow> \<not> truthy (jget (hashes_of info) ''ipvs_backend'')) \<and>
     (case shipped_version m of None \<Rightarrow> True | Some v \<Rightarrow> py_strip (reported_version plan info) = v) \<and>
     (\<forall>s. \<not> needs_renewal (ap_cert_not_after plan) (e_now e s))"

lemma settled_no_write:
  assumes "host_settled m K e plan info" and "host_call_ok cfg m K e plan info c"
  shows "\<not> is_write c"
proof (cases "is_write c")
  case True
  with assms(2) show ?thesis
  proof (cases c)
    case (AT_put_role role spec)
    with assms show ?thesis by (auto simp: host_settled_def split: option.splits)
  next
    case (AT_self_update v u h)
    with assms show ?thesis by (auto simp: host_settled_def)
  qed (use assms in \<open>auto simp: host_settled_def\<close>)
qed

section \<open>The columns a host pass writes\<close>

definition server_settings :: "server \<Rightarrow> server" where
  "server_settings s = s\<lparr>s_agent_state := None, s_status := St_unknown, s_in_sync := False, s_last_error := None\<rparr>"

lemma role_recorded_settings: "server_settings (role_recorded ipvs st s) = server_settings s"
  by (simp add: server_settings_def role_recorded_def Let_def)

lemma role_recorded_fields:
  "s_id (role_recorded ipvs st s) = s_id s" "s_agent_id (role_recorded ipvs st s) = s_agent_id s"
  by (simp_all add: role_recorded_def Let_def)

lemma role_recorded_state:
  "\<exists>st'. s_agent_state (role_recorded ipvs st s) = Some st' \<and> jget st' ''state'' = jget st ''state''"
  by (cases st) (auto simp: role_recorded_def Let_def split: option.splits)

lemma unreachable_fields:
  "s_id (unreachable_row u s) = s_id s" "s_agent_id (unreachable_row u s) = s_agent_id s"
  "s_agent_state (unreachable_row u s) = s_agent_state s"
  "server_settings (unreachable_row u s) = server_settings s"
  by (simp_all add: unreachable_row_def server_settings_def)

lemma map_row_put:
  assumes "distinct (map key rows)" and "row_get key (key r) rows = Some old" and "f r = f old"
  shows "map f (row_put key r rows) = map f rows"
proof -
  have "f (if key x = key r then r else x) = f x" if x: "x \<in> set rows" for x
  proof (cases "key x = key r")
    case True
    have "key old = key r" "old \<in> set rows" using row_get_Some [OF assms(2)] by simp_all
    with True x assms(1) have "x = old" by (auto simp: distinct_map inj_on_def)
    with True assms(3) show ?thesis by simp
  qed simp
  then show ?thesis by (simp add: row_put_def)
qed

lemma map_key_row_put: "map key (row_put key r rows) = map key rows"
  by (simp add: row_put_def)

lemma record_roles_frame:
  "record_roles ipvs sts d = Inr d' \<Longrightarrow> distinct (map s_id (db_servers d)) \<Longrightarrow>
     map server_settings (db_servers d') = map server_settings (db_servers d) \<and>
     map s_id (db_servers d') = map s_id (db_servers d) \<and> (\<exists>ss. d' = d\<lparr>db_servers := ss\<rparr>)"
proof (induction ipvs sts d rule: record_roles.induct)
  case (1 ipvs d)
  then show ?case by (auto intro: exI [of _ "db_servers d"])
next
  case (2 ipvs i st rest d)
  show ?case
  proof (cases "get_server d i")
    case None
    with 2 show ?thesis by simp
  next
    case (Some s)
    let ?d = "put_server (role_recorded ipvs st s) d"
    have i: "s_id s = i" using row_get_Some [OF Some] by simp
    have ids: "map s_id (db_servers ?d) = map s_id (db_servers d)"
      by (simp add: put_server_def map_key_row_put)
    have cfg: "map server_settings (db_servers ?d) = map server_settings (db_servers d)"
      using map_row_put [of s_id "db_servers d" "role_recorded ipvs st s" s server_settings] 2(4) Some i
      by (simp add: put_server_def role_recorded_fields role_recorded_settings)
    from 2(3) Some have obj: "is_obj st" and rest: "record_roles ipvs rest ?d = Inr d'"
      by (auto split: if_splits)
    from 2(2) [OF Some obj rest] ids 2(4) cfg show ?thesis by (auto simp: put_server_def)
  qed
qed

definition rows_of :: "int \<Rightarrow> db \<Rightarrow> server list" where
  "rows_of i d = filter (\<lambda>s. s_id s = i) (db_servers d)"

lemma rows_of_put: "rows_of i (put_server s d) = (if s_id s = i then map (\<lambda>_. s) (rows_of i d) else rows_of i d)"
proof -
  have "filter (\<lambda>x. s_id x = i) (row_put s_id s rows) =
      (if s_id s = i then map (\<lambda>_. s) (filter (\<lambda>x. s_id x = i) rows) else filter (\<lambda>x. s_id x = i) rows)" for rows
    by (induction rows) (auto simp: row_put_def)
  then show ?thesis by (simp add: rows_of_def put_server_def)
qed

lemma record_roles_other:
  "record_roles ipvs sts d = Inr d' \<Longrightarrow> i \<notin> fst ` set sts \<Longrightarrow> rows_of i d' = rows_of i d"
proof (induction ipvs sts d rule: record_roles.induct)
  case (2 ipvs j st rest d)
  show ?case
  proof (cases "get_server d j")
    case (Some s)
    have "s_id s = j" using row_get_Some [OF Some] by simp
    with 2 Some show ?thesis by (auto simp: rows_of_put role_recorded_fields split: if_splits)
  qed (use 2 in auto)
qed simp

lemma record_roles_state:
  "record_roles ipvs sts d = Inr d' \<Longrightarrow> distinct (map fst sts) \<Longrightarrow> (i, st) \<in> set sts \<Longrightarrow> s' \<in> set (rows_of i d') \<Longrightarrow>
     \<exists>st'. s_agent_state s' = Some st' \<and> jget st' ''state'' = jget st ''state''"
proof (induction ipvs sts d rule: record_roles.induct)
  case (2 ipvs j st' rest d)
  show ?case
  proof (cases "get_server d j")
    case None
    then have rest: "record_roles ipvs rest d = Inr d'" using 2(3) by simp
    show ?thesis
    proof (cases "j = i")
      case True
      with 2(4) have "rows_of i d' = rows_of i d" using record_roles_other [OF rest] by simp
      moreover have "rows_of i d = []" using None True by (auto simp: rows_of_def row_get_None filter_empty_conv)
      ultimately show ?thesis using 2(6) by simp
    next
      case False
      with 2(1) [OF None rest] 2(4-6) show ?thesis by auto
    qed
  next
    case (Some s)
    from 2(3) Some have obj: "is_obj st'" and rest: "record_roles ipvs rest (put_server (role_recorded ipvs st' s) d) = Inr d'"
      by (auto split: if_splits)
    have j: "s_id s = j" using row_get_Some [OF Some] by simp
    show ?thesis
    proof (cases "j = i")
      case True
      with 2(4,5) have "st = st'" by force
      moreover have "rows_of i d' = rows_of i (put_server (role_recorded ipvs st' s) d)"
        using record_roles_other [OF rest] 2(4) True by simp
      ultimately have "s' = role_recorded ipvs st s" using 2(6) True j by (auto simp: rows_of_put role_recorded_fields)
      with role_recorded_state show ?thesis by metis
    next
      case False
      with 2(2) [OF Some obj rest] 2(4-6) show ?thesis by auto
    qed
  qed
qed simp

lemma mark_unreachable_settings:
  "map server_settings (db_servers (mark_unreachable u d)) = map server_settings (db_servers d)"
  by (simp add: mark_unreachable_def unreachable_fields)

lemma record_agent_cases:
  assumes "record_agent K now u d = Inr d'" and "get_agent d (ao_agent_id u) = Some a"
  obtains d1 where "record_roles (ao_ipvs_backend_status u) (ao_adguard_status u) (put_agent (recorded_agent K now u a) d) = Inr d1"
    and "d' = (if ao_status u \<noteq> St_online then mark_unreachable u d1 else d1)"
  using assms by (auto simp: record_agent_def split: if_splits sum.splits)

lemma recorded_agent_id: "a_id (recorded_agent K now u a) = a_id a"
  by (simp add: recorded_agent_def Let_def split: option.splits)

section \<open>The verdict on a balancer\<close>

definition unjudged :: "string \<Rightarrow> lb_outcome \<Rightarrow> bool" where
  "unjudged h u \<longleftrightarrow> \<not> lo_in_sync u \<and> lo_desired_hash u = Some h"

definition sound_verdict :: "string \<Rightarrow> lb_outcome \<Rightarrow> bool" where
  "sound_verdict h u \<longleftrightarrow>
     (lo_in_sync u \<longrightarrow> lo_status u = St_online \<and> lo_applied_hash u = JStr h) \<and> lo_desired_hash u = Some h"

definition keeps_unjudged :: "string \<Rightarrow> 's lb_run \<Rightarrow> 's lb_run \<Rightarrow> bool" where
  "keeps_unjudged h w w' \<longleftrightarrow> (unjudged h (lr_outcome w) \<longrightarrow> unjudged h (lr_outcome w'))"

lemma keeps_unjudged_frame: "client_frame (keeps_unjudged h) (\<lambda>_. True) e"
  by (intro client_frame.intro call_frame.intro frame.intro call_frame_axioms.intro)
    (auto simp: keeps_unjudged_def keeps_def call_io_def case_prod_beta)

interpretation unjudged: client_frame "keeps_unjudged h" "\<lambda>_. True" e for h e
  by (rule keeps_unjudged_frame)

lemma unjudged_set:
  "(\<And>u. lo_in_sync (f u) = lo_in_sync u) \<Longrightarrow> (\<And>u. lo_desired_hash (f u) = lo_desired_hash u) \<Longrightarrow>
   keeps (keeps_unjudged h) (set_lb f)"
  by (simp add: keeps_def keeps_unjudged_def set_lb_def io_modify_def unjudged_def)

text \<open>A run that leaves an exception unjudged and a result soundly judged.\<close>

fun verdict_end :: "string \<Rightarrow> exn + 'a \<Rightarrow> lb_outcome \<Rightarrow> bool" where
  "verdict_end h (Inl x) u = unjudged h u"
| "verdict_end h (Inr a) u = sound_verdict h u"

definition verdict :: "string \<Rightarrow> ('s, 'a) lb_io \<Rightarrow> 's lb_run \<Rightarrow> bool" where
  "verdict h m w \<longleftrightarrow> (unjudged h (lr_outcome w) \<longrightarrow> verdict_end h (fst (m w)) (lr_outcome (snd (m w))))"

lemma verdict_bind:
  assumes "keeps (keeps_unjudged h) m" and "\<And>a w'. verdict h (f a) w'"
  shows "verdict h (io_bind m f) w"
proof (cases "m w")
  case (Pair r w1)
  with assms(1) have "keeps_unjudged h w w1" by (auto simp: keeps_def dest: spec [of _ w])
  with assms(2) [of _ w1] Pair show ?thesis
    by (cases r) (auto simp: verdict_def io_bind_def keeps_unjudged_def)
qed

lemma verdict_seq:
  "keeps (keeps_unjudged h) m \<Longrightarrow> (\<And>w'. verdict h n w') \<Longrightarrow> verdict h (io_seq m n) w"
  unfolding io_seq_def by (rule verdict_bind)

lemma judged_sound: "unjudged h u \<Longrightarrow> sound_verdict h (judged role st u)"
  by (auto simp: unjudged_def sound_verdict_def judged_def Let_def)

lemma verdict_set: "(\<And>u. unjudged h u \<Longrightarrow> sound_verdict h (f u)) \<Longrightarrow> verdict h (set_lb f) w"
  by (simp add: verdict_def set_lb_def io_modify_def)

lemma verdict_judge: "verdict h (judge_role role st) w"
  unfolding judge_role_def by (intro verdict_bind unjudged.keeps_object verdict_set judged_sound)

lemma verdict_body: "verdict h (lb_body K e plan) w"
proof -
  have "verdict h (if lp_mode plan = Mode_ipvs then
        io_bind (io_get (\<lambda>w. lo_keepalived_state (lr_outcome w))) (\<lambda>ks.
          if lp_keepalived plan = None
          then set_lb (\<lambda>u. u\<lparr>lo_status := St_error, lo_error := Some ''ipvs mode needs a VIP on the zone''\<rparr>)
          else judge_role ''keepalived'' ks)
      else
        io_bind (call_io e (AT_get_role ''dnsdist'')) (\<lambda>st.
        io_seq (set_lb (\<lambda>u. u\<lparr>lo_state := st\<rparr>)) (judge_role ''dnsdist'' st))) w" for w
    by (auto intro!: verdict_bind verdict_seq unjudged.keeps_get unjudged.keeps_call unjudged_set verdict_set verdict_judge
        simp: unjudged_def sound_verdict_def)
  moreover have "keeps (keeps_unjudged h) (push_dnsdist K e desired spec)" for desired spec
    unfolding push_dnsdist_def
    by (auto intro!: unjudged.keeps_put_if_changed unjudged.keeps_stand_down split: option.splits)
  moreover have "keeps (keeps_unjudged h) (push_keepalived K e desired spec)" for desired spec
    unfolding push_keepalived_def
    by (auto intro!: unjudged.keeps_put_if_changed unjudged.keeps_stand_down unjudged.keeps_seq unjudged.keeps_bind
        unjudged.keeps_role_status unjudged_set split: option.splits)
  moreover have "keeps (keeps_unjudged h) (call_io e AT_info)" by (rule unjudged.keeps_call) simp
  ultimately show ?thesis
    unfolding lb_body_def Let_def
    by (intro verdict_bind verdict_seq unjudged.keeps_object)
qed

lemma run_lb_verdict: "sound_verdict (desired_hash K plan) (fst (run_lb_plan K e plan w))"
proof (cases "pk_client K (lp_agent_url plan)")
  case None
  let ?h = "desired_hash K plan"
  let ?p = "\<lparr>w_log = w_log w, w_out = w_out w, lr_outcome = new_lb_outcome K plan\<rparr>"
  have "unjudged ?h (lr_outcome ?p)" by (simp add: unjudged_def new_lb_outcome_def)
  with verdict_body [of ?h K e plan ?p]
  have "sound_verdict ?h (lr_outcome (snd (io_except (\<lambda>_. True) (lb_body K e plan) lb_failed ?p)))"
    by (cases "lb_body K e plan ?p"; cases "fst (lb_body K e plan ?p)")
      (auto simp: verdict_def io_except_def lb_failed_def set_lb_def io_modify_def unjudged_def sound_verdict_def)
  with None show ?thesis
    by (simp add: run_lb_plan_def Let_def io_finally_def log_call_def case_prod_beta)
next
  case (Some x)
  then show ?thesis by (simp add: run_lb_plan_def Let_def sound_verdict_def new_lb_outcome_def)
qed

section \<open>The views of a balancer\<close>

lemma lb_viewed_id: "s_id (lb_viewed lb rows t s) = s_id s"
  by (simp add: lb_viewed_def)

lemma record_view_other: "bt_server_id t \<noteq> i \<Longrightarrow> get_server (record_view lb rows t d) i = get_server d i"
  by (auto simp: record_view_def lb_viewed_id dest: row_get_Some split: option.splits)

lemma record_views_other:
  "i \<notin> bt_server_id ` set ts \<Longrightarrow> get_server (fold (record_view lb rows) ts d) i = get_server d i"
  by (induction ts arbitrary: d) (simp_all add: record_view_other)

lemma record_views_at:
  assumes "distinct (map bt_server_id ts)" and "t \<in> set ts" and "get_server d (bt_server_id t) = Some s"
  shows "get_server (fold (record_view lb rows) ts d) (bt_server_id t) = Some (lb_viewed lb rows t s)"
proof -
  obtain us vs where ts: "ts = us @ t # vs" using assms(2) by (auto simp: in_set_conv_decomp)
  with assms(1) have before: "bt_server_id t \<notin> bt_server_id ` set us" and after: "bt_server_id t \<notin> bt_server_id ` set vs"
    by auto
  let ?d = "fold (record_view lb rows) us d"
  have s: "get_server ?d (bt_server_id t) = Some s" using record_views_other [OF before] assms(3) by simp
  then have "get_server (record_view lb rows t ?d) (bt_server_id t) = Some (lb_viewed lb rows t s)"
    using row_get_Some [OF s] by (simp add: record_view_def lb_viewed_id)
  with record_views_other [OF after] ts show ?thesis by simp
qed

lemma recorded_lb_id: "b_id (recorded_lb now u lb) = b_id lb"
  by (simp add: recorded_lb_def Let_def split: option.splits)

section \<open>Properties\<close>



definition plain_pki :: pki where
  "plain_pki = \<lparr>pk_ca_cert = ''ca'', pk_ca_key = ''key'', pk_digest = (\<lambda>s. s), pk_float = (\<lambda>_. ''0.0''),
     pk_sign = (\<lambda>_ _ csr _ _. Inr csr), pk_not_after = (\<lambda>_. 0), pk_client = (\<lambda>_. None)\<rparr>"

definition disabled_role :: json where
  "disabled_role = JObj [(''enabled'', JBool False)]"

text \<open>An agent that runs the role it is told to, and reports so.\<close>

definition settled_box :: "nat wenv" where
  "settled_box =
     \<lparr>e_call = (\<lambda>c n. (Inr (if c = AT_info
        then JObj [(''agent_version'', JStr ''1.0''),
          (''desired_hashes'', JObj [(''adguard'', JStr (spec_hash plain_pki disabled_role))])]
        else JObj [(''state'', JStr ''ready'')]), n + 1)), e_now = (\<lambda>_. 0), e_loop_time = int\<rparr>"

definition settled_plan :: agent_plan where
  "settled_plan =
     \<lparr>ap_agent_id = 1, ap_name = ''host'', ap_url = ''https://10.0.0.9:8443'', ap_cert_pem = [], ap_cert_not_after = None,
      ap_arch = None, ap_version = None, ap_update_attempted_at = None, ap_adguard = [(4, disabled_role)],
      ap_ipvs_backend = None\<rparr>"

lemma settled_example:
  "host_settled \<lparr>mf_version = ''1.0'', mf_files = [(''linux/arm'', ''00'')]\<rparr> plain_pki settled_box settled_plan
     (first_info settled_box 0)"
proof -
  have "py_strip ''1.0'' = ''1.0''" by code_simp
  then show ?thesis
    by (simp add: host_settled_def settled_plan_def settled_box_def first_info_def hashes_of_def obj_or_def jor_def
        shipped_version_def reported_version_def text_or_def str_or_def needs_renewal_def)
qed


text \<open>
  A pass over a balancer likewise sends dnsdist and keepalived only the plan's own
  specification when the agent reported another hash, or the stand-down document when the plan
  has none and the agent reports that it runs one.
\<close>

theorem balancer_pass_calls:
  "log_ext (lb_call_ok K plan (first_info e (w_out w))) w (snd (run_lb_plan K e plan w))"
  by (rule run_lb_log)

text \<open>
  A balancer is reported in sync only when its agent answered, the pass ended online and the
  hash the agent says it applied is the hash of what the plan asks for.
\<close>

theorem balancer_in_sync_sound:
  assumes "lo_in_sync (fst (run_lb_plan K e plan w))"
  shows "lo_status (fst (run_lb_plan K e plan w)) = St_online \<and>
    lo_applied_hash (fst (run_lb_plan K e plan w)) = JStr (desired_hash K plan)"
  using run_lb_verdict [of K plan e w] assms by (simp add: sound_verdict_def)

definition settled_lb_plan :: lb_plan where
  "settled_lb_plan =
     \<lparr>lp_lb_id = 1, lp_name = ''lb'', lp_agent_url = ''https://10.0.0.9:8443'', lp_agent_name = ''host'', lp_enabled = False,
      lp_mode = Mode_dnsdist, lp_dnsdist = Some disabled_role, lp_keepalived = None, lp_backends = []\<rparr>"

definition settled_lb_box :: "nat wenv" where
  "settled_lb_box =
     \<lparr>e_call = (\<lambda>c n. (Inr (if c = AT_info then JObj []
        else JObj [(''state'', JStr ''stopped''), (''applied_hash'', JStr (spec_hash plain_pki disabled_role))]), n + 1)),
      e_now = (\<lambda>_. 0), e_loop_time = int\<rparr>"

theorem balancer_in_sync_sound_witness:
  "lo_status (fst (run_lb_plan plain_pki settled_lb_box settled_lb_plan \<lparr>w_log = [], w_out = 0\<rparr>)) = St_online \<and>
   lo_applied_hash (fst (run_lb_plan plain_pki settled_lb_box settled_lb_plan \<lparr>w_log = [], w_out = 0\<rparr>)) =
     JStr (desired_hash plain_pki settled_lb_plan)"
proof (rule balancer_in_sync_sound)
  show "lo_in_sync (fst (run_lb_plan plain_pki settled_lb_box settled_lb_plan \<lparr>w_log = [], w_out = 0\<rparr>))"
    by code_simp
qed

text \<open>
  Recording a host pass writes observations only: no column an operator sets changes on any
  server, no row of another agent changes, and every other table is as before.
\<close>

theorem host_record_frame:
  assumes "distinct (map s_id (db_servers d))" and "record_agent K now u d = Inr d'"
  shows "map server_settings (db_servers d') = map server_settings (db_servers d) \<and>
    (\<forall>i. i \<noteq> ao_agent_id u \<longrightarrow> get_agent d' i = get_agent d i) \<and>
    (\<exists>ss as. d' = d\<lparr>db_servers := ss, db_agents := as\<rparr>)"
proof (cases "get_agent d (ao_agent_id u)")
  case None
  with assms(2) have "d' = d" by (simp add: record_agent_def)
  moreover have "d = d\<lparr>db_servers := db_servers d, db_agents := db_agents d\<rparr>" by simp
  ultimately show ?thesis by metis
next
  case (Some a)
  let ?d0 = "put_agent (recorded_agent K now u a) d"
  obtain d1 where roles: "record_roles (ao_ipvs_backend_status u) (ao_adguard_status u) ?d0 = Inr d1"
    and d': "d' = (if ao_status u \<noteq> St_online then mark_unreachable u d1 else d1)"
    using record_agent_cases [OF assms(2) Some] by blast
  have frame: "map server_settings (db_servers d1) = map server_settings (db_servers d)" "\<exists>ss. d1 = ?d0\<lparr>db_servers := ss\<rparr>"
    using record_roles_frame [OF roles] assms(1) by simp_all
  have a: "a_id a = ao_agent_id u" using row_get_Some [OF Some] by simp
  obtain ss where ss: "d1 = ?d0\<lparr>db_servers := ss\<rparr>" using frame(2) by blast
  have "\<exists>rs. d' = d\<lparr>db_servers := rs, db_agents := db_agents ?d0\<rparr>"
    unfolding d' ss mark_unreachable_def put_agent_def
    by (cases "ao_status u \<noteq> St_online") (auto intro!: exI db.equality)
  then obtain rs where rs: "d' = d\<lparr>db_servers := rs, db_agents := db_agents ?d0\<rparr>" by blast
  then have "get_agent d' i = get_agent d i" if "i \<noteq> ao_agent_id u" for i
    using that a get_agent_put [where a = "recorded_agent K now u a" and d = d and i = i] by (simp add: recorded_agent_id)
  moreover have "map server_settings (db_servers d') = map server_settings (db_servers d)"
    using frame(1) d' by (simp add: mark_unreachable_settings)
  ultimately show ?thesis using rs by blast
qed

definition refused_outcome :: agent_outcome where
  "refused_outcome =
     \<lparr>ao_agent_id = 1, ao_name = ''host'', ao_status = St_offline, ao_error = Some ''refused'', ao_info = JNull,
      ao_health = JNull, ao_adguard_status = [(4, JObj [(''state'', JStr ''installing'')])],
      ao_ipvs_backend_status = None, ao_renewed_cert = None, ao_update_requested = False, ao_update_error = None\<rparr>"

definition one_host :: db where
  "one_host = empty_db\<lparr>db_agents := [sample_agent 1 ''10.0.0.9''],
     db_servers := [(sample_server 4 ''ns1'' ''https://10.0.0.9:8443/v1/adguard/api'')\<lparr>s_agent_id := Some 1\<rparr>]\<rparr>"

lemma one_host_run: "\<exists>d'. record_agent plain_pki 5 refused_outcome one_host = Inr d'"
  by (simp add: record_agent_def refused_outcome_def one_host_def empty_db_def sample_agent_def sample_server_def
      row_get_def put_agent_def)

theorem host_record_frame_witness:
  "\<exists>d'. record_agent plain_pki 5 refused_outcome one_host = Inr d' \<and>
     map server_settings (db_servers d') = map server_settings (db_servers one_host)"
proof -
  obtain d' where run: "record_agent plain_pki 5 refused_outcome one_host = Inr d'" using one_host_run by blast
  have "distinct (map s_id (db_servers one_host))" by (simp add: one_host_def)
  from host_record_frame [OF this run] run show ?thesis by blast
qed

text \<open>
  An AdGuard role that is still being installed is not synchronised: once a host pass has
  recorded a state other than ready for a server behind an agent, the next cycle does not find
  that server due, forced or not.
\<close>

theorem unready_not_synced:
  assumes "record_agent K now u d = Inr d'" and "get_agent d (ao_agent_id u) = Some a"
    and "distinct (map fst (ao_adguard_status u))" and "(i, st) \<in> set (ao_adguard_status u)"
    and "jget st ''state'' \<noteq> JStr ''ready''"
    and "distinct (map s_id (db_servers d))" and "\<forall>s \<in> set (db_servers d). s_id s = i \<longrightarrow> s_agent_id s \<noteq> None"
  shows "i \<notin> set (due_servers d' t force only)"
proof -
  let ?d0 = "put_agent (recorded_agent K now u a) d"
  obtain d1 where roles: "record_roles (ao_ipvs_backend_status u) (ao_adguard_status u) ?d0 = Inr d1"
    and d': "d' = (if ao_status u \<noteq> St_online then mark_unreachable u d1 else d1)"
    using record_agent_cases [OF assms(1,2)] by blast
  have unready: "\<not> agent_state_ready s" if s: "s \<in> set (rows_of i d1)" for s
    using record_roles_state [OF roles assms(3,4) s] assms(5) by (auto simp: agent_state_ready_def)
  have "map server_settings (db_servers d1) = map server_settings (db_servers d)"
    using record_roles_frame [OF roles] assms(6) by simp
  then have "map (\<lambda>s. (s_id s, s_agent_id s)) (map server_settings (db_servers d1)) =
      map (\<lambda>s. (s_id s, s_agent_id s)) (map server_settings (db_servers d))" by simp
  then have keys: "map (\<lambda>s. (s_id s, s_agent_id s)) (db_servers d1) = map (\<lambda>s. (s_id s, s_agent_id s)) (db_servers d)"
    by (simp add: server_settings_def comp_def)
  have hosted: "s_agent_id s \<noteq> None" if "s \<in> set (db_servers d1)" "s_id s = i" for s
  proof -
    have "(i, s_agent_id s) \<in> set (map (\<lambda>s. (s_id s, s_agent_id s)) (db_servers d1))" using that by force
    then obtain s0 where "s0 \<in> set (db_servers d)" "s_id s0 = i" "s_agent_id s0 = s_agent_id s" by (auto simp: keys)
    with assms(7) show ?thesis by metis
  qed
  have base: "\<not> server_due force t s" if "s \<in> set (db_servers d1)" "s_id s = i" for s
    using unready [of s] hosted [OF that] that by (simp add: rows_of_def server_due_def)
  have same: "server_due force t (unreachable_row u s) = server_due force t s" for s
    by (simp add: server_due_def agent_state_ready_def unreachable_row_def)
  have "\<not> server_due force t s" if s: "s \<in> set (db_servers d')" "s_id s = i" for s
  proof (cases "ao_status u \<noteq> St_online")
    case True
    with s(1) d' obtain s1 where "s1 \<in> set (db_servers d1)" "s = s1 \<or> s = unreachable_row u s1"
      by (auto simp: mark_unreachable_def split: if_splits)
    with s(2) base same show ?thesis by (metis unreachable_fields(1))
  next
    case False
    with base s d' show ?thesis by simp
  qed
  then show ?thesis by (auto simp: due_servers_def)
qed

theorem unready_not_synced_witness:
  "\<exists>d'. record_agent plain_pki 5 refused_outcome one_host = Inr d' \<and> 4 \<notin> set (due_servers d' 9 True None)"
proof -
  obtain d' where run: "record_agent plain_pki 5 refused_outcome one_host = Inr d'" using one_host_run by blast
  have "4 \<notin> set (due_servers d' 9 True None)"
    by (rule unready_not_synced [OF run, where a = "sample_agent 1 ''10.0.0.9''" and st = "JObj [(''state'', JStr ''installing'')]"])
      (simp_all add: refused_outcome_def one_host_def sample_agent_def row_get_def sample_server_def)
  with run show ?thesis by blast
qed

text \<open>
  A host that could not be reached is shown on its servers: after the record of a pass that
  did not end online, none of the host's servers is left online or in sync.
\<close>

theorem host_failure_shown:
  assumes "record_agent K now u d = Inr d'" and "get_agent d (ao_agent_id u) = Some a" and "ao_status u \<noteq> St_online"
    and "s \<in> set (db_servers d')" and "s_agent_id s = Some (ao_agent_id u)"
  shows "s_status s \<in> {St_offline, St_error} \<and> \<not> s_in_sync s \<and> s_last_error s \<noteq> None"
proof -
  obtain d1 where "d' = mark_unreachable u d1" using record_agent_cases [OF assms(1,2)] assms(3) by metis
  with assms(4,5) show ?thesis by (auto simp: mark_unreachable_def unreachable_row_def split: if_splits)
qed

theorem host_failure_shown_witness:
  "\<exists>d' s. record_agent plain_pki 5 refused_outcome one_host = Inr d' \<and> s \<in> set (db_servers d') \<and>
     s_status s \<in> {St_offline, St_error} \<and> \<not> s_in_sync s \<and> s_last_error s \<noteq> None"
proof -
  obtain d' where run: "record_agent plain_pki 5 refused_outcome one_host = Inr d'" using one_host_run by blast
  have "\<exists>s \<in> set (db_servers d'). s_agent_id s = Some 1"
    using run by (auto simp: record_agent_def refused_outcome_def one_host_def empty_db_def sample_agent_def
        sample_server_def row_get_def row_put_def put_agent_def put_server_def role_recorded_def mark_unreachable_def
        unreachable_row_def Let_def)
  then obtain s where s: "s \<in> set (db_servers d')" "s_agent_id s = Some (ao_agent_id refused_outcome)"
    by (auto simp: refused_outcome_def)
  have "get_agent one_host (ao_agent_id refused_outcome) = Some (sample_agent 1 ''10.0.0.9'')"
    by (simp add: one_host_def refused_outcome_def sample_agent_def row_get_def)
  from host_failure_shown [OF run this _ s] run s show ?thesis
    by (auto simp: refused_outcome_def)
qed

text \<open>
  A balancer's view of a server replaces its previous view and no other: after the record of
  a balancer pass each backend's server holds the other balancers' views as they were, then the
  new one, and its totals are counted from exactly those.
\<close>

theorem balancer_view_recorded:
  assumes "get_balancer d (lo_lb_id u) = Some lb" and "distinct (map bt_server_id (lo_backends u))"
    and "t \<in> set (lo_backends u)" and "get_server d (bt_server_id t) = Some s"
  shows "\<exists>s' v. get_server (record_lb now u d) (bt_server_id t) = Some s' \<and>
    jget v ''id'' = JInt (lo_lb_id u) \<and> jget v ''enabled'' = JBool (bt_enabled t) \<and>
    s_lb_state s' = Some (lb_state_of
      (filter (\<lambda>b. jget b ''id'' \<noteq> JInt (lo_lb_id u)) (views_of (s_lb_state s)) @ [v]))"
proof -
  let ?lb = "recorded_lb now u lb" let ?rows = "live_backends (lo_state u) (lo_keepalived_state u)"
  have id: "b_id ?lb = lo_lb_id u" using row_get_Some [OF assms(1)] by (simp add: recorded_lb_id)
  have "get_server (put_balancer ?lb d) (bt_server_id t) = Some s" using assms(4) by simp
  from record_views_at [OF assms(2,3) this, of ?lb ?rows]
  have "get_server (record_lb now u d) (bt_server_id t) = Some (lb_viewed ?lb ?rows t s)"
    using assms(1) by (simp add: record_lb_def)
  moreover have "jget (balancer_view ?lb (live_entry ?rows (bt_name t)) t) ''id'' = JInt (lo_lb_id u)"
    "jget (balancer_view ?lb (live_entry ?rows (bt_name t)) t) ''enabled'' = JBool (bt_enabled t)"
    by (simp_all add: balancer_view_def id)
  ultimately show ?thesis using id by (auto simp: lb_viewed_def)
qed

definition one_view :: lb_outcome where
  "one_view =
     \<lparr>lo_lb_id = 1, lo_name = ''lb'', lo_status = St_online, lo_error = None, lo_desired_hash = None,
      lo_applied_hash = JNull, lo_in_sync = False, lo_state = JNull, lo_keepalived_state = JNull,
      lo_backends = [\<lparr>bt_server_id = 4, bt_server_name = ''ns1'', bt_name = ''ns1-4'', bt_address = ''10.0.0.9'',
        bt_port = 53, bt_enabled = True, bt_weight = 1, bt_order = 1\<rparr>]\<rparr>"

theorem balancer_view_recorded_witness:
  "\<exists>s' v. get_server (record_lb 5 one_view (one_host\<lparr>db_balancers := [sample_balancer 1 1 1]\<rparr>)) 4 = Some s' \<and>
     s_lb_state s' = Some (lb_state_of [v]) \<and> jget v ''id'' = JInt 1"
proof -
  let ?d = "one_host\<lparr>db_balancers := [sample_balancer 1 1 1]\<rparr>" and ?t = "hd (lo_backends one_view)"
  let ?s = "(sample_server 4 ''ns1'' ''https://10.0.0.9:8443/v1/adguard/api'')\<lparr>s_agent_id := Some 1\<rparr>"
  have "get_balancer ?d (lo_lb_id one_view) = Some (sample_balancer 1 1 1)" "distinct (map bt_server_id (lo_backends one_view))"
    "?t \<in> set (lo_backends one_view)" "get_server ?d (bt_server_id ?t) = Some ?s"
    by (simp_all add: one_view_def one_host_def sample_balancer_def sample_server_def row_get_def)
  from balancer_view_recorded [OF this, of 5] show ?thesis
    by (auto simp: one_view_def sample_server_def views_of_def)
qed

end
