(* ===== verification/Schemas.thy ===== *)
theory Schemas
  imports Validators Models
begin

text \<open>
  The request bodies of backend/app/schemas.py that carry checks of their own, with those checks.
  A body is a record of the fields the client can set; in a PATCH body a field is an option of an
  option (absent, null or a value) where the handler tells the two apart. A checker returns the
  normalised body or the first error in the order of the fields (pydantic reports all of them).
\<close>

definition check_then :: "'a checked \<Rightarrow> ('a \<Rightarrow> 'b checked) \<Rightarrow> 'b checked" where
  "check_then m f = (case m of Inl e \<Rightarrow> Inl e | Inr a \<Rightarrow> f a)"

definition check_opt :: "('a \<Rightarrow> 'b checked) \<Rightarrow> 'a option \<Rightarrow> 'b option checked" where
  "check_opt f v = (case v of None \<Rightarrow> Inr None | Some a \<Rightarrow> check_then (f a) (\<lambda>b. Inr (Some b)))"

fun check_list :: "('a \<Rightarrow> 'b checked) \<Rightarrow> 'a list \<Rightarrow> 'b list checked" where
  "check_list f [] = Inr []"
| "check_list f (x # xs) = check_then (f x) (\<lambda>y. check_then (check_list f xs) (\<lambda>ys. Inr (y # ys)))"

lemma check_then_Inr: "check_then m f = Inr b \<longleftrightarrow> (\<exists>a. m = Inr a \<and> f a = Inr b)"
  by (cases m) (simp_all add: check_then_def)

lemma check_opt_Inr: "check_opt f v = Inr w \<longleftrightarrow>
    (v = None \<and> w = None) \<or> (\<exists>a b. v = Some a \<and> w = Some b \<and> f a = Inr b)"
  by (cases v) (auto simp: check_opt_def check_then_Inr)

lemma check_list_Inr: "check_list f xs = Inr ys \<Longrightarrow> list_all2 (\<lambda>x y. f x = Inr y) xs ys"
  by (induction xs arbitrary: ys) (auto simp: check_then_Inr)

section \<open>Balancers\<close>

record lb_fields =
  lf_install_method :: "install_method option"
  lf_image :: "string option"
  lf_listen_addresses :: "string list option"
  lf_policy :: "lb_policy option"
  lf_ecs :: "bool option"
  lf_cache_enabled :: "bool option"
  lf_cache_max_entries :: "int option"
  lf_hc_name :: "string option"
  lf_hc_interval_s :: "int option"
  lf_hc_max_failures :: "int option"
  lf_hc_rise :: "int option"
  lf_hc_mode :: "hc_mode option"
  lf_acl :: "string list option"
  lf_vrrp_priority :: "int option"
  lf_vip_interface :: "string option"
  lf_mode :: "lb_mode option option"             \<comment> \<open>absent, null or a mode\<close>
  lf_ipvs_algo :: "ipvs_algo option"

definition check_listen :: "string list \<Rightarrow> string list checked" where
  "check_listen v =
     check_then (check_list (\<lambda>a. validate_listen_address (Some a) ''listen address'') (filter (\<lambda>a. py_strip a \<noteq> []) v))
       (\<lambda>out. if out = [] then Inl (''listen_addresses'', ''at least one listen address is required'') else Inr out)"

definition check_acl :: "string list \<Rightarrow> string list checked" where
  "check_acl v = check_list (\<lambda>a. validate_cidr (Some a) ''cidr'') (filter (\<lambda>a. py_strip a \<noteq> []) v)"

definition check_hc_name :: "string \<Rightarrow> string checked" where
  "check_hc_name v =
     (let v = py_strip v; v = (if v \<noteq> [] \<and> last v = CHR ''.'' then v else v @ ''.'')
      in check_then (validate_host (Some (py_rstrip_char (CHR ''.'') v)) ''hc_name'') (\<lambda>_. Inr v))"

definition check_positive :: "string \<Rightarrow> int \<Rightarrow> int checked" where
  "check_positive field v =
     (if \<not> (1 \<le> v \<and> v \<le> 100000000) then Inl (field, ''must be a positive integer'') else Inr v)"

definition check_lb_fields :: "('a lb_fields_scheme) \<Rightarrow> ('a lb_fields_scheme) checked" where
  "check_lb_fields p =
     check_then (check_opt (\<lambda>v. validate_image_ref (Some v) ''image'') (lf_image p)) (\<lambda>image.
     check_then (check_opt check_listen (lf_listen_addresses p)) (\<lambda>listen.
     check_then (check_opt (check_positive ''cache_max_entries'') (lf_cache_max_entries p)) (\<lambda>entries.
     check_then (check_opt check_hc_name (lf_hc_name p)) (\<lambda>name.
     check_then (check_opt (check_positive ''hc_interval_s'') (lf_hc_interval_s p)) (\<lambda>interval.
     check_then (check_opt (check_positive ''hc_max_failures'') (lf_hc_max_failures p)) (\<lambda>failures.
     check_then (check_opt (check_positive ''hc_rise'') (lf_hc_rise p)) (\<lambda>rise.
     check_then (check_opt check_acl (lf_acl p)) (\<lambda>acl.
     check_then (check_opt (\<lambda>v. validate_priority v ''vrrp_priority'') (lf_vrrp_priority p)) (\<lambda>prio.
     check_then (check_opt (\<lambda>v. validate_interface (Some v) ''interface'') (lf_vip_interface p)) (\<lambda>iface.
     Inr (p\<lparr>lf_image := image, lf_listen_addresses := listen, lf_cache_max_entries := entries, lf_hc_name := name,
            lf_hc_interval_s := interval, lf_hc_max_failures := failures, lf_hc_rise := rise, lf_acl := acl,
            lf_vrrp_priority := prio, lf_vip_interface := iface\<rparr>)))))))))))"

record lb_create = lb_fields +
  lc_name :: string
  lc_zone_id :: "int option"
  lc_agent_id :: int
  lc_enabled :: bool

definition check_lb_create :: "lb_create \<Rightarrow> lb_create checked" where
  "check_lb_create p =
     check_then (check_lb_fields p) (\<lambda>p.
     check_then (validate_display_name (Some (lc_name p)) ''name'') (\<lambda>n. Inr (p\<lparr>lc_name := n\<rparr>)))"

record lb_update = lb_fields +
  lu_name :: "string option"
  lu_zone_id :: "int option option"
  lu_agent_id :: "int option option"
  lu_enabled :: "bool option"

definition check_lb_update :: "lb_update \<Rightarrow> lb_update checked" where
  "check_lb_update p =
     check_then (check_lb_fields p) (\<lambda>p.
     check_then (check_opt (\<lambda>v. validate_display_name (Some v) ''name'') (lu_name p)) (\<lambda>n.
     Inr (p\<lparr>lu_name := n\<rparr>)))"

record lb_backend_update =
  ob_enabled :: "bool option"
  ob_weight :: "int option"
  ob_order :: "int option"

definition check_backend_positive :: "string \<Rightarrow> int \<Rightarrow> int checked" where
  "check_backend_positive field v =
     (if \<not> (1 \<le> v \<and> v \<le> 2147483647) then Inl (field, ''must be a positive integer'') else Inr v)"

definition check_lb_backend_update :: "lb_backend_update \<Rightarrow> lb_backend_update checked" where
  "check_lb_backend_update p =
     check_then (check_opt (check_backend_positive ''weight'') (ob_weight p)) (\<lambda>w.
     check_then (check_opt (check_backend_positive ''order'') (ob_order p)) (\<lambda>o'.
     Inr (p\<lparr>ob_weight := w, ob_order := o'\<rparr>)))"

section \<open>Provisioning\<close>

datatype agent_role = Role_adguard | Role_dnsdist

fun agent_role_value :: "agent_role \<Rightarrow> string" where
  "agent_role_value Role_adguard = ''adguard''"
| "agent_role_value Role_dnsdist = ''dnsdist''"

record provision_request =
  pr_name :: string
  pr_zone_id :: "int option"
  pr_roles :: "agent_role list"
  pr_method :: install_method
  pr_connect_address :: "string option"
  pr_agent_port :: "int option"
  pr_expose_web_ui :: bool
  pr_vrrp_priority :: int
  pr_lb_mode :: lb_mode
  pr_prune :: bool
  pr_auto_update :: "bool option"

text \<open>\<open>list(dict.fromkeys(v))\<close>: the first occurrence of each value.\<close>

definition unique_first :: "'a list \<Rightarrow> 'a list" where
  "unique_first xs = rev (remdups (rev xs))"

definition check_address :: "string \<Rightarrow> string option \<Rightarrow> string option checked" where
  "check_address field v =
     (case v of
        None \<Rightarrow> Inr None
      | Some a \<Rightarrow> if py_strip a = [] then Inr None else check_then (validate_host (Some a) field) (\<lambda>h. Inr (Some h)))"

definition check_provision :: "provision_request \<Rightarrow> provision_request checked" where
  "check_provision p =
     check_then (validate_display_name (Some (pr_name p)) ''name'') (\<lambda>name.
     check_then (if pr_roles p = [] then Inl (''roles'', ''at least one role is required'') else Inr (unique_first (pr_roles p))) (\<lambda>roles.
     check_then (check_address ''connect_address'' (pr_connect_address p)) (\<lambda>address.
     check_then (check_opt (\<lambda>v. validate_port v ''agent_port'') (pr_agent_port p)) (\<lambda>port.
     check_then (validate_priority (pr_vrrp_priority p) ''vrrp_priority'') (\<lambda>prio.
     Inr (p\<lparr>pr_name := name, pr_roles := roles, pr_connect_address := address, pr_agent_port := port,
            pr_vrrp_priority := prio\<rparr>))))))"

record enroll_request =
  er_csr_pem :: string
  er_hostname :: "string option"
  er_address :: "string option"
  er_port :: "int option"
  er_os :: "string option"
  er_arch :: "string option"
  er_agent_version :: "string option"

definition check_short :: "string \<Rightarrow> string option \<Rightarrow> string option checked" where
  "check_short field v =
     (case v of
        None \<Rightarrow> Inr None
      | Some s \<Rightarrow>
          let t = take 100 (py_strip s) in
          if list_ex is_control t then Inl (field, ''must not contain control characters'') else Inr (none_if_empty t))"

definition check_csr :: "string \<Rightarrow> string checked" where
  "check_csr v =
     (let v = py_strip v in
      if \<not> py_contains ''BEGIN CERTIFICATE REQUEST'' v \<or> length v > 16384
      then Inl (''csr_pem'', ''csr_pem must be a PEM certificate request'') else Inr v)"

definition check_enroll :: "enroll_request \<Rightarrow> enroll_request checked" where
  "check_enroll p =
     check_then (check_csr (er_csr_pem p)) (\<lambda>csr.
     check_then (check_short ''hostname'' (er_hostname p)) (\<lambda>host.
     check_then (check_address ''address'' (er_address p)) (\<lambda>address.
     check_then (check_opt (\<lambda>v. validate_port v ''port'') (er_port p)) (\<lambda>port.
     check_then (check_short ''os'' (er_os p)) (\<lambda>os.
     check_then (check_short ''arch'' (er_arch p)) (\<lambda>arch.
     check_then (check_short ''agent_version'' (er_agent_version p)) (\<lambda>version.
     Inr (p\<lparr>er_csr_pem := csr, er_hostname := host, er_address := address, er_port := port, er_os := os,
            er_arch := arch, er_agent_version := version\<rparr>))))))))"

section \<open>Zones, servers and hosts\<close>

record zone_create =
  zc_name :: string
  zc_slug :: "string option"
  zc_description :: "string option"
  zc_vip :: "string option"
  zc_vrrp_router_id :: "int option"

definition check_zone_create :: "zone_create \<Rightarrow> zone_create checked" where
  "check_zone_create p =
     check_then (validate_vip (zc_vip p) ''vip'') (\<lambda>vip.
     check_then (validate_router_id (zc_vrrp_router_id p) ''vrrp_router_id'') (\<lambda>rid.
     Inr (p\<lparr>zc_vip := vip, zc_vrrp_router_id := rid\<rparr>)))"

record zone_update =
  zu_name :: "string option option"
  zu_slug :: "string option option"
  zu_description :: "string option option"
  zu_vip :: "string option option"
  zu_vrrp_router_id :: "int option option"

definition check_zone_update :: "zone_update \<Rightarrow> zone_update checked" where
  "check_zone_update p =
     check_then (check_opt (\<lambda>v. validate_vip v ''vip'') (zu_vip p)) (\<lambda>vip.
     check_then (check_opt (\<lambda>v. validate_router_id v ''vrrp_router_id'') (zu_vrrp_router_id p)) (\<lambda>rid.
     Inr (p\<lparr>zu_vip := vip, zu_vrrp_router_id := rid\<rparr>)))"

record server_create =
  sc_name :: string
  sc_url :: string
  sc_username :: "string option"
  sc_password :: "string option"
  sc_zone_id :: "int option"
  sc_enabled :: bool
  sc_prune :: bool
  sc_manage_upstreams :: bool
  sc_manage_filtering :: bool
  sc_auto_update :: "bool option"
  sc_install_method :: "install_method option"
  sc_dns_port :: int
  sc_expose_web_ui :: bool

definition check_server_create :: "server_create \<Rightarrow> server_create checked" where
  "check_server_create p =
     check_then (validate_display_name (Some (sc_name p)) ''name'') (\<lambda>name.
     check_then (validate_server_url (Some (sc_url p)) ''url'') (\<lambda>url.
     Inr (p\<lparr>sc_name := name, sc_url := url\<rparr>)))"

record server_update =
  sv_name :: "string option option"
  sv_url :: "string option option"
  sv_username :: "string option option"
  sv_password :: "string option option"
  sv_zone_id :: "int option option"
  sv_enabled :: "bool option option"
  sv_prune :: "bool option option"
  sv_manage_upstreams :: "bool option option"
  sv_manage_filtering :: "bool option option"
  sv_auto_update :: "bool option option"
  sv_install_method :: "install_method option option"
  sv_dns_port :: "int option option"
  sv_expose_web_ui :: "bool option option"

definition check_server_update :: "server_update \<Rightarrow> server_update checked" where
  "check_server_update p =
     check_then (check_opt (check_opt (\<lambda>v. validate_display_name (Some v) ''name'')) (sv_name p)) (\<lambda>name.
     check_then (check_opt (check_opt (\<lambda>v. validate_server_url (Some v) ''url'')) (sv_url p)) (\<lambda>url.
     Inr (p\<lparr>sv_name := name, sv_url := url\<rparr>)))"

record agent_update =
  ag_name :: "string option option"
  ag_zone_id :: "int option option"

definition check_agent_update :: "agent_update \<Rightarrow> agent_update checked" where
  "check_agent_update p =
     check_then (check_opt (check_opt (\<lambda>v. validate_display_name (Some v) ''name'')) (ag_name p)) (\<lambda>name.
     Inr (p\<lparr>ag_name := name\<rparr>))"

end
