(* ===== verification/Balancers.thy ===== *)
theory Balancers
  imports HostFacts Schemas
begin

text \<open>
  backend/app/routers/loadbalancers.py: the handlers over validated bodies. The invariant they
  keep is that a zone balances in one mode and a host runs at most one balancer; the facts below
  also show what deleting and moving a balancer leaves running on its old host.
\<close>

section \<open>Handlers\<close>

text \<open>Python's \<open>repr\<close> of a string (\<open>!r\<close> in a format).\<close>

definition repr_char :: "char \<Rightarrow> char \<Rightarrow> string" where
  "repr_char q c =
     (let n = (of_char c :: nat) in
      if c = q \<or> n = 0x5C then [CHR 0x5C, c]
      else if n = 0x09 then [CHR 0x5C, CHR ''t''] else if n = 0x0A then [CHR 0x5C, CHR ''n'']
      else if n = 0x0D then [CHR 0x5C, CHR ''r'']
      else if n < 32 \<or> (127 \<le> n \<and> n \<le> 160) \<or> n = 173
      then [CHR 0x5C, CHR ''x'', hex_digit (n div 16), hex_digit (n mod 16)]
      else [c])"

definition quoted :: "string \<Rightarrow> string" where
  "quoted s =
     (let q = (if CHR 0x27 \<in> set s \<and> CHR 0x22 \<notin> set s then CHR 0x22 else CHR 0x27)
      in [q] @ concat (map (repr_char q) s) @ [q])"

definition others :: "int option \<Rightarrow> load_balancer list \<Rightarrow> load_balancer list" where
  "others exclude bs = (case exclude of None \<Rightarrow> bs | Some i \<Rightarrow> filter (\<lambda>b. b_id b \<noteq> i) bs)"

definition validate_zone_mode :: "db \<Rightarrow> zone \<Rightarrow> lb_mode \<Rightarrow> int option \<Rightarrow> unit http" where
  "validate_zone_mode d z mode exclude =
     (if mode = Mode_ipvs \<and> \<not> truthy_text (z_vip z)
      then Inl (HTTPException 400 ''IPVS direct routing needs a VIP on the zone'')
      else case find (\<lambda>b. b_zone_id b = Some (z_id z) \<and> b_mode b \<noteq> mode) (others exclude (db_balancers d)) of
        Some other \<Rightarrow> Inl (HTTPException 409 (''Zone '' @ quoted (z_name z) @ '' already balances in ''
          @ lb_mode_value (b_mode other) @ '' mode; all balancers in a zone share one mode''))
      | None \<Rightarrow> Inr ())"

definition validate_refs :: "db \<Rightarrow> int option \<Rightarrow> int option \<Rightarrow> lb_mode \<Rightarrow> int option \<Rightarrow> unit http" where
  "validate_refs d zone_id agent_id mode exclude =
     (case zone_id of
        None \<Rightarrow> Inl (HTTPException 400 (''A load balancer needs a zone: its backends are the zone'' @ apostrophe @ ''s servers''))
      | Some z \<Rightarrow>
          (case get_zone d z of
             None \<Rightarrow> Inl (HTTPException 400 ''zone_id does not exist'')
           | Some zone \<Rightarrow>
               (case agent_id of
                  None \<Rightarrow> Inl (HTTPException 400 ''agent_id does not exist'')
                | Some a \<Rightarrow>
                    if get_agent d a = None then Inl (HTTPException 400 ''agent_id does not exist'')
                    else if list_ex (\<lambda>b. b_agent_id b = a) (others exclude (db_balancers d))
                    then Inl (HTTPException 409 ''That host already runs a load balancer'')
                    else validate_zone_mode d zone mode exclude)))"

definition or_keep :: "'a option \<Rightarrow> 'a \<Rightarrow> 'a" where
  "or_keep v old = (case v of None \<Rightarrow> old | Some x \<Rightarrow> x)"

text \<open>\<open>setattr\<close> for every field with a value; an absent field and a null leave the column.\<close>

definition set_lb_fields :: "('a lb_fields_scheme) \<Rightarrow> load_balancer \<Rightarrow> load_balancer" where
  "set_lb_fields p lb =
     lb\<lparr>b_install_method := or_keep (lf_install_method p) (b_install_method lb),
        b_image := or_keep (lf_image p) (b_image lb),
        b_listen_addresses := or_keep (lf_listen_addresses p) (b_listen_addresses lb),
        b_policy := or_keep (lf_policy p) (b_policy lb), b_ecs := or_keep (lf_ecs p) (b_ecs lb),
        b_cache_enabled := or_keep (lf_cache_enabled p) (b_cache_enabled lb),
        b_cache_max_entries := or_keep (lf_cache_max_entries p) (b_cache_max_entries lb),
        b_hc_name := or_keep (lf_hc_name p) (b_hc_name lb),
        b_hc_interval_s := or_keep (lf_hc_interval_s p) (b_hc_interval_s lb),
        b_hc_max_failures := or_keep (lf_hc_max_failures p) (b_hc_max_failures lb),
        b_hc_rise := or_keep (lf_hc_rise p) (b_hc_rise lb), b_hc_mode := or_keep (lf_hc_mode p) (b_hc_mode lb),
        b_acl := or_keep (lf_acl p) (b_acl lb), b_vrrp_priority := or_keep (lf_vrrp_priority p) (b_vrrp_priority lb),
        b_vip_interface := or_keep (lf_vip_interface p) (b_vip_interface lb),
        b_mode := or_keep (Option.bind (lf_mode p) (\<lambda>m. m)) (b_mode lb),
        b_ipvs_algo := or_keep (lf_ipvs_algo p) (b_ipvs_algo lb)\<rparr>"

text \<open>A row with the column defaults of the model.\<close>

definition new_balancer :: "int \<Rightarrow> string \<Rightarrow> int option \<Rightarrow> int \<Rightarrow> load_balancer" where
  "new_balancer i name zone_id agent_id =
     \<lparr>b_id = i, b_name = name, b_zone_id = zone_id, b_agent_id = agent_id, b_enabled = True,
      b_install_method = Inst_docker, b_image = ''powerdns/dnsdist-20:2.0.8'',
      b_listen_addresses = [''0.0.0.0:53''], b_policy = Pol_leastOutstanding, b_ecs = True,
      b_cache_enabled = False, b_cache_max_entries = 100000, b_hc_name = ''a.root-servers.net.'',
      b_hc_interval_s = 1, b_hc_max_failures = 3, b_hc_rise = 2, b_hc_mode = Hc_auto,
      b_acl = [''127.0.0.0/8'', ''10.0.0.0/8'', ''172.16.0.0/12'', ''192.168.0.0/16'', ''::1/128'', ''fc00::/7'', ''fe80::/10''],
      b_vrrp_priority = 100, b_vip_interface = [], b_mode = Mode_dnsdist, b_ipvs_algo = Algo_wlc,
      b_desired_hash = None, b_applied_hash = None, b_in_sync = False, b_status = St_unknown,
      b_last_synced = None, b_last_error = None, b_state = None, b_keepalived_state = None\<rparr>"

definition created_mode :: "lb_create \<Rightarrow> lb_mode" where
  "created_mode p = or_keep (Option.bind (lf_mode p) (\<lambda>m. m)) Mode_dnsdist"

definition create_load_balancer :: "lb_create \<Rightarrow> db \<Rightarrow> db http" where
  "create_load_balancer p d =
     (case validate_refs d (lc_zone_id p) (Some (lc_agent_id p)) (created_mode p) None of
        Inl e \<Rightarrow> Inl e
      | Inr _ \<Rightarrow> Inr (d\<lparr>db_balancers := row_add b_id
          (\<lambda>i. (set_lb_fields p (new_balancer i (lc_name p) (lc_zone_id p) (lc_agent_id p)))\<lparr>b_enabled := lc_enabled p\<rparr>)
          (db_balancers d)\<rparr>))"

definition balancer_missing :: http_error where
  "balancer_missing = HTTPException 404 ''Load balancer not found''"

definition patched_balancer :: "lb_update \<Rightarrow> load_balancer \<Rightarrow> load_balancer" where
  "patched_balancer p lb =
     (set_lb_fields p lb)\<lparr>b_name := or_keep (lu_name p) (b_name lb), b_zone_id := patch_null (lu_zone_id p) (b_zone_id lb),
        b_agent_id := or_keep (Option.bind (lu_agent_id p) (\<lambda>a. a)) (b_agent_id lb),
        b_enabled := or_keep (lu_enabled p) (b_enabled lb), b_in_sync := False\<rparr>"

definition update_load_balancer :: "int \<Rightarrow> lb_update \<Rightarrow> db \<Rightarrow> db http" where
  "update_load_balancer i p d =
     (case get_balancer d i of
        None \<Rightarrow> Inl balancer_missing
      | Some lb \<Rightarrow>
          let zone_id = patch_null (lu_zone_id p) (b_zone_id lb);
              agent_id = patch_null (lu_agent_id p) (Some (b_agent_id lb));
              mode = or_keep (Option.bind (lf_mode p) (\<lambda>m. m)) (b_mode lb) in
          (case (if lu_zone_id p \<noteq> None \<or> lu_agent_id p \<noteq> None \<or> lf_mode p \<noteq> None
                 then validate_refs d zone_id agent_id mode (Some i) else Inr ()) of
             Inl e \<Rightarrow> Inl e
           | Inr _ \<Rightarrow> Inr (put_balancer (patched_balancer p lb) d)))"

text \<open>The row goes first; standing the host down is best effort, and only for the role that balanced.\<close>

definition drop_balancer :: "int \<Rightarrow> db \<Rightarrow> db" where
  "drop_balancer i d = (release_balancer i d)\<lparr>db_balancers := row_del b_id i (db_balancers d)\<rparr>"

definition stand_down_call :: "lb_mode \<Rightarrow> call" where
  "stand_down_call mode =
     (if mode = Mode_ipvs then AT_put_role ''keepalived'' disabled_keepalived else AT_put_role ''dnsdist'' disabled_dnsdist)"

definition best_effort :: "pki \<Rightarrow> 's wenv \<Rightarrow> string \<Rightarrow> call \<Rightarrow> ((call, 's, 'm) world_scheme, unit) io" where
  "best_effort K e url c =
     (case pk_client K url of
        Some x \<Rightarrow> io_raise x
      | None \<Rightarrow> io_except is_agent_error
          (io_finally (io_bind (call_io e c) (\<lambda>_. io_return ())) (log_call AT_close)) (\<lambda>_. io_return ()))"

definition delete_load_balancer ::
  "pki \<Rightarrow> 's wenv \<Rightarrow> int \<Rightarrow> db \<Rightarrow> (call, 's) world \<Rightarrow> (unit http \<times> db) \<times> (call, 's) world" where
  "delete_load_balancer K e i d w =
     (case get_balancer d i of
        None \<Rightarrow> ((Inl balancer_missing, d), w)
      | Some lb \<Rightarrow>
          (case map_option a_url (get_agent d (b_agent_id lb)) of
             None \<Rightarrow> ((Inr (), drop_balancer i d), w)
           | Some url \<Rightarrow>
               if url = [] then ((Inr (), drop_balancer i d), w)
               else (case best_effort K e url (stand_down_call (b_mode lb)) w of
                 (Inl x, w') \<Rightarrow> ((Inl (HTTPException 500 ''Internal Server Error''), drop_balancer i d), w')
               | (Inr _, w') \<Rightarrow> ((Inr (), drop_balancer i d), w'))))"

definition backend_server :: "db \<Rightarrow> load_balancer \<Rightarrow> int \<Rightarrow> server http" where
  "backend_server d lb server_id =
     (case get_server d server_id of
        None \<Rightarrow> Inl (HTTPException 404 ''That server is not a backend of this balancer'')
      | Some s \<Rightarrow> if s_zone_id s \<noteq> b_zone_id lb then Inl (HTTPException 404 ''That server is not a backend of this balancer'')
          else Inr s)"

definition set_backend :: "lb_backend_update \<Rightarrow> lb_backend \<Rightarrow> lb_backend" where
  "set_backend p o' =
     o'\<lparr>o_enabled := or_keep (ob_enabled p) (o_enabled o'), o_weight := or_keep (ob_weight p) (o_weight o'),
       o_order := or_keep (ob_order p) (o_order o')\<rparr>"

definition put_backend :: "int \<Rightarrow> int \<Rightarrow> lb_backend_update \<Rightarrow> db \<Rightarrow> db" where
  "put_backend lb_id server_id p d =
     (case find (\<lambda>o'. o_load_balancer_id o' = lb_id \<and> o_server_id o' = server_id) (db_backends d) of
        Some o' \<Rightarrow> d\<lparr>db_backends := row_put o_id (set_backend p o') (db_backends d)\<rparr>
      | None \<Rightarrow> d\<lparr>db_backends := row_add o_id (\<lambda>i. set_backend p
          \<lparr>o_id = i, o_load_balancer_id = lb_id, o_server_id = server_id, o_enabled = True, o_weight = 1, o_order = 1\<rparr>)
          (db_backends d)\<rparr>)"

definition update_backend :: "int \<Rightarrow> int \<Rightarrow> lb_backend_update \<Rightarrow> db \<Rightarrow> db http" where
  "update_backend lb_id server_id p d =
     (case get_balancer d lb_id of
        None \<Rightarrow> Inl balancer_missing
      | Some lb \<Rightarrow>
          (case backend_server d lb server_id of
             Inl e \<Rightarrow> Inl e
           | Inr _ \<Rightarrow> Inr (put_balancer (lb\<lparr>b_in_sync := False\<rparr>) (put_backend lb_id server_id p d))))"

text \<open>The agent call of a drain; its failure is a 502, and nothing is written.\<close>

definition drain_backend ::
  "pki \<Rightarrow> 's wenv \<Rightarrow> int \<Rightarrow> int \<Rightarrow> bool \<Rightarrow> db \<Rightarrow> (call, 's) world \<Rightarrow> unit http \<times> (call, 's) world" where
  "drain_backend K e lb_id server_id undrain d w =
     (case get_balancer d lb_id of
        None \<Rightarrow> (Inl balancer_missing, w)
      | Some lb \<Rightarrow>
          (case backend_server d lb server_id of
             Inl x \<Rightarrow> (Inl x, w)
           | Inr s \<Rightarrow>
               (case get_agent d (b_agent_id lb) of
                  None \<Rightarrow> (Inl (HTTPException 409 (''This balancer'' @ apostrophe @ ''s host no longer exists'')), w)
                | Some a \<Rightarrow>
                    (case pk_client K (a_url a) of
                       Some x \<Rightarrow> (Inl (HTTPException 500 ''Internal Server Error''), w)
                     | None \<Rightarrow>
                         (case io_finally (call_io e (AT_drain (backend_name_for (s_name s) (s_id s)) undrain
                                 (if b_mode lb = Mode_ipvs then ''keepalived'' else ''dnsdist''))) (log_call AT_close) w of
                            (Inl x, w') \<Rightarrow> (Inl (if is_agent_error x then HTTPException 502 (exn_str x)
                                                else HTTPException 500 ''Internal Server Error''), w')
                          | (Inr _, w') \<Rightarrow> (Inr (), w'))))))"

section \<open>The invariant\<close>

definition balancers_ok :: "db \<Rightarrow> bool" where
  "balancers_ok d \<longleftrightarrow> distinct (map b_id (db_balancers d)) \<and> distinct (map b_agent_id (db_balancers d)) \<and> one_mode_per_zone d"

lemma validate_refs_ok:
  assumes "validate_refs d zone_id agent_id mode exclude = Inr u"
  obtains z zone a where "zone_id = Some z" and "get_zone d z = Some zone" and "agent_id = Some a" and "get_agent d a \<noteq> None"
    and "\<forall>b \<in> set (others exclude (db_balancers d)). b_agent_id b \<noteq> a"
    and "\<forall>b \<in> set (others exclude (db_balancers d)). b_zone_id b = Some z \<longrightarrow> b_mode b = mode"
    and "mode = Mode_ipvs \<longrightarrow> truthy_text (z_vip zone)"
proof -
  obtain z zone a where *: "zone_id = Some z" "get_zone d z = Some zone" "agent_id = Some a" "get_agent d a \<noteq> None"
    "\<not> list_ex (\<lambda>b. b_agent_id b = a) (others exclude (db_balancers d))" "validate_zone_mode d zone mode exclude = Inr u"
    using assms by (auto simp: validate_refs_def split: option.splits if_splits)
  have "z_id zone = z" using row_get_Some [OF *(2)] by simp
  with *(6) have "find (\<lambda>b. b_zone_id b = Some z \<and> b_mode b \<noteq> mode) (others exclude (db_balancers d)) = None"
    and vip: "mode = Mode_ipvs \<longrightarrow> truthy_text (z_vip zone)"
    by (auto simp: validate_zone_mode_def split: if_splits option.splits)
  then have "\<forall>b \<in> set (others exclude (db_balancers d)). b_zone_id b = Some z \<longrightarrow> b_mode b = mode"
    by (simp add: find_None_iff)
  with * vip that show thesis by (simp add: list_ex_iff)
qed

lemma set_lb_fields_kept:
  "b_id (set_lb_fields p lb) = b_id lb" "b_zone_id (set_lb_fields p lb) = b_zone_id lb"
  "b_agent_id (set_lb_fields p lb) = b_agent_id lb"
  "b_mode (set_lb_fields p lb) = or_keep (Option.bind (lf_mode p) (\<lambda>m. m)) (b_mode lb)"
  by (simp_all add: set_lb_fields_def)

lemma distinct_row_put:
  "distinct (map key rows) \<Longrightarrow> distinct (map f rows) \<Longrightarrow> (\<forall>x \<in> set rows. key x \<noteq> key r \<longrightarrow> f x \<noteq> f r) \<Longrightarrow>
   distinct (map f (row_put key r rows))"
proof (induction rows)
  case (Cons x rows)
  then have IH: "distinct (map f (row_put key r rows))" by simp
  show ?case
  proof (cases "key x = key r")
    case True
    with Cons.prems(1) have "\<forall>y \<in> set rows. key y \<noteq> key r" by (auto simp: image_iff)
    then have "row_put key r rows = rows" by (induction rows) (simp_all add: row_put_def)
    moreover have "f r \<notin> f ` set rows"
      using Cons.prems(3) \<open>\<forall>y \<in> set rows. key y \<noteq> key r\<close> by force
    ultimately show ?thesis using True Cons.prems(2) by (simp add: row_put_def)
  next
    case False
    have "f x \<notin> f ` set (row_put key r rows)"
      using Cons.prems False by (auto simp: row_put_def split: if_splits)
    moreover have "row_put key r (x # rows) = x # row_put key r rows" using False by (simp add: row_put_def)
    ultimately show ?thesis using IH by simp
  qed
qed (simp add: row_put_def)

text \<open>One row added or replaced.\<close>

lemma one_mode_with:
  assumes "one_mode_per_zone d" and "\<forall>x \<in> set (db_balancers d'). x = b \<or> (x \<in> set (db_balancers d) \<and> Q x)"
    and "\<forall>x \<in> set (db_balancers d). Q x \<longrightarrow> b_zone_id x = b_zone_id b \<longrightarrow> b_zone_id b \<noteq> None \<longrightarrow> b_mode x = b_mode b"
  shows "one_mode_per_zone d'"
  unfolding one_mode_per_zone_def
proof (intro ballI impI)
  fix x y assume xy: "x \<in> set (db_balancers d')" "y \<in> set (db_balancers d')" "b_zone_id x = b_zone_id y \<and> b_zone_id x \<noteq> None"
  have old: "b_mode x = b_mode y" if "x \<in> set (db_balancers d)" "y \<in> set (db_balancers d)"
    using assms(1) that xy(3) unfolding one_mode_per_zone_def by blast
  consider "x = b" "y = b" | "x = b" "y \<in> set (db_balancers d)" "Q y" | "y = b" "x \<in> set (db_balancers d)" "Q x"
    | "x \<in> set (db_balancers d)" "y \<in> set (db_balancers d)"
    using assms(2) xy(1,2) by blast
  then show "b_mode x = b_mode y"
  proof cases
    case 2
    with assms(3) xy(3) show ?thesis by metis
  next
    case 3
    with assms(3) xy(3) show ?thesis by metis
  qed (use old in simp_all)
qed

lemma create_balancer_ok:
  assumes "balancers_ok d" and "create_load_balancer p d = Inr d'"
  shows "balancers_ok d'"
proof -
  define b where "b = (set_lb_fields p (new_balancer (next_id b_id (db_balancers d)) (lc_name p) (lc_zone_id p) (lc_agent_id p)))
      \<lparr>b_enabled := lc_enabled p\<rparr>"
  obtain u where v: "validate_refs d (lc_zone_id p) (Some (lc_agent_id p)) (created_mode p) None = Inr u"
    and d': "d' = d\<lparr>db_balancers := db_balancers d @ [b]\<rparr>"
    using assms(2) by (auto simp: create_load_balancer_def row_add_def b_def split: sum.splits)
  obtain z zone ag where z: "lc_zone_id p = Some z" and "get_zone d z = Some zone" and ag: "Some (lc_agent_id p) = Some ag"
    and "get_agent d ag \<noteq> None" and a: "\<forall>b \<in> set (others None (db_balancers d)). b_agent_id b \<noteq> ag"
    and m: "\<forall>b \<in> set (others None (db_balancers d)). b_zone_id b = Some z \<longrightarrow> b_mode b = created_mode p"
    by (rule validate_refs_ok [OF v])
  have a: "\<forall>x \<in> set (db_balancers d). b_agent_id x \<noteq> lc_agent_id p"
    and m: "\<forall>x \<in> set (db_balancers d). b_zone_id x = Some z \<longrightarrow> b_mode x = created_mode p"
    using a m ag by (simp_all add: others_def)
  have b: "b_id b = next_id b_id (db_balancers d)" "b_zone_id b = Some z" "b_agent_id b = lc_agent_id p" "b_mode b = created_mode p"
    by (simp_all add: b_def set_lb_fields_kept new_balancer_def z created_mode_def)
  have "one_mode_per_zone d'"
    using assms(1) m b by (intro one_mode_with [of d d' b "\<lambda>_. True"]) (auto simp: balancers_ok_def d')
  moreover have "b_id b \<notin> b_id ` set (db_balancers d)" using next_id_fresh [of b_id "db_balancers d"] b(1) by simp
  moreover have "b_agent_id b \<notin> b_agent_id ` set (db_balancers d)" using a b(3) by (metis imageE)
  ultimately show ?thesis using assms(1) by (simp add: balancers_ok_def d')
qed

lemma update_balancer_ok:
  assumes "balancers_ok d" and "update_load_balancer i p d = Inr d'"
  shows "balancers_ok d'"
proof -
  obtain lb where lb: "get_balancer d i = Some lb" and d': "d' = put_balancer (patched_balancer p lb) d"
    using assms(2) by (auto simp: update_load_balancer_def Let_def split: option.splits sum.splits)
  let ?b = "patched_balancer p lb"
  have id: "b_id ?b = i" "b_id lb = i" "lb \<in> set (db_balancers d)"
    using row_get_Some [OF lb] by (simp_all add: patched_balancer_def set_lb_fields_kept)
  have "(\<forall>x \<in> set (db_balancers d). b_id x \<noteq> i \<longrightarrow> b_agent_id x \<noteq> b_agent_id ?b) \<and>
    (\<forall>x \<in> set (db_balancers d). b_id x \<noteq> i \<longrightarrow> b_zone_id x = b_zone_id ?b \<longrightarrow> b_zone_id ?b \<noteq> None \<longrightarrow> b_mode x = b_mode ?b)"
  proof (cases "lu_zone_id p \<noteq> None \<or> lu_agent_id p \<noteq> None \<or> lf_mode p \<noteq> None")
    case True
    with assms(2) lb obtain u where v: "validate_refs d (patch_null (lu_zone_id p) (b_zone_id lb))
        (patch_null (lu_agent_id p) (Some (b_agent_id lb))) (or_keep (Option.bind (lf_mode p) (\<lambda>m. m)) (b_mode lb)) (Some i) = Inr u"
      by (auto simp: update_load_balancer_def Let_def split: sum.splits)
    obtain z zone a where z: "patch_null (lu_zone_id p) (b_zone_id lb) = Some z" and "get_zone d z = Some zone"
      and a: "patch_null (lu_agent_id p) (Some (b_agent_id lb)) = Some a" and "get_agent d a \<noteq> None"
      and as: "\<forall>x \<in> set (others (Some i) (db_balancers d)). b_agent_id x \<noteq> a"
      and ms: "\<forall>x \<in> set (others (Some i) (db_balancers d)). b_zone_id x = Some z \<longrightarrow>
            b_mode x = or_keep (Option.bind (lf_mode p) (\<lambda>m. m)) (b_mode lb)"
      by (rule validate_refs_ok [OF v])
    have "b_zone_id ?b = Some z" "b_mode ?b = or_keep (Option.bind (lf_mode p) (\<lambda>m. m)) (b_mode lb)"
      using z by (simp_all add: patched_balancer_def set_lb_fields_kept)
    moreover have "b_agent_id ?b = a"
      using a by (cases "lu_agent_id p") (auto simp: patched_balancer_def patch_null_def or_keep_def)
    ultimately show ?thesis using as ms by (auto simp: others_def)
  next
    case False
    then have same: "b_agent_id ?b = b_agent_id lb" "b_zone_id ?b = b_zone_id lb" "b_mode ?b = b_mode lb"
      by (simp_all add: patched_balancer_def set_lb_fields_kept patch_null_def or_keep_def)
    have "b_agent_id x \<noteq> b_agent_id lb" if "x \<in> set (db_balancers d)" "b_id x \<noteq> i" for x
      using assms(1) that id by (auto simp: balancers_ok_def distinct_map inj_on_def)
    moreover have "b_mode x = b_mode lb" if "x \<in> set (db_balancers d)" "b_zone_id x = b_zone_id lb" "b_zone_id lb \<noteq> None" for x
      using assms(1) that id(3) unfolding balancers_ok_def one_mode_per_zone_def by metis
    ultimately show ?thesis using same by simp
  qed
  then have agents: "\<forall>x \<in> set (db_balancers d). b_id x \<noteq> b_id ?b \<longrightarrow> b_agent_id x \<noteq> b_agent_id ?b"
    and modes: "\<And>x. x \<in> set (db_balancers d) \<Longrightarrow> b_id x \<noteq> i \<Longrightarrow> b_zone_id x = b_zone_id ?b \<Longrightarrow> b_zone_id ?b \<noteq> None \<Longrightarrow>
      b_mode x = b_mode ?b"
    using id(1) by simp_all
  have "x = ?b \<or> (x \<in> set (db_balancers d) \<and> b_id x \<noteq> i)" if "x \<in> set (db_balancers d')" for x
    using that id(1) by (auto simp: d' put_balancer_def row_put_def split: if_splits)
  then have "one_mode_per_zone d'"
    using assms(1) modes by (intro one_mode_with [of d d' ?b "\<lambda>x. b_id x \<noteq> i"]) (simp_all add: balancers_ok_def)
  moreover have "distinct (map b_agent_id (db_balancers d'))"
    using distinct_row_put [OF _ _ agents] assms(1) by (simp add: d' put_balancer_def balancers_ok_def)
  ultimately show ?thesis using assms(1) by (simp add: balancers_ok_def d' put_balancer_def map_key_row_put)
qed

lemma balancers_ok_cong: "db_balancers d' = db_balancers d \<Longrightarrow> balancers_ok d' = balancers_ok d"
  by (simp add: balancers_ok_def one_mode_per_zone_def)

lemma put_backend_balancers: "db_balancers (put_backend a b p d) = db_balancers d"
  by (simp add: put_backend_def split: option.split)

lemma put_same_balancer_ok:
  assumes "balancers_ok d" and "get_balancer d i = Some lb" and "b_id r = i" and "b_agent_id r = b_agent_id lb"
    and "b_zone_id r = b_zone_id lb" and "b_mode r = b_mode lb"
  shows "balancers_ok (put_balancer r d)"
proof -
  let ?f = "\<lambda>b. (b_id b, b_agent_id b, b_zone_id b, b_mode b)"
  have "?f r = ?f lb" using assms(3-) row_get_Some [OF assms(2)] by simp
  then have eq: "map ?f (db_balancers (put_balancer r d)) = map ?f (db_balancers d)"
    using map_row_put [of b_id "db_balancers d" r lb ?f] assms(1,2,3) by (simp add: put_balancer_def balancers_ok_def)
  have ok: "balancers_ok e \<longleftrightarrow> distinct (map fst (map ?f (db_balancers e))) \<and>
      distinct (map (fst \<circ> snd) (map ?f (db_balancers e))) \<and>
      (\<forall>x \<in> set (map ?f (db_balancers e)). \<forall>y \<in> set (map ?f (db_balancers e)).
         fst (snd (snd x)) = fst (snd (snd y)) \<and> fst (snd (snd x)) \<noteq> None \<longrightarrow> snd (snd (snd x)) = snd (snd (snd y)))" for e
    by (simp add: balancers_ok_def one_mode_per_zone_def comp_def)
  show ?thesis using assms(1) unfolding ok eq .
qed

lemma update_backend_ok:
  assumes "balancers_ok d" and "update_backend i j p d = Inr d'"
  shows "balancers_ok d'"
proof -
  obtain lb where lb: "get_balancer d i = Some lb"
    and d': "d' = put_balancer (lb\<lparr>b_in_sync := False\<rparr>) (put_backend i j p d)"
    using assms(2) by (auto simp: update_backend_def split: option.splits sum.splits)
  have "balancers_ok (put_backend i j p d)" using assms(1) balancers_ok_cong [OF put_backend_balancers] by simp
  moreover have "get_balancer (put_backend i j p d) i = Some lb" using lb by (simp add: put_backend_balancers)
  ultimately show ?thesis
    unfolding d' using row_get_Some [OF lb] by (intro put_same_balancer_ok [of _ i lb]) simp_all
qed

lemma drop_balancer_ok: "balancers_ok d \<Longrightarrow> balancers_ok (drop_balancer i d)"
  by (auto simp: balancers_ok_def drop_balancer_def release_balancer_def row_del_def one_mode_per_zone_def distinct_map_filter)

section \<open>Properties\<close>

text \<open>
  C12. The balancer handlers keep a zone in one balancing mode and a host at one balancer: from a
  database where that holds, creating, changing (with any combination of zone, host and mode) or
  deleting a balancer and overriding a backend lead to one where it holds.
\<close>

theorem balancer_handlers_keep_modes:
  assumes "balancers_ok d"
    and "create_load_balancer pc d = Inr d' \<or> update_load_balancer i pu d = Inr d' \<or> update_backend i j pb d = Inr d' \<or>
      d' = snd (fst (delete_load_balancer K e i d w))"
  shows "balancers_ok d'"
proof -
  have "balancers_ok (snd (fst (delete_load_balancer K e i d w)))"
    using assms(1) drop_balancer_ok [OF assms(1), of i]
    by (auto simp: delete_load_balancer_def split: option.split prod.split sum.split)
  with assms create_balancer_ok update_balancer_ok update_backend_ok show ?thesis by blast
qed

definition no_lb_fields :: lb_fields where
  "no_lb_fields =
     \<lparr>lf_install_method = None, lf_image = None, lf_listen_addresses = None, lf_policy = None, lf_ecs = None,
      lf_cache_enabled = None, lf_cache_max_entries = None, lf_hc_name = None, lf_hc_interval_s = None,
      lf_hc_max_failures = None, lf_hc_rise = None, lf_hc_mode = None, lf_acl = None, lf_vrrp_priority = None,
      lf_vip_interface = None, lf_mode = None, lf_ipvs_algo = None\<rparr>"

definition plain_create :: lb_create where
  "plain_create = lb_fields.extend no_lb_fields (lb_create.fields ''lb'' (Some 1) 1 True)"

definition zone_host :: db where
  "zone_host = empty_db\<lparr>db_zones := [sample_zone 1], db_agents := [sample_agent 1 ''10.0.0.9'', sample_agent 2 ''10.0.0.8'']\<rparr>"

theorem balancer_handlers_keep_modes_witness:
  "\<exists>d'. create_load_balancer plain_create zone_host = Inr d' \<and> db_balancers d' \<noteq> [] \<and> balancers_ok d'"
proof -
  have "\<exists>d'. create_load_balancer plain_create zone_host = Inr d' \<and> db_balancers d' \<noteq> []"
    by (simp add: create_load_balancer_def plain_create_def zone_host_def no_lb_fields_def lb_create.defs lb_fields.defs
        validate_refs_def validate_zone_mode_def created_mode_def or_keep_def others_def row_get_def sample_zone_def
        sample_agent_def empty_db_def row_add_def)
  then obtain d' where run: "create_load_balancer plain_create zone_host = Inr d'" "db_balancers d' \<noteq> []" by blast
  have "balancers_ok zone_host" by (simp add: balancers_ok_def zone_host_def empty_db_def one_mode_per_zone_def)
  from balancer_handlers_keep_modes [OF this disjI1 [OF run(1)]] run show ?thesis by blast
qed

lemma best_effort_log:
  assumes "P c" and "P AT_close" and "best_effort K e url c w = (r, w')"
  shows "log_ext P w w'"
proof -
  have "keeps (log_ext P) (best_effort K e url c)"
    unfolding best_effort_def
    by (auto intro!: log.keeps_except log.keeps_finally log.keeps_bind log.keeps_call log.keeps_return log.keeps_raise
        log_ext_log_call assms(1,2) split: option.split)
  with assms(3) show ?thesis by (metis keepsD)
qed

text \<open>
  Deleting a balancer does not release its virtual address: in dnsdist mode the handler never
  tells keepalived on the host to stand down, afterwards no balancer is left whose pass would
  address that host, and a host pass never sends a keepalived document. So a host that held the
  zone's VIP goes on announcing it with no dnsdist behind it.
\<close>

theorem deleted_balancer_keeps_vip:
  assumes "balancers_ok d" and "get_balancer d i = Some lb" and "b_mode lb = Mode_dnsdist"
    and "delete_load_balancer K e i d w = ((r, d'), w')"
  shows "log_ext (\<lambda>c. \<forall>spec. c \<noteq> AT_put_role ''keepalived'' spec) w w' \<and>
    (\<forall>b \<in> set (db_balancers d'). b_agent_id b \<noteq> b_agent_id lb) \<and>
    (\<forall>plan info spec. \<not> host_call_ok cfg m K e plan info (AT_put_role ''keepalived'' spec))"
proof -
  let ?P = "\<lambda>c. \<forall>spec. c \<noteq> AT_put_role ''keepalived'' spec"
  have d': "d' = drop_balancer i d"
    using assms(2,4) by (auto simp: delete_load_balancer_def split: option.splits if_splits prod.splits sum.splits)
  have "w' = w \<or> (\<exists>url r'. best_effort K e url (stand_down_call (b_mode lb)) w = (r', w'))"
    using assms(2,4) by (auto simp: delete_load_balancer_def split: option.splits if_splits prod.splits sum.splits)
  moreover have "?P (stand_down_call (b_mode lb))" using assms(3) by (simp add: stand_down_call_def)
  ultimately have "log_ext ?P w w'" using best_effort_log [of ?P] by (auto simp: log.frame_refl)
  moreover have "b_agent_id b \<noteq> b_agent_id lb" if "b \<in> set (db_balancers d')" for b
  proof -
    have b: "b \<in> set (db_balancers d)" "b_id b \<noteq> i" using that by (auto simp: d' drop_balancer_def release_balancer_def row_del_def)
    have "lb \<in> set (db_balancers d)" "b_id lb = i" using row_get_Some [OF assms(2)] by simp_all
    with b assms(1) show ?thesis by (auto simp: balancers_ok_def distinct_map inj_on_def)
  qed
  ultimately show ?thesis by simp
qed

theorem deleted_balancer_keeps_vip_witness:
  "\<exists>r d' w'. delete_load_balancer plain_pki settled_lb_box 1 (zone_host\<lparr>db_balancers := [sample_balancer 1 1 1]\<rparr>)
       \<lparr>w_log = [], w_out = 0\<rparr> = ((r, d'), w') \<and> db_balancers d' = [] \<and>
     log_ext (\<lambda>c. \<forall>spec. c \<noteq> AT_put_role ''keepalived'' spec) \<lparr>w_log = [], w_out = 0\<rparr> w'"
proof -
  let ?d = "zone_host\<lparr>db_balancers := [sample_balancer 1 1 1]\<rparr>"
  obtain r d' w' where run: "delete_load_balancer plain_pki settled_lb_box 1 ?d \<lparr>w_log = [], w_out = 0\<rparr> = ((r, d'), w')"
    by (metis prod.exhaust)
  have "balancers_ok ?d" by (simp add: balancers_ok_def one_mode_per_zone_def)
  moreover have "get_balancer ?d 1 = Some (sample_balancer 1 1 1)" by (simp add: row_get_def sample_balancer_def)
  ultimately have p: "log_ext (\<lambda>c. \<forall>spec. c \<noteq> AT_put_role ''keepalived'' spec) \<lparr>w_log = [], w_out = 0\<rparr> w' \<and>
    (\<forall>b \<in> set (db_balancers d'). b_agent_id b \<noteq> b_agent_id (sample_balancer 1 1 1)) \<and>
    (\<forall>plan info spec. \<not> host_call_ok default_settings \<lparr>mf_version = [], mf_files = []\<rparr> plain_pki settled_lb_box plan info
        (AT_put_role ''keepalived'' spec))"
    by (rule deleted_balancer_keeps_vip [OF _ _ _ run]) (simp add: sample_balancer_def)
  have "d' = drop_balancer 1 ?d"
    using run by (auto simp: delete_load_balancer_def zone_host_def row_get_def sample_balancer_def sample_agent_def
        split: prod.splits sum.splits)
  then have "db_balancers d' = []" by (simp add: drop_balancer_def release_balancer_def row_del_def sample_balancer_def)
  with p run show ?thesis by blast
qed

text \<open>
  Moving a balancer to another host leaves the old one running: the handler only writes the
  row, no balancer row names the old host afterwards, and the AdGuard role there is told to serve
  on its own port as if no dnsdist held it.
\<close>

theorem moved_balancer_left_running:
  assumes "balancers_ok d" and "get_balancer d i = Some lb" and "lu_agent_id p = Some (Some a)" and "a \<noteq> b_agent_id lb"
    and "update_load_balancer i p d = Inr d'"
  shows "(\<forall>b \<in> set (db_balancers d'). b_agent_id b \<noteq> b_agent_id lb) \<and>
    \<not> zone_has_balancer_on_agent d' (b_agent_id lb)"
proof -
  have d': "d' = put_balancer (patched_balancer p lb) d"
    using assms(2,5) by (auto simp: update_load_balancer_def Let_def split: sum.splits)
  have lb: "lb \<in> set (db_balancers d)" "b_id lb = i" using row_get_Some [OF assms(2)] by simp_all
  have new: "b_id (patched_balancer p lb) = i" "b_agent_id (patched_balancer p lb) = a"
    using assms(3) lb(2) by (simp_all add: patched_balancer_def set_lb_fields_kept or_keep_def)
  have "b_agent_id b \<noteq> b_agent_id lb" if "b \<in> set (db_balancers d')" for b
  proof (cases "b = patched_balancer p lb")
    case True
    with new assms(4) show ?thesis by simp
  next
    case False
    with that new(1) have "b \<in> set (db_balancers d)" "b_id b \<noteq> i"
      by (auto simp: d' put_balancer_def row_put_def split: if_splits)
    with lb assms(1) show ?thesis by (auto simp: balancers_ok_def distinct_map inj_on_def)
  qed
  then show ?thesis by (auto simp: zone_has_balancer_on_agent_def list_ex_iff)
qed

definition move_to_2 :: lb_update where
  "move_to_2 = lb_fields.extend no_lb_fields (lb_update.fields None None (Some (Some 2)) None)"

theorem moved_balancer_left_running_witness:
  "\<exists>d'. update_load_balancer 1 move_to_2 (zone_host\<lparr>db_balancers := [sample_balancer 1 1 1]\<rparr>) = Inr d' \<and>
     \<not> zone_has_balancer_on_agent d' 1"
proof -
  let ?d = "zone_host\<lparr>db_balancers := [sample_balancer 1 1 1]\<rparr>"
  have "\<exists>d'. update_load_balancer 1 move_to_2 ?d = Inr d'"
    by (simp add: update_load_balancer_def move_to_2_def zone_host_def no_lb_fields_def lb_update.defs lb_fields.defs
        validate_refs_def validate_zone_mode_def or_keep_def others_def row_get_def sample_zone_def patch_null_def
        sample_agent_def empty_db_def sample_balancer_def)
  then obtain d' where run: "update_load_balancer 1 move_to_2 ?d = Inr d'" by blast
  have "balancers_ok ?d" by (simp add: balancers_ok_def one_mode_per_zone_def)
  moreover have "get_balancer ?d 1 = Some (sample_balancer 1 1 1)" by (simp add: row_get_def sample_balancer_def)
  moreover have "lu_agent_id move_to_2 = Some (Some 2)" by (simp add: move_to_2_def lb_update.defs lb_fields.defs)
  ultimately have "(\<forall>b \<in> set (db_balancers d'). b_agent_id b \<noteq> b_agent_id (sample_balancer 1 1 1)) \<and>
    \<not> zone_has_balancer_on_agent d' (b_agent_id (sample_balancer 1 1 1))"
    by (rule moved_balancer_left_running [OF _ _ _ _ run]) (simp add: sample_balancer_def)
  with run show ?thesis by (simp add: sample_balancer_def)
qed

end
