(* ===== verification/Provision.thy ===== *)
theory Provision
  imports Balancers
begin

text \<open>
  backend/app/routers/provision.py: the life of a provisioning token (created, revoked, deleted,
  enrolled), what an enrolment creates, and the values the install script is rendered from.
  \<open>generate_token\<close> is random: its results are arguments. The exception of \<open>pk_sign\<close> is the
  \<open>PkiError\<close> of a certificate request that does not parse or verify.
\<close>

section \<open>Tokens\<close>

definition valid_pending :: "int \<Rightarrow> string \<Rightarrow> db \<Rightarrow> provisioning_token http" where
  "valid_pending now tok d =
     (case find (\<lambda>t. t_token t = tok) (db_tokens d) of
        None \<Rightarrow> Inl (HTTPException 404 ''Unknown token'')
      | Some t \<Rightarrow>
          if t_status t = Prov_revoked then Inl (HTTPException 410 ''Token revoked'')
          else if t_status t = Prov_completed then Inl (HTTPException 409 ''Token already used'')
          else if t_expires_at t < now then Inl (HTTPException 410 ''Token expired'')
          else Inr t)"

definition put_token :: "provisioning_token \<Rightarrow> db \<Rightarrow> db" where
  "put_token t d = d\<lparr>db_tokens := row_put t_id t (db_tokens d)\<rparr>"

definition token_roles :: "provisioning_token \<Rightarrow> string list" where
  "token_roles t = (if t_roles t = [] then [''adguard''] else t_roles t)"

definition check_token_zone :: "provision_request \<Rightarrow> db \<Rightarrow> unit http" where
  "check_token_zone p d =
     (if (case pr_zone_id p of None \<Rightarrow> False | Some z \<Rightarrow> get_zone d z = None)
      then Inl (HTTPException 400 ''zone_id does not exist'')
      else if Role_dnsdist \<in> set (pr_roles p) then
        (case pr_zone_id p of
           None \<Rightarrow> Inl (HTTPException 400 (''A balancer needs a zone: its backends are the zone'' @ apostrophe @ ''s AdGuard servers''))
         | Some z \<Rightarrow> (case get_zone d z of
             None \<Rightarrow> Inl (HTTPException 400 ''zone_id does not exist'')
           | Some zone \<Rightarrow> validate_zone_mode d zone (pr_lb_mode p) None))
      else Inr ())"

definition new_token :: "settings \<Rightarrow> string \<Rightarrow> string option \<Rightarrow> int \<Rightarrow> provision_request \<Rightarrow> int \<Rightarrow> provisioning_token" where
  "new_token cfg tok enc now p i =
     \<lparr>t_id = i, t_token = tok, t_name = pr_name p, t_zone_id = pr_zone_id p, t_method = pr_method p,
      t_prune = pr_prune p,
      t_auto_update = (case pr_auto_update p of None \<Rightarrow> cf_auto_update_default cfg | Some b \<Rightarrow> b),
      t_ssl_enabled = False, t_connect_address = pr_connect_address p, t_http_port = 3000, t_https_port = 443,
      t_dns_port = cf_adguard_dns_port cfg, t_admin_username = ''admin'', t_admin_password_enc = enc,
      t_tls_cert = None, t_tls_key_enc = None, t_roles = map agent_role_value (pr_roles p),
      t_agent_port = (case pr_agent_port p of None \<Rightarrow> cf_agent_default_port cfg | Some q \<Rightarrow> int_or q (cf_agent_default_port cfg)),
      t_vrrp_priority = pr_vrrp_priority p, t_expose_web_ui = pr_expose_web_ui p, t_lb_mode = pr_lb_mode p,
      t_status = Prov_pending, t_expires_at = now + cf_provision_token_ttl_hours cfg * 3600 * second_us,
      t_completed_at = None, t_server_id = None, t_agent_id = None, t_load_balancer_id = None,
      t_config_fetched_at = None, t_key_fetched_at = None\<rparr>"

text \<open>\<open>tok\<close> and \<open>pw\<close> are the random secrets; a token value that exists is refused by its unique index.\<close>

definition create_token ::
  "fernet \<Rightarrow> settings \<Rightarrow> string \<Rightarrow> string \<Rightarrow> int \<Rightarrow> provision_request \<Rightarrow> db \<Rightarrow> db http" where
  "create_token F cfg tok pw now p d =
     (case check_token_zone p d of
        Inl e \<Rightarrow> Inl e
      | Inr _ \<Rightarrow>
          (case encrypt_secret F cfg (Some pw) of
             Inl x \<Rightarrow> Inl (HTTPException 500 ''Internal Server Error'')
           | Inr enc \<Rightarrow>
               if tok \<in> t_token ` set (db_tokens d) then Inl (HTTPException 500 ''Internal Server Error'')
               else Inr (d\<lparr>db_tokens := row_add t_id (new_token cfg tok enc now p) (db_tokens d)\<rparr>)))"

definition token_missing :: http_error where
  "token_missing = HTTPException 404 ''Token not found''"

definition revoke_token :: "int \<Rightarrow> db \<Rightarrow> db http" where
  "revoke_token i d =
     (case row_get t_id i (db_tokens d) of
        None \<Rightarrow> Inl token_missing
      | Some t \<Rightarrow> Inr (if t_status t = Prov_pending then put_token (t\<lparr>t_status := Prov_revoked\<rparr>) d else d))"

definition delete_token :: "int \<Rightarrow> db \<Rightarrow> db http" where
  "delete_token i d =
     (case row_get t_id i (db_tokens d) of
        None \<Rightarrow> Inl token_missing
      | Some t \<Rightarrow> Inr (d\<lparr>db_tokens := row_del t_id i (db_tokens d)\<rparr>))"

section \<open>Enrolment\<close>

text \<open>Everything that can refuse the request, before the first write: the token, the address, the
  port and the signed certificate.\<close>

definition enroll_checks ::
  "pki \<Rightarrow> settings \<Rightarrow> int \<Rightarrow> string \<Rightarrow> enroll_request \<Rightarrow> db \<Rightarrow> (provisioning_token \<times> string \<times> int \<times> string) http" where
  "enroll_checks K cfg now tok p d =
     (case valid_pending now tok d of
        Inl e \<Rightarrow> Inl e
      | Inr t \<Rightarrow>
          let address = str_or (t_connect_address t) (str_or (er_address p) []) in
          if address = [] then Inl (HTTPException 400 ''No address reported and none preconfigured'')
          else (case validate_host (Some address) ''address'' of
            Inl (field, reason) \<Rightarrow> Inl (HTTPException 400 (field @ '' '' @ reason))
          | Inr address \<Rightarrow>
              let port = int_or (case er_port p of None \<Rightarrow> 0 | Some q \<Rightarrow> q) (int_or (t_agent_port t) (cf_agent_default_port cfg)) in
              (case pk_sign K (pk_ca_cert K) (pk_ca_key K) (er_csr_pem p) (t_name t) address of
                 Inl x \<Rightarrow> Inl (HTTPException 400 (exn_str x))
               | Inr cert \<Rightarrow> Inr (t, address, port, cert))))"

definition enrolled_agent ::
  "pki \<Rightarrow> enroll_request \<Rightarrow> provisioning_token \<Rightarrow> string \<Rightarrow> int \<Rightarrow> string \<Rightarrow> int \<Rightarrow> agent" where
  "enrolled_agent K p t address port cert i =
     \<lparr>a_id = i, a_name = t_name t, a_url = agent_url address port, a_address = address, a_port = port,
      a_zone_id = t_zone_id t, a_hostname = er_hostname p, a_os = er_os p, a_arch = er_arch p,
      a_version = er_agent_version p, a_cert_pem = cert, a_cert_not_after = Some (pk_not_after K cert),
      a_status = St_unknown, a_last_seen = None, a_last_error = None, a_info = None, a_health = None,
      a_update_attempted_at = None, a_update_error = None\<rparr>"

definition enrolled_server :: "settings \<Rightarrow> provisioning_token \<Rightarrow> agent \<Rightarrow> int \<Rightarrow> server" where
  "enrolled_server cfg t a i =
     (sample_server i (t_name t) (adguard_url_via_agent a))
       \<lparr>s_username := Some (t_admin_username t), s_password_enc := t_admin_password_enc t, s_zone_id := t_zone_id t,
        s_enabled := True, s_prune := t_prune t, s_auto_update := t_auto_update t,
        s_install_method := Some (t_method t), s_tls_cert := Some ''@agent'', s_agent_id := Some (a_id a),
        s_dns_port := cf_adguard_dns_port cfg, s_expose_web_ui := t_expose_web_ui t, s_status := St_provisioning\<rparr>"

definition enrolled_balancer :: "settings \<Rightarrow> provisioning_token \<Rightarrow> agent \<Rightarrow> int \<Rightarrow> load_balancer" where
  "enrolled_balancer cfg t a i =
     (new_balancer i (t_name t) (t_zone_id t) (a_id a))
       \<lparr>b_image := cf_dnsdist_image cfg, b_vrrp_priority := t_vrrp_priority t, b_mode := t_lb_mode t\<rparr>"

text \<open>The three commits, one after the other.\<close>

definition commit_agent :: "pki \<Rightarrow> enroll_request \<Rightarrow> provisioning_token \<times> string \<times> int \<times> string \<Rightarrow> db \<Rightarrow> agent \<times> db" where
  "commit_agent K p c d =
     (case c of (t, address, port, cert) \<Rightarrow>
        let a = enrolled_agent K p t address port cert (next_id a_id (db_agents d))
        in (a, d\<lparr>db_agents := db_agents d @ [a]\<rparr>))"

definition commit_roles ::
  "settings \<Rightarrow> provisioning_token \<Rightarrow> agent \<Rightarrow> db \<Rightarrow> int option \<times> int option \<times> db" where
  "commit_roles cfg t a d =
     (let ag = ''adguard'' \<in> set (token_roles t); lb = ''dnsdist'' \<in> set (token_roles t);
          sid = next_id s_id (db_servers d); bid = next_id b_id (db_balancers d) in
      (if ag then Some sid else None, if lb then Some bid else None,
       d\<lparr>db_servers := db_servers d @ (if ag then [enrolled_server cfg t a sid] else []),
         db_balancers := db_balancers d @ (if lb then [enrolled_balancer cfg t a bid] else [])\<rparr>))"

definition commit_token :: "int \<Rightarrow> provisioning_token \<Rightarrow> int \<Rightarrow> int option \<Rightarrow> int option \<Rightarrow> db \<Rightarrow> db" where
  "commit_token now t agent_id server_id lb_id d =
     put_token (t\<lparr>t_status := Prov_completed, t_completed_at := Some now, t_agent_id := Some agent_id,
       t_server_id := server_id, t_load_balancer_id := lb_id\<rparr>) d"

record enroll_response =
  es_agent_id :: int
  es_name :: string
  es_cert_pem :: string
  es_ca_pem :: string
  es_not_after :: int

definition enroll ::
  "pki \<Rightarrow> settings \<Rightarrow> int \<Rightarrow> string \<Rightarrow> enroll_request \<Rightarrow> db \<Rightarrow> (enroll_response \<times> db) http" where
  "enroll K cfg now tok p d =
     (case enroll_checks K cfg now tok p d of
        Inl e \<Rightarrow> Inl e
      | Inr (t, address, port, cert) \<Rightarrow>
          (case commit_agent K p (t, address, port, cert) d of
             (a, d1) \<Rightarrow>
               (case commit_roles cfg t a d1 of
                  (sid, bid, d2) \<Rightarrow>
                    Inr (\<lparr>es_agent_id = a_id a, es_name = a_name a, es_cert_pem = cert, es_ca_pem = pk_ca_cert K,
                          es_not_after = pk_not_after K cert\<rparr>,
                         commit_token now t (a_id a) sid bid d2))))"

section \<open>The install script\<close>

definition comment_safe :: "string \<Rightarrow> string" where
  "comment_safe s = take max_name_length (map (\<lambda>c. if is_control c then CHR '' '' else c) s)"

text \<open>\<open>shlex.quote\<close>\<close>

definition is_shell_safe :: "char \<Rightarrow> bool" where
  "is_shell_safe c = (is_alnum c \<or> c \<in> set ''_@%+=:,./-'')"

definition shlex_quote :: "string \<Rightarrow> string" where
  "shlex_quote s =
     (if s = [] then [CHR 0x27, CHR 0x27]
      else if list_all is_shell_safe s then s
      else [CHR 0x27] @
        concat (map (\<lambda>c. if c = CHR 0x27 then [CHR 0x27, CHR 0x22, CHR 0x27, CHR 0x22, CHR 0x27] else [c]) s) @
        [CHR 0x27])"

text \<open>The lines of the script that carry data of the token.\<close>

definition script_listen :: "settings \<Rightarrow> provisioning_token \<Rightarrow> string" where
  "script_listen cfg t = ''0.0.0.0:'' @ show_int (int_or (t_agent_port t) (cf_agent_default_port cfg))"

definition script_base :: "settings \<Rightarrow> string" where
  "script_base cfg = py_rstrip_char (CHR ''/'') (cf_public_base_url cfg)"

definition script_data_lines :: "settings \<Rightarrow> provisioning_token \<Rightarrow> string list" where
  "script_data_lines cfg t =
     [''# AdGuard Admin - installs and enrolls the host agent for '' @ comment_safe (t_name t),
      ''BASE_URL='' @ shlex_quote (script_base cfg),
      ''TOKEN='' @ shlex_quote (t_token t),
      ''LISTEN='' @ shlex_quote (script_listen cfg t),
      ''ADDRESS='' @ shlex_quote (str_or (t_connect_address t) [])]"

definition install_script :: "settings \<Rightarrow> int \<Rightarrow> string \<Rightarrow> db \<Rightarrow> string list http" where
  "install_script cfg now tok d =
     (case valid_pending now tok d of Inl e \<Rightarrow> Inl e | Inr t \<Rightarrow> Inr (script_data_lines cfg t))"

section \<open>The life of a token\<close>

text \<open>
  One step of anything that touches the tokens: the handlers, and any other operation that leaves
  the value and the status of every token alone (the release of foreign keys before a deletion).
  No step creates a token with the value \<open>used\<close>: the values are random.
\<close>

definition token_view :: "db \<Rightarrow> (string \<times> provision_status) list" where
  "token_view d = map (\<lambda>t. (t_token t, t_status t)) (db_tokens d)"

inductive token_step :: "string \<Rightarrow> db \<Rightarrow> db \<Rightarrow> bool" for used where
  step_create: "create_token F cfg tok pw now p d = Inr d' \<Longrightarrow> tok \<noteq> used \<Longrightarrow> token_step used d d'"
| step_revoke: "revoke_token i d = Inr d' \<Longrightarrow> token_step used d d'"
| step_delete: "delete_token i d = Inr d' \<Longrightarrow> token_step used d d'"
| step_enroll: "enroll K cfg now tok p d = Inr (r, d') \<Longrightarrow> token_step used d d'"
| step_other: "token_view d' = token_view d \<Longrightarrow> token_step used d d'"

inductive_cases token_stepE: "token_step used d d'"

text \<open>No token of that value can be enrolled.\<close>

definition spent :: "string \<Rightarrow> db \<Rightarrow> bool" where
  "spent used d \<longleftrightarrow> (\<forall>(tok, st) \<in> set (token_view d). tok = used \<longrightarrow> st \<noteq> Prov_pending)"

lemma spent_rows: "spent used d \<longleftrightarrow> (\<forall>t \<in> set (db_tokens d). t_token t = used \<longrightarrow> t_status t \<noteq> Prov_pending)"
  by (auto simp: spent_def token_view_def)

lemma spent_put: "spent used d \<Longrightarrow> t_token t = used \<Longrightarrow> t_status t \<noteq> Prov_pending \<Longrightarrow> spent used (put_token t d)"
  by (auto simp: spent_rows put_token_def row_put_def)

lemma spent_put_done: "spent used d \<Longrightarrow> t_status t \<noteq> Prov_pending \<Longrightarrow> spent used (put_token t d)"
  by (auto simp: spent_rows put_token_def row_put_def)

lemma valid_pending_Inr:
  assumes "valid_pending now tok d = Inr t"
  shows "t \<in> set (db_tokens d) \<and> t_token t = tok \<and> t_status t = Prov_pending \<and> now \<le> t_expires_at t"
  using assms by (cases "t_status t") (auto simp: valid_pending_def find_Some_iff split: option.splits if_splits)

lemma valid_pending_refused:
  assumes "spent used d" shows "\<exists>e. valid_pending now used d = Inl e"
  using valid_pending_Inr [of now used d] assms unfolding spent_rows by (metis sum.exhaust_sel)

lemma enroll_Inr:
  assumes "enroll K cfg now tok p d = Inr (r, d')"
  obtains t address port cert where "enroll_checks K cfg now tok p d = Inr (t, address, port, cert)"
    and "valid_pending now tok d = Inr t"
    and "es_cert_pem r = cert" and "es_agent_id r = next_id a_id (db_agents d)"
    and "d' = commit_token now t (es_agent_id r)
      (if ''adguard'' \<in> set (token_roles t) then Some (next_id s_id (db_servers d)) else None)
      (if ''dnsdist'' \<in> set (token_roles t) then Some (next_id b_id (db_balancers d)) else None)
      (d\<lparr>db_agents := db_agents d @ [enrolled_agent K p t address port cert (es_agent_id r)],
         db_servers := db_servers d @ (if ''adguard'' \<in> set (token_roles t)
           then [enrolled_server cfg t (enrolled_agent K p t address port cert (es_agent_id r)) (next_id s_id (db_servers d))] else []),
         db_balancers := db_balancers d @ (if ''dnsdist'' \<in> set (token_roles t)
           then [enrolled_balancer cfg t (enrolled_agent K p t address port cert (es_agent_id r)) (next_id b_id (db_balancers d))] else [])\<rparr>)"
proof -
  obtain c where c: "enroll_checks K cfg now tok p d = Inr c" using assms by (cases "enroll_checks K cfg now tok p d") (auto simp: enroll_def)
  obtain t address port cert where t: "c = (t, address, port, cert)" by (cases c)
  have v: "valid_pending now tok d = Inr t"
    using c t by (auto simp: enroll_checks_def Let_def split: sum.splits if_splits)
  show thesis
    by (rule that [OF c [unfolded t] v])
      (use assms c t in \<open>auto simp: enroll_def commit_agent_def commit_roles_def Let_def enrolled_agent_def\<close>)
qed

lemma commit_token_view: "spent used d \<Longrightarrow> spent used (commit_token now t a s b d)"
  unfolding commit_token_def by (rule spent_put_done) simp_all

lemma token_step_spent: "token_step used d d' \<Longrightarrow> spent used d \<Longrightarrow> spent used d'"
proof (induction rule: token_step.induct)
  case (step_create F cfg tok pw now p d d')
  then show ?case
    by (auto simp: create_token_def spent_rows row_add_def new_token_def split: sum.splits if_splits)
next
  case (step_revoke i d d')
  then show ?case by (auto simp: revoke_token_def intro: spent_put_done split: option.splits if_splits)
next
  case (step_delete i d d')
  then show ?case by (auto simp: delete_token_def spent_rows row_del_def split: option.splits)
next
  case (step_enroll K cfg now tok p d r d')
  show ?case
    by (rule enroll_Inr [OF step_enroll(1)], simp only:, rule commit_token_view) (use step_enroll(2) in \<open>simp add: spent_rows\<close>)
next
  case (step_other d' d)
  then show ?case by (simp add: spent_def)
qed

abbreviation token_steps :: "string \<Rightarrow> db \<Rightarrow> db \<Rightarrow> bool" where
  "token_steps used \<equiv> (token_step used)\<^sup>*\<^sup>*"

lemma token_steps_spent: "token_steps used d d' \<Longrightarrow> spent used d \<Longrightarrow> spent used d'"
  by (induction rule: rtranclp_induct) (auto intro: token_step_spent)

lemma enrolled_spent:
  assumes "enroll K cfg now used p d = Inr (r, d')" and "distinct (map t_token (db_tokens d))" and "distinct (map t_id (db_tokens d))"
  shows "spent used d'"
proof (rule enroll_Inr [OF assms(1)])
  fix t address port cert
  assume v: "valid_pending now used d = Inr t"
  assume "d' = commit_token now t (es_agent_id r)
      (if ''adguard'' \<in> set (token_roles t) then Some (next_id s_id (db_servers d)) else None)
      (if ''dnsdist'' \<in> set (token_roles t) then Some (next_id b_id (db_balancers d)) else None)
      (d\<lparr>db_agents := db_agents d @ [enrolled_agent K p t address port cert (es_agent_id r)],
         db_servers := db_servers d @ (if ''adguard'' \<in> set (token_roles t)
           then [enrolled_server cfg t (enrolled_agent K p t address port cert (es_agent_id r)) (next_id s_id (db_servers d))] else []),
         db_balancers := db_balancers d @ (if ''dnsdist'' \<in> set (token_roles t)
           then [enrolled_balancer cfg t (enrolled_agent K p t address port cert (es_agent_id r)) (next_id b_id (db_balancers d))] else [])\<rparr>)"
  then have rows: "set (db_tokens d') \<subseteq> {x. x \<in> set (db_tokens d) \<and> t_id x \<noteq> t_id t \<or> t_status x = Prov_completed}"
    by (auto simp: commit_token_def put_token_def row_put_def)
  have t: "t \<in> set (db_tokens d)" "t_token t = used" using valid_pending_Inr [OF v] by simp_all
  have "t_token x \<noteq> used" if "x \<in> set (db_tokens d)" "t_id x \<noteq> t_id t" for x
    using assms(2) t that by (auto simp: distinct_map inj_on_def)
  moreover have "(x \<in> set (db_tokens d) \<and> t_id x \<noteq> t_id t) \<or> t_status x = Prov_completed" if "x \<in> set (db_tokens d')" for x
    using rows that by blast
  ultimately show ?thesis unfolding spent_rows by (metis provision_status.distinct(1))
qed

section \<open>Reading a quoted word\<close>

text \<open>
  How a shell reads one word made of plain characters and quoted pieces: the specification
  \<open>shlex_quote\<close> is held against. \<open>None\<close> is anything else (an expansion, an operator, an open quote).
\<close>

datatype quoting = Plain | Single | Double

fun sh_read :: "quoting \<Rightarrow> string \<Rightarrow> string option" where
  "sh_read q [] = (if q = Plain then Some [] else None)"
| "sh_read Plain (c # s) =
     (if c = CHR 0x27 then sh_read Single s
      else if c = CHR 0x22 then sh_read Double s
      else if is_shell_safe c then map_option ((#) c) (sh_read Plain s) else None)"
| "sh_read Single (c # s) = (if c = CHR 0x27 then sh_read Plain s else map_option ((#) c) (sh_read Single s))"
| "sh_read Double (c # s) =
     (if c = CHR 0x22 then sh_read Plain s
      else if c \<in> {CHR ''$'', CHR 0x5C, CHR 0x60} then None else map_option ((#) c) (sh_read Double s))"

lemma quote_not_safe: "\<not> is_shell_safe (CHR 0x27)" "\<not> is_shell_safe (CHR 0x22)"
  by code_simp+

lemma sh_read_safe: "list_all is_shell_safe s \<Longrightarrow> sh_read Plain s = Some s"
  by (induction s) (auto simp: quote_not_safe)

lemma sh_read_single:
  "sh_read Single (concat (map (\<lambda>c. if c = CHR 0x27 then [CHR 0x27, CHR 0x22, CHR 0x27, CHR 0x22, CHR 0x27] else [c]) s) @ [CHR 0x27])
     = Some s"
  by (induction s) simp_all

lemma shlex_quote_read: "sh_read Plain (shlex_quote s) = Some s"
  by (simp add: shlex_quote_def sh_read_safe sh_read_single)

lemma comment_safe_clean: "\<not> list_ex is_control (comment_safe s)"
proof -
  have "\<not> is_control (CHR '' '')" by code_simp
  then show ?thesis by (auto simp: comment_safe_def list_ex_iff dest!: in_set_takeD split: if_splits)
qed

section \<open>Properties\<close>

text \<open>
  C3. A token enrols one host: after a successful enrolment, whatever tokens are created (with
  other values), revoked, deleted or enrolled afterwards, at any later time, the same URL is
  refused and signs no certificate.
\<close>

theorem token_enrolls_once:
  assumes "enroll K cfg now used p d = Inr (r, d1)"
    and "distinct (map t_token (db_tokens d))" and "distinct (map t_id (db_tokens d))"
    and "token_steps used d1 d2"
  shows "\<exists>e. enroll K' cfg' later used p' d2 = Inl e"
proof -
  have "spent used d2" by (rule token_steps_spent [OF assms(4) enrolled_spent [OF assms(1-3)]])
  from valid_pending_refused [OF this, of later] show ?thesis by (auto simp: enroll_def enroll_checks_def)
qed

definition plain_request :: provision_request where
  "plain_request =
     \<lparr>pr_name = ''ns1'', pr_zone_id = Some 1, pr_roles = [Role_adguard, Role_dnsdist], pr_method = Inst_docker,
      pr_connect_address = Some ''10.0.0.7'', pr_agent_port = None, pr_expose_web_ui = False, pr_vrrp_priority = 100,
      pr_lb_mode = Mode_dnsdist, pr_prune = False, pr_auto_update = None\<rparr>"

definition plain_enroll :: enroll_request where
  "plain_enroll = \<lparr>er_csr_pem = ''csr'', er_hostname = None, er_address = None, er_port = None, er_os = None,
     er_arch = None, er_agent_version = None\<rparr>"

definition issued :: provisioning_token where
  "issued = new_token default_settings ''secret'' None 0 plain_request 1"

definition one_token :: db where
  "one_token = empty_db\<lparr>db_zones := [sample_zone 1], db_tokens := [issued]\<rparr>"

lemma host_10_0_0_7: "validate_host (Some ''10.0.0.7'') f = Inr ''10.0.0.7''"
proof -
  have "py_split (CHR ''.'') ''10.0.0.7'' = [''10'', ''0'', ''0'', ''7'']" by code_simp
  moreover have "parse_octet ''10'' = Some 10" "parse_octet ''0'' = Some 0" "parse_octet ''7'' = Some 7" by code_simp+
  ultimately have "parse_ip ''10.0.0.7'' \<noteq> None" by (simp add: parse_ip_def parse_ipv4_def)
  moreover have "py_strip ''10.0.0.7'' = ''10.0.0.7''" by code_simp
  ultimately show ?thesis by (simp add: validate_host_def is_valid_host_def)
qed

lemma enroll_example: "\<exists>r d'. enroll plain_pki default_settings 5 ''secret'' plain_enroll one_token = Inr (r, d')"
proof -
  show ?thesis
    by (simp add: host_10_0_0_7 enroll_def enroll_checks_def valid_pending_def one_token_def issued_def new_token_def plain_request_def
        plain_enroll_def plain_pki_def str_or_def default_settings_def second_us_def commit_agent_def commit_roles_def Let_def)
qed

theorem token_enrolls_once_witness:
  "\<exists>r d' e. enroll plain_pki default_settings 5 ''secret'' plain_enroll one_token = Inr (r, d') \<and>
     enroll plain_pki default_settings 6 ''secret'' plain_enroll d' = Inl e"
proof -
  obtain r d' where run: "enroll plain_pki default_settings 5 ''secret'' plain_enroll one_token = Inr (r, d')"
    using enroll_example by blast
  have "distinct (map t_token (db_tokens one_token))" "distinct (map t_id (db_tokens one_token))" by (simp_all add: one_token_def)
  from token_enrolls_once [OF run this rtranclp.rtrancl_refl] run show ?thesis by blast
qed

text \<open>
  What an enrolment creates is what the token asked for: one host with the signed certificate,
  a server behind its agent exactly when the adguard role was asked for, a balancer on it exactly
  when the dnsdist role was, and no other row of those tables; the token is completed and names them.
\<close>

theorem enroll_creates_roles:
  assumes "enroll K cfg now tok p d = Inr (r, d')"
  shows "\<exists>t a ss bs. valid_pending now tok d = Inr t \<and>
    db_agents d' = db_agents d @ [a] \<and> a_id a = es_agent_id r \<and> a_cert_pem a = es_cert_pem r \<and> a_zone_id a = t_zone_id t \<and>
    db_servers d' = db_servers d @ ss \<and> length ss = (if ''adguard'' \<in> set (token_roles t) then 1 else 0) \<and>
    (\<forall>s \<in> set ss. s_agent_id s = Some (a_id a) \<and> s_zone_id s = t_zone_id t \<and> s_url s = adguard_url_via_agent a) \<and>
    db_balancers d' = db_balancers d @ bs \<and> length bs = (if ''dnsdist'' \<in> set (token_roles t) then 1 else 0) \<and>
    (\<forall>b \<in> set bs. b_agent_id b = a_id a \<and> b_zone_id b = t_zone_id t \<and> b_mode b = t_lb_mode t) \<and>
    (\<forall>x \<in> set (db_tokens d'). t_id x = t_id t \<longrightarrow> t_status x = Prov_completed \<and> t_agent_id x = Some (a_id a))"
proof (rule enroll_Inr [OF assms])
  fix t address port cert
  let ?a = "enrolled_agent K p t address port cert (es_agent_id r)"
  assume v: "valid_pending now tok d = Inr t" and cert: "es_cert_pem r = cert"
  assume d': "d' = commit_token now t (es_agent_id r)
      (if ''adguard'' \<in> set (token_roles t) then Some (next_id s_id (db_servers d)) else None)
      (if ''dnsdist'' \<in> set (token_roles t) then Some (next_id b_id (db_balancers d)) else None)
      (d\<lparr>db_agents := db_agents d @ [?a],
         db_servers := db_servers d @ (if ''adguard'' \<in> set (token_roles t)
           then [enrolled_server cfg t ?a (next_id s_id (db_servers d))] else []),
         db_balancers := db_balancers d @ (if ''dnsdist'' \<in> set (token_roles t)
           then [enrolled_balancer cfg t ?a (next_id b_id (db_balancers d))] else [])\<rparr>)"
  have finished: "t_status x = Prov_completed \<and> t_agent_id x = Some (a_id ?a)"
    if "x \<in> set (db_tokens d')" "t_id x = t_id t" for x
    using that by (auto simp: d' commit_token_def put_token_def row_put_def enrolled_agent_def)
  show ?thesis
    by (rule exI [of _ t], rule exI [of _ ?a],
        rule exI [of _ "if ''adguard'' \<in> set (token_roles t) then [enrolled_server cfg t ?a (next_id s_id (db_servers d))] else []"],
        rule exI [of _ "if ''dnsdist'' \<in> set (token_roles t) then [enrolled_balancer cfg t ?a (next_id b_id (db_balancers d))] else []"])
      (use v cert finished in \<open>simp add: d' commit_token_def put_token_def enrolled_agent_def enrolled_server_def
         enrolled_balancer_def new_balancer_def sample_server_def\<close>)
qed

theorem enroll_creates_roles_witness:
  "\<exists>r d' a. enroll plain_pki default_settings 5 ''secret'' plain_enroll one_token = Inr (r, d') \<and>
     db_agents d' = [a] \<and> length (db_servers d') = 1 \<and> length (db_balancers d') = 1"
proof -
  obtain r d' where run: "enroll plain_pki default_settings 5 ''secret'' plain_enroll one_token = Inr (r, d')"
    using enroll_example by blast
  have v: "valid_pending 5 ''secret'' one_token = Inr issued"
    by (simp add: valid_pending_def one_token_def issued_def new_token_def default_settings_def second_us_def)
  have roles: "token_roles issued = [''adguard'', ''dnsdist'']" by (simp add: token_roles_def issued_def new_token_def plain_request_def)
  from enroll_creates_roles [OF run] obtain t a ss bs where
    "valid_pending 5 ''secret'' one_token = Inr t" "db_agents d' = db_agents one_token @ [a]"
    "db_servers d' = db_servers one_token @ ss" "length ss = (if ''adguard'' \<in> set (token_roles t) then 1 else 0)"
    "db_balancers d' = db_balancers one_token @ bs" "length bs = (if ''dnsdist'' \<in> set (token_roles t) then 1 else 0)"
    by blast
  with v roles run show ?thesis by (auto simp: one_token_def empty_db_def)
qed

text \<open>
  The token is not consumed in the transaction that creates the host: after the first of the
  three commits, and after the second, the token is still pending, so a request repeated after a
  crash there is signed again and adds another host with the same roles.
\<close>

theorem enroll_not_atomic:
  assumes "enroll_checks K cfg now tok p d = Inr (t, address, port, cert)"
    and "commit_agent K p (t, address, port, cert) d = (a, d1)" and "commit_roles cfg t a d1 = (sid, bid, d2)"
    and "crashed = d1 \<or> crashed = d2"
  shows "\<exists>r d'. enroll K cfg now tok p crashed = Inr (r, d') \<and> es_cert_pem r = cert \<and>
    length (db_agents d') = length (db_agents d) + 2"
proof -
  have tokens: "db_tokens crashed = db_tokens d" and agents: "length (db_agents crashed) = length (db_agents d) + 1"
    using assms(2-4) by (auto simp: commit_agent_def commit_roles_def Let_def)
  have "enroll_checks K cfg now tok p crashed = Inr (t, address, port, cert)"
    using assms(1) tokens by (simp add: enroll_checks_def valid_pending_def)
  with agents show ?thesis
    by (simp add: enroll_def commit_agent_def commit_roles_def commit_token_def put_token_def Let_def)
qed

theorem enroll_not_atomic_witness:
  "\<exists>t address port cert a d1 r d'. enroll_checks plain_pki default_settings 5 ''secret'' plain_enroll one_token
       = Inr (t, address, port, cert) \<and>
     commit_agent plain_pki plain_enroll (t, address, port, cert) one_token = (a, d1) \<and>
     enroll plain_pki default_settings 5 ''secret'' plain_enroll d1 = Inr (r, d') \<and> length (db_agents d') = 2"
proof -
  obtain r d' where "enroll plain_pki default_settings 5 ''secret'' plain_enroll one_token = Inr (r, d')"
    using enroll_example by blast
  then obtain t address port cert where c: "enroll_checks plain_pki default_settings 5 ''secret'' plain_enroll one_token
      = Inr (t, address, port, cert)" by (rule enroll_Inr)
  obtain a d1 where a: "commit_agent plain_pki plain_enroll (t, address, port, cert) one_token = (a, d1)" by fastforce
  obtain sid bid d2 where b: "commit_roles default_settings t a d1 = (sid, bid, d2)" by (metis prod.exhaust)
  from enroll_not_atomic [OF c a b, of d1] c a show ?thesis by (auto simp: one_token_def empty_db_def)
qed

text \<open>
  Enrolment can break the rule the handlers keep: the mode of a zone is checked when the token
  is created, against the balancers of that moment, and not when it is used. Enrolling a
  balancer into a zone that meanwhile balances in the other mode succeeds.
\<close>

theorem enroll_breaks_zone_mode:
  assumes "valid_pending now tok d = Inr t" and "t_zone_id t = Some z" and "''dnsdist'' \<in> set (token_roles t)"
    and "b \<in> set (db_balancers d)" and "b_zone_id b = Some z" and "b_mode b \<noteq> t_lb_mode t"
    and "enroll K cfg now tok p d = Inr (r, d')"
  shows "\<not> one_mode_per_zone d'"
proof (rule enroll_Inr [OF assms(7)])
  fix t' address port cert
  let ?a = "enrolled_agent K p t' address port cert (es_agent_id r)"
  assume v: "valid_pending now tok d = Inr t'"
  assume d': "d' = commit_token now t' (es_agent_id r)
      (if ''adguard'' \<in> set (token_roles t') then Some (next_id s_id (db_servers d)) else None)
      (if ''dnsdist'' \<in> set (token_roles t') then Some (next_id b_id (db_balancers d)) else None)
      (d\<lparr>db_agents := db_agents d @ [?a],
         db_servers := db_servers d @ (if ''adguard'' \<in> set (token_roles t')
           then [enrolled_server cfg t' ?a (next_id s_id (db_servers d))] else []),
         db_balancers := db_balancers d @ (if ''dnsdist'' \<in> set (token_roles t')
           then [enrolled_balancer cfg t' ?a (next_id b_id (db_balancers d))] else [])\<rparr>)"
  let ?b = "enrolled_balancer cfg t ?a (next_id b_id (db_balancers d))"
  have t': "t' = t" using v assms(1) by simp
  have "?b \<in> set (db_balancers d')" "b \<in> set (db_balancers d')"
    using assms(3,4) t' by (simp_all add: d' commit_token_def put_token_def)
  moreover have "b_zone_id ?b = Some z" "b_mode ?b = t_lb_mode t"
    using assms(2) by (simp_all add: enrolled_balancer_def new_balancer_def)
  ultimately show ?thesis using assms(5,6) unfolding one_mode_per_zone_def by (metis option.distinct(1))
qed

theorem enroll_breaks_zone_mode_witness:
  "\<exists>r d'. create_load_balancer (plain_create\<lparr>lf_mode := Some (Some Mode_ipvs)\<rparr>)
       (one_token\<lparr>db_zones := [(sample_zone 1)\<lparr>z_vip := Some ''10.0.0.53/24''\<rparr>], db_agents := [sample_agent 1 ''10.0.0.9'']\<rparr>)
       = Inr r \<and>
     enroll plain_pki default_settings 5 ''secret'' plain_enroll r = Inr d' \<and> \<not> one_mode_per_zone (snd d')"
proof -
  let ?d = "one_token\<lparr>db_zones := [(sample_zone 1)\<lparr>z_vip := Some ''10.0.0.53/24''\<rparr>], db_agents := [sample_agent 1 ''10.0.0.9'']\<rparr>"
  let ?p = "plain_create\<lparr>lf_mode := Some (Some Mode_ipvs)\<rparr>"
  let ?b = "(set_lb_fields ?p (new_balancer 1 ''lb'' (Some 1) 1))\<lparr>b_enabled := True\<rparr>"
  let ?r = "?d\<lparr>db_balancers := [?b]\<rparr>"
  have create: "create_load_balancer ?p ?d = Inr ?r"
    by (simp add: create_load_balancer_def plain_create_def one_token_def no_lb_fields_def lb_create.defs lb_fields.defs
        validate_refs_def validate_zone_mode_def created_mode_def or_keep_def others_def row_get_def sample_zone_def
        sample_agent_def empty_db_def row_add_def next_id_def truthy_text_def)
  have v: "valid_pending 5 ''secret'' ?r = Inr issued"
    by (simp add: valid_pending_def one_token_def issued_def new_token_def default_settings_def second_us_def)
  have "\<exists>e d'. enroll plain_pki default_settings 5 ''secret'' plain_enroll ?r = Inr (e, d')"
    by (simp add: enroll_def enroll_checks_def v) (simp add: host_10_0_0_7 issued_def new_token_def plain_request_def
        plain_enroll_def plain_pki_def str_or_def commit_agent_def commit_roles_def Let_def)
  then obtain e d' where run: "enroll plain_pki default_settings 5 ''secret'' plain_enroll ?r = Inr (e, d')" by blast
  have "\<not> one_mode_per_zone d'"
    by (rule enroll_breaks_zone_mode [OF v _ _ _ _ _ run, where z = 1 and b = ?b])
      (simp_all add: issued_def new_token_def plain_request_def token_roles_def set_lb_fields_def new_balancer_def
        plain_create_def no_lb_fields_def lb_create.defs lb_fields.defs or_keep_def)
  with create run show ?thesis by fastforce
qed

text \<open>
  The values in the install script, which runs as root, cannot break out of it: the name stays
  on its comment line, and a shell reads each assigned value back as exactly the stored text.
\<close>

theorem script_values_read_back:
  "\<not> list_ex is_control (comment_safe (t_name t)) \<and> length (comment_safe (t_name t)) \<le> 100 \<and>
   sh_read Plain (shlex_quote (script_base cfg)) = Some (script_base cfg) \<and>
   sh_read Plain (shlex_quote (t_token t)) = Some (t_token t) \<and>
   sh_read Plain (shlex_quote (script_listen cfg t)) = Some (script_listen cfg t) \<and>
   sh_read Plain (shlex_quote (str_or (t_connect_address t) [])) = Some (str_or (t_connect_address t) [])"
  using comment_safe_clean by (simp add: shlex_quote_read comment_safe_def max_name_length_def)

end
