(* ===== verification/Cycle.thy ===== *)
theory Cycle
  imports Locks Records HostFacts "HOL-Library.Multiset"
begin

text \<open>
  One reconcile cycle (\<open>reconcile_all\<close> in backend/app/sync.py, \<open>reconcile_hosts\<close> and
  \<open>reconcile_balancers\<close> in backend/app/hosts.py) and the managers that run cycles in the
  background. The due servers are reconciled concurrently, at most \<open>limit\<close> at a time. A pass
  reads the database when it starts and writes it when it ends; the events of all
  passes interleave in any order the semaphore admits. The contract under which the order
  does not matter is the locale \<open>fan_out\<close>.
\<close>

section \<open>Tasks that start and end\<close>

datatype fan_event = Started int | Ended int

record ('d, 'p) fan =
  fn_db :: 'd
  fn_plans :: "(int \<times> 'p option) list"

definition plan_in :: "(int \<times> 'p option) list \<Rightarrow> int \<Rightarrow> 'p option" where
  "plan_in plans i = (case map_of plans i of None \<Rightarrow> None | Some p \<Rightarrow> p)"

fun fan_step ::
  "('d \<Rightarrow> int \<Rightarrow> 'p option) \<Rightarrow> (int \<Rightarrow> 'p \<Rightarrow> 'd \<Rightarrow> 'd) \<Rightarrow> fan_event \<Rightarrow> ('d, 'p) fan \<Rightarrow> ('d, 'p) fan" where
  "fan_step snap fin (Started i) st = st\<lparr>fn_plans := dict_set i (snap (fn_db st) i) (fn_plans st)\<rparr>"
| "fan_step snap fin (Ended i) st =
     (case plan_in (fn_plans st) i of None \<Rightarrow> st | Some p \<Rightarrow> st\<lparr>fn_db := fin i p (fn_db st)\<rparr>)"

definition fan_run ::
  "('d \<Rightarrow> int \<Rightarrow> 'p option) \<Rightarrow> (int \<Rightarrow> 'p \<Rightarrow> 'd \<Rightarrow> 'd) \<Rightarrow> fan_event list \<Rightarrow> 'd \<Rightarrow> ('d, 'p) fan" where
  "fan_run snap fin evs d = fold (fan_step snap fin) evs \<lparr>fn_db = d, fn_plans = []\<rparr>"

text \<open>
  What \<open>asyncio.gather\<close> over a semaphore admits: every task of \<open>todo\<close> starts once, when fewer than
  \<open>limit\<close> are running, and ends once, after it started.
\<close>

fun admitted :: "nat \<Rightarrow> int list \<Rightarrow> int list \<Rightarrow> fan_event list \<Rightarrow> bool" where
  "admitted limit todo running [] = (todo = [] \<and> running = [])"
| "admitted limit todo running (Started i # evs) =
     (i \<in> set todo \<and> length running < limit \<and> admitted limit (remove1 i todo) (i # running) evs)"
| "admitted limit todo running (Ended i # evs) =
     (i \<in> set running \<and> admitted limit todo (remove1 i running) evs)"

text \<open>One task after the other.\<close>

fun one_by_one :: "int list \<Rightarrow> fan_event list" where
  "one_by_one [] = []"
| "one_by_one (i # ids) = Started i # Ended i # one_by_one ids"

lemma one_by_one_admitted: "0 < limit \<Longrightarrow> admitted limit ids [] (one_by_one ids)"
  by (induction ids) simp_all

text \<open>The semaphore never blocks for good: what has started can be completed to an admitted run.\<close>

lemma admitted_completes:
  assumes "0 < limit" and "length running \<le> limit"
  shows "admitted limit todo running (map Ended running @ one_by_one todo)"
  using assms(2) by (induction running) (simp_all add: one_by_one_admitted [OF assms(1)])

locale fan_out =
  fixes snap :: "'d \<Rightarrow> int \<Rightarrow> 'p option" and fin :: "int \<Rightarrow> 'p \<Rightarrow> 'd \<Rightarrow> 'd"
  assumes snap_fin: "i \<noteq> j \<Longrightarrow> snap (fin i p d) j = snap d j"
    and fin_commute: "i \<noteq> j \<Longrightarrow> fin i p (fin j q d) = fin j q (fin i p d)"
begin

definition finish_one :: "(int \<Rightarrow> 'p option) \<Rightarrow> int \<Rightarrow> 'd \<Rightarrow> 'd" where
  "finish_one P i d = (case P i of None \<Rightarrow> d | Some p \<Rightarrow> fin i p d)"

lemma finish_swap: "finish_one P i \<circ> finish_one P j = finish_one P j \<circ> finish_one P i"
  by (cases "i = j") (auto simp: fun_eq_iff finish_one_def fin_commute split: option.splits)

lemma finish_order: "mset xs = mset ys \<Longrightarrow> fold (finish_one P) xs = fold (finish_one P) ys"
  by (rule fold_multiset_equiv) (simp_all add: finish_swap)

text \<open>The plans the rest of a run ends with: taken ones, and the snapshots still to come.\<close>

definition planned :: "int list \<Rightarrow> ('d, 'p) fan \<Rightarrow> int \<Rightarrow> 'p option" where
  "planned todo st i = (if i \<in> set todo then snap (fn_db st) i else plan_in (fn_plans st) i)"

lemma fold_finish_cong: "(\<And>i. i \<in> set xs \<Longrightarrow> P i = Q i) \<Longrightarrow> fold (finish_one P) xs d = fold (finish_one Q) xs d"
  by (rule fold_cong) (simp_all add: finish_one_def fun_eq_iff)

lemma run_from:
  "admitted limit todo running evs \<Longrightarrow> distinct (todo @ running) \<Longrightarrow>
   fn_db (fold (fan_step snap fin) evs st) = fold (finish_one (planned todo st)) (todo @ running) (fn_db st) \<and>
   (\<forall>i. plan_in (fn_plans (fold (fan_step snap fin) evs st)) i = planned todo st i)"
proof (induction limit todo running evs arbitrary: st rule: admitted.induct)
  case (1 limit todo running)
  then show ?case by (simp add: planned_def)
next
  case (2 limit todo running i evs)
  let ?st = "fan_step snap fin (Started i) st"
  have i: "i \<in> set todo" "i \<notin> set running" using 2(2,3) by auto
  have same: "planned (remove1 i todo) ?st = planned todo st"
    using i 2(3) by (auto simp: fun_eq_iff planned_def plan_in_def dict.get_put)
  have "distinct (remove1 i todo @ i # running)" using 2(3) i by (auto simp: distinct_remove1)
  with 2 same have *: "fn_db (fold (fan_step snap fin) evs ?st) =
      fold (finish_one (planned todo st)) (remove1 i todo @ i # running) (fn_db ?st) \<and>
      (\<forall>i. plan_in (fn_plans (fold (fan_step snap fin) evs ?st)) i = planned todo st i)" by simp
  have "mset (remove1 i todo @ i # running) = mset (todo @ running)" using i by simp
  from finish_order [OF this] * show ?case by simp
next
  case (3 limit todo running i evs)
  let ?st = "fan_step snap fin (Ended i) st"
  have i: "i \<in> set running" "i \<notin> set todo" using 3(2,3) by auto
  have db: "fn_db ?st = finish_one (planned todo st) i (fn_db st)" and plans: "fn_plans ?st = fn_plans st"
    using i by (simp_all add: finish_one_def planned_def split: option.split)
  have "snap (fn_db ?st) j = snap (fn_db st) j" if "j \<in> set todo" for j
    using snap_fin [of i j] that i by (cases "j = i") (auto simp: db finish_one_def split: option.split)
  then have same: "planned todo ?st = planned todo st" by (auto simp: fun_eq_iff planned_def plans simp del: fan_step.simps)
  have "distinct (todo @ remove1 i running)" using 3(3) by (auto simp: distinct_remove1 dest: notin_set_remove1)
  with 3 same have *: "fn_db (fold (fan_step snap fin) evs ?st) =
      fold (finish_one (planned todo st)) (todo @ remove1 i running) (fn_db ?st) \<and>
      (\<forall>i. plan_in (fn_plans (fold (fan_step snap fin) evs ?st)) i = planned todo st i)" by simp
  have "mset (todo @ running) = mset (i # todo @ remove1 i running)" using i by simp
  from finish_order [OF this] * db show ?case by simp
qed

theorem any_order:
  assumes "admitted limit ids [] evs" and "distinct ids"
  shows "fn_db (fan_run snap fin evs d) = fold (finish_one (snap d)) ids d" and
    "i \<in> set ids \<Longrightarrow> plan_in (fn_plans (fan_run snap fin evs d)) i = snap d i"
proof -
  let ?st = "\<lparr>fn_db = d, fn_plans = []\<rparr>"
  have all: "fn_db (fan_run snap fin evs d) = fold (finish_one (planned ids ?st)) ids d \<and>
      (\<forall>i. plan_in (fn_plans (fan_run snap fin evs d)) i = planned ids ?st i)"
    using run_from [OF assms(1), of ?st] assms(2) by (simp add: fan_run_def)
  have "fold (finish_one (planned ids ?st)) ids d = fold (finish_one (snap d)) ids d"
    by (rule fold_finish_cong) (simp add: planned_def)
  with all show "fn_db (fan_run snap fin evs d) = fold (finish_one (snap d)) ids d" by simp
  show "i \<in> set ids \<Longrightarrow> plan_in (fn_plans (fan_run snap fin evs d)) i = snap d i" using all by (simp add: planned_def)
qed

end

section \<open>The servers of one cycle\<close>

text \<open>
  The outside of a cycle: every server, host and balancer is a machine of its own, with its own
  state; \<open>og_dns\<close> is the resolver, \<open>og_token\<close> the random secret of a zone without one.
\<close>

record 's outside =
  og_build :: client_builder
  og_server :: "int \<Rightarrow> 's wenv"
  og_server_at :: "int \<Rightarrow> (call, 's) world"
  og_agent :: "int \<Rightarrow> 's wenv"
  og_agent_at :: "int \<Rightarrow> (call, 's) world"
  og_balancer :: "int \<Rightarrow> 's wenv"
  og_balancer_at :: "int \<Rightarrow> (call, 's) world"
  og_dns :: "string \<Rightarrow> string option"
  og_now :: int
  og_token :: string

definition server_snapshot :: "db \<Rightarrow> int \<Rightarrow> server_plan option" where
  "server_snapshot d i = map_option (build_plan d) (get_server d i)"

definition network_phase :: "'s outside \<Rightarrow> bool \<Rightarrow> int \<Rightarrow> server_plan \<Rightarrow> sync_result \<times> server_updates" where
  "network_phase G dry i plan = fst (apply_plan (og_build G) (og_server G i) plan dry (og_server_at G i))"

definition write_back :: "'s outside \<Rightarrow> bool \<Rightarrow> int \<Rightarrow> server_plan \<Rightarrow> db \<Rightarrow> db" where
  "write_back G dry i plan d = apply_updates i (snd (network_phase G dry i plan)) d"

text \<open>
  A server whose lock is taken by a manual pass or an upgrade (\<open>busy\<close>) is reported so and left alone; one that
  was deleted meanwhile is not reported.
\<close>

definition free_ids :: "int list \<Rightarrow> int list \<Rightarrow> int list" where
  "free_ids busy ids = filter (\<lambda>i. i \<notin> set busy) ids"

definition task_result :: "'s outside \<Rightarrow> bool \<Rightarrow> int list \<Rightarrow> (int \<Rightarrow> server_plan option) \<Rightarrow> int \<Rightarrow> sync_result option" where
  "task_result G dry busy plan i =
     (if i \<in> set busy then Some (busy_result i) else map_option (\<lambda>p. fst (network_phase G dry i p)) (plan i))"

definition reconcile_due ::
  "'s outside \<Rightarrow> bool \<Rightarrow> int list \<Rightarrow> fan_event list \<Rightarrow> int list \<Rightarrow> db \<Rightarrow> sync_result list \<times> db" where
  "reconcile_due G dry busy evs ids d =
     (let st = fan_run server_snapshot (write_back G dry) evs d
      in (List.map_filter (task_result G dry busy (plan_in (fn_plans st))) ids, fn_db st))"

section \<open>The whole cycle\<close>

text \<open>The passes over the hosts and over the balancers in one of the orders the semaphore admits.\<close>

definition host_task ::
  "fernet \<Rightarrow> settings \<Rightarrow> manifest \<Rightarrow> pki \<Rightarrow> 's outside \<Rightarrow> int \<Rightarrow> db \<Rightarrow> db" where
  "host_task F cfg m K G i d =
     (case fst (reconcile_agent F cfg m K (og_agent G i) (\<lambda>j. map_option a_address (get_agent d j))
              (og_now G) i d d (og_agent_at G i)) of
        Inl x \<Rightarrow> d
      | Inr (u, d') \<Rightarrow> d')"

definition agent_ids :: "int option \<Rightarrow> db \<Rightarrow> int list" where
  "agent_ids zone_id d =
     map a_id (filter (\<lambda>a. case zone_id of None \<Rightarrow> True | Some z \<Rightarrow> a_zone_id a = Some z) (db_agents d))"

definition reconcile_hosts ::
  "fernet \<Rightarrow> settings \<Rightarrow> manifest \<Rightarrow> pki \<Rightarrow> 's outside \<Rightarrow> db \<Rightarrow> db" where
  "reconcile_hosts F cfg m K G d = fold (host_task F cfg m K G) (agent_ids None d) d"

definition agent_of_server :: "db \<Rightarrow> int \<Rightarrow> int option" where
  "agent_of_server d i = (case get_server d i of None \<Rightarrow> None | Some s \<Rightarrow> s_agent_id s)"

definition hosts_phase ::
  "fernet \<Rightarrow> settings \<Rightarrow> manifest \<Rightarrow> pki \<Rightarrow> 's outside \<Rightarrow> int option \<Rightarrow> db \<Rightarrow> db" where
  "hosts_phase F cfg m K G only d =
     (case only of
        None \<Rightarrow> reconcile_hosts F cfg m K G d
      | Some i \<Rightarrow> (case agent_of_server d i of None \<Rightarrow> d | Some a \<Rightarrow> host_task F cfg m K G a d))"

definition balancer_task :: "fernet \<Rightarrow> settings \<Rightarrow> pki \<Rightarrow> 's outside \<Rightarrow> int \<Rightarrow> db \<Rightarrow> db" where
  "balancer_task F cfg K G i d =
     (case fst (reconcile_load_balancer F cfg (og_token G) K (og_balancer G i) (og_now G) i d (\<lambda>d. d)
              (og_balancer_at G i)) of
        Inl x \<Rightarrow> d
      | Inr (u, d') \<Rightarrow> d')"

definition load_balancer_ids :: "int option \<Rightarrow> db \<Rightarrow> int list" where
  "load_balancer_ids zone_id d =
     map b_id (filter (\<lambda>b. case zone_id of None \<Rightarrow> True | Some z \<Rightarrow> b_zone_id b = Some z) (db_balancers d))"

definition reconcile_balancers :: "fernet \<Rightarrow> settings \<Rightarrow> pki \<Rightarrow> 's outside \<Rightarrow> db \<Rightarrow> db" where
  "reconcile_balancers F cfg K G d = fold (balancer_task F cfg K G) (load_balancer_ids None d) d"

text \<open>Before the servers: the hostname records, then the hosts; a dry run skips both.\<close>

definition cycle_hosts ::
  "fernet \<Rightarrow> settings \<Rightarrow> manifest \<Rightarrow> pki \<Rightarrow> 's outside \<Rightarrow> bool \<Rightarrow> int option \<Rightarrow> db \<Rightarrow> db" where
  "cycle_hosts F cfg m K G dry only d =
     (if dry then d else hosts_phase F cfg m K G only (reconcile_hostname_records (og_dns G) (og_now G) d))"

text \<open>\<open>evs\<close> is the order in which the event loop runs the passes of the due servers.\<close>

definition cycle_servers ::
  "'s outside \<Rightarrow> int list \<Rightarrow> (int list \<Rightarrow> fan_event list) \<Rightarrow> bool \<Rightarrow> int option \<Rightarrow> bool \<Rightarrow> db \<Rightarrow> sync_result list \<times> db" where
  "cycle_servers G busy evs dry only force d =
     (let ids = due_servers d (og_now G) force only
      in if ids = [] then ([], d) else reconcile_due G dry busy (evs (free_ids busy ids)) ids d)"

definition reconcile_all ::
  "fernet \<Rightarrow> settings \<Rightarrow> manifest \<Rightarrow> pki \<Rightarrow> 's outside \<Rightarrow> int list \<Rightarrow> (int list \<Rightarrow> fan_event list) \<Rightarrow>
   bool \<Rightarrow> int option \<Rightarrow> bool \<Rightarrow> db \<Rightarrow> sync_result list \<times> db" where
  "reconcile_all F cfg m K G busy evs dry only force d =
     (case cycle_servers G busy evs dry only force (cycle_hosts F cfg m K G dry only d) of
        (results, d') \<Rightarrow> (results, if \<not> dry \<and> only = None then reconcile_balancers F cfg K G d' else d'))"

section \<open>Servers are independent\<close>

lemma row_put_swap:
  "key r \<noteq> key s \<Longrightarrow> row_put key r (row_put key s rows) = row_put key s (row_put key r rows)"
  by (auto simp: row_put_def)

lemma put_server_swap: "s_id s \<noteq> s_id t \<Longrightarrow> put_server s (put_server t d) = put_server t (put_server s d)"
  by (simp add: put_server_def row_put_swap)

lemma updates_row_id: "s_id (apply_updates_row u s) = s_id s"
  by (simp add: apply_updates_row_def Let_def split: option.split)

lemma get_server_id: "get_server d i = Some s \<Longrightarrow> s_id s = i"
  using row_get_Some by metis

lemma get_server_updates:
  "get_server (apply_updates i u d) j =
     (if j = i then map_option (apply_updates_row u) (get_server d i) else get_server d j)"
  by (auto simp: apply_updates_def updates_row_id dest: get_server_id split: option.split)

lemma updates_swap:
  assumes "i \<noteq> j"
  shows "apply_updates i u (apply_updates j v d) = apply_updates j v (apply_updates i u d)"
proof -
  have "apply_updates i u (apply_updates j v d) =
      (case get_server d i of None \<Rightarrow> apply_updates j v d | Some s \<Rightarrow> put_server (apply_updates_row u s) (apply_updates j v d))"
    using assms by (simp add: apply_updates_def [of i] get_server_updates)
  also have "\<dots> = (case get_server d j of None \<Rightarrow> apply_updates i u d | Some t \<Rightarrow> put_server (apply_updates_row v t) (apply_updates i u d))"
    using assms by (auto simp: apply_updates_def updates_row_id intro!: put_server_swap dest!: get_server_id split: option.split)
  also have "\<dots> = apply_updates j v (apply_updates i u d)"
    using assms by (simp add: apply_updates_def [of j] get_server_updates)
  finally show ?thesis .
qed

lemma build_plan_put: "build_plan (put_server t d) s = build_plan d s"
  by (simp add: build_plan_def put_server_def desired_rewrites_for_server_def desired_upstreams_for_server_def
      addresses_of_kind_def filters_for_server_def desired_blocked_services_for_server_def)

lemma build_plan_updates: "build_plan (apply_updates i u d) s = build_plan d s"
  by (simp add: apply_updates_def build_plan_put split: option.split)

interpretation servers: fan_out server_snapshot "write_back G dry" for G dry
  by unfold_locales
    (simp_all add: server_snapshot_def write_back_def get_server_updates build_plan_updates updates_swap
       option.map_comp comp_def cong: option.map_cong)

lemma due_any_order:
  assumes "admitted limit (free_ids busy ids) [] evs" and "distinct ids"
  shows "reconcile_due G dry busy evs ids d = reconcile_due G dry busy (one_by_one (free_ids busy ids)) ids d"
proof -
  have free: "distinct (free_ids busy ids)" using assms(2) by (simp add: free_ids_def)
  have one: "admitted 1 (free_ids busy ids) [] (one_by_one (free_ids busy ids))" by (simp add: one_by_one_admitted)
  have plans: "task_result G dry busy (plan_in (fn_plans (fan_run server_snapshot (write_back G dry) evs d))) i =
      task_result G dry busy (plan_in (fn_plans (fan_run server_snapshot (write_back G dry) (one_by_one (free_ids busy ids)) d))) i"
    if "i \<in> set ids" for i
  proof (cases "i \<in> set busy")
    case False
    with that have "i \<in> set (free_ids busy ids)" by (simp add: free_ids_def)
    from servers.any_order(2) [OF assms(1) free this, of G dry d]
      servers.any_order(2) [OF one free this, of G dry d] show ?thesis
      by (simp add: task_result_def)
  qed (simp add: task_result_def)
  have "List.map_filter f ids = List.map_filter g ids" if "\<And>i. i \<in> set ids \<Longrightarrow> f i = g i" for f g :: "int \<Rightarrow> sync_result option"
    using that by (induction ids) (simp_all add: List.map_filter_simps split: option.split)
  from this [OF plans] show ?thesis
    using servers.any_order(1) [OF assms(1) free, of G dry d] servers.any_order(1) [OF one free, of G dry d]
    by (simp add: reconcile_due_def Let_def)
qed

section \<open>What a cycle leaves to the operator\<close>

text \<open>
  A row without the columns that hold observations. A zone with a VIP and no VRRP id or password is given both
  by its first balancer pass.
\<close>

definition server_config :: "server \<Rightarrow> server" where
  "server_config s =
     s\<lparr>s_agent_state := None, s_lb_state := None, s_status := St_unknown, s_version := None, s_latest_version := None,
       s_update_available := False, s_can_autoupdate := False, s_update_check_disabled := False, s_last_seen := None,
       s_last_synced := None, s_last_error := None, s_cooldown_until := None, s_in_sync := False\<rparr>"

definition agent_config :: "agent \<Rightarrow> agent" where
  "agent_config a =
     a\<lparr>a_hostname := None, a_os := None, a_arch := None, a_version := None, a_cert_pem := [], a_cert_not_after := None,
       a_status := St_unknown, a_last_seen := None, a_last_error := None, a_info := None, a_health := None,
       a_update_attempted_at := None, a_update_error := None\<rparr>"

definition balancer_config :: "load_balancer \<Rightarrow> load_balancer" where
  "balancer_config b =
     b\<lparr>b_desired_hash := None, b_applied_hash := None, b_in_sync := False, b_status := St_unknown, b_last_synced := None,
       b_last_error := None, b_state := None, b_keepalived_state := None\<rparr>"

definition zone_config :: "zone \<Rightarrow> zone" where
  "zone_config z = z\<lparr>z_vrrp_router_id := None, z_vrrp_auth_enc := None\<rparr>"

text \<open>Everything operators own: their rows, and every table the reconciler does not write.\<close>

definition operator_view :: "db \<Rightarrow> db" where
  "operator_view d =
     d\<lparr>db_records := user_rows d, db_servers := map server_config (db_servers d),
       db_agents := map agent_config (db_agents d), db_balancers := map balancer_config (db_balancers d),
       db_zones := map zone_config (db_zones d)\<rparr>"

definition keys_ok :: "db \<Rightarrow> bool" where
  "keys_ok d \<longleftrightarrow> records_ok d \<and> distinct (map s_id (db_servers d)) \<and> distinct (map a_id (db_agents d)) \<and>
     distinct (map b_id (db_balancers d)) \<and> distinct (map z_id (db_zones d))"

definition observes :: "db \<Rightarrow> db \<Rightarrow> bool" where
  "observes d d' \<longleftrightarrow> (keys_ok d \<longrightarrow> keys_ok d' \<and> operator_view d' = operator_view d)"

lemma observes_refl [simp]: "observes d d"
  by (simp add: observes_def)

lemma observes_trans [trans]: "observes c d \<Longrightarrow> observes d e \<Longrightarrow> observes c e"
  by (simp add: observes_def)

lemma observes_fold: "(\<And>x d. observes d (f x d)) \<Longrightarrow> observes d (fold f xs d)"
  by (induction xs arbitrary: d) (auto intro: observes_trans)

lemma config_keys:
  "map server_config ss = map server_config ss' \<Longrightarrow> map s_id ss = map s_id ss'"
  "map agent_config as = map agent_config as' \<Longrightarrow> map a_id as = map a_id as'"
  "map balancer_config bs = map balancer_config bs' \<Longrightarrow> map b_id bs = map b_id bs'"
  "map zone_config zs = map zone_config zs' \<Longrightarrow> map z_id zs = map z_id zs'"
proof -
  have id: "s_id = s_id \<circ> server_config" "a_id = a_id \<circ> agent_config" "b_id = b_id \<circ> balancer_config"
    "z_id = z_id \<circ> zone_config"
    by (simp_all add: fun_eq_iff server_config_def agent_config_def balancer_config_def zone_config_def)
  show "map server_config ss = map server_config ss' \<Longrightarrow> map s_id ss = map s_id ss'"
    by (subst (1 2) id(1)) (metis map_map)
  show "map agent_config as = map agent_config as' \<Longrightarrow> map a_id as = map a_id as'"
    by (subst (1 2) id(2)) (metis map_map)
  show "map balancer_config bs = map balancer_config bs' \<Longrightarrow> map b_id bs = map b_id bs'"
    by (subst (1 2) id(3)) (metis map_map)
  show "map zone_config zs = map zone_config zs' \<Longrightarrow> map z_id zs = map z_id zs'"
    by (subst (1 2) id(4)) (metis map_map)
qed

lemma observesI:
  assumes "keys_ok d \<Longrightarrow> \<exists>rs ss as bs zs. d' = d\<lparr>db_records := rs, db_servers := ss, db_agents := as, db_balancers := bs, db_zones := zs\<rparr> \<and>
      records_ok d' \<and> user_rows d' = user_rows d \<and>
      map server_config ss = map server_config (db_servers d) \<and> map agent_config as = map agent_config (db_agents d) \<and>
      map balancer_config bs = map balancer_config (db_balancers d) \<and> map zone_config zs = map zone_config (db_zones d)"
  shows "observes d d'"
  unfolding observes_def
proof
  assume ok: "keys_ok d"
  from assms [OF ok] obtain rs ss as bs zs where d': "d' = d\<lparr>db_records := rs, db_servers := ss, db_agents := as, db_balancers := bs, db_zones := zs\<rparr>"
    and r: "records_ok d'" "user_rows d' = user_rows d"
    and c: "map server_config ss = map server_config (db_servers d)" "map agent_config as = map agent_config (db_agents d)"
      "map balancer_config bs = map balancer_config (db_balancers d)" "map zone_config zs = map zone_config (db_zones d)" by blast
  have "keys_ok d'" using ok r(1) config_keys(1) [OF c(1)] config_keys(2) [OF c(2)] config_keys(3) [OF c(3)] config_keys(4) [OF c(4)]
    by (simp add: keys_ok_def d')
  moreover have "operator_view d' = operator_view d" using r(2) c by (simp add: operator_view_def d')
  ultimately show "keys_ok d' \<and> operator_view d' = operator_view d" ..
qed

lemma db_split: "d = d\<lparr>db_records := db_records d, db_servers := db_servers d, db_agents := db_agents d, db_balancers := db_balancers d, db_zones := db_zones d\<rparr>"
  by simp

lemma records_ok_only: "records_ok (d\<lparr>db_servers := ss, db_agents := as, db_balancers := bs, db_zones := zs\<rparr>) = records_ok d"
  "user_rows (d\<lparr>db_servers := ss, db_agents := as, db_balancers := bs, db_zones := zs\<rparr>) = user_rows d"
  by (simp_all add: records_ok_def user_rows_def)

lemma observes_tables:
  assumes "keys_ok d \<Longrightarrow> map server_config ss = map server_config (db_servers d) \<and> map agent_config as = map agent_config (db_agents d) \<and>
      map balancer_config bs = map balancer_config (db_balancers d) \<and> map zone_config zs = map zone_config (db_zones d)"
  shows "observes d (d\<lparr>db_servers := ss, db_agents := as, db_balancers := bs, db_zones := zs\<rparr>)"
proof (rule observesI)
  assume ok: "keys_ok d"
  then show "\<exists>rs' ss' as' bs' zs'. d\<lparr>db_servers := ss, db_agents := as, db_balancers := bs, db_zones := zs\<rparr> =
      d\<lparr>db_records := rs', db_servers := ss', db_agents := as', db_balancers := bs', db_zones := zs'\<rparr> \<and>
      records_ok (d\<lparr>db_servers := ss, db_agents := as, db_balancers := bs, db_zones := zs\<rparr>) \<and>
      user_rows (d\<lparr>db_servers := ss, db_agents := as, db_balancers := bs, db_zones := zs\<rparr>) = user_rows d \<and>
      map server_config ss' = map server_config (db_servers d) \<and> map agent_config as' = map agent_config (db_agents d) \<and>
      map balancer_config bs' = map balancer_config (db_balancers d) \<and> map zone_config zs' = map zone_config (db_zones d)"
    using assms [OF ok]
    by (intro exI [of _ "db_records d"] exI [of _ ss] exI [of _ as] exI [of _ bs] exI [of _ zs])
      (simp add: records_ok_only keys_ok_def)
qed

lemma observes_hostnames: "observes d (reconcile_hostname_records dns now d)"
proof (rule observesI)
  assume "keys_ok d"
  then have ok: "records_ok d" by (simp add: keys_ok_def)
  obtain rs where "reconcile_hostname_records dns now d = d\<lparr>db_records := rs\<rparr>"
    using reconcile_hostnames_effect [OF ok, of dns now] by (auto simp: steps_to_def)
  then show "\<exists>rs ss as bs zs. reconcile_hostname_records dns now d =
      d\<lparr>db_records := rs, db_servers := ss, db_agents := as, db_balancers := bs, db_zones := zs\<rparr> \<and>
      records_ok (reconcile_hostname_records dns now d) \<and> user_rows (reconcile_hostname_records dns now d) = user_rows d \<and>
      map server_config ss = map server_config (db_servers d) \<and> map agent_config as = map agent_config (db_agents d) \<and>
      map balancer_config bs = map balancer_config (db_balancers d) \<and> map zone_config zs = map zone_config (db_zones d)"
    using reconcile_hostnames_frame(1,2) [OF ok, of dns now]
    by (intro exI [of _ rs] exI [of _ "db_servers d"] exI [of _ "db_agents d"] exI [of _ "db_balancers d"] exI [of _ "db_zones d"]) simp
qed

lemma updates_row_config: "server_config (apply_updates_row u s) = server_config s"
  by (simp add: server_config_def apply_updates_row_def Let_def split: option.split)

lemma put_server_observes:
  assumes "get_server d i = Some old" and "s_id s = i" and "server_config s = server_config old"
  shows "observes d (put_server s d)"
proof -
  have "observes d (d\<lparr>db_servers := row_put s_id s (db_servers d), db_agents := db_agents d, db_balancers := db_balancers d, db_zones := db_zones d\<rparr>)"
    using assms map_row_put [of s_id "db_servers d" s old server_config]
    by (intro observes_tables) (simp add: keys_ok_def)
  then show ?thesis by (simp add: put_server_def)
qed

lemma observes_updates: "observes d (apply_updates i u d)"
proof (cases "get_server d i")
  case (Some s)
  then show ?thesis
    using get_server_id [OF Some] put_server_observes [OF Some] by (simp add: apply_updates_def updates_row_config updates_row_id)
qed (simp add: apply_updates_def)

lemma recorded_agent_config: "agent_config (recorded_agent K now u a) = agent_config a"
  by (simp add: agent_config_def recorded_agent_def Let_def split: option.split)

lemma observes_record_agent:
  assumes "record_agent K now u d = Inr d'"
  shows "observes d d'"
proof (cases "get_agent d (ao_agent_id u)")
  case None
  with assms show ?thesis by (simp add: record_agent_def)
next
  case (Some a)
  let ?as = "row_put a_id (recorded_agent K now u a) (db_agents d)"
  obtain d1 where roles: "record_roles (ao_ipvs_backend_status u) (ao_adguard_status u) (put_agent (recorded_agent K now u a) d) = Inr d1"
    and d': "d' = (if ao_status u \<noteq> St_online then mark_unreachable u d1 else d1)"
    using record_agent_cases [OF assms Some] by blast
  have agents: "map agent_config ?as = map agent_config (db_agents d)" if "keys_ok d"
    using that map_row_put [of a_id "db_agents d" "recorded_agent K now u a" a agent_config] Some row_get_Some [OF Some]
    by (simp add: keys_ok_def recorded_agent_id recorded_agent_config)
  show ?thesis
  proof (cases "keys_ok d")
    case ok: True
    then have dist: "distinct (map s_id (db_servers (put_agent (recorded_agent K now u a) d)))" by (simp add: keys_ok_def)
    obtain ss where ss: "d1 = (put_agent (recorded_agent K now u a) d)\<lparr>db_servers := ss\<rparr>"
      and set: "map server_settings (db_servers d1) = map server_settings (db_servers d)"
      using record_roles_frame [OF roles dist] by auto
    have "\<exists>rs. d' = d\<lparr>db_servers := rs, db_agents := ?as, db_balancers := db_balancers d, db_zones := db_zones d\<rparr> \<and>
        map server_settings rs = map server_settings (db_servers d)"
    proof (cases "ao_status u \<noteq> St_online")
      case True
      then have um: "d' = mark_unreachable u d1" using d' by simp
      then have "map server_settings (db_servers d') = map server_settings (db_servers d)"
        using set by (simp add: mark_unreachable_settings)
      moreover have "d' = d\<lparr>db_servers := db_servers d', db_agents := ?as, db_balancers := db_balancers d, db_zones := db_zones d\<rparr>"
        by (simp add: um ss mark_unreachable_def put_agent_def)
      ultimately show ?thesis by blast
    qed (use d' set in \<open>auto simp: ss put_agent_def intro!: exI [of _ ss]\<close>)
    then obtain rs where rs: "d' = d\<lparr>db_servers := rs, db_agents := ?as, db_balancers := db_balancers d, db_zones := db_zones d\<rparr>"
      and same: "map server_settings rs = map server_settings (db_servers d)" by blast
    have "server_config = server_config \<circ> server_settings" by (simp add: fun_eq_iff server_config_def server_settings_def)
    then have "map server_config rs = map server_config (db_servers d)" using same by (metis map_map)
    with agents ok show ?thesis unfolding rs by (intro observes_tables) simp
  qed (simp add: observes_def)
qed

lemma observes_host_task: "observes d (host_task F cfg m K G i d)"
proof (cases "fst (reconcile_agent F cfg m K (og_agent G i) (\<lambda>j. map_option a_address (get_agent d j)) (og_now G) i d d (og_agent_at G i))")
  case (Inr r)
  then have "observes d (snd r)"
    by (auto simp: reconcile_agent_def split: option.splits prod.splits sum.splits intro: observes_record_agent)
  with Inr show ?thesis by (simp add: host_task_def case_prod_beta)
qed (simp add: host_task_def)

lemma observes_hosts: "observes d (hosts_phase F cfg m K G only d)"
  by (auto simp: hosts_phase_def reconcile_hosts_def observes_host_task intro: observes_fold split: option.split)

lemma observes_view: "observes d (record_view lb rows t d)"
proof (cases "get_server d (bt_server_id t)")
  case (Some s)
  have "server_config (lb_viewed lb rows t s) = server_config s" by (simp add: server_config_def lb_viewed_def)
  with Some get_server_id [OF Some] show ?thesis
    by (simp add: record_view_def put_server_observes lb_viewed_id)
qed (simp add: record_view_def)

lemma recorded_lb_config: "balancer_config (recorded_lb now u lb) = balancer_config lb"
  by (simp add: balancer_config_def recorded_lb_def Let_def split: option.split)

lemma observes_record_lb: "observes d (record_lb now u d)"
proof (cases "get_balancer d (lo_lb_id u)")
  case (Some lb)
  let ?bs = "row_put b_id (recorded_lb now u lb) (db_balancers d)"
  have "observes d (d\<lparr>db_servers := db_servers d, db_agents := db_agents d, db_balancers := ?bs, db_zones := db_zones d\<rparr>)"
    using map_row_put [of b_id "db_balancers d" "recorded_lb now u lb" lb balancer_config] Some row_get_Some [OF Some]
    by (intro observes_tables) (simp add: keys_ok_def recorded_lb_id recorded_lb_config)
  then have "observes d (put_balancer (recorded_lb now u lb) d)" by (simp add: put_balancer_def)
  with Some show ?thesis
    by (auto simp: record_lb_def intro: observes_trans observes_fold observes_view)
qed (simp add: record_lb_def)

lemma observes_zone_vrrp:
  assumes "ensure_zone_vrrp F cfg tok z d = Inr d'" and "get_zone d i = Some z"
  shows "observes d d'"
proof -
  obtain z' where z': "d' = put_zone z' d" "z_id z' = z_id z" "zone_config z' = zone_config z"
    using assms(1) by (auto simp: ensure_zone_vrrp_def Let_def zone_config_def split: if_splits sum.splits)
  have "observes d (d\<lparr>db_servers := db_servers d, db_agents := db_agents d, db_balancers := db_balancers d, db_zones := row_put z_id z' (db_zones d)\<rparr>)"
    using map_row_put [of z_id "db_zones d" z' z zone_config] assms(2) row_get_Some [OF assms(2)] z'
    by (intro observes_tables) (simp add: keys_ok_def)
  then show ?thesis by (simp add: z' put_zone_def)
qed

lemma observes_lb_plan:
  assumes "lb_plan_of F cfg tok i d = Inr (p, d')"
  shows "observes d d'"
  using assms observes_zone_vrrp
  by (auto simp: lb_plan_of_def Let_def split: option.splits if_splits sum.splits)

lemma observes_balancer_task: "observes d (balancer_task F cfg K G i d)"
proof (cases "lb_plan_of F cfg (og_token G) i d")
  case (Inr r)
  obtain p d1 where r: "r = (p, d1)" by (cases r)
  have "observes d d1" using observes_lb_plan Inr r by blast
  moreover have "observes d1 (balancer_task F cfg K G i d)"
    using Inr r observes_record_lb
    by (cases p) (auto simp: balancer_task_def reconcile_load_balancer_def split: prod.split)
  ultimately show ?thesis by (rule observes_trans)
qed (simp add: balancer_task_def reconcile_load_balancer_def)

lemma observes_step: "observes d (fn_db (fan_step server_snapshot (write_back G dry) ev st))"
  if "observes d (fn_db st)" for st
  using that by (cases ev) (auto simp: write_back_def intro: observes_trans observes_updates split: option.split)

lemma observes_due: "observes d (snd (reconcile_due G dry busy evs ids d))"
proof -
  have "observes d (fn_db (fold (fan_step server_snapshot (write_back G dry)) evs st))" if "observes d (fn_db st)" for st
    using that by (induction evs arbitrary: st) (simp_all add: observes_step)
  then show ?thesis by (simp add: reconcile_due_def fan_run_def Let_def)
qed

lemma observes_balancers: "observes d (reconcile_balancers F cfg K G d)"
  by (simp add: reconcile_balancers_def observes_fold observes_balancer_task)

lemma observes_cycle_hosts: "observes d (cycle_hosts F cfg m K G dry only d)"
  by (auto simp: cycle_hosts_def intro: observes_trans [OF observes_hostnames observes_hosts])

lemma observes_cycle_servers: "observes d (snd (cycle_servers G busy evs dry only force d))"
  using observes_due [of d G] by (simp add: cycle_servers_def Let_def)

lemma observes_cycle: "observes d (snd (reconcile_all F cfg m K G busy evs dry only force d))"
proof -
  let ?d1 = "cycle_hosts F cfg m K G dry only d"
  let ?d2 = "snd (cycle_servers G busy evs dry only force ?d1)"
  have "observes d ?d2" using observes_trans [OF observes_cycle_hosts observes_cycle_servers] by blast
  moreover have "observes ?d2 (snd (reconcile_all F cfg m K G busy evs dry only force d))"
    by (simp add: reconcile_all_def case_prod_beta observes_balancers)
  ultimately show ?thesis by (rule observes_trans)
qed

section \<open>The background loops\<close>

text \<open>
  \<open>SyncManager\<close> (backend/app/sync.py) and \<open>UpdateManager\<close> (backend/app/updater.py) are the same machine: a
  task that runs a pass and then waits for the interval or the stop event, and a lock that is only held
  during a periodic pass. A pass is any results and instant; it may also crash.
\<close>

datatype loop_task =
    Absent        \<comment> \<open>\<open>_task is None\<close>\<close>
  | Loop_head     \<comment> \<open>about to test the stop event\<close>
  | In_pass
  | Waiting
  | Finished      \<comment> \<open>\<open>_task.done()\<close>\<close>

record 'r manager =
  mg_task :: loop_task
  mg_stop :: bool
  mg_lock :: bool
  mg_last_run :: "int option"
  mg_last_results :: "'r list"

definition new_manager :: "'r manager" where
  "new_manager = \<lparr>mg_task = Absent, mg_stop = False, mg_lock = False, mg_last_run = None, mg_last_results = []\<rparr>"

definition manager_start :: "bool \<Rightarrow> 'r manager \<Rightarrow> 'r manager" where
  "manager_start enabled m =
     (if \<not> enabled then m
      else if mg_task m = Absent \<or> mg_task m = Finished then m\<lparr>mg_stop := False, mg_task := Loop_head\<rparr> else m)"

text \<open>One turn of \<open>_loop\<close> up to the pass: a tick that finds the lock taken is skipped.\<close>

definition loop_tick :: "'r manager \<Rightarrow> 'r manager" where
  "loop_tick m =
     (if mg_stop m then m\<lparr>mg_task := Finished\<rparr>
      else if mg_lock m then m\<lparr>mg_task := Waiting\<rparr>
      else m\<lparr>mg_lock := True, mg_task := In_pass\<rparr>)"

text \<open>What a full pass that is not a dry run leaves behind, periodic or manual.\<close>

definition record_pass :: "int \<Rightarrow> 'r list \<Rightarrow> 'r manager \<Rightarrow> 'r manager" where
  "record_pass now results m = m\<lparr>mg_last_results := results, mg_last_run := Some now\<rparr>"

definition pass_over :: "'r manager \<Rightarrow> 'r manager" where
  "pass_over m = m\<lparr>mg_lock := False, mg_task := Waiting\<rparr>"

definition request_stop :: "'r manager \<Rightarrow> 'r manager" where
  "request_stop m = m\<lparr>mg_stop := True\<rparr>"

text \<open>After the grace period the task is cancelled, which releases the lock it may hold.\<close>

definition cancel_loop :: "'r manager \<Rightarrow> 'r manager" where
  "cancel_loop m = m\<lparr>mg_task := Absent, mg_lock := False\<rparr>"

inductive manager_step :: "'r manager \<Rightarrow> 'r manager \<Rightarrow> bool" where
  ms_start: "manager_step m (manager_start enabled m)"
| ms_tick: "mg_task m = Loop_head \<Longrightarrow> manager_step m (loop_tick m)"
| ms_pass: "mg_task m = In_pass \<Longrightarrow> manager_step m (pass_over (record_pass now results m))"
| ms_crash: "mg_task m = In_pass \<Longrightarrow> manager_step m (pass_over m)"
| ms_wake: "mg_task m = Waiting \<Longrightarrow> manager_step m (m\<lparr>mg_task := Loop_head\<rparr>)"
| ms_manual: "manager_step m (record_pass now results m)"
| ms_stop: "manager_step m (request_stop m)"
| ms_stopped: "mg_stop m \<Longrightarrow> mg_task m = Finished \<Longrightarrow> manager_step m (m\<lparr>mg_task := Absent\<rparr>)"
| ms_cancel: "mg_stop m \<Longrightarrow> manager_step m (cancel_loop m)"

inductive_cases manager_stepE: "manager_step m m'"

abbreviation manager_reaches :: "'r manager \<Rightarrow> 'r manager \<Rightarrow> bool" where
  "manager_reaches \<equiv> manager_step\<^sup>*\<^sup>*"

text \<open>The lock is held exactly while the loop is in a pass.\<close>

definition manager_ok :: "'r manager \<Rightarrow> bool" where
  "manager_ok m \<longleftrightarrow> (mg_lock m \<longleftrightarrow> mg_task m = In_pass)"

lemmas manager_defs = manager_start_def loop_tick_def record_pass_def pass_over_def request_stop_def cancel_loop_def

lemma manager_step_ok: "manager_step m m' \<Longrightarrow> manager_ok m \<Longrightarrow> manager_ok m'"
  by (induction rule: manager_step.induct) (auto simp: manager_ok_def manager_defs)

lemma manager_reaches_ok: "manager_reaches m m' \<Longrightarrow> manager_ok m \<Longrightarrow> manager_ok m'"
  by (induction rule: rtranclp_induct) (auto intro: manager_step_ok)

section \<open>Properties\<close>


definition two_servers :: db where
  "two_servers = empty_db\<lparr>db_servers := [sample_server 1 ''a'' [], sample_server 2 ''b'' []]\<rparr>"

definition silent_box :: "nat wenv" where
  "silent_box = \<lparr>e_call = (\<lambda>c n. (Inl (AdGuardError ''timed out'' None None), n)), e_now = (\<lambda>_. 0), e_loop_time = int\<rparr>"

definition silent_fleet :: "nat outside" where
  "silent_fleet =
     \<lparr>og_build = (\<lambda>_ _ _ _. None), og_server = (\<lambda>_. silent_box), og_server_at = (\<lambda>_. \<lparr>w_log = [], w_out = 0\<rparr>),
      og_agent = (\<lambda>_. silent_box), og_agent_at = (\<lambda>_. \<lparr>w_log = [], w_out = 0\<rparr>),
      og_balancer = (\<lambda>_. silent_box), og_balancer_at = (\<lambda>_. \<lparr>w_log = [], w_out = 0\<rparr>),
      og_dns = (\<lambda>_. None), og_now = 0, og_token = []\<rparr>"

lemma two_servers_ok: "keys_ok two_servers"
  by (simp add: keys_ok_def records_ok_def two_servers_def empty_db_def sample_server_def)

lemma two_servers_due: "due_servers (cycle_hosts F cfg m K silent_fleet True None two_servers) 0 False None = [1, 2]"
  by (simp add: cycle_hosts_def due_servers_def two_servers_def sample_server_def server_due_def)




lemma dry_call_reads: "allowed_call plan True c \<Longrightarrow> \<not> is_write c"
  by (cases c) simp_all

lemma dry_due_servers: "\<exists>ss. fn_db (fold (fan_step server_snapshot (write_back G dry)) evs st) = (fn_db st)\<lparr>db_servers := ss\<rparr>"
proof (induction evs arbitrary: st)
  case Nil
  show ?case by (auto intro: exI [of _ "db_servers (fn_db st)"])
next
  case (Cons ev evs)
  have "\<exists>ss. fn_db (fan_step server_snapshot (write_back G dry) ev st) = (fn_db st)\<lparr>db_servers := ss\<rparr>"
  proof (cases ev)
    case (Ended i)
    show ?thesis
    proof (cases "plan_in (fn_plans st) i")
      case (Some p)
      then show ?thesis using Ended
        by (cases "get_server (fn_db st) i")
          (auto simp: write_back_def apply_updates_def put_server_def intro: exI [of _ "db_servers (fn_db st)"])
    qed (use Ended in \<open>auto intro: exI [of _ "db_servers (fn_db st)"]\<close>)
  qed (auto intro: exI [of _ "db_servers (fn_db st)"])
  with Cons.IH [of "fan_step server_snapshot (write_back G dry) ev st"] show ?case by auto
qed

text \<open>
  A dry run changes nothing outside and no row but the servers' own: the pass makes no call that writes,
  and the cycle touches no table but the servers.
\<close>

theorem dry_run_harmless:
  "log_ext (\<lambda>c. \<not> is_write c) w (snd (apply_plan build e plan True w)) \<and>
   (\<exists>ss. snd (reconcile_all F cfg m K G busy evs True only force d) = d\<lparr>db_servers := ss\<rparr>)"
proof
  show "log_ext (\<lambda>c. \<not> is_write c) w (snd (apply_plan build e plan True w))"
    by (rule log_ext_mono [OF apply_plan_log]) (rule dry_call_reads)
  show "\<exists>ss. snd (reconcile_all F cfg m K G busy evs True only force d) = d\<lparr>db_servers := ss\<rparr>"
    using dry_due_servers [of G True _ "\<lparr>fn_db = d, fn_plans = []\<rparr>"]
    by (auto simp: reconcile_all_def cycle_hosts_def cycle_servers_def reconcile_due_def fan_run_def Let_def case_prod_beta
        intro: exI [of _ "db_servers d"])
qed

text \<open>
  The periodic loop never skips a tick because a pass is still running, contrary to what its
  comments and its warning say: it awaits the pass before it waits for the next tick, so in every state the manager can reach a
  tick either starts a pass or, after a stop, ends the loop.
\<close>

theorem ticks_never_skipped:
  assumes "manager_reaches new_manager m" and "mg_task m = Loop_head"
  shows "mg_task (loop_tick m) = (if mg_stop m then Finished else In_pass)"
  using manager_reaches_ok [OF assms(1)] assms(2) by (simp add: manager_ok_def new_manager_def loop_tick_def)

theorem ticks_never_skipped_witness:
  "mg_task (loop_tick (manager_start True (new_manager :: int manager))) = In_pass"
proof -
  have "manager_reaches new_manager (manager_start True (new_manager :: int manager))"
    by (rule r_into_rtranclp) (rule ms_start)
  from ticks_never_skipped [OF this] show ?thesis by (simp add: manager_start_def new_manager_def)
qed

end
