(* ===== verification/Scoped.thy ===== *)
theory Scoped
  imports Records
begin

text \<open>
  The four tables whose rows apply globally, to zones or to one server, and their handlers:
  backend/app/routers/upstreams.py, forward_zones.py, filters.py and blocked_services.py. The scope checks and
  the normalisation of the scope columns are the same code in each of them (\<open>validate_config_scope\<close>,
  \<open>patched_scope\<close>); what they keep is that every row has exactly the targets its scope needs.
\<close>

section \<open>Scopes\<close>

definition validate_config_scope ::
  "string \<Rightarrow> db \<Rightarrow> config_scope option \<Rightarrow> int list option \<Rightarrow> int option \<Rightarrow> unit http" where
  "validate_config_scope what d scope zone_ids server_id =
     (case scope of
        Some Cfg_zone \<Rightarrow>
          (case zone_ids of
             None \<Rightarrow> Inl (HTTPException 400 (''zone-scoped '' @ what @ '' require at least one zone''))
           | Some ids \<Rightarrow>
               if ids = [] then Inl (HTTPException 400 (''zone-scoped '' @ what @ '' require at least one zone''))
               else case find (\<lambda>z. get_zone d z = None) ids of
                 Some z \<Rightarrow> Inl (HTTPException 400 (''zone '' @ show_int z @ '' does not exist''))
               | None \<Rightarrow> Inr ())
      | Some Cfg_server \<Rightarrow>
          (case server_id of
             None \<Rightarrow> Inl (HTTPException 400 (''server-scoped '' @ what @ '' require a server_id''))
           | Some i \<Rightarrow> if get_server d i = None then Inl (HTTPException 400 ''server_id does not exist'') else Inr ())
      | _ \<Rightarrow> Inr ())"

text \<open>The scope columns of a new row.\<close>

record scope_create =
  cr_scope :: config_scope
  cr_zone_ids :: "int list"
  cr_server_id :: "int option"
  cr_enabled :: bool
  cr_description :: "string option"

definition created_zones :: "'c scope_create_scheme \<Rightarrow> int list" where
  "created_zones p = (if cr_scope p = Cfg_zone then sort (remdups (cr_zone_ids p)) else [])"

definition created_server :: "'c scope_create_scheme \<Rightarrow> int option" where
  "created_server p = (if cr_scope p = Cfg_server then cr_server_id p else None)"

record scope_update =
  pu_scope :: "config_scope option option"
  pu_zone_ids :: "int list option option"
  pu_server_id :: "int option option"
  pu_enabled :: "bool option option"
  pu_description :: "string option option"

definition patched_scope ::
  "string \<Rightarrow> db \<Rightarrow> 'u scope_update_scheme \<Rightarrow> 'm scoped_scheme \<Rightarrow> 'm scoped_scheme http" where
  "patched_scope what d p row =
     (let new_scope = patch (pu_scope p) (c_scope row); new_zones = patch (pu_zone_ids p) (c_zone_ids row);
          new_server = patch_null (pu_server_id p) (c_server_id row) in
      case validate_config_scope what d new_scope new_zones new_server of
        Inl e \<Rightarrow> Inl e
      | Inr _ \<Rightarrow>
          (case (new_scope, patch (pu_enabled p) (c_enabled row)) of
             (Some sc, Some en) \<Rightarrow>
               Inr (row\<lparr>c_scope := sc,
                 c_zone_ids := (if sc \<noteq> Cfg_zone then []
                   else case pu_zone_ids p of
                     Some (Some ids) \<Rightarrow> sort (remdups ids) | _ \<Rightarrow> c_zone_ids row),
                 c_server_id := (if sc \<noteq> Cfg_server then None else new_server),
                 c_enabled := en, c_description := patch_null (pu_description p) (c_description row)\<rparr>)
           | _ \<Rightarrow> Inl server_error))"

section \<open>Upstreams\<close>

record upstream_create = scope_create +
  uc_address :: string
  uc_kind :: dns_server_kind

record upstream_update = scope_update +
  uu_address :: "string option option"
  uu_kind :: "dns_server_kind option option"

definition create_upstream :: "upstream_create \<Rightarrow> db \<Rightarrow> db http" where
  "create_upstream p d =
     (case validate_config_scope ''upstreams'' d (Some (cr_scope p)) (Some (cr_zone_ids p)) (cr_server_id p) of
        Inl e \<Rightarrow> Inl e
      | Inr _ \<Rightarrow> Inr (d\<lparr>db_upstreams := row_add c_id
          (\<lambda>i. \<lparr>c_id = i, c_scope = cr_scope p, c_zone_ids = created_zones p, c_server_id = created_server p,
                c_enabled = cr_enabled p, c_description = cr_description p,
                up_address = py_strip (uc_address p), up_kind = uc_kind p\<rparr>) (db_upstreams d)\<rparr>))"

definition update_upstream :: "int \<Rightarrow> upstream_update \<Rightarrow> db \<Rightarrow> db http" where
  "update_upstream i p d =
     (case row_get c_id i (db_upstreams d) of
        None \<Rightarrow> Inl (HTTPException 404 ''Upstream not found'')
      | Some up \<Rightarrow>
          (case patched_scope ''upstreams'' d p up of
             Inl e \<Rightarrow> Inl e
           | Inr up' \<Rightarrow>
               (case (patch (strip_field py_strip (uu_address p)) (up_address up), patch (uu_kind p) (up_kind up)) of
                  (Some a, Some k) \<Rightarrow>
                    Inr (d\<lparr>db_upstreams := row_put c_id (up'\<lparr>up_address := a, up_kind := k\<rparr>) (db_upstreams d)\<rparr>)
                | _ \<Rightarrow> Inl server_error)))"

definition delete_upstream :: "int \<Rightarrow> db \<Rightarrow> db http" where
  "delete_upstream i d =
     (case row_get c_id i (db_upstreams d) of
        None \<Rightarrow> Inl (HTTPException 404 ''Upstream not found'')
      | Some up \<Rightarrow> Inr (d\<lparr>db_upstreams := row_del c_id i (db_upstreams d)\<rparr>))"

section \<open>Forward zones\<close>

definition norm_field :: "string \<Rightarrow> string" where
  "norm_field v = py_join '' '' (re_tokens (py_strip v))"

record forward_zone_create = scope_create +
  fc_domains :: string
  fc_upstreams :: string

record forward_zone_update = scope_update +
  fu_domains :: "string option option"
  fu_upstreams :: "string option option"

definition create_forward_zone :: "forward_zone_create \<Rightarrow> db \<Rightarrow> db http" where
  "create_forward_zone p d =
     (case validate_config_scope ''forward zones'' d (Some (cr_scope p)) (Some (cr_zone_ids p)) (cr_server_id p) of
        Inl e \<Rightarrow> Inl e
      | Inr _ \<Rightarrow>
          if norm_field (fc_domains p) = [] \<or> norm_field (fc_upstreams p) = []
          then Inl (HTTPException 400 ''domains and upstreams are required'')
          else Inr (d\<lparr>db_forward_zones := row_add c_id
            (\<lambda>i. \<lparr>c_id = i, c_scope = cr_scope p, c_zone_ids = created_zones p, c_server_id = created_server p,
                  c_enabled = cr_enabled p, c_description = cr_description p,
                  fz_domains = norm_field (fc_domains p), fz_upstreams = norm_field (fc_upstreams p)\<rparr>)
            (db_forward_zones d)\<rparr>))"

definition update_forward_zone :: "int \<Rightarrow> forward_zone_update \<Rightarrow> db \<Rightarrow> db http" where
  "update_forward_zone i p d =
     (case row_get c_id i (db_forward_zones d) of
        None \<Rightarrow> Inl (HTTPException 404 ''Forward zone not found'')
      | Some fz \<Rightarrow>
          (case patched_scope ''forward zones'' d p fz of
             Inl e \<Rightarrow> Inl e
           | Inr fz' \<Rightarrow>
               (case (patch (strip_field norm_field (fu_domains p)) (fz_domains fz),
                      patch (strip_field norm_field (fu_upstreams p)) (fz_upstreams fz)) of
                  (Some ds, Some us) \<Rightarrow>
                    Inr (d\<lparr>db_forward_zones := row_put c_id (fz'\<lparr>fz_domains := ds, fz_upstreams := us\<rparr>) (db_forward_zones d)\<rparr>)
                | _ \<Rightarrow> Inl server_error)))"

definition delete_forward_zone :: "int \<Rightarrow> db \<Rightarrow> db http" where
  "delete_forward_zone i d =
     (case row_get c_id i (db_forward_zones d) of
        None \<Rightarrow> Inl (HTTPException 404 ''Forward zone not found'')
      | Some fz \<Rightarrow> Inr (d\<lparr>db_forward_zones := row_del c_id i (db_forward_zones d)\<rparr>))"

section \<open>Filter lists\<close>

record filter_create = scope_create +
  lc_list_name :: string
  lc_url :: string
  lc_kind :: filter_kind

record filter_update = scope_update +
  lu_list_name :: "string option option"
  lu_url :: "string option option"
  lu_kind :: "filter_kind option option"

definition create_filter :: "filter_create \<Rightarrow> db \<Rightarrow> db http" where
  "create_filter p d =
     (case validate_config_scope ''lists'' d (Some (cr_scope p)) (Some (cr_zone_ids p)) (cr_server_id p) of
        Inl e \<Rightarrow> Inl e
      | Inr _ \<Rightarrow>
          if py_strip (lc_url p) = [] then Inl (HTTPException 400 ''url is required'')
          else if py_strip (lc_list_name p) = [] then Inl (HTTPException 400 ''name is required'')
          else Inr (d\<lparr>db_filter_lists := row_add c_id
            (\<lambda>i. \<lparr>c_id = i, c_scope = cr_scope p, c_zone_ids = created_zones p, c_server_id = created_server p,
                  c_enabled = cr_enabled p, c_description = cr_description p,
                  fl_name = py_strip (lc_list_name p), fl_url = py_strip (lc_url p), fl_kind = lc_kind p\<rparr>)
            (db_filter_lists d)\<rparr>))"

definition update_filter :: "int \<Rightarrow> filter_update \<Rightarrow> db \<Rightarrow> db http" where
  "update_filter i p d =
     (case row_get c_id i (db_filter_lists d) of
        None \<Rightarrow> Inl (HTTPException 404 ''Filter list not found'')
      | Some fl \<Rightarrow>
          (case patched_scope ''lists'' d p fl of
             Inl e \<Rightarrow> Inl e
           | Inr fl' \<Rightarrow>
               (case (patch (strip_field py_strip (lu_list_name p)) (fl_name fl),
                      patch (strip_field py_strip (lu_url p)) (fl_url fl), patch (lu_kind p) (fl_kind fl)) of
                  (Some n, Some u, Some k) \<Rightarrow>
                    Inr (d\<lparr>db_filter_lists := row_put c_id (fl'\<lparr>fl_name := n, fl_url := u, fl_kind := k\<rparr>) (db_filter_lists d)\<rparr>)
                | _ \<Rightarrow> Inl server_error)))"

definition delete_filter :: "int \<Rightarrow> db \<Rightarrow> db http" where
  "delete_filter i d =
     (case row_get c_id i (db_filter_lists d) of
        None \<Rightarrow> Inl (HTTPException 404 ''Filter list not found'')
      | Some fl \<Rightarrow> Inr (d\<lparr>db_filter_lists := row_del c_id i (db_filter_lists d)\<rparr>))"

section \<open>Blocked services\<close>

record service_create = scope_create +
  vc_service_id :: string

record service_update = scope_update +
  vu_service_id :: "string option option"

definition create_blocked_service :: "service_create \<Rightarrow> db \<Rightarrow> db http" where
  "create_blocked_service p d =
     (case validate_config_scope ''services'' d (Some (cr_scope p)) (Some (cr_zone_ids p)) (cr_server_id p) of
        Inl e \<Rightarrow> Inl e
      | Inr _ \<Rightarrow>
          if py_strip (vc_service_id p) = [] then Inl (HTTPException 400 ''service_id is required'')
          else Inr (d\<lparr>db_blocked_services := row_add c_id
            (\<lambda>i. \<lparr>c_id = i, c_scope = cr_scope p, c_zone_ids = created_zones p, c_server_id = created_server p,
                  c_enabled = cr_enabled p, c_description = cr_description p,
                  bs_service_id = py_strip (vc_service_id p)\<rparr>) (db_blocked_services d)\<rparr>))"

definition update_blocked_service :: "int \<Rightarrow> service_update \<Rightarrow> db \<Rightarrow> db http" where
  "update_blocked_service i p d =
     (case row_get c_id i (db_blocked_services d) of
        None \<Rightarrow> Inl (HTTPException 404 ''Blocked service not found'')
      | Some bs \<Rightarrow>
          (case patched_scope ''services'' d p bs of
             Inl e \<Rightarrow> Inl e
           | Inr bs' \<Rightarrow>
               (case patch (strip_field py_strip (vu_service_id p)) (bs_service_id bs) of
                  Some v \<Rightarrow>
                    Inr (d\<lparr>db_blocked_services := row_put c_id (bs'\<lparr>bs_service_id := v\<rparr>) (db_blocked_services d)\<rparr>)
                | None \<Rightarrow> Inl server_error)))"

definition delete_blocked_service :: "int \<Rightarrow> db \<Rightarrow> db http" where
  "delete_blocked_service i d =
     (case row_get c_id i (db_blocked_services d) of
        None \<Rightarrow> Inl (HTTPException 404 ''Blocked service not found'')
      | Some bs \<Rightarrow> Inr (d\<lparr>db_blocked_services := row_del c_id i (db_blocked_services d)\<rparr>))"

section \<open>Every row has the targets of its scope\<close>

definition well_scoped :: "'m scoped_scheme \<Rightarrow> bool" where
  "well_scoped r =
     (case c_scope r of
        Cfg_global \<Rightarrow> c_zone_ids r = [] \<and> c_server_id r = None
      | Cfg_zone \<Rightarrow> c_zone_ids r \<noteq> [] \<and> sorted (c_zone_ids r) \<and> distinct (c_zone_ids r) \<and> c_server_id r = None
      | Cfg_server \<Rightarrow> c_zone_ids r = [] \<and> c_server_id r \<noteq> None)"

definition target_exists :: "db \<Rightarrow> 'm scoped_scheme \<Rightarrow> bool" where
  "target_exists d r = (case c_server_id r of None \<Rightarrow> True | Some i \<Rightarrow> get_server d i \<noteq> None)"

definition rows_ok :: "db \<Rightarrow> 'm scoped_scheme list \<Rightarrow> bool" where
  "rows_ok d rows \<longleftrightarrow> distinct (map c_id rows) \<and> (\<forall>r \<in> set rows. well_scoped r \<and> target_exists d r)"

definition config_ok :: "db \<Rightarrow> bool" where
  "config_ok d \<longleftrightarrow> rows_ok d (db_upstreams d) \<and> rows_ok d (db_forward_zones d) \<and> rows_ok d (db_filter_lists d) \<and>
     rows_ok d (db_blocked_services d)"

lemma sort_remdups_Nil [simp]: "sort (remdups xs) = [] \<longleftrightarrow> xs = []"
  by (metis set_empty set_remdups set_sort)

lemma rows_ok_add:
  assumes "rows_ok d rows" and "\<And>i. c_id (mk i) = i \<and> well_scoped (mk i) \<and> target_exists d (mk i)"
  shows "rows_ok d (row_add c_id mk rows)"
  using assms next_id_fresh [of c_id rows] by (auto simp: rows_ok_def row_add_def)

lemma rows_ok_put: "rows_ok d rows \<Longrightarrow> well_scoped r \<and> target_exists d r \<Longrightarrow> rows_ok d (row_put c_id r rows)"
  by (auto simp: rows_ok_def keys_row_put dest!: set_row_put)

lemma rows_ok_del: "rows_ok d rows \<Longrightarrow> rows_ok d (row_del c_id i rows)"
  by (auto simp: rows_ok_def row_del_def distinct_map_filter)

lemma rows_ok_servers: "db_servers d' = db_servers d \<Longrightarrow> rows_ok d' rows = rows_ok d rows"
  by (simp add: rows_ok_def target_exists_def cong: option.case_cong)

lemma created_scope:
  assumes "validate_config_scope what d (Some (cr_scope p)) (Some (cr_zone_ids p)) (cr_server_id p) = Inr u"
    and "c_scope r = cr_scope p" and "c_zone_ids r = created_zones p" and "c_server_id r = created_server p"
  shows "well_scoped r \<and> target_exists d r"
  using assms
  by (cases "cr_scope p")
    (auto simp: validate_config_scope_def well_scoped_def target_exists_def created_zones_def created_server_def
      split: if_splits option.splits)

lemma patched_scope_ok:
  assumes "patched_scope what d p r = Inr r'" and "well_scoped r"
  shows "well_scoped r' \<and> target_exists d r' \<and> c_id r' = c_id r"
proof -
  obtain sc where sc: "patch (pu_scope p) (c_scope r) = Some sc"
    and v: "validate_config_scope what d (Some sc) (patch (pu_zone_ids p) (c_zone_ids r)) (patch_null (pu_server_id p) (c_server_id r)) = Inr ()"
    and cols: "c_scope r' = sc" "c_id r' = c_id r"
      "c_zone_ids r' = (if sc \<noteq> Cfg_zone then [] else case pu_zone_ids p of Some (Some ids) \<Rightarrow> sort (remdups ids) | _ \<Rightarrow> c_zone_ids r)"
      "c_server_id r' = (if sc \<noteq> Cfg_server then None else patch_null (pu_server_id p) (c_server_id r))"
    using assms(1) by (auto simp: patched_scope_def Let_def split: option.splits sum.splits if_splits)
  show ?thesis
  proof (cases sc)
    case Cfg_zone
    show ?thesis
    proof (cases "pu_zone_ids p")
      case None
      with v Cfg_zone have "c_zone_ids r \<noteq> []" by (auto simp: validate_config_scope_def patch_def split: if_splits)
      with assms(2) have "c_scope r = Cfg_zone" by (auto simp: well_scoped_def split: config_scope.splits)
      with assms(2) cols None Cfg_zone show ?thesis by (auto simp: well_scoped_def target_exists_def)
    next
      case (Some z)
      with v Cfg_zone obtain ids where "z = Some ids" "ids \<noteq> []"
        by (cases z) (auto simp: validate_config_scope_def patch_def split: if_splits)
      with cols Some Cfg_zone show ?thesis by (auto simp: well_scoped_def target_exists_def)
    qed
  qed (use v cols in \<open>auto simp: validate_config_scope_def well_scoped_def target_exists_def split: option.splits if_splits\<close>)
qed

text \<open>A successful request to one of the twelve handlers.\<close>

inductive config_step :: "db \<Rightarrow> db \<Rightarrow> bool" where
  "create_upstream pc d = Inr d' \<Longrightarrow> config_step d d'"
| "update_upstream i pu d = Inr d' \<Longrightarrow> config_step d d'"
| "delete_upstream i d = Inr d' \<Longrightarrow> config_step d d'"
| "create_forward_zone fc d = Inr d' \<Longrightarrow> config_step d d'"
| "update_forward_zone i fu d = Inr d' \<Longrightarrow> config_step d d'"
| "delete_forward_zone i d = Inr d' \<Longrightarrow> config_step d d'"
| "create_filter lc d = Inr d' \<Longrightarrow> config_step d d'"
| "update_filter i lu d = Inr d' \<Longrightarrow> config_step d d'"
| "delete_filter i d = Inr d' \<Longrightarrow> config_step d d'"
| "create_blocked_service vc d = Inr d' \<Longrightarrow> config_step d d'"
| "update_blocked_service i vu d = Inr d' \<Longrightarrow> config_step d d'"
| "delete_blocked_service i d = Inr d' \<Longrightarrow> config_step d d'"

inductive_cases config_stepE: "config_step d d'"

lemma add_columns:
  assumes "validate_config_scope what d (Some (cr_scope p)) (Some (cr_zone_ids p)) (cr_server_id p) = Inr u"
    and "rows_ok d rows" and "\<And>i. c_id (mk i) = i" and "\<And>i. c_scope (mk i) = cr_scope p"
    and "\<And>i. c_zone_ids (mk i) = created_zones p" and "\<And>i. c_server_id (mk i) = created_server p"
  shows "rows_ok d (row_add c_id mk rows)"
  using assms by (intro rows_ok_add) (simp_all add: created_scope)

lemma put_columns:
  assumes "patched_scope what d p r = Inr r'" and "rows_ok d rows" and "row_get c_id i rows = Some r"
    and "c_id x = c_id r'" and "c_scope x = c_scope r'" and "c_zone_ids x = c_zone_ids r'" and "c_server_id x = c_server_id r'"
  shows "rows_ok d (row_put c_id x rows)"
proof -
  have "well_scoped r" using assms(2) row_get_Some [OF assms(3)] by (auto simp: rows_ok_def)
  from patched_scope_ok [OF assms(1) this] assms(4-7) have "well_scoped x \<and> target_exists d x"
    by (simp add: well_scoped_def target_exists_def cong: option.case_cong config_scope.case_cong)
  with assms(2) show ?thesis by (rule rows_ok_put)
qed

lemma config_tables:
  assumes "config_ok d"
  shows "rows_ok d us \<Longrightarrow> config_ok (d\<lparr>db_upstreams := us\<rparr>)"
    and "rows_ok d fs \<Longrightarrow> config_ok (d\<lparr>db_forward_zones := fs\<rparr>)"
    and "rows_ok d ls \<Longrightarrow> config_ok (d\<lparr>db_filter_lists := ls\<rparr>)"
    and "rows_ok d bs \<Longrightarrow> config_ok (d\<lparr>db_blocked_services := bs\<rparr>)"
  using assms by (auto simp: config_ok_def rows_ok_def target_exists_def cong: option.case_cong)

lemmas config_rows = config_ok_def [THEN iffD1, THEN conjunct1] config_ok_def [THEN iffD1, THEN conjunct2, THEN conjunct1]
  config_ok_def [THEN iffD1, THEN conjunct2, THEN conjunct2, THEN conjunct1]
  config_ok_def [THEN iffD1, THEN conjunct2, THEN conjunct2, THEN conjunct2]

lemma config_step_ok: "config_step d d' \<Longrightarrow> config_ok d \<Longrightarrow> config_ok d'"
proof (induction rule: config_step.induct)
  case (1 pc d d')
  then show ?case
    by (auto simp: create_upstream_def split: sum.splits
        intro!: config_tables(1) add_columns [where p = pc] config_rows(1))
next
  case (2 i pu d d')
  then show ?case
    by (auto simp: update_upstream_def split: sum.splits option.splits
        intro!: config_tables(1) put_columns [where i = i and p = pu] config_rows(1))
next
  case (3 i d d')
  then show ?case
    by (auto simp: delete_upstream_def split: option.splits intro!: config_tables(1) rows_ok_del config_rows(1))
next
  case (4 fc d d')
  then show ?case
    by (auto simp: create_forward_zone_def split: sum.splits if_splits
        intro!: config_tables(2) add_columns [where p = fc] config_rows(2))
next
  case (5 i fu d d')
  then show ?case
    by (auto simp: update_forward_zone_def split: sum.splits option.splits
        intro!: config_tables(2) put_columns [where i = i and p = fu] config_rows(2))
next
  case (6 i d d')
  then show ?case
    by (auto simp: delete_forward_zone_def split: option.splits intro!: config_tables(2) rows_ok_del config_rows(2))
next
  case (7 lc d d')
  then show ?case
    by (auto simp: create_filter_def split: sum.splits if_splits
        intro!: config_tables(3) add_columns [where p = lc] config_rows(3))
next
  case (8 i lu d d')
  then show ?case
    by (auto simp: update_filter_def split: sum.splits option.splits
        intro!: config_tables(3) put_columns [where i = i and p = lu] config_rows(3))
next
  case (9 i d d')
  then show ?case
    by (auto simp: delete_filter_def split: option.splits intro!: config_tables(3) rows_ok_del config_rows(3))
next
  case (10 vc d d')
  then show ?case
    by (auto simp: create_blocked_service_def split: sum.splits if_splits
        intro!: config_tables(4) add_columns [where p = vc] config_rows(4))
next
  case (11 i vu d d')
  then show ?case
    by (auto simp: update_blocked_service_def split: sum.splits option.splits
        intro!: config_tables(4) put_columns [where i = i and p = vu] config_rows(4))
next
  case (12 i d d')
  then show ?case
    by (auto simp: delete_blocked_service_def split: option.splits intro!: config_tables(4) rows_ok_del config_rows(4))
qed

section \<open>A new upstream reaches the servers it was made for\<close>

definition aimed_at :: "'c scope_create_scheme \<Rightarrow> server \<Rightarrow> bool" where
  "aimed_at p s =
     (case cr_scope p of
        Cfg_global \<Rightarrow> True
      | Cfg_zone \<Rightarrow> (case s_zone_id s of None \<Rightarrow> False | Some z \<Rightarrow> z \<in> set (cr_zone_ids p))
      | Cfg_server \<Rightarrow> cr_server_id p = Some (s_id s))"

lemma set_dedupe_from: "set (dedupe_from seen es) = {e \<in> set es. e \<noteq> [] \<and> e \<notin> set seen}"
  by (induction es arbitrary: seen) auto

lemma set_addresses: "set (addresses_of_kind d s k) =
    {py_strip (up_address u) |u. u \<in> set (db_upstreams d) \<and> c_enabled u \<and> up_kind u = k \<and> scope_matches u s \<and> py_strip (up_address u) \<noteq> []}"
  by (auto simp: addresses_of_kind_def dedupe_def set_dedupe_from)

section \<open>Properties\<close>


definition lan_upstream :: upstream_create where
  "lan_upstream =
     \<lparr>cr_scope = Cfg_zone, cr_zone_ids = [2, 1, 2], cr_server_id = Some 9, cr_enabled = True, cr_description = None,
      uc_address = '' 9.9.9.9 '', uc_kind = Kind_upstream\<rparr>"

definition two_zones :: db where
  "two_zones = empty_db\<lparr>db_zones := [sample_zone 1, sample_zone 2]\<rparr>"

lemma lan_shape:
  "cr_scope lan_upstream = Cfg_zone" "cr_zone_ids lan_upstream = [2, 1, 2]" "cr_enabled lan_upstream" "uc_kind lan_upstream = Kind_upstream"
  "uc_address lan_upstream = '' 9.9.9.9 ''"
  by (simp_all add: lan_upstream_def upstream_create.defs scope_create.defs)

lemma lan_columns:
  "created_zones lan_upstream = [1, 2]" "created_server lan_upstream = None" "py_strip (uc_address lan_upstream) = ''9.9.9.9''"
proof -
  have "py_strip '' 9.9.9.9 '' = ''9.9.9.9''" by code_simp
  then show "py_strip (uc_address lan_upstream) = ''9.9.9.9''" by (simp only: lan_shape)
  have "remdups [2, 1, 2 :: int] = [1, 2]" by simp
  then show "created_zones lan_upstream = [1, 2]" by (simp only: created_zones_def lan_shape) (simp add: sort_key_def)
  show "created_server lan_upstream = None" by (simp add: created_server_def lan_shape)
qed

lemmas lan_fields = lan_shape(1,2,3,4) lan_columns

lemma lan_upstream_valid: "validate_config_scope w two_zones (Some Cfg_zone) (Some [2, 1, 2]) i = Inr ()"
  by (simp add: validate_config_scope_def two_zones_def sample_zone_def row_get_def)

lemma lan_upstream_created: "\<exists>d'. create_upstream lan_upstream two_zones = Inr d' \<and>
    map c_zone_ids (db_upstreams d') = [[1, 2]] \<and> map c_server_id (db_upstreams d') = [None]"
proof -
  have "db_upstreams two_zones = []" by (simp add: two_zones_def empty_db_def)
  then show ?thesis by (simp add: create_upstream_def lan_fields lan_upstream_valid row_add_def)
qed


text \<open>
  A new enabled upstream is asked of exactly the servers its scope names: in the plan of
  every other server the addresses are as before, and the address it adds is the trimmed one.
\<close>

theorem new_upstream_reaches:
  assumes "create_upstream p d = Inr d'" and "cr_enabled p" and "py_strip (uc_address p) \<noteq> []"
  shows "set (addresses_of_kind d' s k) = set (addresses_of_kind d s k) \<union>
    (if k = uc_kind p \<and> aimed_at p s then {py_strip (uc_address p)} else {})"
proof -
  obtain u where d': "db_upstreams d' = db_upstreams d @ [u]" and u: "c_enabled u" "c_scope u = cr_scope p"
    "c_zone_ids u = created_zones p" "c_server_id u = created_server p" "up_address u = py_strip (uc_address p)" "up_kind u = uc_kind p"
    using assms(1,2) by (auto simp: create_upstream_def row_add_def split: sum.splits)
  have "scope_matches u s = aimed_at p s"
    by (cases "cr_scope p") (auto simp: u aimed_at_def created_zones_def created_server_def split: option.split)
  moreover have "py_strip (up_address u) = py_strip (uc_address p)" using u by (simp add: py_strip_idem)
  moreover have "set (addresses_of_kind d' s k) = set (addresses_of_kind d s k) \<union>
      (if c_enabled u \<and> up_kind u = k \<and> scope_matches u s \<and> py_strip (up_address u) \<noteq> [] then {py_strip (up_address u)} else {})"
    unfolding set_addresses d' by auto
  ultimately show ?thesis using u(1,6) assms(3) by auto
qed

theorem new_upstream_reaches_witness:
  "\<exists>d'. create_upstream lan_upstream two_zones = Inr d' \<and>
     ''9.9.9.9'' \<in> set (addresses_of_kind d' ((sample_server 4 ''a'' [])\<lparr>s_zone_id := Some 2\<rparr>) Kind_upstream) \<and>
     ''9.9.9.9'' \<notin> set (addresses_of_kind d' (sample_server 5 ''b'' []) Kind_upstream)"
proof -
  obtain d' where d': "create_upstream lan_upstream two_zones = Inr d'"
    using lan_upstream_created by (elim exE conjE) (rule that)
  have "cr_enabled lan_upstream" "py_strip (uc_address lan_upstream) \<noteq> []" by (simp_all add: lan_fields)
  note reach = new_upstream_reaches [OF d' this, unfolded lan_fields aimed_at_def]
  have "set (addresses_of_kind two_zones s k) = {}" for s k by (simp add: set_addresses two_zones_def empty_db_def)
  then have "''9.9.9.9'' \<in> set (addresses_of_kind d' ((sample_server 4 ''a'' [])\<lparr>s_zone_id := Some 2\<rparr>) Kind_upstream)"
    "''9.9.9.9'' \<notin> set (addresses_of_kind d' (sample_server 5 ''b'' []) Kind_upstream)"
    by (simp_all add: reach sample_server_def)
  then show ?thesis by (intro exI conjI) (rule d' | assumption)+
qed

end
