(* ===== verification/Imports.thy ===== *)
theory Imports
  imports Scoped SyncApply
begin

text \<open>
  Onboarding a server: the three import handlers of backend/app/routers/servers.py, which read what an
  AdGuard instance serves and add the rows the database does not have yet. All three are one loop over five
  tables; what the loop promises is the locale \<open>importer\<close>. The property that makes an import safe is that a
  pass which prunes afterwards has nothing of the instance to delete.
\<close>

section \<open>The loop\<close>

text \<open>Rows added, rows found; a query of the session sees the rows the loop has added before it.\<close>

fun import_one ::
  "('r \<Rightarrow> int) \<Rightarrow> ('x \<Rightarrow> 'r \<Rightarrow> bool) \<Rightarrow> ('x \<Rightarrow> int \<Rightarrow> 'r) \<Rightarrow> 'x \<Rightarrow> 'r list \<times> nat \<times> nat \<Rightarrow> 'r list \<times> nat \<times> nat" where
  "import_one key matches mk x (rows, n, k) =
     (if list_ex (matches x) rows then (rows, n, Suc k) else (row_add key (mk x) rows, Suc n, k))"

definition import_all ::
  "('r \<Rightarrow> int) \<Rightarrow> ('x \<Rightarrow> 'r \<Rightarrow> bool) \<Rightarrow> ('x \<Rightarrow> int \<Rightarrow> 'r) \<Rightarrow> 'x list \<Rightarrow> 'r list \<Rightarrow> 'r list \<times> nat \<times> nat" where
  "import_all key matches mk xs rows = fold (import_one key matches mk) xs (rows, 0, 0)"

lemma import_one_cases:
  "import_one key matches mk x (rows, n, k) = (rows', n', k') \<Longrightarrow>
     (list_ex (matches x) rows \<and> rows' = rows \<and> n' = n \<and> k' = Suc k) \<or>
     (\<not> list_ex (matches x) rows \<and> rows' = row_add key (mk x) rows \<and> n' = Suc n \<and> k' = k)"
  by (auto split: if_splits)

locale importer =
  fixes key :: "'r \<Rightarrow> int" and matches :: "'x \<Rightarrow> 'r \<Rightarrow> bool" and mk :: "'x \<Rightarrow> int \<Rightarrow> 'r"
  assumes mk_key: "key (mk x i) = i"
    and mk_matches: "matches x (mk x i)"
begin

lemma fold_grows:
  "fold (import_one key matches mk) xs (rows, n, k) = (rows', n', k') \<Longrightarrow>
     \<exists>new. rows' = rows @ new \<and> n' = n + length new \<and> n' + k' = n + k + length xs \<and>
       (\<forall>r\<in>set new. \<exists>x\<in>set xs. \<exists>i. r = mk x i \<and> \<not> list_ex (matches x) rows)"
proof (induction xs arbitrary: rows n k)
  case Nil
  then show ?case by simp
next
  case (Cons x xs)
  show ?case
  proof (cases "list_ex (matches x) rows")
    case True
    from Cons.IH [of rows n "Suc k"] Cons.prems True show ?thesis by auto
  next
    case False
    obtain i where added: "row_add key (mk x) rows = rows @ [mk x i]" by (auto simp: row_add_def)
    from Cons.IH [of "rows @ [mk x i]" "Suc n" k] Cons.prems False added
    obtain new where new: "rows' = rows @ mk x i # new" "n' = Suc n + length new" "n' + k' = Suc n + k + length xs"
      "\<forall>r\<in>set new. \<exists>y\<in>set xs. \<exists>i'. r = mk y i' \<and> \<not> list_ex (matches y) (rows @ [mk x i])" by auto
    show ?thesis using new False by (intro exI [of _ "mk x i # new"]) auto
  qed
qed

lemma fold_matched:
  "fold (import_one key matches mk) xs (rows, n, k) = (rows', n', k') \<Longrightarrow>
     x \<in> set xs \<Longrightarrow> list_ex (matches x) rows'"
proof (induction xs arbitrary: rows n k)
  case Nil
  then show ?case by simp
next
  case (Cons y xs)
  obtain rows1 n1 k1 where one: "import_one key matches mk y (rows, n, k) = (rows1, n1, k1)" by (metis prod_cases3)
  then have rest: "fold (import_one key matches mk) xs (rows1, n1, k1) = (rows', n', k')" using Cons.prems(1) by simp
  show ?case
  proof (cases "x = y")
    case True
    from import_one_cases [OF one] True have "list_ex (matches x) rows1" by (auto simp: row_add_def mk_matches)
    then show ?thesis using fold_grows [OF rest] by auto
  next
    case False
    then show ?thesis using Cons.IH [OF rest] Cons.prems(2) by simp
  qed
qed

lemma fold_idle:
  "(\<And>x. x \<in> set xs \<Longrightarrow> list_ex (matches x) rows) \<Longrightarrow>
     fold (import_one key matches mk) xs (rows, n, k) = (rows, n, k + length xs)"
  by (induction xs arbitrary: k) auto

lemma all_extends:
  assumes "import_all key matches mk xs rows = (rows', n, k)"
  obtains new where "rows' = rows @ new" "n = length new" "n + k = length xs"
    "\<And>r. r \<in> set new \<Longrightarrow> \<exists>x\<in>set xs. \<exists>i. r = mk x i \<and> \<not> list_ex (matches x) rows"
  using fold_grows [OF assms [unfolded import_all_def]] that by auto

lemma all_matched:
  "import_all key matches mk xs rows = (rows', n, k) \<Longrightarrow> x \<in> set xs \<Longrightarrow> \<exists>r\<in>set rows'. matches x r"
  using fold_matched [of xs rows 0 0 rows' n k x] by (auto simp: import_all_def list_ex_iff)

lemma again:
  "import_all key matches mk xs rows = (rows', n, k) \<Longrightarrow>
     import_all key matches mk xs rows' = (rows', 0, length xs)"
  using fold_matched [of xs rows 0 0 rows' n k] fold_idle [of xs rows' 0 0] by (simp add: import_all_def)

lemma keeps_all:
  assumes "import_all key matches mk xs rows = (rows', n, k)" and "\<And>r. r \<in> set rows \<Longrightarrow> P r" and "\<And>x i. P (mk x i)"
    and "r \<in> set rows'"
  shows "P r"
  using all_extends [OF assms(1)] assms(2-) by (metis UnE set_append)

lemma keeps_ids:
  assumes "distinct (map key rows)" and "import_all key matches mk xs rows = (rows', n, k)"
  shows "distinct (map key rows')"
proof -
  have "distinct (map key rows) \<Longrightarrow> fold (import_one key matches mk) xs (rows, m, j) = (rows', n, k) \<Longrightarrow>
      distinct (map key rows')" for m j
  proof (induction xs arbitrary: rows m j)
    case (Cons x xs)
    obtain rows1 n1 k1 where one: "import_one key matches mk x (rows, m, j) = (rows1, n1, k1)" by (metis prod_cases3)
    have "distinct (map key rows1)"
      using import_one_cases [OF one] Cons.prems(1) rows.add_keeps_distinct [of key rows "mk x"] mk_key by auto
    then show ?case using Cons.IH [of rows1 n1 k1] Cons.prems(2) one by simp
  qed simp
  then show ?thesis using assms by (simp add: import_all_def)
qed

end

section \<open>Asking the server\<close>

text \<open>
  Building the client is outside the \<open>try\<close> of the handlers, so what it raises is not
  turned into an answer; closing it is in their \<open>finally\<close>.
\<close>

definition ask_server ::
  "client_builder \<Rightarrow> server \<Rightarrow> string \<Rightarrow> ((call, 's) world, 'a) io \<Rightarrow> (call, 's) world \<Rightarrow> 'a http \<times> (call, 's) world" where
  "ask_server build s what m w =
     (case build (s_url s) (s_username s) (s_password_enc s) (s_tls_cert s) of
        Some x \<Rightarrow> (Inl server_error, w)
      | None \<Rightarrow>
          (case io_finally m (log_call AG_close) w of
             (Inr a, w') \<Rightarrow> (Inr a, w')
           | (Inl (AdGuardError msg code ra), w') \<Rightarrow>
               (Inl (HTTPException 502 (''Could not read '' @ what @ '' from server: '' @ msg)), w')
           | (Inl x, w') \<Rightarrow> (Inl server_error, w')))"

definition imported_from :: "server \<Rightarrow> string option" where
  "imported_from s = Some (''Imported from '' @ s_name s)"

text \<open>The zone an import is for, and whether a row reaches it; an import that is not for a zone has none.\<close>

definition target_zones :: "int option \<Rightarrow> int list" where
  "target_zones tz = (case tz of None \<Rightarrow> [] | Some z \<Rightarrow> [z])"

definition reaches_zone :: "int option \<Rightarrow> int list \<Rightarrow> bool" where
  "reaches_zone tz ids = (case tz of None \<Rightarrow> True | Some z \<Rightarrow> z \<in> set ids)"

lemma reaches_target [simp]: "reaches_zone tz (target_zones tz)"
  by (simp add: reaches_zone_def target_zones_def split: option.split)

definition server_missing :: http_error where
  "server_missing = HTTPException 404 ''Server not found''"

section \<open>Records\<close>

record import_summary =
  is_imported :: nat
  is_skipped :: nat
  is_total :: nat

definition record_matches :: "record_scope \<Rightarrow> int option \<Rightarrow> rewrite \<Rightarrow> dns_record \<Rightarrow> bool" where
  "record_matches scope tz rw r \<longleftrightarrow>
     r_domain r = py_lower (py_strip (rw_domain rw)) \<and> r_answer r = py_strip (rw_answer rw) \<and> r_scope r = scope \<and>
     reaches_zone tz (r_zone_ids r)"

definition imported_record :: "int \<Rightarrow> server \<Rightarrow> record_scope \<Rightarrow> int option \<Rightarrow> rewrite \<Rightarrow> int \<Rightarrow> dns_record" where
  "imported_record now s scope tz rw i =
     \<lparr>r_id = i, r_domain = py_lower (py_strip (rw_domain rw)), r_answer = py_strip (rw_answer rw), r_scope = scope,
      r_zone_ids = target_zones tz, r_enabled = True,
      r_description = imported_from s, r_managed = False, r_updated_at = now\<rparr>"

definition import_records ::
  "client_builder \<Rightarrow> 's wenv \<Rightarrow> int \<Rightarrow> int \<Rightarrow> record_scope \<Rightarrow> db \<Rightarrow> (call, 's) world
   \<Rightarrow> (import_summary http \<times> db) \<times> (call, 's) world" where
  "import_records build e now i scope d w =
     (case get_server d i of
        None \<Rightarrow> ((Inl server_missing, d), w)
      | Some s \<Rightarrow>
          if scope = Rec_zone \<and> s_zone_id s = None
          then ((Inl (HTTPException 400 ''Server has no zone; import as global instead''), d), w)
          else (case ask_server build s ''records'' (list_rewrites e) w of
             (Inl x, w') \<Rightarrow> ((Inl x, d), w')
           | (Inr rws, w') \<Rightarrow>
               let tz = (if scope = Rec_zone then s_zone_id s else None) in
               (case import_all r_id (record_matches scope tz) (imported_record now s scope tz) rws (db_records d) of
                  (rows, n, k) \<Rightarrow>
                    ((Inr \<lparr>is_imported = n, is_skipped = k, is_total = length rws\<rparr>, d\<lparr>db_records := rows\<rparr>), w'))))"

interpretation imported_records: importer r_id "record_matches scope tz" "imported_record now s scope tz" for scope tz now s
  by unfold_locales (simp_all add: record_matches_def imported_record_def)

section \<open>DNS settings\<close>

definition py_words :: "string \<Rightarrow> string list" where
  "py_words s = filter (\<lambda>t. t \<noteq> []) (split_by py_isspace s)"

text \<open>
  \<open>_FORWARD_RE\<close>, on a stripped line: the domains end at the first \<open>/]\<close> that leaves them and
  what follows the white space after it non-empty; neither may hold a newline.
\<close>

fun forward_split :: "string \<Rightarrow> string \<Rightarrow> (string \<times> string) option" where
  "forward_split pre [] = None"
| "forward_split pre (c # s) =
     (let addrs = py_lstrip (drop 2 (c # s)) in
      if pre \<noteq> [] \<and> py_startswith (c # s) ''/]'' \<and> addrs \<noteq> [] \<and> CHR 0x0A \<notin> set addrs then Some (rev pre, addrs)
      else if c = CHR 0x0A then None
      else forward_split (c # pre) s)"

definition forward_match :: "string \<Rightarrow> (string \<times> string) option" where
  "forward_match line = (if py_startswith line ''[/'' then forward_split [] (drop 2 line) else None)"

definition parse_upstream_line ::
  "string \<Rightarrow> string list \<times> (string list \<times> string list) list \<Rightarrow> string list \<times> (string list \<times> string list) list" where
  "parse_upstream_line raw acc =
     (let line = py_strip raw; (plain, forwards) = acc in
      if line = [] \<or> py_startswith line ''#'' then acc
      else case forward_match line of
        None \<Rightarrow> (fold set_add (py_words line) plain, forwards)
      | Some (doms, addrs) \<Rightarrow>
          let domains = filter (\<lambda>x. x \<noteq> []) (py_split (CHR ''/'') doms);
              known = (case map_of forwards domains of None \<Rightarrow> [] | Some xs \<Rightarrow> xs) in
          (plain, if py_words addrs = [] then forwards
                  else dict_set domains (fold set_add (py_words addrs) known) forwards))"

definition parse_upstreams :: "string list \<Rightarrow> string list \<times> (string list \<times> string list) list" where
  "parse_upstreams entries = fold parse_upstream_line entries ([], [])"

text \<open>What \<open>for x in j or []\<close> iterates over, \<open>None\<close> for its \<open>TypeError\<close>.\<close>

fun py_iter :: "json \<Rightarrow> json list option" where
  "py_iter (JList xs) = Some xs"
| "py_iter (JStr s) = Some (map (\<lambda>c. JStr [c]) s)"
| "py_iter (JObj d) = Some (map (\<lambda>e. JStr (fst e)) d)"
| "py_iter _ = None"

definition iter_or_empty :: "json \<Rightarrow> json list option" where
  "iter_or_empty j = (if truthy j then py_iter j else Some [])"

text \<open>\<open>(x or "").strip()\<close>, \<open>None\<close> for a truthy value that is not a string.\<close>

fun strip_or_empty :: "json \<Rightarrow> string option" where
  "strip_or_empty (JStr s) = Some (py_strip s)"
| "strip_or_empty j = (if truthy j then None else Some [])"

text \<open>
  \<open>str(x)\<close> of an entry. Floats, lists and objects, which AdGuard never sends there, are read as empty.
\<close>

fun entry_text :: "json \<Rightarrow> string" where
  "entry_text (JStr s) = s"
| "entry_text JNull = ''None''"
| "entry_text (JBool b) = (if b then ''True'' else ''False'')"
| "entry_text (JInt i) = show_int i"
| "entry_text _ = []"

definition plain_list :: "json list \<Rightarrow> string list" where
  "plain_list entries =
     fold set_add (filter (\<lambda>a. \<not> py_startswith a ''['') (concat (map (\<lambda>j. py_words (entry_text j)) entries))) []"

text \<open>Everything the handler takes from \<open>dns_info\<close>; \<open>None\<close> where the code raises.\<close>

fun opt_list :: "'a option list \<Rightarrow> 'a list option" where
  "opt_list [] = Some []"
| "opt_list (None # xs) = None"
| "opt_list (Some x # xs) = map_option (Cons x) (opt_list xs)"

definition settings_of ::
  "json \<Rightarrow> ((dns_server_kind \<times> string) list \<times> (string list \<times> string list) list) option" where
  "settings_of info =
     (case (if is_obj info then Option.bind (iter_or_empty (jget info ''upstream_dns'')) (\<lambda>xs. opt_list (map strip_or_empty xs)) else None,
            iter_or_empty (jget info ''bootstrap_dns''), iter_or_empty (jget info ''fallback_dns''),
            iter_or_empty (jget info ''local_ptr_upstreams'')) of
        (Some ups, Some boot, Some fall, Some priv) \<Rightarrow>
          (case parse_upstreams ups of
             (plain, forwards) \<Rightarrow>
               Some (map (Pair Kind_upstream) plain @ map (Pair Kind_bootstrap) (plain_list boot) @
                       map (Pair Kind_fallback) (plain_list fall) @ map (Pair Kind_private) (plain_list priv),
                     forwards))
      | _ \<Rightarrow> None)"

text \<open>Where an imported row of a scoped table belongs.\<close>

record import_target =
  it_scope :: config_scope
  it_zone :: "int option"
  it_server :: "int option"
  it_name :: "string option"

definition import_target_of :: "server \<Rightarrow> config_scope \<Rightarrow> import_target" where
  "import_target_of s scope =
     \<lparr>it_scope = scope, it_zone = (if scope = Cfg_zone then s_zone_id s else None),
      it_server = (if scope = Cfg_server then Some (s_id s) else None), it_name = imported_from s\<rparr>"

definition same_target :: "import_target \<Rightarrow> 'm scoped_scheme \<Rightarrow> bool" where
  "same_target tg row \<longleftrightarrow>
     c_scope row = it_scope tg \<and> c_server_id row = it_server tg \<and> reaches_zone (it_zone tg) (c_zone_ids row)"

definition upstream_matches :: "import_target \<Rightarrow> dns_server_kind \<times> string \<Rightarrow> upstream \<Rightarrow> bool" where
  "upstream_matches tg ka u \<longleftrightarrow> up_address u = snd ka \<and> up_kind u = fst ka \<and> same_target tg u"

definition imported_upstream :: "import_target \<Rightarrow> dns_server_kind \<times> string \<Rightarrow> int \<Rightarrow> upstream" where
  "imported_upstream tg ka i =
     \<lparr>c_id = i, c_scope = it_scope tg, c_zone_ids = target_zones (it_zone tg), c_server_id = it_server tg,
      c_enabled = True, c_description = it_name tg, up_address = snd ka, up_kind = fst ka\<rparr>"

definition forward_matches :: "import_target \<Rightarrow> string list \<times> string list \<Rightarrow> forward_zone \<Rightarrow> bool" where
  "forward_matches tg da f \<longleftrightarrow> fz_domains f = py_join '' '' (fst da) \<and> same_target tg f"

definition imported_forward :: "import_target \<Rightarrow> string list \<times> string list \<Rightarrow> int \<Rightarrow> forward_zone" where
  "imported_forward tg da i =
     \<lparr>c_id = i, c_scope = it_scope tg, c_zone_ids = target_zones (it_zone tg), c_server_id = it_server tg,
      c_enabled = True, c_description = it_name tg, fz_domains = py_join '' '' (fst da), fz_upstreams = py_join '' '' (snd da)\<rparr>"

record config_summary =
  cs_first_imported :: nat
  cs_first_skipped :: nat
  cs_second_imported :: nat
  cs_second_skipped :: nat

definition config_import_zone_error :: http_error where
  "config_import_zone_error = HTTPException 400 ''Server has no zone; import as global or server scope''"

text \<open>The frame of the two configuration imports: the server, the zone check, the read, the rows.\<close>

definition import_config ::
  "client_builder \<Rightarrow> string \<Rightarrow> ((call, 's) world, 'a) io \<Rightarrow> (import_target \<Rightarrow> 'a \<Rightarrow> db \<Rightarrow> (config_summary \<times> db) option)
   \<Rightarrow> int \<Rightarrow> config_scope \<Rightarrow> db \<Rightarrow> (call, 's) world \<Rightarrow> (config_summary http \<times> db) \<times> (call, 's) world" where
  "import_config build what ask write i scope d w =
     (case get_server d i of
        None \<Rightarrow> ((Inl server_missing, d), w)
      | Some s \<Rightarrow>
          if scope = Cfg_zone \<and> s_zone_id s = None then ((Inl config_import_zone_error, d), w)
          else (case ask_server build s what ask w of
             (Inl x, w') \<Rightarrow> ((Inl x, d), w')
           | (Inr a, w') \<Rightarrow>
               (case write (import_target_of s scope) a d of
                  None \<Rightarrow> ((Inl server_error, d), w')
                | Some (sm, d') \<Rightarrow> ((Inr sm, d'), w'))))"

definition write_settings :: "import_target \<Rightarrow> json \<Rightarrow> db \<Rightarrow> (config_summary \<times> db) option" where
  "write_settings tg info d =
     (case settings_of info of
        None \<Rightarrow> None
      | Some (addresses, forwards) \<Rightarrow>
          (case (import_all c_id (upstream_matches tg) (imported_upstream tg) addresses (db_upstreams d),
                 import_all c_id (forward_matches tg) (imported_forward tg) forwards (db_forward_zones d)) of
             ((ups, un, uk), (fzs, fn, fk)) \<Rightarrow>
               Some (\<lparr>cs_first_imported = un, cs_first_skipped = uk, cs_second_imported = fn, cs_second_skipped = fk\<rparr>,
                     d\<lparr>db_upstreams := ups, db_forward_zones := fzs\<rparr>)))"

definition import_settings ::
  "client_builder \<Rightarrow> 's wenv \<Rightarrow> int \<Rightarrow> config_scope \<Rightarrow> db \<Rightarrow> (call, 's) world
   \<Rightarrow> (config_summary http \<times> db) \<times> (call, 's) world" where
  "import_settings build e = import_config build ''settings'' (call_io e AG_dns_info) write_settings"

section \<open>Filtering\<close>

record import_filter =
  if_kind :: filter_kind
  if_url :: string
  if_name :: string
  if_enabled :: bool

text \<open>One subscription of the instance; one without an address is passed over. \<open>None\<close> where the code raises.\<close>

definition filter_item :: "filter_kind \<Rightarrow> json \<Rightarrow> import_filter list option" where
  "filter_item kind item =
     (if \<not> is_obj item then None
      else case strip_or_empty (jget item ''url'') of
        None \<Rightarrow> None
      | Some url \<Rightarrow>
          if url = [] then Some []
          else (case jget item ''name'' of
             JStr n \<Rightarrow> Some [\<lparr>if_kind = kind, if_url = url, if_name = take 200 (if n = [] then url else n),
                              if_enabled = truthy (jget_def item ''enabled'' (JBool True))\<rparr>]
           | j \<Rightarrow> if truthy j then None
                  else Some [\<lparr>if_kind = kind, if_url = url, if_name = take 200 url,
                              if_enabled = truthy (jget_def item ''enabled'' (JBool True))\<rparr>]))"

definition filter_items :: "json \<Rightarrow> filter_kind \<Rightarrow> string \<Rightarrow> import_filter list option" where
  "filter_items st kind key =
     (if is_obj st
      then Option.bind (iter_or_empty (jget st key)) (\<lambda>xs. map_option concat (opt_list (map (filter_item kind) xs)))
      else None)"

definition service_items :: "json \<Rightarrow> string list option" where
  "service_items blocked =
     (if is_obj blocked
      then Option.bind (iter_or_empty (jget blocked ''ids''))
             (\<lambda>xs. map_option (filter (\<lambda>x. x \<noteq> [])) (opt_list (map strip_or_empty xs)))
      else None)"

definition filter_matches :: "import_target \<Rightarrow> import_filter \<Rightarrow> filter_list \<Rightarrow> bool" where
  "filter_matches tg x f \<longleftrightarrow> fl_url f = if_url x \<and> fl_kind f = if_kind x \<and> same_target tg f"

definition imported_filter :: "import_target \<Rightarrow> import_filter \<Rightarrow> int \<Rightarrow> filter_list" where
  "imported_filter tg x i =
     \<lparr>c_id = i, c_scope = it_scope tg, c_zone_ids = target_zones (it_zone tg), c_server_id = it_server tg,
      c_enabled = if_enabled x, c_description = it_name tg, fl_name = if_name x, fl_url = if_url x, fl_kind = if_kind x\<rparr>"

definition service_matches :: "import_target \<Rightarrow> string \<Rightarrow> blocked_service \<Rightarrow> bool" where
  "service_matches tg sid b \<longleftrightarrow> bs_service_id b = sid \<and> same_target tg b"

definition imported_service :: "import_target \<Rightarrow> string \<Rightarrow> int \<Rightarrow> blocked_service" where
  "imported_service tg sid i =
     \<lparr>c_id = i, c_scope = it_scope tg, c_zone_ids = target_zones (it_zone tg), c_server_id = it_server tg,
      c_enabled = True, c_description = it_name tg, bs_service_id = sid\<rparr>"

text \<open>An instance that does not answer for its blocked services has none.\<close>

definition read_filtering :: "'s wenv \<Rightarrow> ((call, 's) world, json \<times> json) io" where
  "read_filtering e =
     io_bind (call_io e AG_filtering_status) (\<lambda>st.
       io_bind (io_except is_adguard_error (call_io e AG_blocked_get) (\<lambda>_. io_return (JObj [(''ids'', JList [])])))
         (\<lambda>blocked. io_return (st, blocked)))"

definition write_filtering :: "import_target \<Rightarrow> json \<times> json \<Rightarrow> db \<Rightarrow> (config_summary \<times> db) option" where
  "write_filtering tg answers d =
     (case (filter_items (fst answers) Kind_blocklist ''filters'', filter_items (fst answers) Kind_allowlist ''whitelist_filters'',
            service_items (snd answers)) of
        (Some bl, Some al, Some svc) \<Rightarrow>
          (case (import_all c_id (filter_matches tg) (imported_filter tg) (bl @ al) (db_filter_lists d),
                 import_all c_id (service_matches tg) (imported_service tg) svc (db_blocked_services d)) of
             ((fls, fn, fk), (bss, bn, bk)) \<Rightarrow>
               Some (\<lparr>cs_first_imported = fn, cs_first_skipped = fk, cs_second_imported = bn, cs_second_skipped = bk\<rparr>,
                     d\<lparr>db_filter_lists := fls, db_blocked_services := bss\<rparr>))
      | _ \<Rightarrow> None)"

definition import_filtering ::
  "client_builder \<Rightarrow> 's wenv \<Rightarrow> int \<Rightarrow> config_scope \<Rightarrow> db \<Rightarrow> (call, 's) world
   \<Rightarrow> (config_summary http \<times> db) \<times> (call, 's) world" where
  "import_filtering build e = import_config build ''filtering'' (read_filtering e) write_filtering"

lemma same_target_imported:
  "same_target tg \<lparr>c_id = i, c_scope = it_scope tg, c_zone_ids = target_zones (it_zone tg), c_server_id = it_server tg,
     c_enabled = b, c_description = x, \<dots> = m\<rparr>"
  by (simp add: same_target_def)

interpretation imported_upstreams: importer c_id "upstream_matches tg" "imported_upstream tg" for tg
  by unfold_locales (simp_all add: upstream_matches_def imported_upstream_def same_target_imported)

interpretation imported_forwards: importer c_id "forward_matches tg" "imported_forward tg" for tg
  by unfold_locales (simp_all add: forward_matches_def imported_forward_def same_target_imported)

interpretation imported_filters: importer c_id "filter_matches tg" "imported_filter tg" for tg
  by unfold_locales (simp_all add: filter_matches_def imported_filter_def same_target_imported)

interpretation imported_services: importer c_id "service_matches tg" "imported_service tg" for tg
  by unfold_locales (simp_all add: service_matches_def imported_service_def same_target_imported)

section \<open>Lower-cased and stripped\<close>

lemma lower_char_twice [simp]: "lower_char (lower_char c) = lower_char c"
proof -
  have "n < 256 \<Longrightarrow> (of_char (char_of (n + 32) :: char) :: nat) = (n + 32) mod 256" for n :: nat by simp
  then show ?thesis by (auto simp: lower_char_def Let_def)
qed

lemma lower_char_space [simp]: "py_isspace (lower_char c) = py_isspace c"
  by (auto simp: lower_char_def py_isspace_def Let_def)

lemma strip_lower: "py_strip (py_lower s) = py_lower (py_strip s)"
  by (simp add: py_strip_def py_lstrip_def py_rstrip_def py_lower_def dropWhile_map rev_map comp_def)

lemma rw_key_imported: "rw_key (rewrite_of (imported_record now s scope tz rw i)) = rw_key rw"
  by (simp add: rw_key_def rewrite_of_def imported_record_def strip_lower) (simp add: py_lower_def comp_def)

lemma rw_key_matching:
  assumes "record_matches scope tz rw r"
  shows "rw_key (rewrite_of r) = rw_key rw"
  using assms by (simp add: rw_key_def rewrite_of_def record_matches_def strip_lower) (simp add: py_lower_def comp_def)

section \<open>What an import leaves\<close>

lemma import_records_ok:
  assumes "import_records build e now i scope d w = ((Inr sm, d'), w')"
  obtains s rws rows n k where "get_server d i = Some s" "scope = Rec_zone \<Longrightarrow> s_zone_id s \<noteq> None"
    "build (s_url s) (s_username s) (s_password_enc s) (s_tls_cert s) = None"
    "fst (list_rewrites e w) = Inr rws" "d' = d\<lparr>db_records := rows\<rparr>"
    "import_all r_id (record_matches scope (if scope = Rec_zone then s_zone_id s else None))
       (imported_record now s scope (if scope = Rec_zone then s_zone_id s else None)) rws (db_records d) = (rows, n, k)"
    "is_imported sm = n" "is_skipped sm = k" "is_total sm = length rws"
proof -
  obtain s where s: "get_server d i = Some s" "\<not> (scope = Rec_zone \<and> s_zone_id s = None)"
    using assms by (auto simp: import_records_def split: option.splits if_splits)
  then obtain rws w1 where ask: "ask_server build s ''records'' (list_rewrites e) w = (Inr rws, w1)"
    using assms by (auto simp: import_records_def split: prod.splits sum.splits)
  obtain rows n k where all: "import_all r_id (record_matches scope (if scope = Rec_zone then s_zone_id s else None))
       (imported_record now s scope (if scope = Rec_zone then s_zone_id s else None)) rws (db_records d) = (rows, n, k)"
    by (metis prod_cases3)
  have b: "build (s_url s) (s_username s) (s_password_enc s) (s_tls_cert s) = None" and "fst (list_rewrites e w) = Inr rws"
    using ask by (auto simp: ask_server_def io_finally_def split: option.splits prod.splits sum.splits exn.splits)
  with s ask all assms show ?thesis
    by (intro that [of s rws rows n k]) (auto simp: import_records_def Let_def)
qed

lemma imported_record_served:
  assumes "record_matches scope (if scope = Rec_zone then s_zone_id s else None) rw r" and "r_enabled r"
    and "r \<in> set (db_records d)" and "scope = Rec_zone \<Longrightarrow> s_zone_id s \<noteq> None"
  shows "rw_key rw \<in> rw_key ` set (desired_rewrites_for_server d s)"
proof -
  have "record_applies s r"
    using assms(1,4) by (cases scope) (auto simp: record_applies_def record_matches_def reaches_zone_def)
  then have "rewrite_of r \<in> set (desired_rewrites_for_server d s)"
    using assms(2,3) by (auto simp: desired_rewrites_for_server_def)
  then show ?thesis using rw_key_matching [OF assms(1)] by (metis imageI)
qed

lemma import_records_found:
  assumes "import_records build e now i scope d w = ((Inr sm, d'), w')" and "get_server d i = Some s"
    and "fst (list_rewrites e w) = Inr rws" and "rw \<in> set rws"
  obtains r where "r \<in> set (db_records d')" "record_matches scope (if scope = Rec_zone then s_zone_id s else None) rw r"
    "r \<in> set (db_records d) \<or> r_enabled r"
proof -
  obtain rows n k where d': "d' = d\<lparr>db_records := rows\<rparr>" and
    all: "import_all r_id (record_matches scope (if scope = Rec_zone then s_zone_id s else None))
       (imported_record now s scope (if scope = Rec_zone then s_zone_id s else None)) rws (db_records d) = (rows, n, k)"
    by (rule import_records_ok [OF assms(1)]) (use assms(2,3) in auto)
  obtain r where r: "r \<in> set rows" "record_matches scope (if scope = Rec_zone then s_zone_id s else None) rw r"
    using imported_records.all_matched [OF all assms(4)] by auto
  obtain new where "rows = db_records d @ new"
    "\<And>r. r \<in> set new \<Longrightarrow> \<exists>x\<in>set rws. \<exists>i. r = imported_record now s scope (if scope = Rec_zone then s_zone_id s else None) x i
       \<and> \<not> list_ex (record_matches scope (if scope = Rec_zone then s_zone_id s else None) x) (db_records d)"
    using imported_records.all_extends [OF all] by metis
  moreover have "r_enabled (imported_record now s scope tz x j)" for tz x j by (simp add: imported_record_def)
  ultimately have "r \<in> set (db_records d) \<or> r_enabled r" using r(1) by (metis UnE set_append)
  with r d' show ?thesis by (intro that [of r]) simp_all
qed

lemma import_settings_ok:
  assumes "import_config build what ask write i scope d w = ((res, d'), w')"
  obtains "d' = d" | s a sm where "get_server d i = Some s" "scope = Cfg_zone \<Longrightarrow> s_zone_id s \<noteq> None"
    "write (import_target_of s scope) a d = Some (sm, d')"
  using assms by (auto simp: import_config_def split: option.splits if_splits prod.splits sum.splits)

lemma imported_well_scoped:
  assumes "get_server d i = Some s" and "scope = Cfg_zone \<Longrightarrow> s_zone_id s \<noteq> None"
  shows "well_scoped \<lparr>c_id = j, c_scope = it_scope (import_target_of s scope), c_zone_ids = target_zones (it_zone (import_target_of s scope)),
      c_server_id = it_server (import_target_of s scope), c_enabled = b, c_description = x, \<dots> = m\<rparr> \<and>
    target_exists d \<lparr>c_id = j, c_scope = it_scope (import_target_of s scope), c_zone_ids = target_zones (it_zone (import_target_of s scope)),
      c_server_id = it_server (import_target_of s scope), c_enabled = b, c_description = x, \<dots> = m\<rparr>"
  using assms row_get_Some [OF assms(1)]
  by (cases scope) (auto simp: well_scoped_def target_exists_def import_target_of_def target_zones_def)

lemma rows_ok_importI:
  assumes "rows_ok d rows" and "distinct (map c_id rows) \<Longrightarrow> distinct (map c_id rows')"
    and "\<And>r. r \<in> set rows' \<Longrightarrow> well_scoped r \<and> target_exists d r"
  shows "rows_ok d rows'"
  using assms by (simp add: rows_ok_def)

lemma rows_okD: "rows_ok d rows \<Longrightarrow> r \<in> set rows \<Longrightarrow> well_scoped r \<and> target_exists d r"
  by (simp add: rows_ok_def)

lemma target_exists_frame: "db_servers d' = db_servers d \<Longrightarrow> target_exists d' = target_exists d"
  by (rule ext) (simp add: target_exists_def cong: option.case_cong)

lemma rows_ok_frame: "rows_ok d rows \<Longrightarrow> db_servers d' = db_servers d \<Longrightarrow> rows_ok d' rows"
  unfolding rows_ok_def using target_exists_frame [of d' d] by metis

lemma config_ok_tables:
  assumes "rows_ok d us" "rows_ok d fs" "rows_ok d ls" "rows_ok d bs"
    and "db_servers d' = db_servers d" "db_upstreams d' = us" "db_forward_zones d' = fs" "db_filter_lists d' = ls"
      "db_blocked_services d' = bs"
  shows "config_ok d'"
  unfolding config_ok_def assms(6-9) by (intro conjI rows_ok_frame [OF _ assms(5)] assms(1-4))

lemma write_settings_ok:
  assumes "write_settings (import_target_of s scope) a d = Some (sm, d')" and "config_ok d"
    and "get_server d i = Some s" and "scope = Cfg_zone \<Longrightarrow> s_zone_id s \<noteq> None"
  shows "config_ok d'"
proof -
  let ?tg = "import_target_of s scope"
  obtain addresses forwards ups un uk fzs fn fk where
    u: "import_all c_id (upstream_matches ?tg) (imported_upstream ?tg) addresses (db_upstreams d) = (ups, un, uk)" and
    f: "import_all c_id (forward_matches ?tg) (imported_forward ?tg) forwards (db_forward_zones d) = (fzs, fn, fk)" and
    d': "d' = d\<lparr>db_upstreams := ups, db_forward_zones := fzs\<rparr>"
    using assms(1) by (auto simp: write_settings_def split: option.splits prod.splits)
  note scoped = imported_well_scoped [OF assms(3,4)]
  have old: "rows_ok d (db_upstreams d)" "rows_ok d (db_forward_zones d)" "rows_ok d (db_filter_lists d)" "rows_ok d (db_blocked_services d)"
    using assms(2) by (simp_all add: config_ok_def)
  have "rows_ok d ups"
  proof (rule rows_ok_importI [OF old(1) imported_upstreams.keeps_ids [OF _ u]])
    fix r assume "r \<in> set ups"
    then show "well_scoped r \<and> target_exists d r"
      using imported_upstreams.keeps_all [OF u, of "\<lambda>r. well_scoped r \<and> target_exists d r" r] rows_okD [OF old(1)]
      by (metis imported_upstream_def scoped)
  qed
  have "rows_ok d fzs"
  proof (rule rows_ok_importI [OF old(2) imported_forwards.keeps_ids [OF _ f]])
    fix r assume "r \<in> set fzs"
    then show "well_scoped r \<and> target_exists d r"
      using imported_forwards.keeps_all [OF f, of "\<lambda>r. well_scoped r \<and> target_exists d r" r] rows_okD [OF old(2)]
      by (metis imported_forward_def scoped)
  qed
  show ?thesis by (rule config_ok_tables [OF \<open>rows_ok d ups\<close> \<open>rows_ok d fzs\<close> old(3,4)]) (simp_all add: d')
qed

lemma write_filtering_ok:
  assumes "write_filtering (import_target_of s scope) a d = Some (sm, d')" and "config_ok d"
    and "get_server d i = Some s" and "scope = Cfg_zone \<Longrightarrow> s_zone_id s \<noteq> None"
  shows "config_ok d'"
proof -
  let ?tg = "import_target_of s scope"
  obtain xs svc fls fn fk bss bn bk where
    f: "import_all c_id (filter_matches ?tg) (imported_filter ?tg) xs (db_filter_lists d) = (fls, fn, fk)" and
    b: "import_all c_id (service_matches ?tg) (imported_service ?tg) svc (db_blocked_services d) = (bss, bn, bk)" and
    d': "d' = d\<lparr>db_filter_lists := fls, db_blocked_services := bss\<rparr>"
    using assms(1) by (auto simp: write_filtering_def split: option.splits prod.splits)
  note scoped = imported_well_scoped [OF assms(3,4)]
  have old: "rows_ok d (db_upstreams d)" "rows_ok d (db_forward_zones d)" "rows_ok d (db_filter_lists d)" "rows_ok d (db_blocked_services d)"
    using assms(2) by (simp_all add: config_ok_def)
  have "rows_ok d fls"
  proof (rule rows_ok_importI [OF old(3) imported_filters.keeps_ids [OF _ f]])
    fix r assume "r \<in> set fls"
    then show "well_scoped r \<and> target_exists d r"
      using imported_filters.keeps_all [OF f, of "\<lambda>r. well_scoped r \<and> target_exists d r" r] rows_okD [OF old(3)]
      by (metis imported_filter_def scoped)
  qed
  have "rows_ok d bss"
  proof (rule rows_ok_importI [OF old(4) imported_services.keeps_ids [OF _ b]])
    fix r assume "r \<in> set bss"
    then show "well_scoped r \<and> target_exists d r"
      using imported_services.keeps_all [OF b, of "\<lambda>r. well_scoped r \<and> target_exists d r" r] rows_okD [OF old(4)]
      by (metis imported_service_def scoped)
  qed
  show ?thesis by (rule config_ok_tables [OF old(1,2) \<open>rows_ok d fls\<close> \<open>rows_ok d bss\<close>]) (simp_all add: d')
qed

section \<open>Reading back what the plan renders\<close>

lemma split_by_clean: "\<forall>c\<in>set x. \<not> p c \<Longrightarrow> split_by p x = [x]"
  by (induction x) auto

lemma split_by_at: "\<forall>c\<in>set x. \<not> p c \<Longrightarrow> p d \<Longrightarrow> split_by p (x @ d # r) = x # split_by p r"
  by (induction x) auto

lemma words_join:
  assumes "\<forall>x\<in>set xs. x \<noteq> [] \<and> (\<forall>c\<in>set x. \<not> py_isspace c)"
  shows "py_words (py_join '' '' xs) = xs"
  using assms
proof (induction xs)
  case (Cons x xs)
  have sp: "py_isspace (CHR '' '')" by (simp add: py_isspace_def)
  show ?case
  proof (cases xs)
    case Nil
    then show ?thesis using Cons.prems by (simp add: py_words_def split_by_clean)
  next
    case (Cons y ys)
    then have "py_join '' '' (x # xs) = x @ CHR '' '' # py_join '' '' xs" by simp
    with Cons.IH Cons.prems sp show ?thesis by (simp add: py_words_def split_by_at)
  qed
qed (simp add: py_words_def)

lemma forward_split_skips:
  assumes "\<forall>c\<in>set x. c \<noteq> CHR '']'' \<and> c \<noteq> CHR 0x0A" and "rest \<noteq> []" and "hd rest = CHR ''/''"
    and "x = [] \<longrightarrow> pre = []"
  shows "forward_split pre (x @ rest) = forward_split (rev x @ pre) rest"
  using assms(1,4)
proof (induction x arbitrary: pre)
  case (Cons c x)
  have "\<not> py_startswith (c # x @ rest) ''/]'' \<or> pre = []"
    using Cons.prems assms(2,3) by (cases x; cases rest) auto
  then have "forward_split pre (c # x @ rest) = forward_split (c # pre) (x @ rest)"
    using Cons.prems by (auto simp: Let_def)
  moreover have "forward_split (c # pre) (x @ rest) = forward_split (rev x @ c # pre) rest"
  proof (cases x)
    case (Cons a y)
    then show ?thesis using Cons.IH [of "c # pre"] \<open>\<forall>c\<in>set (c # x). _ c\<close> by auto
  qed simp
  ultimately show ?case by simp
qed simp

lemma join_chars: "set (py_join sep xs) \<subseteq> \<Union> (set ` set xs) \<union> set sep"
  by (induction sep xs rule: py_join.induct) auto

lemma join_ends:
  assumes "xs \<noteq> []" and "\<forall>x\<in>set xs. x \<noteq> []"
  shows "py_join sep xs \<noteq> []" "hd (py_join sep xs) = hd (hd xs)" "last (py_join sep xs) = last (last xs)"
proof -
  have "py_join sep xs \<noteq> [] \<and> hd (py_join sep xs) = hd (hd xs) \<and> last (py_join sep xs) = last (last xs)"
    using assms by (induction sep xs rule: py_join.induct) auto
  then show "py_join sep xs \<noteq> []" "hd (py_join sep xs) = hd (hd xs)" "last (py_join sep xs) = last (last xs)" by auto
qed

lemma parse_forward_line:
  assumes ds: "ds \<noteq> []" "\<forall>x\<in>set ds. x \<noteq> [] \<and> (\<forall>c\<in>set x. \<not> py_isspace c \<and> c \<noteq> CHR ''/'' \<and> c \<noteq> CHR '']'')"
    and us: "us \<noteq> []" "\<forall>x\<in>set us. x \<noteq> [] \<and> (\<forall>c\<in>set x. \<not> py_isspace c)"
  shows "parse_upstreams [''[/'' @ py_join ''/'' ds @ ''/]'' @ py_join '' '' us] = ([], [(ds, py_set us)])"
proof -
  let ?x = "py_join ''/'' ds" and ?u = "py_join '' '' us"
  let ?rest = "''/]'' @ ?u" and ?line = "''[/'' @ ?x @ ''/]'' @ ?u"
  have nl: "py_isspace (CHR 0x0A)" "py_isspace (CHR '' '')" by (simp_all add: py_isspace_def)
  have u: "?u \<noteq> []" "\<not> py_isspace (hd ?u)" "\<not> py_isspace (last ?u)"
    using join_ends [OF us(1), of "'' ''"] us hd_in_set last_in_set by metis+
  have line: "py_strip ?line = ?line" using u by (intro strip_id) (simp add: py_isspace_def)
  have x: "?x \<noteq> []" using join_ends(1) ds by blast
  have "\<forall>c\<in>set ?x. c \<noteq> CHR '']'' \<and> c \<noteq> CHR 0x0A" using join_chars [of "''/''" ds] ds(2) nl by fastforce
  then have "forward_split [] (?x @ ?rest) = forward_split (rev ?x) ?rest"
    using forward_split_skips [of ?x ?rest "[]"] by simp
  also have "\<dots> = Some (?x, ?u)"
  proof -
    have "py_lstrip ?u = ?u" unfolding py_lstrip_def by (rule dropWhile_id) (use u in simp)
    moreover have "CHR 0x0A \<notin> set ?u" using join_chars [of "'' ''" us] us(2) nl by fastforce
    ultimately show ?thesis using x u(1) by (simp add: Let_def)
  qed
  finally have match: "forward_match ?line = Some (?x, ?u)" by (simp add: forward_match_def)
  have "filter (\<lambda>x. x \<noteq> []) (py_split (CHR ''/'') ?x) = ds"
  proof -
    have "list_all (\<lambda>x. CHR ''/'' \<notin> set x) ds" using ds(2) by (auto simp: list_all_iff)
    then have "py_split (CHR ''/'') ?x = ds" using ds(1) by (rule split_join_clean)
    then show ?thesis using ds(2) by (simp add: filter_id_conv)
  qed
  moreover have "py_words ?u = us" by (rule words_join) (rule us(2))
  moreover have "?line \<noteq> []" "\<not> py_startswith ?line ''#''" by simp_all
  moreover note line match
  ultimately show ?thesis using us(1) unfolding parse_upstreams_def parse_upstream_line_def
    by (simp add: py_set_def Let_def del: append_Cons append.simps)
qed

text \<open>An instance that serves one rewrite, and databases around it.\<close>

definition nas_rewrite :: rewrite where
  "nas_rewrite = \<lparr>rw_domain = '' NAS.lan'', rw_answer = ''10.0.0.2''\<rparr>"

definition nas_instance :: "nat wenv" where
  "nas_instance =
     \<lparr>e_call = \<lambda>c n. (Inr (if c = AG_list_rewrites
                       then JList [JObj [(''domain'', JStr '' NAS.lan''), (''answer'', JStr ''10.0.0.2'')]]
                       else if c = AG_dns_info then JObj [(''upstream_dns'', JList [JStr ''[/lan/]10.0.0.53'', JStr ''9.9.9.9''])]
                       else JObj []), n),
      e_now = int, e_loop_time = int\<rparr>"

definition pruned_server :: server where
  "pruned_server = (sample_server 1 ''a'' ''http://10.0.0.1'')\<lparr>s_prune := True, s_zone_id := Some 4\<rparr>"

definition import_world :: "(call, nat) world" where
  "import_world = \<lparr>w_log = [], w_out = 0\<rparr>"

definition plain_build :: client_builder where
  "plain_build u n p t = None"

definition onboarding :: "dns_record list \<Rightarrow> db" where
  "onboarding rs = empty_db\<lparr>db_servers := [pruned_server], db_records := rs\<rparr>"

lemma nas_rewrites: "list_rewrites nas_instance w = (Inr [nas_rewrite], w\<lparr>w_log := w_log w @ [AG_list_rewrites]\<rparr>)"
  by (simp add: list_rewrites_def io_defs call_io_def nas_instance_def nas_rewrite_def)

lemma onboarding_server: "get_server (onboarding rs) 1 = Some pruned_server"
  by (simp add: onboarding_def pruned_server_def sample_server_def row_get_def)

lemma nas_asked: "ask_server plain_build pruned_server what (list_rewrites nas_instance) w =
    (Inr [nas_rewrite], w\<lparr>w_log := w_log w @ [AG_list_rewrites, AG_close]\<rparr>)"
  by (simp add: ask_server_def plain_build_def io_finally_def nas_rewrites log_call_def)

lemma nas_imported:
  "\<exists>sm d'. import_records plain_build nas_instance 7 1 Rec_zone (onboarding rs) w =
     ((Inr sm, d'), w\<lparr>w_log := w_log w @ [AG_list_rewrites, AG_close]\<rparr>)
     \<and> get_server d' 1 = Some pruned_server \<and> is_total sm = 1"
proof -
  have z: "s_zone_id pruned_server = Some 4" by (simp add: pruned_server_def)
  obtain rows n k where all: "import_all r_id (record_matches Rec_zone (Some 4)) (imported_record 7 pruned_server Rec_zone (Some 4))
      [nas_rewrite] (db_records (onboarding rs)) = (rows, n, k)" by (metis prod_cases3)
  have "get_server ((onboarding rs)\<lparr>db_records := rows\<rparr>) 1 = Some pruned_server" using onboarding_server [of rs] by simp
  then show ?thesis by (simp add: import_records_def onboarding_server nas_asked z all Let_def)
qed

section \<open>Properties\<close>

text \<open>
  C20. Importing a server's rewrites loses nothing: after it, a pass that prunes finds nothing of what the instance
  served at the import to delete, unless the database already had one of those records switched off.
\<close>

theorem import_safe_to_prune:
  assumes "import_records build e now i scope d w = ((Inr sm, d'), w')" and "get_server d i = Some s"
    and "fst (list_rewrites e w) = Inr rws"
    and "\<forall>r \<in> set (db_records d). rw_key (rewrite_of r) \<in> rw_key ` set rws \<longrightarrow> r_enabled r"
  shows "rewrites_to_delete (build_plan d' s) rws = []"
proof -
  have "rw_key rw \<in> rw_key ` set (desired_rewrites_for_server d' s)" if rw: "rw \<in> set rws" for rw
  proof -
    obtain r where r: "r \<in> set (db_records d')" "record_matches scope (if scope = Rec_zone then s_zone_id s else None) rw r"
      "r \<in> set (db_records d) \<or> r_enabled r" by (rule import_records_found [OF assms(1-3) rw])
    have "r_enabled r" using r(3) assms(4) rw rw_key_matching [OF r(2)] by auto
    moreover have "scope = Rec_zone \<Longrightarrow> s_zone_id s \<noteq> None"
      by (rule import_records_ok [OF assms(1)]) (use assms(2) in auto)
    ultimately show ?thesis using imported_record_served r by blast
  qed
  then show ?thesis by (auto simp: rewrites_to_delete_def build_plan_def filter_empty_conv)
qed

theorem import_safe_to_prune_witness:
  "\<exists>sm d' w'. import_records plain_build nas_instance 7 1 Rec_zone (onboarding []) import_world = ((Inr sm, d'), w') \<and>
     rewrites_to_delete (build_plan d' pruned_server) [nas_rewrite] = []"
proof -
  obtain sm d' w' where imp: "import_records plain_build nas_instance 7 1 Rec_zone (onboarding []) import_world = ((Inr sm, d'), w')"
    using nas_imported by blast
  have "\<forall>r \<in> set (db_records (onboarding [])). rw_key (rewrite_of r) \<in> rw_key ` set [nas_rewrite] \<longrightarrow> r_enabled r"
    by (simp add: onboarding_def)
  moreover have "fst (list_rewrites nas_instance import_world) = Inr [nas_rewrite]" by (simp add: nas_rewrites)
  ultimately show ?thesis using import_safe_to_prune [OF imp onboarding_server] imp by auto
qed

text \<open>
  Importing twice imports nothing twice: if the instance still serves the same rewrites, the second import
  adds no row and leaves the database as the first one did, whenever and over whatever connection it runs.
\<close>

theorem import_idempotent:
  assumes "import_records build e now i scope d w = ((Inr sm, d'), w')"
    and "import_records build e2 now2 i scope d' w2 = ((Inr sm2, d''), w3)"
    and "fst (list_rewrites e2 w2) = fst (list_rewrites e w)"
  shows "d'' = d' \<and> is_imported sm2 = 0 \<and> is_skipped sm2 = is_total sm"
proof -
  obtain s rws rows n k where s: "get_server d i = Some s" and d': "d' = d\<lparr>db_records := rows\<rparr>"
    and rws: "fst (list_rewrites e w) = Inr rws" "is_total sm = length rws" and
    all: "import_all r_id (record_matches scope (if scope = Rec_zone then s_zone_id s else None))
       (imported_record now s scope (if scope = Rec_zone then s_zone_id s else None)) rws (db_records d) = (rows, n, k)"
    by (rule import_records_ok [OF assms(1)]) blast
  have matched: "list_ex (record_matches scope (if scope = Rec_zone then s_zone_id s else None) x) rows" if "x \<in> set rws" for x
    using imported_records.all_matched [OF all that] by (auto simp: list_ex_iff)
  have again: "import_all r_id (record_matches scope (if scope = Rec_zone then s_zone_id s else None))
       (imported_record now2 s scope (if scope = Rec_zone then s_zone_id s else None)) rws rows = (rows, 0, length rws)"
    using imported_records.fold_idle [OF matched] by (simp add: import_all_def)
  show ?thesis
    by (rule import_records_ok [OF assms(2)]) (use s d' rws again assms(3) in auto)
qed

theorem import_idempotent_witness:
  "\<exists>sm d' w' sm2 w3. import_records plain_build nas_instance 7 1 Rec_zone (onboarding []) import_world = ((Inr sm, d'), w') \<and>
     import_records plain_build nas_instance 9 1 Rec_zone d' w' = ((Inr sm2, d'), w3) \<and> is_imported sm2 = 0"
proof -
  obtain sm d' w' where imp: "import_records plain_build nas_instance 7 1 Rec_zone (onboarding []) import_world = ((Inr sm, d'), w')"
    and s: "get_server d' 1 = Some pruned_server"
    using nas_imported by blast
  have "s_zone_id pruned_server = Some 4" by (simp add: pruned_server_def)
  then obtain sm2 d'' w3 where again: "import_records plain_build nas_instance 9 1 Rec_zone d' w' = ((Inr sm2, d''), w3)"
    by (cases "import_all r_id (record_matches Rec_zone (Some 4)) (imported_record 9 pruned_server Rec_zone (Some 4))
        [nas_rewrite] (db_records d')") (simp add: import_records_def s nas_asked Let_def)
  have "fst (list_rewrites nas_instance w') = fst (list_rewrites nas_instance import_world)" by (simp add: nas_rewrites)
  from import_idempotent [OF imp again this] imp again show ?thesis by blast
qed

text \<open>
  The two configuration imports, for whatever an instance answers, keep every row of the four scoped tables
  consistent with its scope: what they add has exactly the targets of the scope it was imported for.
\<close>

theorem imports_keep_scopes:
  assumes "config_ok d"
    and "import_settings build e i scope d w = ((res, d'), w') \<or> import_filtering build e i scope d w = ((res, d'), w')"
  shows "config_ok d'"
  using assms(2)
proof
  assume "import_settings build e i scope d w = ((res, d'), w')"
  then show ?thesis unfolding import_settings_def
    by (elim import_settings_ok) (use assms(1) write_settings_ok in blast)+
next
  assume "import_filtering build e i scope d w = ((res, d'), w')"
  then show ?thesis unfolding import_filtering_def
    by (elim import_settings_ok) (use assms(1) write_filtering_ok in blast)+
qed

theorem imports_keep_scopes_witness:
  "\<exists>res d' w'. import_settings plain_build nas_instance 1 Cfg_zone (onboarding []) import_world = ((res, d'), w') \<and>
     config_ok d' \<and> map c_zone_ids (db_upstreams d') = [[4]]"
proof -
  let ?info = "JObj [(''upstream_dns'', JList [JStr ''[/lan/]10.0.0.53'', JStr ''9.9.9.9''])]"
  have "settings_of ?info = Some ([(Kind_upstream, ''9.9.9.9'')], [([''lan''], [''10.0.0.53''])])" by code_simp
  moreover have "ask_server plain_build pruned_server ''settings'' (call_io nas_instance AG_dns_info) import_world =
      (Inr ?info, import_world\<lparr>w_log := [AG_dns_info, AG_close]\<rparr>)"
    by (simp add: ask_server_def plain_build_def io_finally_def call_io_def nas_instance_def log_call_def import_world_def)
  moreover have "s_zone_id pruned_server = Some 4" by (simp add: pruned_server_def)
  moreover have "db_upstreams (onboarding []) = []" "db_forward_zones (onboarding []) = []" by (simp_all add: onboarding_def empty_db_def)
  ultimately obtain res d' w' where imp: "import_settings plain_build nas_instance 1 Cfg_zone (onboarding []) import_world = ((res, d'), w')"
    "map c_zone_ids (db_upstreams d') = [[4]]"
    by (simp add: import_settings_def import_config_def onboarding_server write_settings_def import_all_def
        imported_upstream_def imported_forward_def row_add_def import_target_of_def target_zones_def)
  have "config_ok (onboarding [])" by (simp add: config_ok_def rows_ok_def onboarding_def empty_db_def)
  from imports_keep_scopes [OF this disjI1 [OF imp(1)]] show ?thesis by (intro exI conjI) (rule imp | assumption)+
qed

text \<open>
  What the plan renders for a forward zone is read back by the import as that zone: the same domains and the
  same addresses, each once, provided no domain holds a slash or a closing bracket.
\<close>

theorem forward_zone_roundtrip:
  assumes "forward_zone_entry fz = Some line"
    and "\<forall>x \<in> set (re_tokens (py_strip (fz_domains fz))). CHR ''/'' \<notin> set x \<and> CHR '']'' \<notin> set x"
  shows "parse_upstreams [line] =
    ([], [(re_tokens (py_strip (fz_domains fz)), py_set (re_tokens (py_strip (fz_upstreams fz))))])"
proof -
  let ?ds = "re_tokens (py_strip (fz_domains fz))" and ?us = "re_tokens (py_strip (fz_upstreams fz))"
  have "?ds \<noteq> []" "?us \<noteq> []" and line: "line = ''[/'' @ py_join ''/'' ?ds @ ''/]'' @ py_join '' '' ?us"
    using assms(1) by (auto simp: forward_zone_entry_def Let_def split: if_splits)
  then show ?thesis unfolding line
    by (intro parse_forward_line) (use re_tokens_clean assms(2) in blast)+
qed

theorem forward_zone_roundtrip_witness:
  "parse_upstreams [''[/lan/corp.lan/]10.0.0.53 10.0.0.54''] = ([], [([''lan'', ''corp.lan''], [''10.0.0.53'', ''10.0.0.54''])])"
proof -
  let ?fz = "\<lparr>c_id = 1, c_scope = Cfg_global, c_zone_ids = [], c_server_id = None, c_enabled = True, c_description = None,
     fz_domains = ''lan, corp.lan'', fz_upstreams = ''10.0.0.53 10.0.0.54''\<rparr>"
  have d: "re_tokens (py_strip (fz_domains ?fz)) = [''lan'', ''corp.lan'']" by code_simp
  have u: "re_tokens (py_strip (fz_upstreams ?fz)) = [''10.0.0.53'', ''10.0.0.54'']" by code_simp
  have "forward_zone_entry ?fz = Some ''[/lan/corp.lan/]10.0.0.53 10.0.0.54''"
    unfolding forward_zone_entry_def d u by simp
  from forward_zone_roundtrip [OF this] show ?thesis unfolding d u by (simp add: py_set_def set_add_def)
qed

text \<open>
  A record that is switched off makes the import lossy: the import counts the rewrite as present, adds nothing,
  and the next pruning pass deletes it from the instance.
\<close>

theorem import_skips_disabled:
  assumes "import_records build e now i scope d w = ((Inr sm, d'), w')" and "get_server d i = Some s"
    and "fst (list_rewrites e w) = Inr [rw]" and "db_records d = [r]"
    and "record_matches scope (if scope = Rec_zone then s_zone_id s else None) rw r" and "\<not> r_enabled r" and "s_prune s"
  shows "d' = d \<and> is_skipped sm = 1 \<and> rewrites_to_delete (build_plan d' s) [rw] = [rw]"
proof -
  have "d' = d \<and> is_skipped sm = 1"
    by (rule import_records_ok [OF assms(1)]) (use assms(2-5) in \<open>auto simp: import_all_def\<close>)
  moreover have "desired_rewrites_for_server d s = []"
    using assms(4,6) by (simp add: desired_rewrites_for_server_def py_set_def)
  ultimately show ?thesis using assms(7) by (simp add: rewrites_to_delete_def build_plan_def)
qed

definition switched_off :: dns_record where
  "switched_off =
     \<lparr>r_id = 1, r_domain = ''nas.lan'', r_answer = ''10.0.0.2'', r_scope = Rec_zone, r_zone_ids = [4], r_enabled = False,
      r_description = None, r_managed = False, r_updated_at = 0\<rparr>"

theorem import_skips_disabled_witness:
  "\<exists>sm w'. import_records plain_build nas_instance 7 1 Rec_zone (onboarding [switched_off]) import_world =
     ((Inr sm, onboarding [switched_off]), w') \<and>
     rewrites_to_delete (build_plan (onboarding [switched_off]) pruned_server) [nas_rewrite] = [nas_rewrite]"
proof -
  obtain sm d' w' where imp: "import_records plain_build nas_instance 7 1 Rec_zone (onboarding [switched_off]) import_world = ((Inr sm, d'), w')"
    using nas_imported by blast
  have "py_lower (py_strip '' NAS.lan'') = ''nas.lan''" "py_strip ''10.0.0.2'' = ''10.0.0.2''" by code_simp+
  then have m: "record_matches Rec_zone (if Rec_zone = Rec_zone then s_zone_id pruned_server else None) nas_rewrite switched_off"
    by (simp add: record_matches_def switched_off_def nas_rewrite_def pruned_server_def reaches_zone_def)
  have "fst (list_rewrites nas_instance import_world) = Inr [nas_rewrite]" by (simp add: nas_rewrites)
  moreover have "db_records (onboarding [switched_off]) = [switched_off]" by (simp add: onboarding_def)
  moreover have "\<not> r_enabled switched_off" by (simp add: switched_off_def)
  moreover have "s_prune pruned_server" by (simp add: pruned_server_def)
  ultimately show ?thesis
    using import_skips_disabled [OF imp onboarding_server _ _ m] imp by auto
qed

end
