(* ===== verification/Admin.thy ===== *)
theory Admin
  imports Records HostPass Balancers
begin

text \<open>
  Zones, servers and hosts: the handlers of backend/app/routers/zones.py, servers.py and agents.py that change
  rows. SQLite enforces the foreign keys (backend/app/database.py), so a delete succeeds only when nothing refers
  to the row any more: \<open>fk_ok\<close> says what the database accepts, and the handlers release the references they know of.
\<close>

section \<open>What the database accepts\<close>

definition refers :: "('r \<Rightarrow> int) \<Rightarrow> 'r list \<Rightarrow> int option \<Rightarrow> bool" where
  "refers key rows r = (case r of None \<Rightarrow> True | Some i \<Rightarrow> list_ex (\<lambda>x. key x = i) rows)"

definition scoped_refs :: "db \<Rightarrow> 'm scoped_scheme list \<Rightarrow> bool" where
  "scoped_refs d rows = list_all (\<lambda>r. refers s_id (db_servers d) (c_server_id r)) rows"

definition server_refs :: "db \<Rightarrow> bool" where
  "server_refs d =
     list_all (\<lambda>s. refers z_id (db_zones d) (s_zone_id s) \<and> refers a_id (db_agents d) (s_agent_id s)) (db_servers d)"

definition config_refs :: "db \<Rightarrow> bool" where
  "config_refs d = (scoped_refs d (db_upstreams d) \<and> scoped_refs d (db_forward_zones d) \<and>
     scoped_refs d (db_filter_lists d) \<and> scoped_refs d (db_blocked_services d))"

definition token_refs :: "db \<Rightarrow> bool" where
  "token_refs d =
     list_all (\<lambda>t. refers z_id (db_zones d) (t_zone_id t) \<and> refers s_id (db_servers d) (t_server_id t) \<and>
                 refers a_id (db_agents d) (t_agent_id t) \<and> refers b_id (db_balancers d) (t_load_balancer_id t)) (db_tokens d)"

definition host_refs :: "db \<Rightarrow> bool" where
  "host_refs d =
     (list_all (\<lambda>a. refers z_id (db_zones d) (a_zone_id a)) (db_agents d) \<and>
      list_all (\<lambda>b. refers z_id (db_zones d) (b_zone_id b) \<and> refers a_id (db_agents d) (Some (b_agent_id b))) (db_balancers d) \<and>
      list_all (\<lambda>x. refers b_id (db_balancers d) (Some (o_load_balancer_id x)) \<and> refers s_id (db_servers d) (Some (o_server_id x)))
        (db_backends d))"

definition fk_ok :: "db \<Rightarrow> bool" where
  "fk_ok d = (server_refs d \<and> config_refs d \<and> token_refs d \<and> host_refs d)"

definition zones_unique :: "db \<Rightarrow> bool" where
  "zones_unique d = (distinct (map z_name (db_zones d)) \<and> distinct (map z_slug (db_zones d)))"

text \<open>\<open>session.commit()\<close>: a violated constraint raises, which is status 500, and rolls back.\<close>

definition commit :: "db \<Rightarrow> db \<Rightarrow> unit http \<times> db" where
  "commit d d' = (if fk_ok d' \<and> zones_unique d' then (Inr (), d') else (Inl server_error, d))"

section \<open>Zones\<close>

definition is_slug_char :: "char \<Rightarrow> bool" where
  "is_slug_char c =
     (let n = (of_char c :: nat) in (48 \<le> n \<and> n \<le> 57) \<or> (65 \<le> n \<and> n \<le> 90) \<or> (97 \<le> n \<and> n \<le> 122))"

text \<open>\<open>re.sub(p+, "-", s)\<close> for a class \<open>p\<close> of characters: each maximal run becomes one dash.\<close>

fun squeeze :: "(char \<Rightarrow> bool) \<Rightarrow> bool \<Rightarrow> string \<Rightarrow> string" where
  "squeeze p inside [] = []"
| "squeeze p inside (c # s) =
     (if p c then (if inside then squeeze p True s else CHR ''-'' # squeeze p True s)
      else c # squeeze p False s)"

definition strip_dashes :: "string \<Rightarrow> string" where
  "strip_dashes s = rev (dropWhile (\<lambda>c. c = CHR ''-'') (rev (dropWhile (\<lambda>c. c = CHR ''-'') s)))"

definition slugify :: "string \<Rightarrow> string" where
  "slugify v =
     (let v1 = squeeze (\<lambda>c. \<not> is_slug_char c) False (py_lower (py_strip v));
          v2 = strip_dashes (squeeze (\<lambda>c. c = CHR ''-'') False v1)
      in if v2 = [] then ''zone'' else v2)"

definition zone_taken :: "string \<Rightarrow> string \<Rightarrow> db \<Rightarrow> bool" where
  "zone_taken name slug d = list_ex (\<lambda>z. z_name z = name \<or> z_slug z = slug) (db_zones d)"

text \<open>The router id and the secret of a zone with a VIP are written after the row itself was committed.\<close>

definition zone_secrets :: "fernet \<Rightarrow> settings \<Rightarrow> string \<Rightarrow> int \<Rightarrow> db \<Rightarrow> unit http \<times> db" where
  "zone_secrets F cfg tok i d =
     (case get_zone d i of
        None \<Rightarrow> (Inl server_error, d)
      | Some z \<Rightarrow>
          if \<not> truthy_text (z_vip z) then (Inr (), d)
          else (case ensure_zone_vrrp F cfg tok z d of Inl x \<Rightarrow> (Inl server_error, d) | Inr d' \<Rightarrow> (Inr (), d')))"

definition create_zone :: "fernet \<Rightarrow> settings \<Rightarrow> string \<Rightarrow> zone_create \<Rightarrow> db \<Rightarrow> unit http \<times> db" where
  "create_zone F cfg tok p d =
     (let slug = slugify (str_or (zc_slug p) (zc_name p)); i = next_id z_id (db_zones d) in
      if zone_taken (zc_name p) slug d then (Inl (HTTPException 409 ''Zone name or slug already exists''), d)
      else case commit d (d\<lparr>db_zones := row_add z_id
             (\<lambda>i. \<lparr>z_id = i, z_name = zc_name p, z_slug = slug, z_description = zc_description p, z_vip = zc_vip p,
                   z_vrrp_router_id = zc_vrrp_router_id p, z_vrrp_auth_enc = None\<rparr>) (db_zones d)\<rparr>) of
        (Inl x, d1) \<Rightarrow> (Inl x, d1)
      | (Inr _, d1) \<Rightarrow> zone_secrets F cfg tok i d1)"

definition patched_zone :: "zone_update \<Rightarrow> zone \<Rightarrow> zone http" where
  "patched_zone p z =
     (case (patch (zu_name p) (z_name z), patch (strip_field slugify (zu_slug p)) (z_slug z)) of
        (Some nm, Some sl) \<Rightarrow>
          Inr (z\<lparr>z_name := nm, z_slug := sl, z_description := patch_null (zu_description p) (z_description z),
                 z_vip := patch_null (zu_vip p) (z_vip z),
                 z_vrrp_router_id := patch_null (zu_vrrp_router_id p) (z_vrrp_router_id z)\<rparr>)
      | _ \<Rightarrow> Inl server_error)"

definition zone_missing :: http_error where
  "zone_missing = HTTPException 404 ''Zone not found''"

definition update_zone :: "fernet \<Rightarrow> settings \<Rightarrow> string \<Rightarrow> int \<Rightarrow> zone_update \<Rightarrow> db \<Rightarrow> unit http \<times> db" where
  "update_zone F cfg tok i p d =
     (case get_zone d i of
        None \<Rightarrow> (Inl zone_missing, d)
      | Some z \<Rightarrow>
          (case patched_zone p z of
             Inl x \<Rightarrow> (Inl x, d)
           | Inr z' \<Rightarrow>
               (case commit d (put_zone z' d) of
                  (Inl x, d1) \<Rightarrow> (Inl x, d1)
                | (Inr _, d1) \<Rightarrow> zone_secrets F cfg tok i d1)))"

definition zone_members :: "int \<Rightarrow> 'm scoped_scheme list \<Rightarrow> nat" where
  "zone_members i rows = length (filter (\<lambda>r. i \<in> set (c_zone_ids r)) rows)"

definition delete_zone :: "int \<Rightarrow> db \<Rightarrow> unit http \<times> db" where
  "delete_zone i d =
     (if get_zone d i = None then (Inl zone_missing, d)
      else if list_ex (\<lambda>s. s_zone_id s = Some i) (db_servers d)
      then (Inl (HTTPException 400 ''Zone has servers; reassign or remove them first''), d)
      else if list_ex (\<lambda>b. b_zone_id b = Some i) (db_balancers d)
      then (Inl (HTTPException 400 ''Zone has load balancers; reassign or remove them first''), d)
      else if length (filter (\<lambda>r. i \<in> set (r_zone_ids r)) (db_records d)) \<noteq> 0
      then (Inl (HTTPException 400 ''Zone has DNS records; remove them first''), d)
      else if zone_members i (db_upstreams d) \<noteq> 0 \<or> zone_members i (db_forward_zones d) \<noteq> 0
      then (Inl (HTTPException 400 ''Zone has DNS settings; remove them first''), d)
      else commit d (d\<lparr>db_zones := row_del z_id i (db_zones d)\<rparr>))"

section \<open>Servers\<close>

definition validate_zone_ref :: "db \<Rightarrow> int option \<Rightarrow> unit http" where
  "validate_zone_ref d z =
     (case z of
        None \<Rightarrow> Inr ()
      | Some i \<Rightarrow> if get_zone d i = None then Inl (HTTPException 400 ''zone_id does not exist'') else Inr ())"

text \<open>A server as the API creates it.\<close>

definition created_server_row :: "settings \<Rightarrow> server_create \<Rightarrow> string option \<Rightarrow> int \<Rightarrow> server" where
  "created_server_row cfg p enc i =
     \<lparr>s_id = i, s_name = sc_name p, s_url = py_rstrip_char (CHR ''/'') (sc_url p), s_username = sc_username p,
      s_password_enc = enc, s_zone_id = sc_zone_id p, s_enabled = sc_enabled p, s_prune = sc_prune p,
      s_manage_upstreams = sc_manage_upstreams p, s_manage_filtering = sc_manage_filtering p, s_tls_cert = None,
      s_agent_id = None, s_dns_port = sc_dns_port p, s_expose_web_ui = sc_expose_web_ui p, s_agent_state = None,
      s_lb_state = None, s_stats_snapshot = None,
      s_auto_update = (case sc_auto_update p of None \<Rightarrow> cf_auto_update_default cfg | Some b \<Rightarrow> b),
      s_install_method = sc_install_method p, s_can_autoupdate = False, s_update_check_disabled = False,
      s_update_state = Upd_idle, s_update_attempted_at = None, s_update_attempted_version = None,
      s_update_completed_at = None, s_update_error = None, s_status = St_unknown, s_version = None,
      s_latest_version = None, s_update_available = False, s_last_seen = None, s_last_synced = None,
      s_last_error = None, s_cooldown_until = None, s_in_sync = False\<rparr>"

definition create_server :: "fernet \<Rightarrow> settings \<Rightarrow> server_create \<Rightarrow> db \<Rightarrow> unit http \<times> db" where
  "create_server F cfg p d =
     (case validate_zone_ref d (sc_zone_id p) of
        Inl x \<Rightarrow> (Inl x, d)
      | Inr _ \<Rightarrow>
          (case encrypt_secret F cfg (sc_password p) of
             Inl x \<Rightarrow> (Inl server_error, d)
           | Inr enc \<Rightarrow> commit d (d\<lparr>db_servers := row_add s_id (created_server_row cfg p enc) (db_servers d)\<rparr>)))"

text \<open>What the agent owns on a managed host: refused when it is given, dropped when it is empty.\<close>

definition given :: "string option option \<Rightarrow> bool" where
  "given v = (case v of Some (Some s) \<Rightarrow> s \<noteq> [] | _ \<Rightarrow> False)"

definition agent_owned :: "string \<Rightarrow> http_error" where
  "agent_owned key = HTTPException 400 (key @ '' is managed by the host agent and cannot be changed here'')"

definition managed_fields :: "server_update \<Rightarrow> server_update http" where
  "managed_fields p =
     (if given (sv_url p) then Inl (agent_owned ''url'')
      else if given (sv_username p) then Inl (agent_owned ''username'')
      else if given (sv_password p) then Inl (agent_owned ''password'')
      else Inr (p\<lparr>sv_url := None, sv_username := None, sv_password := None\<rparr>))"

text \<open>A new password or address ends the cooldown; an empty password keeps the old one.\<close>

definition rotated :: "fernet \<Rightarrow> settings \<Rightarrow> server_update \<Rightarrow> server \<Rightarrow> server http" where
  "rotated F cfg p s =
     (if given (sv_password p)
      then (case encrypt_secret F cfg (the (sv_password p)) of
         Inl x \<Rightarrow> Inl server_error
       | Inr enc \<Rightarrow> Inr (s\<lparr>s_password_enc := enc, s_cooldown_until := None\<rparr>))
      else Inr s)"

definition readdressed :: "server_update \<Rightarrow> server \<Rightarrow> server" where
  "readdressed p s = (if given (sv_url p) then s\<lparr>s_cooldown_until := None\<rparr> else s)"

definition set_server_fields :: "server_update \<Rightarrow> server \<Rightarrow> server http" where
  "set_server_fields p s =
     (case (patch (sv_name p) (s_name s), patch (strip_field (py_rstrip_char (CHR ''/'')) (sv_url p)) (s_url s),
            patch (sv_enabled p) (s_enabled s), patch (sv_prune p) (s_prune s),
            patch (sv_manage_upstreams p) (s_manage_upstreams s), patch (sv_manage_filtering p) (s_manage_filtering s),
            patch (sv_auto_update p) (s_auto_update s), patch (sv_dns_port p) (s_dns_port s),
            patch (sv_expose_web_ui p) (s_expose_web_ui s)) of
        (Some nm, Some u, Some en, Some pr, Some mu, Some mf, Some au, Some dp, Some ex) \<Rightarrow>
          Inr (s\<lparr>s_name := nm, s_url := u, s_username := patch_null (sv_username p) (s_username s),
                 s_zone_id := patch_null (sv_zone_id p) (s_zone_id s), s_enabled := en, s_prune := pr,
                 s_manage_upstreams := mu, s_manage_filtering := mf, s_auto_update := au,
                 s_install_method := patch_null (sv_install_method p) (s_install_method s), s_dns_port := dp,
                 s_expose_web_ui := ex\<rparr>)
      | _ \<Rightarrow> Inl server_error)"

definition patched_server :: "fernet \<Rightarrow> settings \<Rightarrow> server_update \<Rightarrow> server \<Rightarrow> server http" where
  "patched_server F cfg p s =
     (case (if s_agent_id s \<noteq> None then managed_fields p else Inr p) of
        Inl x \<Rightarrow> Inl x
      | Inr p' \<Rightarrow>
          (case rotated F cfg p' s of
             Inl x \<Rightarrow> Inl x
           | Inr s1 \<Rightarrow> set_server_fields p' (readdressed p' s1)))"

definition server_not_found :: http_error where
  "server_not_found = HTTPException 404 ''Server not found''"

definition patch_server :: "fernet \<Rightarrow> settings \<Rightarrow> int \<Rightarrow> server_update \<Rightarrow> db \<Rightarrow> unit http \<times> db" where
  "patch_server F cfg i p d =
     (case get_server d i of
        None \<Rightarrow> (Inl server_not_found, d)
      | Some s \<Rightarrow>
          (case (case sv_zone_id p of None \<Rightarrow> Inr () | Some z \<Rightarrow> validate_zone_ref d z) of
             Inl x \<Rightarrow> (Inl x, d)
           | Inr _ \<Rightarrow>
               (case patched_server F cfg p s of
                  Inl x \<Rightarrow> (Inl x, d)
                | Inr s' \<Rightarrow> commit d (put_server s' d))))"

text \<open>The references are released in a transaction of their own.\<close>

definition delete_server :: "int \<Rightarrow> db \<Rightarrow> unit http \<times> db" where
  "delete_server i d =
     (case get_server d i of
        None \<Rightarrow> (Inl server_not_found, d)
      | Some s \<Rightarrow>
          let d1 = release_references None (Some i) None d in
          commit d1 (d1\<lparr>db_servers := row_del s_id i (db_servers d1)\<rparr>))"

text \<open>
  One exchange with a host as the handlers have it: building the client is inside the \<open>try\<close>, an
  \<open>AgentError\<close> is status 502, and \<open>refused\<close> says what else is answered.
\<close>

definition ask_host ::
  "pki \<Rightarrow> (exn \<Rightarrow> http_error) \<Rightarrow> string \<Rightarrow> ((call, 's) world, 'a) io \<Rightarrow> (call, 's) world \<Rightarrow> 'a http \<times> (call, 's) world" where
  "ask_host K refused url m w =
     (case (case pk_client K url of Some x \<Rightarrow> (Inl x, w) | None \<Rightarrow> io_finally m (log_call AT_close) w) of
        (Inr a, w') \<Rightarrow> (Inr a, w')
      | (Inl (AgentError msg code), w') \<Rightarrow> (Inl (HTTPException 502 msg), w')
      | (Inl x, w') \<Rightarrow> (Inl (refused x), w'))"

definition reinstalling :: "server \<Rightarrow> server" where
  "reinstalling s =
     s\<lparr>s_status := St_provisioning, s_in_sync := False,
       s_agent_state := Some (JObj [(''state'', JStr ''installing''), (''message'', JStr ''reinstall requested'')])\<rparr>"

definition reinstall ::
  "pki \<Rightarrow> 's wenv \<Rightarrow> int \<Rightarrow> db \<Rightarrow> (call, 's) world \<Rightarrow> (unit http \<times> db) \<times> (call, 's) world" where
  "reinstall K e i d w =
     (case get_server d i of
        None \<Rightarrow> ((Inl server_not_found, d), w)
      | Some s \<Rightarrow>
          (case s_agent_id s of
             None \<Rightarrow> ((Inl (HTTPException 409 ''This server is not managed by a host agent''), d), w)
           | Some ai \<Rightarrow>
               (case get_agent d ai of
                  None \<Rightarrow> ((Inl (HTTPException 409 (''This server'' @ apostrophe @ ''s host no longer exists'')), d), w)
                | Some a \<Rightarrow>
                    (case ask_host K (\<lambda>x. server_error) (a_url a) (call_io e AT_reset) w of
                       (Inl x, w') \<Rightarrow> ((Inl x, put_server (reinstalling s) d), w')
                     | (Inr _, w') \<Rightarrow> ((Inr (), put_server (reinstalling s) d), w')))))"

section \<open>Hosts\<close>

definition host_missing :: http_error where
  "host_missing = HTTPException 404 ''Host not found''"

definition update_agent :: "int \<Rightarrow> agent_update \<Rightarrow> db \<Rightarrow> unit http \<times> db" where
  "update_agent i p d =
     (case get_agent d i of
        None \<Rightarrow> (Inl host_missing, d)
      | Some a \<Rightarrow>
          (case (case ag_zone_id p of None \<Rightarrow> Inr () | Some z \<Rightarrow> validate_zone_ref d z) of
             Inl x \<Rightarrow> (Inl x, d)
           | Inr _ \<Rightarrow>
               (case patch (ag_name p) (a_name a) of
                  None \<Rightarrow> (Inl server_error, d)
                | Some nm \<Rightarrow> commit d (put_agent (a\<lparr>a_name := nm, a_zone_id := patch_null (ag_zone_id p) (a_zone_id a)\<rparr>) d))))"

text \<open>Detaching the servers, releasing the references, dropping the balancers, and only then the host.\<close>

definition detached :: "int \<Rightarrow> server \<Rightarrow> server" where
  "detached i s =
     (if s_agent_id s = Some i
      then s\<lparr>s_agent_id := None, s_tls_cert := None, s_status := St_unknown, s_agent_state := None,
             s_last_error := Some ''Host agent removed; this server is no longer managed''\<rparr>
      else s)"

definition emptied_host :: "int \<Rightarrow> db \<Rightarrow> db" where
  "emptied_host i d =
     (let d1 = release_references (Some i) None None (d\<lparr>db_servers := map (detached i) (db_servers d)\<rparr>) in
      fold (\<lambda>b. drop_balancer (b_id b))
        (filter (\<lambda>b. b_agent_id b = i) (db_balancers d)) d1)"

definition delete_agent :: "bool \<Rightarrow> int \<Rightarrow> db \<Rightarrow> unit http \<times> db" where
  "delete_agent force i d =
     (case get_agent d i of
        None \<Rightarrow> (Inl host_missing, d)
      | Some a \<Rightarrow>
          if (list_ex (\<lambda>s. s_agent_id s = Some i) (db_servers d) \<or> list_ex (\<lambda>b. b_agent_id b = i) (db_balancers d)) \<and> \<not> force
          then (Inl (HTTPException 409 ''This host still has servers or load balancers; delete them first or use force=true''), d)
          else (case commit d (emptied_host i d) of
             (Inl x, d1) \<Rightarrow> (Inl x, d1)
           | (Inr _, d1) \<Rightarrow> commit d1 (d1\<lparr>db_agents := row_del a_id i (db_agents d1)\<rparr>)))"

text \<open>
  A certificate on demand. \<open>d\<close> is the database the handler read, \<open>d'\<close> the one it writes to after the exchange. A
  request the authority does not sign raises \<open>PkiError\<close>, a \<open>ValueError\<close>, which the handler answers with status 400.
\<close>

definition fresh_cert ::
  "pki \<Rightarrow> 's wenv \<Rightarrow> agent \<Rightarrow> ((call, 's) world, string http) io" where
  "fresh_cert K e a =
     io_bind (call_io e AT_renew_csr) (\<lambda>data.
     io_seq (if truthy data then expect_obj data else io_return ())
     (case text_or (jget data ''csr_pem'') [] of
        [] \<Rightarrow> io_raise (AgentError ''agent returned no CSR'' None)
      | c # cs \<Rightarrow>
          (case pk_sign K (pk_ca_cert K) (pk_ca_key K) (c # cs) (a_name a) (a_address a) of
             Inl x \<Rightarrow> io_return (Inl (HTTPException 400 (exn_str x)))
           | Inr cert \<Rightarrow> io_bind (call_io e (AT_install_cert cert (pk_ca_cert K))) (\<lambda>_. io_return (Inr cert)))))"

definition renew_cert ::
  "pki \<Rightarrow> 's wenv \<Rightarrow> int \<Rightarrow> db \<Rightarrow> db \<Rightarrow> (call, 's) world \<Rightarrow> (unit http \<times> db) \<times> (call, 's) world" where
  "renew_cert K e i d d' w =
     (case get_agent d i of
        None \<Rightarrow> ((Inl host_missing, d'), w)
      | Some a \<Rightarrow>
          (case ask_host K (\<lambda>x. server_error) (a_url a) (fresh_cert K e a) w of
             (Inl x, w') \<Rightarrow> ((Inl x, d'), w')
           | (Inr (Inl x), w') \<Rightarrow> ((Inl x, d'), w')
           | (Inr (Inr cert), w') \<Rightarrow>
               (case get_agent d' i of
                  None \<Rightarrow> ((Inl host_missing, d'), w')
                | Some a' \<Rightarrow> ((Inr (), put_agent (a'\<lparr>a_cert_pem := cert, a_cert_not_after := Some (pk_not_after K cert)\<rparr>) d'), w'))))"

section \<open>References under the handlers\<close>

lemma refers_iff: "refers key rows r \<longleftrightarrow> (\<forall>i. r = Some i \<longrightarrow> i \<in> key ` set rows)"
  by (cases r) (auto simp: refers_def list_ex_iff)

lemma refers_del: "refers key (row_del key i rows) r \<longleftrightarrow> refers key rows r \<and> r \<noteq> Some i"
  by (auto simp: refers_iff row_del_def)

lemma refers_map: "(\<And>x. key (f x) = key x) \<Longrightarrow> refers key (map f rows) r = refers key rows r"
  by (simp add: refers_iff image_image)

lemma refers_add: "refers key rows r \<Longrightarrow> refers key (row_add key mk rows) r"
  by (auto simp: refers_iff row_add_def)

lemma refers_put: "refers key (row_put key x rows) r = refers key rows r"
proof -
  have "key ` set (row_put key x rows) = key ` set rows" by (metis keys_row_put set_map)
  then show ?thesis by (simp add: refers_iff)
qed

lemma refers_Nonen [simp]: "refers key rows None" by (simp add: refers_def)

lemmas fk_defs = fk_ok_def server_refs_def config_refs_def scoped_refs_def token_refs_def host_refs_def list_all_iff

lemma fk_release_server: "fk_ok d \<Longrightarrow> fk_ok (release_server i d)"
  by (auto simp: fk_defs release_server_def)

lemma fk_release_agent: "fk_ok d \<Longrightarrow> fk_ok (release_agent i d)"
  by (auto simp: fk_defs release_agent_def)

lemma fk_drop_balancer: "fk_ok d \<Longrightarrow> fk_ok (drop_balancer i d)"
  by (auto simp: fk_defs drop_balancer_def release_balancer_def refers_del set_row_del)

lemma detached_id [simp]: "s_id (detached i s) = s_id s"
  by (simp add: detached_def)

lemma fk_detach: "fk_ok d \<Longrightarrow> fk_ok (d\<lparr>db_servers := map (detached i) (db_servers d)\<rparr>)"
  by (auto simp: fk_defs refers_map detached_def)

lemma drop_balancers_frame:
  "db_servers (fold (\<lambda>b. drop_balancer (b_id b)) bs d) = db_servers d"
  "db_agents (fold (\<lambda>b. drop_balancer (b_id b)) bs d) = db_agents d"
  "db_zones (fold (\<lambda>b. drop_balancer (b_id b)) bs d) = db_zones d"
  "map t_agent_id (db_tokens (fold (\<lambda>b. drop_balancer (b_id b)) bs d)) = map t_agent_id (db_tokens d)"
  "set (db_balancers (fold (\<lambda>b. drop_balancer (b_id b)) bs d)) = {b \<in> set (db_balancers d). b_id b \<notin> b_id ` set bs}"
  by (induction bs arbitrary: d) (auto simp: drop_balancer_def release_balancer_def row_del_def)

lemma fk_drop_balancers: "fk_ok d \<Longrightarrow> fk_ok (fold (\<lambda>b. drop_balancer (b_id b)) bs d)"
  by (induction bs arbitrary: d) (auto intro: fk_drop_balancer)

lemma emptied_host_facts:
  assumes "fk_ok d"
  shows "fk_ok (emptied_host i d)"
    and "db_servers (emptied_host i d) = map (detached i) (db_servers d)"
    and "db_agents (emptied_host i d) = db_agents d" and "db_zones (emptied_host i d) = db_zones d"
    and "\<forall>t \<in> set (db_tokens (emptied_host i d)). t_agent_id t \<noteq> Some i"
    and "\<forall>b \<in> set (db_balancers (emptied_host i d)). b_agent_id b \<noteq> i"
proof -
  let ?d1 = "release_agent i (d\<lparr>db_servers := map (detached i) (db_servers d)\<rparr>)"
    and ?bs = "filter (\<lambda>b. b_agent_id b = i) (db_balancers d)"
  have e: "emptied_host i d = fold (\<lambda>b. drop_balancer (b_id b)) ?bs ?d1"
    by (simp add: emptied_host_def release_references_def Let_def)
  show "fk_ok (emptied_host i d)" unfolding e
    by (intro fk_drop_balancers fk_release_agent fk_detach assms)
  show "db_servers (emptied_host i d) = map (detached i) (db_servers d)" "db_agents (emptied_host i d) = db_agents d"
    "db_zones (emptied_host i d) = db_zones d"
    by (simp_all add: e drop_balancers_frame release_agent_def)
  have "set (map t_agent_id (db_tokens (emptied_host i d))) = set (map t_agent_id (db_tokens ?d1))"
    unfolding e drop_balancers_frame(4) ..
  moreover have "Some i \<notin> set (map t_agent_id (db_tokens ?d1))" by (auto simp: release_agent_def split: if_splits)
  ultimately show "\<forall>t \<in> set (db_tokens (emptied_host i d)). t_agent_id t \<noteq> Some i" by force
  show "\<forall>b \<in> set (db_balancers (emptied_host i d)). b_agent_id b \<noteq> i"
    unfolding e drop_balancers_frame(5) by (auto simp: release_agent_def)
qed

lemma fk_drop_agent:
  assumes "fk_ok d" and "\<forall>s\<in>set (db_servers d). s_agent_id s \<noteq> Some i" and "\<forall>t\<in>set (db_tokens d). t_agent_id t \<noteq> Some i"
    and "\<forall>b\<in>set (db_balancers d). b_agent_id b \<noteq> i"
  shows "fk_ok (d\<lparr>db_agents := row_del a_id i (db_agents d)\<rparr>)"
  using assms by (auto simp: fk_defs refers_del set_row_del)

lemma all_refers_del:
  "list_all (\<lambda>r. refers key (row_del key i rows) (f r)) xs \<longleftrightarrow> list_all (\<lambda>r. refers key rows (f r)) xs \<and> Some i \<notin> f ` set xs"
  by (induction xs) (auto simp: refers_del)

lemma all_conj: "list_all (\<lambda>r. P r \<and> Q r) xs \<longleftrightarrow> list_all P xs \<and> list_all Q xs"
  by (induction xs) auto

lemma all_row_del: "list_all P rows \<Longrightarrow> list_all P (row_del key i rows)"
  by (auto simp: list_all_iff row_del_def)

lemma scoped_refs_drop:
  "scoped_refs (d\<lparr>db_servers := row_del s_id i (db_servers d)\<rparr>) rows \<longleftrightarrow>
     scoped_refs d rows \<and> Some i \<notin> c_server_id ` set rows"
  by (simp add: scoped_refs_def all_refers_del)

lemma Some_image: "Some i \<in> (\<lambda>x. Some (f x)) ` A \<longleftrightarrow> i \<in> f ` A"
  by auto

lemma fk_drop_server:
  assumes "fk_ok d" and "Some i \<notin> t_server_id ` set (db_tokens d)" and "i \<notin> o_server_id ` set (db_backends d)"
  shows "fk_ok (d\<lparr>db_servers := row_del s_id i (db_servers d)\<rparr>) \<longleftrightarrow>
    Some i \<notin> c_server_id ` set (db_upstreams d) \<and> Some i \<notin> c_server_id ` set (db_forward_zones d) \<and>
    Some i \<notin> c_server_id ` set (db_filter_lists d) \<and> Some i \<notin> c_server_id ` set (db_blocked_services d)"
proof -
  let ?d = "d\<lparr>db_servers := row_del s_id i (db_servers d)\<rparr>"
  have "server_refs ?d" using assms(1) by (simp add: fk_ok_def server_refs_def all_row_del)
  moreover have "token_refs ?d"
    using assms(1,2) by (simp add: fk_ok_def token_refs_def all_conj all_refers_del)
  moreover have "host_refs ?d"
    using assms(1,3) by (simp add: fk_ok_def host_refs_def all_conj all_refers_del Some_image)
  ultimately show ?thesis using assms(1) by (simp add: fk_ok_def config_refs_def scoped_refs_drop)
qed

lemma fk_drop_zone:
  assumes "fk_ok d"
  shows "fk_ok (d\<lparr>db_zones := row_del z_id i (db_zones d)\<rparr>) \<longleftrightarrow>
    Some i \<notin> s_zone_id ` set (db_servers d) \<and> Some i \<notin> b_zone_id ` set (db_balancers d) \<and>
    Some i \<notin> a_zone_id ` set (db_agents d) \<and> Some i \<notin> t_zone_id ` set (db_tokens d)"
  using assms
  by (auto simp: fk_ok_def server_refs_def config_refs_def scoped_refs_def token_refs_def host_refs_def all_conj all_refers_del)

section \<open>Slugs\<close>

definition single_dashes :: "string \<Rightarrow> bool" where
  "single_dashes s = successively (\<lambda>a b. a \<noteq> CHR ''-'' \<or> b \<noteq> CHR ''-'') s"

definition is_lower_slug :: "char \<Rightarrow> bool" where
  "is_lower_slug c = (let n = (of_char c :: nat) in (48 \<le> n \<and> n \<le> 57) \<or> (97 \<le> n \<and> n \<le> 122))"

definition slug_ok :: "string \<Rightarrow> bool" where
  "slug_ok s \<longleftrightarrow> s \<noteq> [] \<and> list_all (\<lambda>c. c = CHR ''-'' \<or> is_lower_slug c) s \<and> hd s \<noteq> CHR ''-'' \<and> last s \<noteq> CHR ''-'' \<and>
     single_dashes s"

lemma squeeze_inside: "squeeze p True s = [] \<or> (\<not> p (hd (squeeze p True s)) \<and> hd (squeeze p True s) \<in> set s)"
  by (induction s) auto

lemma squeeze_chars: "set (squeeze p b s) \<subseteq> insert (CHR ''-'') {c \<in> set s. \<not> p c}"
  by (induction p b s rule: squeeze.induct) (auto split: if_splits)

lemma single_dashes_Cons: "single_dashes (c # s) \<longleftrightarrow> single_dashes s \<and> (c = CHR ''-'' \<and> s \<noteq> [] \<longrightarrow> hd s \<noteq> CHR ''-'')"
  by (cases s) (auto simp: single_dashes_def)

lemma squeeze_single:
  assumes "p (CHR ''-'')"
  shows "single_dashes (squeeze p b s)"
proof (induction s arbitrary: b)
  case (Cons c s)
  have "squeeze p True s = [] \<or> hd (squeeze p True s) \<noteq> CHR ''-''"
    using squeeze_inside [of p s] assms by metis
  then show ?case using Cons.IH assms by (auto simp: single_dashes_Cons)
qed (simp add: single_dashes_def)

lemma squeeze_id:
  assumes "single_dashes s" and "\<forall>c\<in>set s. p c \<longrightarrow> c = CHR ''-''" and "b \<longrightarrow> s = [] \<or> \<not> p (hd s)"
  shows "squeeze p b s = s"
  using assms
proof (induction s arbitrary: b)
  case (Cons c s)
  show ?case
  proof (cases "p c")
    case True
    then have "c = CHR ''-''" using Cons.prems(2) by simp
    then have "s = [] \<or> hd s \<noteq> CHR ''-''" using Cons.prems(1) by (auto simp: single_dashes_Cons)
    then have "s = [] \<or> \<not> p (hd s)" using Cons.prems(2) by (metis hd_in_set list.set_intros(2))
    moreover have "single_dashes s" using Cons.prems(1) by (simp add: single_dashes_Cons)
    ultimately have "squeeze p True s = s" using Cons.IH [of True] Cons.prems(2) by simp
    then show ?thesis using True Cons.prems(3) \<open>c = _\<close> by auto
  next
    case False
    have "single_dashes s" using Cons.prems(1) by (simp add: single_dashes_Cons)
    then have "squeeze p False s = s" using Cons.IH [of False] Cons.prems(2) by simp
    with False show ?thesis by simp
  qed
qed simp

lemma single_dashes_drop: "single_dashes s \<Longrightarrow> single_dashes (dropWhile p s)"
  by (induction s) (auto simp: single_dashes_Cons)

lemma single_dashes_rev: "single_dashes (rev s) = single_dashes s"
  by (simp add: single_dashes_def successively_rev) (rule successively_cong, auto)

lemma lower_slug_facts:
  "is_lower_slug c \<Longrightarrow> lower_char c = c" "is_lower_slug c \<Longrightarrow> is_slug_char c"
  "is_lower_slug c \<Longrightarrow> \<not> py_isspace c" "is_lower_slug c \<Longrightarrow> c \<noteq> CHR ''-''"
  by (auto simp: is_lower_slug_def lower_char_def is_slug_char_def py_isspace_def Let_def)

lemma lowered_slug_char: "is_slug_char (lower_char c) \<Longrightarrow> is_lower_slug (lower_char c)"
  by (auto simp: is_lower_slug_def lower_char_def is_slug_char_def Let_def split: if_splits)

lemma strip_dashes_facts:
  "set (strip_dashes s) \<subseteq> set s" "single_dashes s \<Longrightarrow> single_dashes (strip_dashes s)"
  "strip_dashes s = [] \<or> hd (strip_dashes s) \<noteq> CHR ''-''" "strip_dashes s = [] \<or> last (strip_dashes s) \<noteq> CHR ''-''"
proof -
  let ?p = "\<lambda>c. c = CHR ''-''" let ?l = "dropWhile ?p s"
  show "set (strip_dashes s) \<subseteq> set s" by (auto simp: strip_dashes_def dest!: set_dropWhileD)
  show "single_dashes s \<Longrightarrow> single_dashes (strip_dashes s)"
    by (simp add: strip_dashes_def single_dashes_rev single_dashes_drop)
  show "strip_dashes s = [] \<or> last (strip_dashes s) \<noteq> CHR ''-''"
    using dropWhile_hd [of ?p "rev ?l"] by (auto simp: strip_dashes_def last_rev)
  obtain t where t: "?l = rev (dropWhile ?p (rev ?l)) @ t"
    using takeWhile_dropWhile_id [of ?p "rev ?l"] by (metis rev_append rev_rev_ident)
  show "strip_dashes s = [] \<or> hd (strip_dashes s) \<noteq> CHR ''-''"
  proof (cases "strip_dashes s = []")
    case False
    then have ne: "rev (dropWhile ?p (rev ?l)) \<noteq> []" by (simp add: strip_dashes_def)
    have "hd ?l = hd (rev (dropWhile ?p (rev ?l)) @ t)" using t by (rule arg_cong)
    also have "\<dots> = hd (strip_dashes s)" unfolding strip_dashes_def by (rule hd_append2 [OF ne])
    finally have "hd (strip_dashes s) = hd ?l" ..
    moreover have "?l \<noteq> []" using t ne by (metis append_is_Nil_conv)
    ultimately show ?thesis using dropWhile_hd [of ?p s] by metis
  qed simp
qed

lemma slugify_slug: "slug_ok (slugify v)"
proof -
  let ?v1 = "squeeze (\<lambda>c. \<not> is_slug_char c) False (py_lower (py_strip v))"
  let ?v2 = "strip_dashes (squeeze (\<lambda>c. c = CHR ''-'') False ?v1)"
  have v1: "\<forall>c\<in>set ?v1. c = CHR ''-'' \<or> is_lower_slug c"
    using squeeze_chars [of "\<lambda>c. \<not> is_slug_char c" False "py_lower (py_strip v)"] lowered_slug_char
    by (auto simp: py_lower_def)
  have "\<forall>c\<in>set ?v2. c = CHR ''-'' \<or> is_lower_slug c"
    using strip_dashes_facts(1) squeeze_chars [of "\<lambda>c. c = CHR ''-''" False ?v1] v1 by blast
  moreover have "single_dashes ?v2" by (intro strip_dashes_facts squeeze_single) simp
  moreover have "slug_ok ''zone''" by code_simp
  ultimately show ?thesis
    using strip_dashes_facts(3,4) [of "squeeze (\<lambda>c. c = CHR ''-'') False ?v1"]
    by (auto simp: slugify_def Let_def slug_ok_def list_all_iff)
qed

lemma slugify_id:
  assumes "slug_ok s"
  shows "slugify s = s"
proof -
  have cs: "\<forall>c\<in>set s. c = CHR ''-'' \<or> is_lower_slug c" and s: "s \<noteq> []" "hd s \<noteq> CHR ''-''" "last s \<noteq> CHR ''-''" "single_dashes s"
    using assms by (auto simp: slug_ok_def list_all_iff)
  have "\<not> py_isspace (hd s)" "\<not> py_isspace (last s)" using cs s lower_slug_facts(3) by (metis hd_in_set last_in_set)+
  then have strip: "py_strip s = s" by (intro strip_id) simp
  have "lower_char (CHR ''-'') = CHR ''-''" by code_simp
  then have "\<forall>c\<in>set s. lower_char c = c" using cs lower_slug_facts(1) by metis
  then have lower: "py_lower s = s" by (simp add: py_lower_def map_idI)
  have sq1: "squeeze (\<lambda>c. \<not> is_slug_char c) False s = s"
    by (rule squeeze_id) (use s cs lower_slug_facts(2) in auto)
  have sq2: "squeeze (\<lambda>c. c = CHR ''-'') False s = s"
    by (rule squeeze_id) (use s in auto)
  have "dropWhile (\<lambda>c. c = CHR ''-'') s = s" by (rule dropWhile_id) (use s in simp)
  moreover have "dropWhile (\<lambda>c. c = CHR ''-'') (rev s) = rev s" by (rule dropWhile_id) (use s in \<open>simp add: hd_rev\<close>)
  ultimately have "strip_dashes s = s" by (simp add: strip_dashes_def)
  then show ?thesis using s(1) by (simp add: slugify_def strip lower sq1 sq2)
qed

lemma set_server_fields_frame:
  assumes "set_server_fields p s = Inr s'"
  shows "s_id s' = s_id s" "s_password_enc s' = s_password_enc s" "s_cooldown_until s' = s_cooldown_until s"
    "s_agent_id s' = s_agent_id s" "s_username s' = patch_null (sv_username p) (s_username s)"
    "patch (strip_field (py_rstrip_char (CHR ''/'')) (sv_url p)) (s_url s) = Some (s_url s')"
  using assms unfolding set_server_fields_def by (simp_all split: option.splits) auto

section \<open>Properties\<close>


text \<open>A host in zone 1 with a server and a balancer on it, and a filter list for the zone.\<close>

definition busy_host :: db where
  "busy_host = empty_db\<lparr>db_zones := [sample_zone 1], db_agents := [sample_agent 3 ''10.0.0.7''],
     db_servers := [(sample_server 5 ''a'' [])\<lparr>s_agent_id := Some 3\<rparr>], db_balancers := [sample_balancer 6 1 3],
     db_backends := [\<lparr>o_id = 1, o_load_balancer_id = 6, o_server_id = 5, o_enabled = True, o_weight = 1, o_order = 1\<rparr>]\<rparr>"

lemmas busy_host_simps = busy_host_def sample_zone_def sample_agent_def sample_server_def sample_balancer_def empty_db_def

lemma busy_host_ok: "fk_ok busy_host" "zones_unique busy_host" "get_agent busy_host 3 \<noteq> None" "get_server busy_host 5 \<noteq> None"
  by (simp_all add: busy_host_simps fk_ok_def server_refs_def config_refs_def scoped_refs_def token_refs_def host_refs_def refers_def
      zones_unique_def row_get_def)



definition pinned_upstream :: upstream where
  "pinned_upstream = \<lparr>c_id = 1, c_scope = Cfg_server, c_zone_ids = [], c_server_id = Some 5, c_enabled = True,
     c_description = None, up_address = ''9.9.9.9'', up_kind = Kind_upstream\<rparr>"


text \<open>
  A zone can be deleted exactly when no server, balancer, DNS record, upstream, forward zone, host or provisioning
  token belongs to it; filter lists and blocked services may still name it, and then name a zone that is gone.
\<close>

theorem zone_delete_exact:
  assumes "fk_ok d" and "zones_unique d"
  shows "fst (delete_zone i d) = Inr () \<longleftrightarrow>
    get_zone d i \<noteq> None \<and> Some i \<notin> s_zone_id ` set (db_servers d) \<and> Some i \<notin> b_zone_id ` set (db_balancers d) \<and>
    (\<forall>r \<in> set (db_records d). i \<notin> set (r_zone_ids r)) \<and> (\<forall>u \<in> set (db_upstreams d). i \<notin> set (c_zone_ids u)) \<and>
    (\<forall>f \<in> set (db_forward_zones d). i \<notin> set (c_zone_ids f)) \<and>
    Some i \<notin> a_zone_id ` set (db_agents d) \<and> Some i \<notin> t_zone_id ` set (db_tokens d)"
proof -
  have "zones_unique (d\<lparr>db_zones := row_del z_id i (db_zones d)\<rparr>)"
    using assms(2) by (simp add: zones_unique_def row_del_def distinct_map_filter)
  then have "fst (commit d (d\<lparr>db_zones := row_del z_id i (db_zones d)\<rparr>)) = Inr () \<longleftrightarrow>
      Some i \<notin> s_zone_id ` set (db_servers d) \<and> Some i \<notin> b_zone_id ` set (db_balancers d) \<and>
      Some i \<notin> a_zone_id ` set (db_agents d) \<and> Some i \<notin> t_zone_id ` set (db_tokens d)"
    using fk_drop_zone [OF assms(1), of i] by (simp add: commit_def)
  moreover have "list_ex (\<lambda>s. s_zone_id s = Some i) (db_servers d) \<longleftrightarrow> Some i \<in> s_zone_id ` set (db_servers d)"
    "list_ex (\<lambda>b. b_zone_id b = Some i) (db_balancers d) \<longleftrightarrow> Some i \<in> b_zone_id ` set (db_balancers d)"
    by (force simp: list_ex_iff)+
  ultimately show ?thesis
    by (simp add: delete_zone_def zone_members_def filter_empty_conv)
qed

definition zone_list :: filter_list where
  "zone_list = \<lparr>c_id = 1, c_scope = Cfg_zone, c_zone_ids = [1], c_server_id = None, c_enabled = True,
     c_description = None, fl_name = ''ads'', fl_url = ''https://lists.example/ads'', fl_kind = Kind_blocklist\<rparr>"

theorem zone_delete_exact_witness:
  "fst (delete_zone 1 (empty_db\<lparr>db_zones := [sample_zone 1], db_filter_lists := [zone_list]\<rparr>)) = Inr () \<and>
   fst (delete_zone 1 (empty_db\<lparr>db_zones := [sample_zone 1], db_agents := [(sample_agent 3 [])\<lparr>a_zone_id := Some 1\<rparr>]\<rparr>)) \<noteq> Inr ()"
proof -
  let ?a = "empty_db\<lparr>db_zones := [sample_zone 1], db_filter_lists := [zone_list]\<rparr>"
  let ?b = "empty_db\<lparr>db_zones := [sample_zone 1], db_agents := [(sample_agent 3 [])\<lparr>a_zone_id := Some 1\<rparr>]\<rparr>"
  have ok: "fk_ok ?a" "zones_unique ?a" "fk_ok ?b" "zones_unique ?b"
    by (simp_all add: empty_db_def sample_zone_def zone_list_def sample_agent_def fk_ok_def server_refs_def config_refs_def
        scoped_refs_def token_refs_def host_refs_def refers_def zones_unique_def)
  have "get_zone ?a 1 \<noteq> None" by (simp add: row_get_def sample_zone_def)
  then have "fst (delete_zone 1 ?a) = Inr ()"
    unfolding zone_delete_exact [OF ok(1,2)] by (simp add: empty_db_def)
  moreover have "fst (delete_zone 1 ?b) \<noteq> Inr ()" unfolding zone_delete_exact [OF ok(3,4)] by simp
  ultimately show ?thesis by simp
qed

text \<open>
  On a managed host the connection belongs to the agent: no update through the API changes the address, the user
  name, the stored password or the cooldown of a server that has an agent, nor its agent.
\<close>

theorem managed_connection_kept:
  assumes "patch_server F cfg i p d = (r, d')" and "get_server d i = Some s" and "s_agent_id s \<noteq> None"
  shows "\<exists>s'. get_server d' i = Some s' \<and> s_url s' = s_url s \<and> s_username s' = s_username s \<and>
    s_password_enc s' = s_password_enc s \<and> s_cooldown_until s' = s_cooldown_until s \<and> s_agent_id s' = s_agent_id s"
proof (cases "d' = d")
  case False
  then obtain s' where s': "patched_server F cfg p s = Inr s'" "d' = put_server s' d"
    using assms(1,2) by (auto simp: patch_server_def commit_def split: sum.splits option.splits if_splits)
  then obtain p' where p': "managed_fields p = Inr p'" "set_server_fields p' (readdressed p' s) = Inr s'"
    using assms(3) by (auto simp: patched_server_def rotated_def managed_fields_def given_def split: sum.splits if_splits)
  have none: "sv_url p' = None" "sv_username p' = None"
    using p'(1) by (auto simp: managed_fields_def split: if_splits)
  then have "readdressed p' s = s" by (simp add: readdressed_def given_def)
  with set_server_fields_frame [OF p'(2)] none
  have "s_url s' = s_url s \<and> s_username s' = s_username s \<and> s_password_enc s' = s_password_enc s \<and>
      s_cooldown_until s' = s_cooldown_until s \<and> s_agent_id s' = s_agent_id s \<and> s_id s' = s_id s"
    by (simp add: patch_def patch_null_def strip_field_def)
  moreover have "s_id s = i" using row_get_Some [OF assms(2)] by simp
  ultimately show ?thesis using s'(2) assms(2) by auto
qed (use assms in auto)

definition no_server_fields :: server_update where
  "no_server_fields = \<lparr>sv_name = None, sv_url = None, sv_username = None, sv_password = None, sv_zone_id = None,
     sv_enabled = None, sv_prune = None, sv_manage_upstreams = None, sv_manage_filtering = None, sv_auto_update = None,
     sv_install_method = None, sv_dns_port = None, sv_expose_web_ui = None\<rparr>"

theorem managed_connection_kept_witness:
  "\<exists>d' s'. patch_server no_fernet default_settings 5 (no_server_fields\<lparr>sv_url := Some (Some []), sv_dns_port := Some (Some 5353)\<rparr>) busy_host
     = (Inr (), d') \<and> get_server d' 5 = Some s' \<and> s_url s' = [] \<and> s_agent_id s' = Some 3"
proof -
  let ?s = "(sample_server 5 ''a'' [])\<lparr>s_agent_id := Some 3\<rparr>"
  let ?p = "no_server_fields\<lparr>sv_url := Some (Some []), sv_dns_port := Some (Some 5353)\<rparr>"
  have s: "get_server busy_host 5 = Some ?s" by (simp add: busy_host_def sample_server_def row_get_def)
  have p: "patched_server no_fernet default_settings ?p ?s = Inr (?s\<lparr>s_dns_port := 5353\<rparr>)"
    by (simp add: patched_server_def managed_fields_def given_def no_server_fields_def rotated_def readdressed_def
        set_server_fields_def patch_def patch_null_def strip_field_def sample_server_def)
  have "fk_ok (put_server (?s\<lparr>s_dns_port := 5353\<rparr>) busy_host)" "zones_unique (put_server (?s\<lparr>s_dns_port := 5353\<rparr>) busy_host)"
    by (simp_all add: busy_host_simps put_server_def row_put_def fk_ok_def server_refs_def config_refs_def scoped_refs_def
        token_refs_def host_refs_def refers_def zones_unique_def)
  then have u: "patch_server no_fernet default_settings 5 ?p busy_host = (Inr (), put_server (?s\<lparr>s_dns_port := 5353\<rparr>) busy_host)"
    using p s by (simp add: patch_server_def commit_def no_server_fields_def)
  have "s_agent_id ?s \<noteq> None" by simp
  with managed_connection_kept [OF u s] obtain s' where s': "get_server (put_server (?s\<lparr>s_dns_port := 5353\<rparr>) busy_host) 5 = Some s'"
    "s_url s' = s_url ?s" "s_agent_id s' = s_agent_id ?s" by metis
  have "s_url ?s = []" "s_agent_id ?s = Some 3" by (simp_all add: sample_server_def)
  with s'(2,3) show ?thesis by (intro exI conjI) (rule u, rule s'(1), simp_all)
qed

text \<open>
  C39. Every slug the API derives is well formed (lower-case letters and digits with single dashes inside), and
  deriving it again changes nothing.
\<close>

theorem slugify_normal_form: "slug_ok (slugify v) \<and> slugify (slugify v) = slugify v"
  using slugify_slug [of v] slugify_id [OF slugify_slug] by simp

text \<open>
  Creating a zone under a name or slug that is taken is refused with status 409; renaming a zone to
  one is not checked, and fails in the database with status 500.
\<close>

theorem zone_name_collisions:
  assumes "zone_taken (zc_name q) (slugify (str_or (zc_slug q) (zc_name q))) d"
    and "get_zone d i = Some z" and "z' \<in> set (db_zones d)" and "z_id z' \<noteq> i" and "distinct (map z_id (db_zones d))"
    and "zu_name p = Some (Some (z_name z'))" and "zu_slug p = None"
  shows "create_zone F cfg tok q d = (Inl (HTTPException 409 ''Zone name or slug already exists''), d) \<and>
    update_zone F cfg tok i p d = (Inl server_error, d)"
proof
  show "create_zone F cfg tok q d = (Inl (HTTPException 409 ''Zone name or slug already exists''), d)"
    using assms(1) by (simp add: create_zone_def Let_def)
  obtain z1 where z1: "patched_zone p z = Inr z1" "z_name z1 = z_name z'" "z_id z1 = z_id z"
    using assms(6,7) by (auto simp: patched_zone_def patch_def strip_field_def)
  have z: "z \<in> set (db_zones d)" "z_id z = i" using row_get_Some [OF assms(2)] by auto
  have "z1 \<in> set (row_put z_id z1 (db_zones d))" "z' \<in> set (row_put z_id z1 (db_zones d))"
    using z z1(3) assms(3,4) by (auto simp: row_put_def image_iff intro: bexI)
  moreover have "z1 \<noteq> z'" using z1(3) z(2) assms(4) by auto
  ultimately have "\<not> inj_on z_name (set (row_put z_id z1 (db_zones d)))" using z1(2) by (metis inj_onD)
  then have "\<not> zones_unique (put_zone z1 d)" by (simp add: zones_unique_def put_zone_def distinct_map)
  then show "update_zone F cfg tok i p d = (Inl server_error, d)"
    using z1(1) assms(2) by (simp add: update_zone_def commit_def)
qed

theorem zone_name_collisions_witness:
  "update_zone no_fernet default_settings [] 2 \<lparr>zu_name = Some (Some ''home''), zu_slug = None, zu_description = None, zu_vip = None, zu_vrrp_router_id = None\<rparr>
     (empty_db\<lparr>db_zones := [sample_zone 1, (sample_zone 2)\<lparr>z_name := ''iot'', z_slug := ''iot''\<rparr>]\<rparr>) =
   (Inl server_error, empty_db\<lparr>db_zones := [sample_zone 1, (sample_zone 2)\<lparr>z_name := ''iot'', z_slug := ''iot''\<rparr>]\<rparr>)"
proof -
  let ?d = "empty_db\<lparr>db_zones := [sample_zone 1, (sample_zone 2)\<lparr>z_name := ''iot'', z_slug := ''iot''\<rparr>]\<rparr>"
  let ?q = "\<lparr>zc_name = ''home'', zc_slug = None, zc_description = None, zc_vip = None, zc_vrrp_router_id = None\<rparr>"
  have "zone_taken (zc_name ?q) (slugify (str_or (zc_slug ?q) (zc_name ?q))) ?d" by (simp add: zone_taken_def sample_zone_def)
  moreover have "get_zone ?d 2 = Some ((sample_zone 2)\<lparr>z_name := ''iot'', z_slug := ''iot''\<rparr>)" by (simp add: row_get_def sample_zone_def)
  moreover have "sample_zone 1 \<in> set (db_zones ?d)" "z_id (sample_zone 1) \<noteq> 2" "distinct (map z_id (db_zones ?d))" "z_name (sample_zone 1) = ''home''"
    by (simp_all add: sample_zone_def)
  ultimately show ?thesis
    using zone_name_collisions [of ?q ?d 2 _ "sample_zone 1"
        "\<lparr>zu_name = Some (Some ''home''), zu_slug = None, zu_description = None, zu_vip = None, zu_vrrp_router_id = None\<rparr>"
        no_fernet default_settings "[]"] by simp
qed

end
