(* ===== verification/Fleet.thy ===== *)
theory Fleet
  imports SyncPlan Auth
begin

text \<open>
  backend/app/fleet.py: the servers a fleet-wide request is for, the bounded fan-out of one call over them, and
  the coercion of the statistics they answer with. Every server is a machine of its own, with its own environment
  and log, so the order in which the event loop runs the calls of a fan-out does not show.
\<close>

section \<open>Targets\<close>

record target =
  tg_id :: int
  tg_name :: string
  tg_url :: string
  tg_username :: "string option"
  tg_password :: "string option"
  tg_tls_cert :: "string option"

definition target_row :: "fernet \<Rightarrow> settings \<Rightarrow> server \<Rightarrow> target" where
  "target_row F cfg s =
     \<lparr>tg_id = s_id s, tg_name = s_name s, tg_url = s_url s, tg_username = s_username s,
      tg_password = decrypt_secret F cfg (s_password_enc s), tg_tls_cert = s_tls_cert s\<rparr>"

definition in_selection :: "int option \<Rightarrow> int option \<Rightarrow> server \<Rightarrow> bool" where
  "in_selection zone_id server_id s \<longleftrightarrow>
     s_enabled s \<and> (zone_id = None \<or> s_zone_id s = zone_id) \<and> (server_id = None \<or> server_id = Some (s_id s))"

definition load_targets :: "fernet \<Rightarrow> settings \<Rightarrow> int option \<Rightarrow> int option \<Rightarrow> db \<Rightarrow> target list" where
  "load_targets F cfg zone_id server_id d =
     map (target_row F cfg) (sort_key s_name (filter (in_selection zone_id server_id) (db_servers d)))"

section \<open>Calling them\<close>

record outcome =
  oc_target :: target
  oc_value :: json
  oc_error :: "string option"

abbreviation oc_ok :: "outcome \<Rightarrow> bool" where
  "oc_ok u \<equiv> oc_error u = None"

text \<open>\<open>str(exc) or exc.__class__.__name__\<close>; the class of an exception from elsewhere is not modelled.\<close>

definition exn_text :: "exn \<Rightarrow> string" where
  "exn_text x =
     (if exn_str x \<noteq> [] then exn_str x
      else case x of AdGuardError m c r \<Rightarrow> ''AdGuardError'' | AgentError m c \<Rightarrow> ''AgentError'' | PyError m \<Rightarrow> ''Exception'')"

text \<open>
  The fleet: the exception building a client raises, if any, and for every server its environment.
  \<open>W\<close> is where the servers stand.
\<close>

record 's fleet =
  ft_build :: "target \<Rightarrow> exn option"
  ft_env :: "int \<Rightarrow> 's wenv"

definition call_one ::
  "'s fleet \<Rightarrow> ('s wenv \<Rightarrow> ((call, 's) world, json) io) \<Rightarrow> target \<Rightarrow> (call, 's) world \<Rightarrow> outcome \<times> (call, 's) world" where
  "call_one G m t w =
     (case (case ft_build G t of Some x \<Rightarrow> (Inl x, w) | None \<Rightarrow> io_finally (m (ft_env G (tg_id t))) (log_call AG_close) w) of
        (Inr v, w') \<Rightarrow> (\<lparr>oc_target = t, oc_value = v, oc_error = None\<rparr>, w')
      | (Inl x, w') \<Rightarrow> (\<lparr>oc_target = t, oc_value = JNull, oc_error = Some (exn_text x)\<rparr>, w'))"

definition outcome_of ::
  "'s fleet \<Rightarrow> ('s wenv \<Rightarrow> ((call, 's) world, json) io) \<Rightarrow> (int \<Rightarrow> (call, 's) world) \<Rightarrow> target \<Rightarrow> outcome" where
  "outcome_of G m W t = fst (call_one G m t (W (tg_id t)))"

definition fan_out ::
  "'s fleet \<Rightarrow> ('s wenv \<Rightarrow> ((call, 's) world, json) io) \<Rightarrow> target list \<Rightarrow> (int \<Rightarrow> (call, 's) world)
   \<Rightarrow> outcome list \<times> (int \<Rightarrow> (call, 's) world)" where
  "fan_out G m targets W =
     (map (outcome_of G m W) targets,
      \<lambda>i. case find (\<lambda>t. tg_id t = i) targets of None \<Rightarrow> W i | Some t \<Rightarrow> snd (call_one G m t (W i)))"

section \<open>Statistics\<close>

text \<open>
  \<open>float(s)\<close> of a decimal numeral: a sign, digits with single underscores, a fraction, an exponent. The names of the
  infinities and of NaN are read as no number. A float is an exact rational here.
\<close>

fun digits_value :: "bool \<Rightarrow> nat \<Rightarrow> nat \<Rightarrow> string \<Rightarrow> (nat \<times> nat \<times> string) option" where
  "digits_value digit acc n [] = (if digit then Some (acc, n, []) else None)"
| "digits_value digit acc n (c # cs) =
     (if is_digit_char c then digits_value True (10 * acc + (of_char c - 48)) (Suc n) cs
      else if c = CHR ''_'' \<and> digit \<and> cs \<noteq> [] \<and> is_digit_char (hd cs) then digits_value False acc n cs
      else if digit then Some (acc, n, c # cs) else None)"

definition pow10 :: "int \<Rightarrow> rat" where
  "pow10 k = (if 0 \<le> k then 10 ^ nat k else 1 / 10 ^ nat (- k))"

definition exponent_of :: "string \<Rightarrow> int option" where
  "exponent_of s =
     (case s of
        [] \<Rightarrow> Some 0
      | c # cs \<Rightarrow>
          if c \<noteq> CHR ''e'' \<and> c \<noteq> CHR ''E'' then None
          else (case cs of
             [] \<Rightarrow> None
           | g # gs \<Rightarrow>
               if g = CHR ''-'' then map_option (\<lambda>n. - int n) (int_body False 0 gs)
               else if g = CHR ''+'' then map_option int (int_body False 0 gs)
               else map_option int (int_body False 0 cs)))"

definition unsigned_float :: "string \<Rightarrow> rat option" where
  "unsigned_float s =
     (let (whole, n, rest) = (case digits_value False 0 0 s of None \<Rightarrow> (0, 0, s) | Some r \<Rightarrow> r) in
      case rest of
        CHR ''.'' # fs \<Rightarrow>
          (let (frac, k, rest2) = (case digits_value False 0 0 fs of None \<Rightarrow> (0, 0, fs) | Some r \<Rightarrow> r) in
           if n = 0 \<and> k = 0 then None
           else map_option (\<lambda>e. (of_nat whole + of_nat frac / 10 ^ k) * pow10 e) (exponent_of rest2))
      | _ \<Rightarrow> if n = 0 then None else map_option (\<lambda>e. of_nat whole * pow10 e) (exponent_of rest))"

definition py_float :: "string \<Rightarrow> rat option" where
  "py_float s =
     (case py_strip s of
        [] \<Rightarrow> None
      | c # cs \<Rightarrow>
          if c = CHR ''-'' then map_option uminus (unsigned_float cs)
          else if c = CHR ''+'' then unsigned_float cs else unsigned_float (c # cs))"

fun as_number :: "json \<Rightarrow> rat" where
  "as_number (JInt i) = of_int i"
| "as_number (JNum r) = r"
| "as_number (JBool b) = (if b then 1 else 0)"
| "as_number (JStr s) = (case py_float s of None \<Rightarrow> 0 | Some r \<Rightarrow> r)"
| "as_number _ = 0"

definition blocked_total :: "json \<Rightarrow> rat" where
  "blocked_total stats =
     as_number (jget_def stats ''num_blocked_filtering'' (JInt 0)) +
     as_number (jget_def stats ''num_replaced_safebrowsing'' (JInt 0)) +
     as_number (jget_def stats ''num_replaced_parental'' (JInt 0)) +
     as_number (jget_def stats ''num_replaced_safesearch'' (JInt 0))"

text \<open>\<open>int(x)\<close> of a number.\<close>

definition py_trunc :: "rat \<Rightarrow> int" where
  "py_trunc r = (if r < 0 then - \<lfloor>- r\<rfloor> else \<lfloor>r\<rfloor>)"

text \<open>\<open>round(x, n)\<close>: to the nearest multiple, a tie to the even one.\<close>

definition round_even :: "rat \<Rightarrow> int" where
  "round_even r =
     (let k = \<lfloor>r\<rfloor>; f = r - of_int k in
      if f < 1 / 2 then k else if f > 1 / 2 then k + 1 else if even k then k else k + 1)"

definition py_round :: "nat \<Rightarrow> rat \<Rightarrow> rat" where
  "py_round n r = of_int (round_even (r * 10 ^ n)) / 10 ^ n"

section \<open>Facts\<close>

lemma fan_out_shape:
  "length (fst (fan_out G m targets W)) = length targets"
  "map oc_target (fst (fan_out G m targets W)) = targets"
proof -
  have "oc_target (outcome_of G m W t) = t" for t
    by (auto simp: outcome_of_def call_one_def split: prod.split sum.split)
  then show "map oc_target (fst (fan_out G m targets W)) = targets"
    by (simp add: fan_out_def comp_def)
qed (simp add: fan_out_def)

lemma load_targets_ids:
  "tg_id ` set (load_targets F cfg zone_id server_id d) = s_id ` {s \<in> set (db_servers d). in_selection zone_id server_id s}"
  by (simp add: load_targets_def target_row_def image_image)

lemma load_targets_distinct:
  assumes "distinct (map s_id (db_servers d))"
  shows "distinct (map tg_id (load_targets F cfg zone_id server_id d))"
proof -
  have "map tg_id (load_targets F cfg zone_id server_id d) = map s_id (sort_key s_name (filter (in_selection zone_id server_id) (db_servers d)))"
    by (simp add: load_targets_def target_row_def comp_def)
  moreover have "inj_on s_id (set (db_servers d))" using assms by (simp add: distinct_map)
  ultimately show ?thesis using assms by (auto simp: distinct_map intro: inj_on_subset)
qed

text \<open>The server the fan-out asked, and where it stands afterwards.\<close>

lemma fan_out_world:
  assumes "distinct (map tg_id targets)" and "t \<in> set targets"
  shows "snd (fan_out G m targets W) (tg_id t) = snd (call_one G m t (W (tg_id t)))"
proof -
  have "find (\<lambda>u. tg_id u = tg_id t) targets = Some t"
    using assms by (induction targets) auto
  then show ?thesis by (simp add: fan_out_def)
qed

lemma fan_out_others:
  "i \<notin> tg_id ` set targets \<Longrightarrow> snd (fan_out G m targets W) i = W i"
  by (auto simp: fan_out_def split: option.split dest: find_Some_iff [THEN iffD1])

lemma round_even_near: "\<bar>of_int (round_even r) - r\<bar> \<le> 1 / 2"
proof -
  have "of_int \<lfloor>r\<rfloor> \<le> r" "r < of_int \<lfloor>r\<rfloor> + 1" by linarith+
  then show ?thesis by (simp add: round_even_def Let_def abs_le_iff)
qed

lemma round_even_nonneg: "0 \<le> r \<Longrightarrow> 0 \<le> round_even r"
proof -
  assume "0 \<le> r"
  then have "0 \<le> \<lfloor>r\<rfloor>" by simp
  then show ?thesis by (simp add: round_even_def Let_def)
qed

lemma round_even_mono: "r \<le> s \<Longrightarrow> round_even r \<le> round_even s"
proof (rule ccontr)
  assume "r \<le> s" and "\<not> round_even r \<le> round_even s"
  then have "round_even s + 1 \<le> round_even r" by simp
  then have "(of_int (round_even s) :: rat) + 1 \<le> of_int (round_even r)" by linarith
  with round_even_near [of r] round_even_near [of s] \<open>r \<le> s\<close>
  have eq: "r = s" by linarith
  with \<open>\<not> round_even r \<le> round_even s\<close> show False by simp
qed

lemma py_round_nonneg: "0 \<le> r \<Longrightarrow> 0 \<le> py_round n r"
  by (simp add: py_round_def round_even_nonneg)

lemma py_round_mono: "r \<le> s \<Longrightarrow> py_round n r \<le> py_round n s"
  by (simp add: py_round_def divide_right_mono round_even_mono)

lemma py_round_int [simp]: "py_round n (of_int k) = of_int k"
proof -
  have "round_even (of_int i) = i" for i by (simp add: round_even_def)
  from this [of "k * 10 ^ n"] show ?thesis by (simp add: py_round_def)
qed

end
