(* ===== verification/HaCompat.thy ===== *)
theory HaCompat
  imports Fleet Imports Balancers "HOL-Library.Product_Lexorder"
begin

text \<open>
  The AdGuard-compatible API over the whole fleet, backend/app/routers/ha_compat.py: the read cache with its
  locks, authentication, the scope a request is for, how the answers of many servers become one, the toggles that
  fan out, and the writes that land in the database.
\<close>

section \<open>The read cache\<close>

text \<open>
  \<open>ReadCache\<close>: entries with the instant they were stored, and the keys whose lock a load holds. Between two
  \<open>await\<close>s the event loop runs nothing else, so each function below is one step. Times are microseconds.
\<close>

record 'v read_cache =
  rc_entries :: "(string \<times> int \<times> 'v) list"
  rc_loading :: "string list"

definition new_cache :: "'v read_cache" where
  "new_cache = \<lparr>rc_entries = [], rc_loading = []\<rparr>"

definition cache_clear :: "'v read_cache \<Rightarrow> 'v read_cache" where
  "cache_clear c = c\<lparr>rc_entries := []\<rparr>"

definition cache_fresh :: "string \<Rightarrow> int \<Rightarrow> int \<Rightarrow> 'v read_cache \<Rightarrow> 'v option" where
  "cache_fresh key ttl now c =
     (case map_of (rc_entries c) key of
        None \<Rightarrow> None
      | Some (t, v) \<Rightarrow> if now - t < ttl then Some v else None)"

definition cache_ttl :: "settings \<Rightarrow> int" where
  "cache_ttl cfg = max 0 (cf_ha_compat_cache_seconds cfg) * second_us"

datatype 'v cache_answer = Hit 'v | Must_wait | Must_load

text \<open>
  \<open>get\<close> up to its next \<open>await\<close>. A request that waited comes back here: the test it repeats once it has the
  lock is the one it made first.
\<close>

definition cache_enter :: "int \<Rightarrow> int \<Rightarrow> string \<Rightarrow> 'v read_cache \<Rightarrow> 'v cache_answer \<times> 'v read_cache" where
  "cache_enter ttl now key c =
     (case (if ttl = 0 then None else cache_fresh key ttl now c) of
        Some v \<Rightarrow> (Hit v, c)
      | None \<Rightarrow>
          if key \<in> set (rc_loading c) then (Must_wait, c)
          else (Must_load, c\<lparr>rc_loading := key # rc_loading c\<rparr>))"

definition cache_store :: "int \<Rightarrow> string \<Rightarrow> 'v \<Rightarrow> 'v read_cache \<Rightarrow> 'v read_cache" where
  "cache_store now key v c =
     c\<lparr>rc_entries := dict_set key (now, v) (rc_entries c), rc_loading := remove1 key (rc_loading c)\<rparr>"

definition cache_abort :: "string \<Rightarrow> 'v read_cache \<Rightarrow> 'v read_cache" where
  "cache_abort key c = c\<lparr>rc_loading := remove1 key (rc_loading c)\<rparr>"

section \<open>Authentication\<close>

definition compat_keys :: "string \<Rightarrow> string \<Rightarrow> string list" where
  "compat_keys ip username = [''compat-ip:'' @ ip, ''compat-user:'' @ py_lower username]"

definition unauthorized :: "string \<Rightarrow> http_error" where
  "unauthorized detail = HTTPException 401 detail"

definition compat_user ::
  "(string \<Rightarrow> string \<Rightarrow> bool) \<Rightarrow> settings \<Rightarrow> int \<Rightarrow> string \<Rightarrow> (string \<times> string) option \<Rightarrow> db \<Rightarrow> limiter \<Rightarrow> user http \<times> limiter" where
  "compat_user verify cfg now ip credentials d l =
     (if \<not> cf_ha_compat_enabled cfg
      then (Inl (HTTPException 404 ''The AdGuard-compatible API is disabled (HA_COMPAT_ENABLED=false)''), l)
      else case credentials of
        None \<Rightarrow> (Inl (unauthorized ''Not authenticated''), l)
      | Some (username, password) \<Rightarrow>
          (case throttled now (compat_keys ip username) l of
             (n, l) \<Rightarrow>
               if n \<noteq> 0 then (Inl (HTTPException 429 ''Too many failed attempts. Try again later.''), l)
               else (case find_username d username of
                  None \<Rightarrow> (Inl (unauthorized ''Incorrect username or password''), fail_all now (compat_keys ip username) l)
                | Some u \<Rightarrow>
                    if \<not> u_is_active u \<or> \<not> truthy_text (u_hashed_password u) \<or> \<not> verify password (the (u_hashed_password u))
                    then (Inl (unauthorized ''Incorrect username or password''), fail_all now (compat_keys ip username) l)
                    else (Inr u, fold record_success (compat_keys ip username) l))))"

definition compat_editor :: "user \<Rightarrow> user http" where
  "compat_editor u =
     (if user_has_role u Role_editor then Inr u else Inl (HTTPException 403 ''Requires editor role or higher''))"

section \<open>Scope\<close>

record req_scope =
  q_label :: string
  q_zone_id :: "int option"
  q_server_id :: "int option"

definition show_opt :: "int option \<Rightarrow> string" where
  "show_opt i = (case i of None \<Rightarrow> ''None'' | Some k \<Rightarrow> show_int k)"

definition cache_key :: "req_scope \<Rightarrow> string" where
  "cache_key q = ''z'' @ show_opt (q_zone_id q) @ ''s'' @ show_opt (q_server_id q)"

definition zone_scope :: "db \<Rightarrow> string \<Rightarrow> req_scope http" where
  "zone_scope d slug =
     (case find (\<lambda>z. z_slug z = slug) (db_zones d) of
        None \<Rightarrow> Inl (HTTPException 404 (''No zone with slug '' @ quoted slug))
      | Some z \<Rightarrow> Inr \<lparr>q_label = ''zone '' @ z_slug z, q_zone_id = Some (z_id z), q_server_id = None\<rparr>)"

text \<open>
  \<open>str.isdigit\<close> is true of the superscripts too, which \<open>int\<close> then refuses; SQLite takes no
  integer above 63 bits. Neither is caught.
\<close>

definition py_isdigit :: "string \<Rightarrow> bool" where
  "py_isdigit s = (s \<noteq> [] \<and> list_all (\<lambda>c. is_digit_char c \<or> (of_char c :: nat) \<in> {178, 179, 185}) s)"

definition server_scope :: "db \<Rightarrow> string \<Rightarrow> req_scope http" where
  "server_scope d ident =
     (let by_name = (case find (\<lambda>s. s_name s = ident) (db_servers d) of
             None \<Rightarrow> Inl (HTTPException 404 (''No server with id or name '' @ quoted ident))
           | Some s \<Rightarrow> Inr \<lparr>q_label = ''server '' @ s_name s, q_zone_id = None, q_server_id = Some (s_id s)\<rparr>) in
      if \<not> py_isdigit ident then by_name
      else if \<not> list_all is_digit_char ident \<or> nat_of_digits 0 ident \<ge> 2 ^ 63 then Inl server_error
      else case get_server d (int (nat_of_digits 0 ident)) of
        None \<Rightarrow> by_name
      | Some s \<Rightarrow> Inr \<lparr>q_label = ''server '' @ s_name s, q_zone_id = None, q_server_id = Some (s_id s)\<rparr>)"

definition resolve_scope :: "settings \<Rightarrow> db \<Rightarrow> string option \<Rightarrow> string option \<Rightarrow> req_scope http" where
  "resolve_scope cfg d zone_slug server_ident =
     (case (zone_slug, server_ident) of
        (Some slug, _) \<Rightarrow> zone_scope d slug
      | (None, Some ident) \<Rightarrow> server_scope d ident
      | (None, None) \<Rightarrow>
          (case parse_compat_scope (cf_ha_compat_scope cfg) of
             Parsed (Scope_zone selector) \<Rightarrow> zone_scope d selector
           | Parsed (Scope_server selector) \<Rightarrow> server_scope d selector
           | Parsed Scope_fleet \<Rightarrow> Inr \<lparr>q_label = ''fleet'', q_zone_id = None, q_server_id = None\<rparr>
           | _ \<Rightarrow> Inl server_error))"

section \<open>Aggregation\<close>

definition reported :: "outcome list \<Rightarrow> json list" where
  "reported outcomes = map oc_value (filter (\<lambda>u. oc_ok u \<and> is_obj (oc_value u)) outcomes)"

definition all_on :: "json list \<Rightarrow> string \<Rightarrow> bool" where
  "all_on values key = (values \<noteq> [] \<and> list_all (\<lambda>v. truthy (jget v key)) values)"

definition max_int :: "json list \<Rightarrow> string \<Rightarrow> int \<Rightarrow> int" where
  "max_int values key dflt =
     (case map as_number (filter (\<lambda>j. j \<noteq> JNull) (map (\<lambda>v. jget v key) values)) of
        [] \<Rightarrow> dflt
      | n # ns \<Rightarrow> py_trunc (fold max ns n))"

definition first_of :: "json list \<Rightarrow> string \<Rightarrow> json \<Rightarrow> json" where
  "first_of values key dflt =
     (case find (\<lambda>j. j \<noteq> JNull) (map (\<lambda>v. jget v key) values) of None \<Rightarrow> dflt | Some j \<Rightarrow> j)"

definition sum_stat :: "json list \<Rightarrow> string \<Rightarrow> int" where
  "sum_stat values key = py_trunc (sum_list (map (\<lambda>v. as_number (jget_def v key (JInt 0))) values))"

fun list_of :: "json \<Rightarrow> json list option" where
  "list_of (JList xs) = Some xs"
| "list_of _ = None"

fun add_series :: "rat list \<Rightarrow> json list \<Rightarrow> rat list" where
  "add_series out [] = out"
| "add_series [] xs = map as_number xs"
| "add_series (r # out) (x # xs) = (r + as_number x) # add_series out xs"

definition sum_series :: "json list \<Rightarrow> string \<Rightarrow> int list" where
  "sum_series values key =
     map py_trunc (fold (\<lambda>s out. add_series out s) (List.map_filter (\<lambda>v. list_of (jget v key)) values) [])"

fun obj_items :: "json \<Rightarrow> (string \<times> json) list" where
  "obj_items (JObj d) = d"
| "obj_items _ = []"

definition top_items :: "json list \<Rightarrow> string \<Rightarrow> (string \<times> json) list" where
  "top_items values key = concat (map obj_items (concat (map (\<lambda>v. jlist (jget v key)) values)))"

definition count_item :: "string \<times> json \<Rightarrow> (string \<times> rat) list \<Rightarrow> (string \<times> rat) list" where
  "count_item e agg =
     dict_set (fst e) ((case map_of agg (fst e) of None \<Rightarrow> 0 | Some n \<Rightarrow> n) + as_number (snd e)) agg"

definition merge_top :: "nat \<Rightarrow> json list \<Rightarrow> string \<Rightarrow> json list" where
  "merge_top limit values key =
     map (\<lambda>e. JObj [(fst e, JInt (py_trunc (snd e)))])
       (take limit (sort_key (\<lambda>e. - snd e) (fold count_item (top_items values key) [])))"

text \<open>Filter lists of the same address are one list: the largest rule count, and on only where it is on everywhere.\<close>

record merged_filter =
  mf_id :: nat
  mf_url :: string
  mf_name :: json
  mf_enabled :: bool
  mf_rules :: int
  mf_updated :: json

definition merge_filter :: "string \<Rightarrow> json \<Rightarrow> (string \<times> merged_filter) list \<Rightarrow> (string \<times> merged_filter) list" where
  "merge_filter url item merged =
     (let rules = py_trunc (as_number (jget_def item ''rules_count'' (JInt 0))); on = truthy (jget item ''enabled'') in
      case map_of merged url of
        None \<Rightarrow> dict_set url \<lparr>mf_id = length merged + 1, mf_url = url, mf_name = jor (jget item ''name'') (JStr url),
          mf_enabled = on, mf_rules = rules, mf_updated = jget item ''last_updated''\<rparr> merged
      | Some m \<Rightarrow> dict_set url (m\<lparr>mf_enabled := mf_enabled m \<and> on, mf_rules := max (mf_rules m) rules\<rparr>) merged)"

text \<open>The subscriptions of one answer with their addresses; \<open>None\<close> where the code raises.\<close>

definition listed_filters :: "json \<Rightarrow> string \<Rightarrow> (string \<times> json) list option" where
  "listed_filters v key =
     Option.bind (iter_or_empty (jget v key)) (\<lambda>items.
       map_option (filter (\<lambda>e. fst e \<noteq> []))
         (opt_list (map (\<lambda>item. map_option (\<lambda>u. (u, item)) (strip_or_empty (jget item ''url''))) (filter is_obj items))))"

definition merge_filters :: "json list \<Rightarrow> string \<Rightarrow> merged_filter list option" where
  "merge_filters values key =
     map_option (\<lambda>lists. map snd (fold (\<lambda>e. merge_filter (fst e) (snd e)) (concat lists) []))
       (opt_list (map (\<lambda>v. listed_filters v key) values))"

definition filter_json :: "merged_filter \<Rightarrow> json" where
  "filter_json m =
     JObj [(''id'', JInt (int (mf_id m))), (''url'', JStr (mf_url m)), (''name'', mf_name m), (''enabled'', JBool (mf_enabled m)),
       (''rules_count'', JInt (mf_rules m)), (''last_updated'', mf_updated m)]"

section \<open>Reads\<close>

definition all_texts :: "json list \<Rightarrow> string \<Rightarrow> string list option" where
  "all_texts values key =
     map_option (\<lambda>xs. sorted_set (List.map_filter json_text (concat xs)))
       (opt_list (map (\<lambda>v. iter_or_empty (jget v key)) values))"

definition control_status :: "settings \<Rightarrow> string \<Rightarrow> req_scope \<Rightarrow> outcome list \<Rightarrow> json http" where
  "control_status cfg version q outcomes =
     (let values = reported outcomes in
      case all_texts values ''dns_addresses'' of
        None \<Rightarrow> Inl server_error
      | Some addrs \<Rightarrow> Inr (JObj
          [(''version'', JStr (''AdGuard Admin '' @ version)), (''language'', JStr ''en''),
           (''dns_addresses'', JList (map JStr addrs)),
           (''dns_port'', JInt (py_trunc (as_number (first_of values ''dns_port'' (JInt (cf_adguard_dns_port cfg)))))),
           (''protection_enabled'', JBool (all_on values ''protection_enabled'')),
           (''protection_disabled_duration'', JInt 0), (''dhcp_available'', JBool False),
           (''running'', JBool (values \<noteq> [])), (''scope'', JStr (q_label q)),
           (''servers_total'', JInt (int (length outcomes))), (''servers_reporting'', JInt (int (length values)))]))"

definition control_stats :: "outcome list \<Rightarrow> json" where
  "control_stats outcomes =
     (let values = reported outcomes;
          total = sum_list (map (\<lambda>v. as_number (jget_def v ''num_dns_queries'' (JInt 0))) values);
          weighted = sum_list (map (\<lambda>v. as_number (jget_def v ''avg_processing_time'' (JInt 0)) *
                                        as_number (jget_def v ''num_dns_queries'' (JInt 0))) values);
          stat = (\<lambda>key. (key, JInt (sum_stat values key)));
          series = (\<lambda>key. (key, JList (map JInt (sum_series values key))));
          top = (\<lambda>key. (key, JList (merge_top 10 values key))) in
      JObj
        [(''num_dns_queries'', JInt (py_trunc total)), stat ''num_blocked_filtering'', stat ''num_replaced_safebrowsing'',
         stat ''num_replaced_safesearch'', stat ''num_replaced_parental'',
         (''avg_processing_time'', if total \<noteq> 0 then JNum (py_round 6 (weighted / total)) else JInt 0),
         (''time_units'', first_of values ''time_units'' (JStr ''hours'')),
         series ''dns_queries'', series ''blocked_filtering'', series ''replaced_safebrowsing'', series ''replaced_parental'',
         top ''top_queried_domains'', top ''top_blocked_domains'', top ''top_clients''])"

definition control_stats_info :: "outcome list \<Rightarrow> json" where
  "control_stats_info outcomes =
     (let values = reported outcomes in
      JObj [(''enabled'', JBool (values \<noteq> [])), (''interval'', JInt (max_int values ''interval'' 24))])"

definition control_filtering_status :: "outcome list \<Rightarrow> json http" where
  "control_filtering_status outcomes =
     (let values = reported outcomes in
      case (merge_filters values ''filters'', merge_filters values ''whitelist_filters'', all_texts values ''user_rules'') of
        (Some fs, Some ws, Some rules) \<Rightarrow> Inr (JObj
          [(''enabled'', JBool (all_on values ''enabled'')), (''interval'', JInt (max_int values ''interval'' 24)),
           (''filters'', JList (map filter_json fs)), (''whitelist_filters'', JList (map filter_json ws)),
           (''user_rules'', JList (map JStr rules))])
      | _ \<Rightarrow> Inl server_error)"

definition safety_status :: "outcome list \<Rightarrow> json" where
  "safety_status outcomes = JObj [(''enabled'', JBool (all_on (reported outcomes) ''enabled''))]"

definition control_querylog_info :: "outcome list \<Rightarrow> json" where
  "control_querylog_info outcomes =
     (let values = reported outcomes in
      JObj [(''enabled'', JBool (all_on values ''enabled'')), (''interval'', first_of values ''interval'' (JInt 24)),
        (''anonymize_client_ip'', JBool (all_on values ''anonymize_client_ip''))])"

text \<open>\<open>rewrite_list\<close> answers from the database: what the servers in scope are meant to serve.\<close>

definition records_in_scope :: "db \<Rightarrow> req_scope \<Rightarrow> rewrite list" where
  "records_in_scope d q =
     sort_key (\<lambda>r. (rw_domain r, rw_answer r))
       (case q_server_id q of
          Some i \<Rightarrow> (case get_server d i of None \<Rightarrow> [] | Some s \<Rightarrow> desired_rewrites_for_server d s)
        | None \<Rightarrow>
            let rows = filter r_enabled (db_records d) in
            map rewrite_of
              (case q_zone_id q of
                 None \<Rightarrow> rows
               | Some z \<Rightarrow> filter (\<lambda>r. r_scope r = Rec_global \<or> z \<in> set (r_zone_ids r)) rows))"

section \<open>Toggles that fan out\<close>

definition failed_map :: "outcome list \<Rightarrow> (string \<times> string) list" where
  "failed_map outcomes =
     fold (\<lambda>u. dict_set (tg_name (oc_target u)) (the (oc_error u))) (filter (\<lambda>u. \<not> oc_ok u) outcomes) []"

definition dict_repr :: "(string \<times> string) list \<Rightarrow> string" where
  "dict_repr d = ''{'' @ py_join '', '' (map (\<lambda>e. quoted (fst e) @ '': '' @ quoted (snd e)) d) @ ''}''"

definition bad_gateway :: "string \<Rightarrow> http_error" where
  "bad_gateway detail = HTTPException 502 detail"

definition no_targets :: "req_scope \<Rightarrow> http_error" where
  "no_targets q = bad_gateway (''No enabled AdGuard servers in scope ('' @ q_label q @ '')'')"

definition apply_toggle ::
  "fernet \<Rightarrow> settings \<Rightarrow> 's fleet \<Rightarrow> req_scope \<Rightarrow> ('s wenv \<Rightarrow> ((call, 's) world, json) io) \<Rightarrow> string \<Rightarrow> db
   \<Rightarrow> (int \<Rightarrow> (call, 's) world) \<times> 'v read_cache \<Rightarrow> json http \<times> (int \<Rightarrow> (call, 's) world) \<times> 'v read_cache" where
  "apply_toggle F cfg G q m what d st =
     (let targets = load_targets F cfg (q_zone_id q) (q_server_id q) d; (W, c) = st in
      if targets = [] then (Inl (no_targets q), W, c)
      else case fan_out G m targets W of
        (outcomes, W') \<Rightarrow>
          ((if list_ex (\<lambda>u. oc_ok u) outcomes then Inr (JObj [])
            else Inl (bad_gateway (what @ '' failed on every server: '' @ dict_repr (failed_map outcomes)))),
           W', cache_clear c))"

definition no_answer :: "((call, 's) world, 'a) io \<Rightarrow> ((call, 's) world, json) io" where
  "no_answer m = io_bind m (\<lambda>_. io_return JNull)"

definition py_bool :: "bool \<Rightarrow> string" where
  "py_bool b = (if b then ''True'' else ''False'')"

definition control_protection where
  "control_protection F cfg G q enabled duration =
     apply_toggle F cfg G q (\<lambda>e. no_answer (set_protection e enabled duration)) (''protection='' @ py_bool enabled)"

definition control_dns_config where
  "control_dns_config F cfg G q body d st =
     (case map_of body ''protection_enabled'' of
        None \<Rightarrow> (Inl (HTTPException 400 ''only protection_enabled is supported here''), st)
      | Some j \<Rightarrow>
          (case sort (filter (\<lambda>k. k \<noteq> ''protection_enabled'') (map fst body)) of
             [] \<Rightarrow> apply_toggle F cfg G q (\<lambda>e. no_answer (set_protection e (truthy j) None))
                     (''protection='' @ py_bool (truthy j)) d st
           | ks \<Rightarrow> (Inl (HTTPException 400 (py_join '', '' ks @ '' is reconciled from AdGuard Admin'' @ apostrophe @
               ''s own DNS settings; change it there (or via /api/upstreams) rather than here'')), st)))"

definition control_filtering_config where
  "control_filtering_config F cfg G q enabled interval =
     apply_toggle F cfg G q (\<lambda>e. no_answer (call_io e (AG_filtering_config enabled (py_trunc interval))))
       (''filtering='' @ py_bool enabled)"

definition control_querylog_config where
  "control_querylog_config F cfg G q enabled interval =
     apply_toggle F cfg G q (\<lambda>e. no_answer (call_io e (AG_querylog_config enabled interval))) (''querylog='' @ py_bool enabled)"

definition control_safety where
  "control_safety F cfg G q service enabled =
     apply_toggle F cfg G q (\<lambda>e. no_answer (call_io e (AG_set_safety service enabled))) (service @ ''='' @ py_bool enabled)"

definition control_filtering_refresh ::
  "fernet \<Rightarrow> settings \<Rightarrow> 's fleet \<Rightarrow> req_scope \<Rightarrow> bool \<Rightarrow> bool \<Rightarrow> db
   \<Rightarrow> (int \<Rightarrow> (call, 's) world) \<times> 'v read_cache \<Rightarrow> json http \<times> (int \<Rightarrow> (call, 's) world) \<times> 'v read_cache" where
  "control_filtering_refresh F cfg G q whitelist force d st =
     (let targets = load_targets F cfg (q_zone_id q) (q_server_id q) d; (W, c) = st in
      if targets = [] then (Inl (no_targets q), W, c)
      else case fan_out G (\<lambda>e. call_io e (AG_filtering_refresh whitelist force)) targets W of
        (outcomes, W') \<Rightarrow>
          ((if failed_map outcomes \<noteq> [] \<and> length (failed_map outcomes) = length outcomes
            then Inl (bad_gateway (''filter refresh failed on every server: '' @ dict_repr (failed_map outcomes)))
            else Inr (JObj [(''updated'', JInt (sum_stat (reported outcomes) ''updated''))])),
           W', cache_clear c))"

end
