(* ===== verification/HaWrites.thy ===== *)
theory HaWrites
  imports HaCompat Validators HostSpecs "HOL-Library.Multiset"
begin

text \<open>
  The writes of the AdGuard-compatible API that land in the database (backend/app/routers/ha_compat.py): filter
  subscriptions and DNS rewrites, for reconciliation to push out. What a request may touch is decided by its scope.
\<close>

section \<open>Where a row belongs\<close>

definition scope_fields :: "req_scope \<Rightarrow> config_scope \<times> int list \<times> int option" where
  "scope_fields q =
     (case q_server_id q of
        Some i \<Rightarrow> (Cfg_server, [], Some i)
      | None \<Rightarrow> (case q_zone_id q of Some z \<Rightarrow> (Cfg_zone, [z], None) | None \<Rightarrow> (Cfg_global, [], None)))"

definition row_in_scope :: "req_scope \<Rightarrow> 'm scoped_scheme \<Rightarrow> bool" where
  "row_in_scope q row =
     (case q_server_id q of
        Some i \<Rightarrow> c_server_id row = Some i
      | None \<Rightarrow> (case q_zone_id q of Some z \<Rightarrow> z \<in> set (c_zone_ids row) | None \<Rightarrow> c_scope row = Cfg_global))"

section \<open>Filter subscriptions\<close>

definition valid_name :: "string \<Rightarrow> string \<Rightarrow> string http" where
  "valid_name v fallback =
     (if py_strip v = [] then Inr fallback
      else case validate_display_name (Some v) ''name'' of
        Inl (field, msg) \<Rightarrow> Inl (HTTPException 400 (field @ '' '' @ msg))
      | Inr name \<Rightarrow> Inr name)"

definition validate_list_url :: "string \<Rightarrow> string http" where
  "validate_list_url url =
     (let text = py_strip url in
      if py_startswith (py_lower text) ''http://'' \<or> py_startswith (py_lower text) ''https://'' then Inr text
      else Inl (HTTPException 400 ''url must be an http(s) filter-list URL; local paths are not supported here''))"

definition list_kind :: "bool \<Rightarrow> filter_kind" where
  "list_kind whitelist = (if whitelist then Kind_allowlist else Kind_blocklist)"

fun filter_kind_value :: "filter_kind \<Rightarrow> string" where
  "filter_kind_value Kind_blocklist = ''blocklist''"
| "filter_kind_value Kind_allowlist = ''allowlist''"

text \<open>The rows a request names: the kind, the address up to case and white space, the scope.\<close>

definition subscribed :: "req_scope \<Rightarrow> filter_kind \<Rightarrow> string \<Rightarrow> filter_list \<Rightarrow> bool" where
  "subscribed q kind url f \<longleftrightarrow> fl_kind f = kind \<and> py_lower (py_strip (fl_url f)) = url \<and> row_in_scope q f"

definition control_add_url :: "user \<Rightarrow> req_scope \<Rightarrow> string \<Rightarrow> string \<Rightarrow> bool \<Rightarrow> db \<times> 'v read_cache \<Rightarrow> (json http \<times> db \<times> 'v read_cache)" where
  "control_add_url u q raw_url raw_name whitelist st =
     (let (d, c) = st in
      case validate_list_url raw_url of
        Inl x \<Rightarrow> (Inl x, d, c)
      | Inr url \<Rightarrow>
          (case valid_name raw_name url of
             Inl x \<Rightarrow> (Inl x, d, c)
           | Inr name \<Rightarrow>
               if list_ex (subscribed q (list_kind whitelist) (py_lower url)) (db_filter_lists d)
               then (Inl (HTTPException 400 ''that filter list is already subscribed''), d, c)
               else (case scope_fields q of
                  (sc, zs, sv) \<Rightarrow>
                    (Inr (JObj []),
                     d\<lparr>db_filter_lists := row_add c_id
                       (\<lambda>i. \<lparr>c_id = i, c_scope = sc, c_zone_ids = zs, c_server_id = sv, c_enabled = True,
                             c_description = Some (''Added via the AdGuard-compatible API by '' @ u_username u),
                             fl_name = name, fl_url = url, fl_kind = list_kind whitelist\<rparr>) (db_filter_lists d)\<rparr>,
                     cache_clear c))))"

definition control_remove_url :: "req_scope \<Rightarrow> string \<Rightarrow> bool \<Rightarrow> db \<times> 'v read_cache \<Rightarrow> (json http \<times> db \<times> 'v read_cache)" where
  "control_remove_url q url whitelist st =
     (let (d, c) = st in
      (Inr (JObj []),
       d\<lparr>db_filter_lists := filter (\<lambda>f. \<not> subscribed q (list_kind whitelist) (py_lower (py_strip url)) f) (db_filter_lists d)\<rparr>,
       cache_clear c))"

record set_url_data =
  su_enabled :: bool
  su_name :: string
  su_url :: string

definition set_url_row :: "set_url_data \<Rightarrow> filter_list \<Rightarrow> filter_list http" where
  "set_url_row b f =
     (case (if py_strip (su_name b) = [] then Inr (fl_name f) else valid_name (su_name b) (fl_name f),
            if py_strip (su_url b) = [] then Inr (fl_url f) else validate_list_url (su_url b)) of
        (Inr nm, Inr u) \<Rightarrow> Inr (f\<lparr>c_enabled := su_enabled b, fl_name := nm, fl_url := u\<rparr>)
      | (Inl x, _) \<Rightarrow> Inl x
      | (_, Inl x) \<Rightarrow> Inl x)"

text \<open>All rows or none: an exception leaves the session uncommitted.\<close>

fun all_rows :: "('r \<Rightarrow> bool) \<Rightarrow> ('r \<Rightarrow> 'r http) \<Rightarrow> 'r list \<Rightarrow> 'r list http" where
  "all_rows p f [] = Inr []"
| "all_rows p f (r # rows) =
     (case (if p r then f r else Inr r) of
        Inl x \<Rightarrow> Inl x
      | Inr r' \<Rightarrow> (case all_rows p f rows of Inl x \<Rightarrow> Inl x | Inr rs \<Rightarrow> Inr (r' # rs)))"

definition control_set_url ::
  "req_scope \<Rightarrow> string \<Rightarrow> set_url_data \<Rightarrow> bool \<Rightarrow> db \<times> 'v read_cache \<Rightarrow> (json http \<times> db \<times> 'v read_cache)" where
  "control_set_url q url b whitelist st =
     (let (d, c) = st; p = subscribed q (list_kind whitelist) (py_lower (py_strip url)) in
      if \<not> list_ex p (db_filter_lists d)
      then (Inl (HTTPException 404 (''no '' @ filter_kind_value (list_kind whitelist) @ '' subscribed for '' @ quoted url)), d, c)
      else case all_rows p (set_url_row b) (db_filter_lists d) of
        Inl x \<Rightarrow> (Inl x, d, c)
      | Inr rows \<Rightarrow> (Inr (JObj []), d\<lparr>db_filter_lists := rows\<rparr>, cache_clear c))"

section \<open>Rewrites\<close>

text \<open>A record has no per-server scope: a request for a server adds to its zone, or globally if it has none.\<close>

definition rewrite_target :: "db \<Rightarrow> req_scope \<Rightarrow> record_scope \<times> int list" where
  "rewrite_target d q =
     (case q_server_id q of
        Some i \<Rightarrow>
          (case Option.bind (get_server d i) s_zone_id of
             None \<Rightarrow> (Rec_global, [])
           | Some z \<Rightarrow> if z \<noteq> 0 then (Rec_zone, [z]) else (Rec_global, []))
      | None \<Rightarrow> (case q_zone_id q of Some z \<Rightarrow> (Rec_zone, [z]) | None \<Rightarrow> (Rec_global, [])))"

definition same_rewrite :: "string \<Rightarrow> string \<Rightarrow> dns_record \<Rightarrow> bool" where
  "same_rewrite domain answer r \<longleftrightarrow> r_domain r = py_lower (py_strip domain) \<and> r_answer r = py_strip answer"

definition control_rewrite_add :: "int \<Rightarrow> req_scope \<Rightarrow> string \<Rightarrow> string \<Rightarrow> db \<Rightarrow> json http \<times> db" where
  "control_rewrite_add now q domain answer d =
     (if py_lower (py_strip domain) = [] \<or> py_strip answer = []
      then (Inl (HTTPException 400 ''domain and answer are both required''), d)
      else if list_ex (same_rewrite domain answer) (db_records d)
      then (Inl (HTTPException 400 ''that rewrite already exists''), d)
      else case rewrite_target d q of
        (sc, zs) \<Rightarrow>
          (Inr (JObj []),
           d\<lparr>db_records := row_add r_id
             (\<lambda>i. \<lparr>r_id = i, r_domain = py_lower (py_strip domain), r_answer = py_strip answer, r_scope = sc,
                   r_zone_ids = zs, r_enabled = True, r_description = Some ''Added via the AdGuard-compatible API'',
                   r_managed = False, r_updated_at = now\<rparr>) (db_records d)\<rparr>))"

definition control_rewrite_delete :: "req_scope \<Rightarrow> string \<Rightarrow> string \<Rightarrow> db \<Rightarrow> json http \<times> db" where
  "control_rewrite_delete q domain answer d =
     (if list_ex (\<lambda>r. same_rewrite domain answer r \<and> r_managed r) (db_records d)
      then (Inl (HTTPException 409 ''that rewrite is auto-managed from the servers list''), d)
      else (Inr (JObj []), d\<lparr>db_records := filter (\<lambda>r. \<not> same_rewrite domain answer r) (db_records d)\<rparr>))"

text \<open>Updates are answered, but not offered.\<close>

definition control_version_json :: json where
  "control_version_json =
     JObj [(''disabled'', JBool True), (''new_version'', JStr []),
       (''announcement'', JStr ''AdGuard Admin manages AdGuard Home updates itself, one server at a time.''),
       (''announcement_url'', JStr []), (''can_autoupdate'', JBool False)]"

definition control_update :: "json http" where
  "control_update = Inl (HTTPException 501
     (''Upgrading AdGuard Home is not exposed here. AdGuard Admin rolls updates '' @
      ''one server at a time inside its maintenance window; use the Updates page '' @ ''or POST /api/updates.''))"

section \<open>The cache under concurrency\<close>

text \<open>
  What the cache holds is abstracted to the number of fleet writes its loader may have seen. \<open>Read\<close> is a
  request that is answered from the cache; a load reads the fleet at some moment between its start and its end.
\<close>

record fleet_view =
  fv_cache :: "nat read_cache"
  fv_now :: int
  fv_writes :: nat
  fv_reading :: "(string \<times> nat) list"     \<comment> \<open>the loads in flight, with the oldest state they may return\<close>

inductive view_step :: "int \<Rightarrow> fleet_view \<Rightarrow> fleet_view \<Rightarrow> bool" for ttl where
  vs_time: "fv_now v \<le> t \<Longrightarrow> view_step ttl v (v\<lparr>fv_now := t\<rparr>)"
| vs_load: "cache_enter ttl (fv_now v) k (fv_cache v) = (Must_load, c) \<Longrightarrow>
     view_step ttl v (v\<lparr>fv_cache := c, fv_reading := (k, fv_writes v) # fv_reading v\<rparr>)"
| vs_stored: "(k, n) \<in> set (fv_reading v) \<Longrightarrow> n \<le> m \<Longrightarrow> m \<le> fv_writes v \<Longrightarrow>
     view_step ttl v (v\<lparr>fv_cache := cache_store (fv_now v) k m (fv_cache v), fv_reading := remove1 (k, n) (fv_reading v)\<rparr>)"
| vs_failed: "(k, n) \<in> set (fv_reading v) \<Longrightarrow>
     view_step ttl v (v\<lparr>fv_cache := cache_abort k (fv_cache v), fv_reading := remove1 (k, n) (fv_reading v)\<rparr>)"
| vs_write: "view_step ttl v (v\<lparr>fv_cache := cache_clear (fv_cache v), fv_writes := Suc (fv_writes v)\<rparr>)"

inductive_cases view_stepE: "view_step ttl v v'"

abbreviation view_reaches :: "int \<Rightarrow> fleet_view \<Rightarrow> fleet_view \<Rightarrow> bool" where
  "view_reaches ttl \<equiv> (view_step ttl)\<^sup>*\<^sup>*"

definition idle_view :: "int \<Rightarrow> nat \<Rightarrow> fleet_view" where
  "idle_view now n = \<lparr>fv_cache = new_cache, fv_now = now, fv_writes = n, fv_reading = []\<rparr>"

text \<open>Nothing in the view is older than \<open>m\<close> writes, and every key is loaded at most once at a time.\<close>

definition view_ok :: "nat \<Rightarrow> fleet_view \<Rightarrow> bool" where
  "view_ok m v \<longleftrightarrow>
     m \<le> fv_writes v \<and> (\<forall>(k, t, n) \<in> set (rc_entries (fv_cache v)). m \<le> n \<and> n \<le> fv_writes v \<and> t \<le> fv_now v) \<and>
     (\<forall>(k, n) \<in> set (fv_reading v). m \<le> n) \<and> distinct (rc_loading (fv_cache v)) \<and>
     mset (map fst (fv_reading v)) = mset (rc_loading (fv_cache v))"

lemma dict_set_subset: "set (dict_set k v d) \<subseteq> insert (k, v) (set d)"
  by (induction k v d rule: dict_set.induct) auto

lemma mset_remove_fst: "(k, n) \<in> set xs \<Longrightarrow> mset (map fst (remove1 (k, n) xs)) = mset (map fst xs) - {#k#}"
  by (simp add: image_mset_Diff)

lemma enter_load:
  "cache_enter ttl now k c = (Must_load, c') \<Longrightarrow> k \<notin> set (rc_loading c) \<and> c' = c\<lparr>rc_loading := k # rc_loading c\<rparr>"
  by (auto simp: cache_enter_def split: option.splits if_splits)

lemma enter_hit:
  assumes "cache_enter ttl now k c = (Hit n, c')"
  obtains t where "(k, t, n) \<in> set (rc_entries c)" "now - t < ttl" "c' = c"
proof -
  have "ttl \<noteq> 0" "cache_fresh k ttl now c = Some n" "c' = c"
    using assms by (auto simp: cache_enter_def split: option.splits if_splits)
  then show ?thesis using that
    by (auto simp: cache_fresh_def split: option.splits prod.splits if_splits dest: map_of_SomeD)
qed

lemma view_idle: "view_ok n (idle_view now n)"
  by (simp add: view_ok_def idle_view_def new_cache_def)

lemma view_step_ok: "view_step ttl v v' \<Longrightarrow> view_ok m v \<Longrightarrow> view_ok m v'"
proof (induction rule: view_step.induct)
  case (vs_time v t)
  then show ?case by (fastforce simp: view_ok_def)
next
  case (vs_load v k c)
  from enter_load [OF vs_load(1)] vs_load(2) show ?case by (auto simp: view_ok_def)
next
  case (vs_stored k n v j)
  have "m \<le> n" using vs_stored(1,4) by (auto simp: view_ok_def)
  have entries: "(a, t, b) \<in> set (dict_set k (fv_now v, j) (rc_entries (fv_cache v))) \<Longrightarrow>
      m \<le> b \<and> b \<le> fv_writes v \<and> t \<le> fv_now v" for a t b
    using dict_set_subset [of k "(fv_now v, j)" "rc_entries (fv_cache v)"] vs_stored(2,3,4) \<open>m \<le> n\<close>
    by (fastforce simp: view_ok_def)
  have reading: "(a, b) \<in> set (remove1 (k, n) (fv_reading v)) \<Longrightarrow> m \<le> b" for a b
    using vs_stored(4) notin_set_remove1 [of "(a, b)"] by (fastforce simp: view_ok_def)
  show ?case using vs_stored(1,4) entries reading mset_remove_fst [OF vs_stored(1)]
    by (auto simp: view_ok_def cache_store_def)
next
  case (vs_failed k n v)
  have reading: "(a, b) \<in> set (remove1 (k, n) (fv_reading v)) \<Longrightarrow> m \<le> b" for a b
    using vs_failed(2) notin_set_remove1 [of "(a, b)"] by (fastforce simp: view_ok_def)
  show ?case using vs_failed reading mset_remove_fst [OF vs_failed(1)]
    by (auto simp: view_ok_def cache_abort_def)
next
  case (vs_write v)
  then show ?case by (auto simp: view_ok_def cache_clear_def)
qed

lemma view_reaches_ok: "view_reaches ttl v v' \<Longrightarrow> view_ok m v \<Longrightarrow> view_ok m v'"
  by (induction rule: rtranclp_induct) (auto intro: view_step_ok)

section \<open>Facts about subscriptions\<close>

lemma scope_fields_in_scope:
  assumes "scope_fields q = (sc, zs, sv)"
  shows "row_in_scope q \<lparr>c_id = i, c_scope = sc, c_zone_ids = zs, c_server_id = sv, c_enabled = b, c_description = x, \<dots> = m\<rparr>"
proof (cases "q_server_id q")
  case None
  then show ?thesis using assms by (cases "q_zone_id q") (auto simp: scope_fields_def row_in_scope_def)
next
  case (Some k)
  then have "sv = Some k" using assms by (simp add: scope_fields_def)
  then show ?thesis using Some by (simp add: row_in_scope_def)
qed

lemma list_url_stripped: "validate_list_url raw = Inr url \<Longrightarrow> url = py_strip raw \<and> py_strip url = url"
  by (auto simp: validate_list_url_def Let_def split: if_splits)

lemma add_url_row:
  assumes "control_add_url u q raw_url raw_name whitelist (d, c) = (Inr j, d', c')"
  obtains f url where "validate_list_url raw_url = Inr url" "db_filter_lists d' = db_filter_lists d @ [f]"
    "d' = d\<lparr>db_filter_lists := db_filter_lists d @ [f]\<rparr>"
    "subscribed q (list_kind whitelist) (py_lower url) f" "fl_url f = url" "fl_kind f = list_kind whitelist" "c_enabled f"
    "\<not> list_ex (subscribed q (list_kind whitelist) (py_lower url)) (db_filter_lists d)"
    "(c_scope f, c_zone_ids f, c_server_id f) = scope_fields q"
proof -
  obtain url name where url: "validate_list_url raw_url = Inr url" and name: "valid_name raw_name url = Inr name"
    and new: "\<not> list_ex (subscribed q (list_kind whitelist) (py_lower url)) (db_filter_lists d)"
    using assms by (auto simp: control_add_url_def split: sum.splits if_splits)
  obtain sc zs sv where sf: "scope_fields q = (sc, zs, sv)" by (metis prod_cases3)
  obtain i where "row_add c_id mk (db_filter_lists d) = db_filter_lists d @ [mk i]" for mk :: "int \<Rightarrow> filter_list"
    using that by (auto simp: row_add_def)
  define f where "f = \<lparr>c_id = next_id c_id (db_filter_lists d), c_scope = sc, c_zone_ids = zs, c_server_id = sv, c_enabled = True,
      c_description = Some (''Added via the AdGuard-compatible API by '' @ u_username u),
      fl_name = name, fl_url = url, fl_kind = list_kind whitelist\<rparr>"
  have d': "d' = d\<lparr>db_filter_lists := db_filter_lists d @ [f]\<rparr>"
    using assms url name new sf by (simp add: control_add_url_def row_add_def f_def)
  have "row_in_scope q f" unfolding f_def by (rule scope_fields_in_scope [OF sf])
  then have "subscribed q (list_kind whitelist) (py_lower url) f"
    using list_url_stripped [OF url] by (simp add: subscribed_def f_def)
  then show ?thesis using url new d' sf by (intro that [of url f]) (simp_all add: f_def)
qed

section \<open>Facts about merged lists\<close>

abbreviation merged_from :: "(string \<times> json) list \<Rightarrow> (string \<times> merged_filter) list" where
  "merged_from es \<equiv> fold (\<lambda>e. merge_filter (fst e) (snd e)) es []"

definition rules_of :: "json \<Rightarrow> int" where
  "rules_of item = py_trunc (as_number (jget_def item ''rules_count'' (JInt 0)))"

definition items_at :: "string \<Rightarrow> (string \<times> json) list \<Rightarrow> json list" where
  "items_at url es = map snd (filter (\<lambda>e. fst e = url) es)"

lemma merge_filter_put:
  assumes "\<forall>(u, m) \<in> set D. mf_url m = u"
  obtains m where "merge_filter u item D = dict_set u m D" "mf_url m = u"
proof (cases "map_of D u")
  case None
  then show ?thesis by (intro that) (auto simp: merge_filter_def Let_def)
next
  case (Some m)
  then have "mf_url m = u" using assms by (auto dest: map_of_SomeD)
  then have "mf_url (m\<lparr>mf_enabled := b, mf_rules := n\<rparr>) = u" for b n by simp
  moreover have "\<exists>b n. merge_filter u item D = dict_set u (m\<lparr>mf_enabled := b, mf_rules := n\<rparr>) D"
    using Some by (auto simp: merge_filter_def Let_def)
  ultimately show ?thesis using that by metis
qed

lemma merged_keys:
  "distinct (map fst (merged_from es)) \<and> set (map fst (merged_from es)) = fst ` set es \<and>
     (\<forall>(u, m) \<in> set (merged_from es). mf_url m = u)"
proof (induction es rule: rev_induct)
  case (snoc e es)
  let ?D = "merged_from es"
  obtain m where m: "merged_from (es @ [e]) = dict_set (fst e) m ?D" "mf_url m = fst e"
    using merge_filter_put [of ?D "fst e" "snd e"] snoc by auto
  have "distinct (map fst (dict_set (fst e) m ?D))" using snoc by (intro dict_set_distinct) simp
  moreover have "set (map fst (dict_set (fst e) m ?D)) = insert (fst e) (fst ` set es)"
    using snoc by (simp only: dict_set_keys)
  moreover have "\<forall>(u, m') \<in> set (dict_set (fst e) m ?D). mf_url m' = u"
    using dict_set_subset [of "fst e" m ?D] m(2) snoc by fastforce
  ultimately show ?case unfolding m(1) by simp
qed simp

lemma merge_filter_other: "v \<noteq> u \<Longrightarrow> map_of (merge_filter u item D) v = map_of D v"
  by (simp add: merge_filter_def Let_def split: option.split)

lemma merge_filter_first:
  "map_of D u = None \<Longrightarrow> map_of (merge_filter u item D) u = Some m \<Longrightarrow>
     mf_enabled m = truthy (jget item ''enabled'') \<and> mf_rules m = rules_of item"
  by (auto simp: merge_filter_def rules_of_def Let_def)

lemma merge_filter_again:
  "map_of D u = Some m0 \<Longrightarrow> map_of (merge_filter u item D) u = Some m \<Longrightarrow>
     mf_enabled m = (mf_enabled m0 \<and> truthy (jget item ''enabled'')) \<and> mf_rules m = max (mf_rules m0) (rules_of item)"
  by (auto simp: merge_filter_def rules_of_def Let_def)

lemma merged_values:
  "map_of (merged_from es) u = Some m \<Longrightarrow>
     (mf_enabled m \<longleftrightarrow> (\<forall>item \<in> set (items_at u es). truthy (jget item ''enabled''))) \<and>
     mf_rules m = Max (rules_of ` set (items_at u es))"
proof (induction es arbitrary: m rule: rev_induct)
  case (snoc e es)
  let ?D = "merged_from es"
  have last: "map_of (merge_filter (fst e) (snd e) ?D) u = Some m" using snoc.prems by simp
  show ?case
  proof (cases "fst e = u")
    case False
    with last have "map_of ?D u = Some m" by (simp add: merge_filter_other)
    then show ?thesis using snoc.IH False by (simp add: items_at_def)
  next
    case True
    have at: "set (items_at u (es @ [e])) = insert (snd e) (set (items_at u es))" using True by (auto simp: items_at_def)
    show ?thesis
    proof (cases "map_of ?D u")
      case None
      then have "u \<notin> set (map fst ?D)" by (simp add: map_of_eq_None_iff)
      then have "u \<notin> fst ` set es" using merged_keys [of es] by metis
      then have "items_at u es = []" by (auto simp: items_at_def filter_empty_conv)
      with merge_filter_first [of ?D u "snd e" m] None last True show ?thesis unfolding at by simp
    next
      case (Some m0)
      then have "u \<in> set (map fst ?D)" by (metis domI dom_map_of_conv_image_fst set_map)
      then have "u \<in> fst ` set es" using merged_keys [of es] by metis
      then have ne: "rules_of ` set (items_at u es) \<noteq> {}" by (auto simp: items_at_def)
      have m: "mf_enabled m = (mf_enabled m0 \<and> truthy (jget (snd e) ''enabled''))"
        "mf_rules m = max (mf_rules m0) (rules_of (snd e))"
        using merge_filter_again [of ?D u m0 "snd e" m] Some last True by simp_all
      show ?thesis using snoc.IH [OF Some] ne unfolding at m by (auto simp: max.commute)
    qed
  qed
qed simp

section \<open>Facts about the answers of a fan-out\<close>

lemma toggle_runs:
  assumes "apply_toggle F cfg G q m what d (W, c) = (r, W', c')"
  shows "W' = snd (fan_out G m (load_targets F cfg (q_zone_id q) (q_server_id q) d) W)"
    and "(\<exists>j. r = Inr j) \<longleftrightarrow> (\<exists>t \<in> set (load_targets F cfg (q_zone_id q) (q_server_id q) d). oc_ok (outcome_of G m W t))"
  using assms
  by (auto simp: apply_toggle_def fan_out_def list_ex_iff Let_def split: if_splits)

section \<open>Properties\<close>

text \<open>
  The compatible API lets in only an active local account whose password was verified, and only while neither the
  address nor the user name is locked; a disabled account and a wrong password are answered alike.
\<close>

theorem compat_user_sound:
  assumes "compat_user verify cfg now ip credentials d l = (Inr u, l')"
  shows "cf_ha_compat_enabled cfg \<and> u \<in> set (db_users d) \<and> u_is_active u \<and>
    (\<exists>password. credentials = Some (u_username u, password) \<and> verify password (the (u_hashed_password u))) \<and>
    open_at now (''compat-ip:'' @ ip) l \<and> open_at now (''compat-user:'' @ py_lower (u_username u)) l"
proof -
  obtain username password where cr: "credentials = Some (username, password)" and en: "cf_ha_compat_enabled cfg"
    using assms by (auto simp: compat_user_def split: option.splits if_splits)
  obtain n l1 where t: "throttled now (compat_keys ip username) l = (n, l1)" by fastforce
  have n: "n = 0" and f: "find_username d username = Some u" and ok: "u_is_active u" "verify password (the (u_hashed_password u))"
    using assms cr en t by (auto simp: compat_user_def split: option.splits if_splits)
  have "list_all (\<lambda>k. open_at now k l) (compat_keys ip username)" using throttled_open [OF t] n by simp
  moreover have "u \<in> set (db_users d)" "u_username u = username" using f by (auto simp: find_username_def find_Some_iff)
  ultimately show ?thesis using cr en ok by (auto simp: compat_keys_def)
qed

theorem compat_user_sound_witness:
  "fst (compat_user (=) default_settings 0 ''10.0.0.9'' (Some (''root'', ''secret''))
     (empty_db\<lparr>db_users := [sample_user]\<rparr>) (new_limiter 3 60 300)) = Inr sample_user \<and> u_is_active sample_user"
proof -
  let ?run = "compat_user (=) default_settings 0 ''10.0.0.9'' (Some (''root'', ''secret''))
     (empty_db\<lparr>db_users := [sample_user]\<rparr>) (new_limiter 3 60 300)"
  have "fst ?run = Inr sample_user" by code_simp
  then obtain l' where run: "?run = (Inr sample_user, l')" by (metis prod.collapse)
  from compat_user_sound [OF run] run show ?thesis by simp
qed

text \<open>
  The rewrites listed for a zone are those the plan of every server of that zone asks for, and the ones
  listed for a server are those of its own plan, each once.
\<close>

theorem rewrite_list_is_plan:
  assumes "q_server_id q = None \<and> q_zone_id q \<noteq> None \<and> s_zone_id s = q_zone_id q \<or>
    q_server_id q = Some (s_id s) \<and> get_server d (s_id s) = Some s"
  shows "set (records_in_scope d q) = set (p_rewrites (build_plan d s)) \<and>
    (q_server_id q \<noteq> None \<longrightarrow> distinct (records_in_scope d q))"
  using assms
proof
  assume q: "q_server_id q = None \<and> q_zone_id q \<noteq> None \<and> s_zone_id s = q_zone_id q"
  then obtain z where z: "q_zone_id q = Some z" "s_zone_id s = Some z" by auto
  have "r_scope r = Rec_global \<or> z \<in> set (r_zone_ids r) \<longleftrightarrow> record_applies s r \<or> r_scope r = Rec_global" for r
    by (cases "r_scope r") (simp_all add: record_applies_def z)
  moreover have "record_applies s r" if "r_scope r = Rec_global" for r using that by (simp add: record_applies_def)
  ultimately have "r_scope r = Rec_global \<or> z \<in> set (r_zone_ids r) \<longleftrightarrow> record_applies s r" for r by blast
  then show ?thesis using q z by (simp add: records_in_scope_def build_plan_def desired_rewrites_for_server_def Let_def)
next
  assume "q_server_id q = Some (s_id s) \<and> get_server d (s_id s) = Some s"
  then show ?thesis by (simp add: records_in_scope_def build_plan_def desired_rewrites_for_server_def)
qed

definition fleet_scope :: req_scope where
  "fleet_scope = \<lparr>q_label = ''fleet'', q_zone_id = None, q_server_id = None\<rparr>"

theorem rewrite_list_is_plan_witness:
  "set (records_in_scope (onboarding [switched_off\<lparr>r_enabled := True\<rparr>]) (fleet_scope\<lparr>q_zone_id := Some 4\<rparr>)) =
     set (p_rewrites (build_plan (onboarding [switched_off\<lparr>r_enabled := True\<rparr>]) pruned_server))"
proof -
  have "s_zone_id pruned_server = Some 4" by (simp add: pruned_server_def)
  then show ?thesis using rewrite_list_is_plan [of "fleet_scope\<lparr>q_zone_id := Some 4\<rparr>" pruned_server] by (simp add: fleet_scope_def)
qed

text \<open>
  Subscribing to a filter list and unsubscribing again, under any spelling of the same address, restores the
  subscriptions, and both empty the read cache.
\<close>

theorem subscription_roundtrip:
  assumes "control_add_url u q raw_url raw_name whitelist (d, c) = (Inr j, d', c')"
    and "py_lower (py_strip url) = py_lower (py_strip raw_url)"
  shows "control_remove_url q url whitelist (d', c') = (Inr (JObj []), d, cache_clear c')"
proof -
  obtain f u' where url: "validate_list_url raw_url = Inr u'" and d': "d' = d\<lparr>db_filter_lists := db_filter_lists d @ [f]\<rparr>"
    and f: "subscribed q (list_kind whitelist) (py_lower u') f"
    and new: "\<not> list_ex (subscribed q (list_kind whitelist) (py_lower u')) (db_filter_lists d)"
    by (rule add_url_row [OF assms(1)])
  have "py_lower (py_strip url) = py_lower u'" using assms(2) list_url_stripped [OF url] by simp
  moreover have "filter (\<lambda>f. \<not> subscribed q (list_kind whitelist) (py_lower u') f) (db_filter_lists d) = db_filter_lists d"
    using new by (auto simp: filter_id_conv list_ex_iff)
  ultimately show ?thesis using f by (simp add: control_remove_url_def d')
qed

lemma ads_added: "\<exists>d' c'. control_add_url sample_user (fleet_scope\<lparr>q_zone_id := Some 4\<rparr>) '' https://lists.example/ADS'' [] False (onboarding [], new_cache :: json read_cache)
   = (Inr (JObj []), d', c')"
proof -
  have "validate_list_url '' https://lists.example/ADS'' = Inr ''https://lists.example/ADS''" by code_simp
  moreover have "db_filter_lists (onboarding []) = []" by (simp add: onboarding_def empty_db_def)
  ultimately show ?thesis by (simp add: control_add_url_def valid_name_def scope_fields_def fleet_scope_def)
qed

theorem subscription_roundtrip_witness:
  "\<exists>d' c'. control_add_url sample_user (fleet_scope\<lparr>q_zone_id := Some 4\<rparr>) '' https://lists.example/ADS'' [] False (onboarding [], new_cache :: json read_cache)
     = (Inr (JObj []), d', c') \<and>
   fst (snd (control_remove_url (fleet_scope\<lparr>q_zone_id := Some 4\<rparr>) ''HTTPS://lists.example/ads'' False (d', c'))) = onboarding []"
proof -
  obtain d' c' where add: "control_add_url sample_user (fleet_scope\<lparr>q_zone_id := Some 4\<rparr>) '' https://lists.example/ADS'' [] False (onboarding [], new_cache :: json read_cache)
     = (Inr (JObj []), d', c')"
    using ads_added by (elim exE) (rule that)
  have "py_lower (py_strip ''HTTPS://lists.example/ads'') = py_lower (py_strip '' https://lists.example/ADS'')" by code_simp
  from subscription_roundtrip [OF add this]
  have "fst (snd (control_remove_url (fleet_scope\<lparr>q_zone_id := Some 4\<rparr>) ''HTTPS://lists.example/ads'' False (d', c'))) = onboarding []"
    by simp
  with add show ?thesis by (intro exI conjI) assumption+
qed

text \<open>
  A new subscription is planned for exactly the servers the request was scoped to: one server, the servers of a
  zone, or the whole fleet; no plan changes otherwise.
\<close>

theorem subscription_reaches:
  assumes "control_add_url u q raw_url raw_name whitelist (d, c) = (Inr j, d', c')"
  shows "\<exists>f. fl_url f = py_strip raw_url \<and> (\<forall>s k. filters_for_server d' s k = filters_for_server d s k @
    (if k = list_kind whitelist \<and>
        (case q_server_id q of Some i \<Rightarrow> s_id s = i
         | None \<Rightarrow> (case q_zone_id q of Some z \<Rightarrow> s_zone_id s = Some z | None \<Rightarrow> True))
     then [f] else []))"
proof -
  obtain f u' where url: "validate_list_url raw_url = Inr u'" and rows: "db_filter_lists d' = db_filter_lists d @ [f]"
    and f: "fl_url f = u'" "fl_kind f = list_kind whitelist" "(c_scope f, c_zone_ids f, c_server_id f) = scope_fields q"
    by (rule add_url_row [OF assms])
  have "py_strip u' = u'" "u' \<noteq> []" "u' = py_strip raw_url"
    using list_url_stripped [OF url] url by (auto simp: validate_list_url_def py_lower_def Let_def)
  moreover have "scope_matches f s \<longleftrightarrow> (case q_server_id q of Some i \<Rightarrow> s_id s = i
      | None \<Rightarrow> (case q_zone_id q of Some z \<Rightarrow> s_zone_id s = Some z | None \<Rightarrow> True))" for s
    using f(3) by (cases "q_server_id q"; cases "q_zone_id q"; cases "s_zone_id s") (auto simp: scope_fields_def)
  ultimately show ?thesis using f rows by (intro exI [of _ f]) (simp add: filters_for_server_def)
qed

theorem subscription_reaches_witness:
  "\<exists>d' c' f. control_add_url sample_user (fleet_scope\<lparr>q_zone_id := Some 4\<rparr>) '' https://lists.example/ADS'' [] False (onboarding [], new_cache :: json read_cache)
     = (Inr (JObj []), d', c') \<and> filters_for_server d' pruned_server Kind_blocklist = [f] \<and>
   filters_for_server d' (sample_server 2 ''b'' []) Kind_blocklist = []"
proof -
  obtain d' c' where add: "control_add_url sample_user (fleet_scope\<lparr>q_zone_id := Some 4\<rparr>) '' https://lists.example/ADS'' [] False (onboarding [], new_cache :: json read_cache)
     = (Inr (JObj []), d', c')"
    using ads_added by (elim exE) (rule that)
  have none: "filters_for_server (onboarding []) s k = []" for s k
    by (simp add: filters_for_server_def onboarding_def empty_db_def)
  have z: "s_zone_id pruned_server = Some 4" "s_zone_id (sample_server 2 ''b'' []) = None"
    by (simp_all add: pruned_server_def sample_server_def)
  obtain f where "\<forall>s k. filters_for_server d' s k = filters_for_server (onboarding []) s k @
    (if k = list_kind False \<and> s_zone_id s = Some 4 then [f] else [])"
    using subscription_reaches [OF add] by (auto simp: fleet_scope_def)
  then have "filters_for_server d' pruned_server Kind_blocklist = [f]" "filters_for_server d' (sample_server 2 ''b'' []) Kind_blocklist = []"
    by (simp_all add: none z list_kind_def)
  with add show ?thesis by (intro exI conjI) assumption+
qed

text \<open>
  Deleting a rewrite ignores the scope of the request: asked for one zone, it deletes the record of another, and
  a server of that other zone no longer serves it.
\<close>

theorem rewrite_delete_reaches_other_zones:
  assumes "r \<in> set (db_records d)" and "r_scope r = Rec_zone" and "z' \<in> set (r_zone_ids r)" and "r_enabled r"
    and "q_zone_id q = Some z" and "z \<notin> set (r_zone_ids r)" and "s_zone_id s = Some z'"
    and "same_rewrite domain answer r" and "\<forall>x \<in> set (db_records d). same_rewrite domain answer x \<longrightarrow> \<not> r_managed x"
  shows "rewrite_of r \<in> set (desired_rewrites_for_server d s) \<and>
    rewrite_of r \<notin> set (desired_rewrites_for_server (snd (control_rewrite_delete q domain answer d)) s) \<and>
    rewrite_of r \<in> set (records_in_scope d (q\<lparr>q_zone_id := Some z', q_server_id := None\<rparr>))"
proof -
  have "record_applies s r" using assms(2,3,7) by (simp add: record_applies_def)
  then have "rewrite_of r \<in> set (desired_rewrites_for_server d s)"
    using assms(1,4) by (auto simp: desired_rewrites_for_server_def)
  moreover have "rewrite_of r \<notin> set (desired_rewrites_for_server (snd (control_rewrite_delete q domain answer d)) s)"
    using assms(8,9) by (auto simp: control_rewrite_delete_def desired_rewrites_for_server_def list_ex_iff rewrite_of_def same_rewrite_def)
  moreover have "rewrite_of r \<in> set (records_in_scope d (q\<lparr>q_zone_id := Some z', q_server_id := None\<rparr>))"
    using assms(1,3,4) by (auto simp: records_in_scope_def Let_def)
  ultimately show ?thesis by simp
qed

theorem rewrite_delete_reaches_other_zones_witness:
  "db_records (snd (control_rewrite_delete (fleet_scope\<lparr>q_zone_id := Some 9\<rparr>) ''nas.lan'' ''10.0.0.2''
     (onboarding [switched_off\<lparr>r_enabled := True\<rparr>]))) = [] \<and>
   rewrite_of switched_off \<in> set (desired_rewrites_for_server (onboarding [switched_off\<lparr>r_enabled := True\<rparr>]) pruned_server)"
proof -
  let ?r = "switched_off\<lparr>r_enabled := True\<rparr>"
  have same: "same_rewrite ''nas.lan'' ''10.0.0.2'' ?r" by code_simp
  have "rewrite_of ?r \<in> set (desired_rewrites_for_server (onboarding [?r]) pruned_server)"
    using rewrite_delete_reaches_other_zones [of ?r "onboarding [?r]" 4 "fleet_scope\<lparr>q_zone_id := Some 9\<rparr>" 9 pruned_server, OF _ _ _ _ _ _ _ same]
    by (simp add: onboarding_def switched_off_def pruned_server_def)
  moreover have "rewrite_of ?r = rewrite_of switched_off" by (simp add: rewrite_of_def)
  moreover have "\<not> r_managed ?r" by (simp add: switched_off_def)
  ultimately show ?thesis using same by (simp add: control_rewrite_delete_def onboarding_def)
qed

text \<open>
  C21. The read cache under any interleaving of requests, loads and writes: at most one load per key runs at a time, and
  a cached answer is younger than the time to live and no older than the last write that found no load in flight.
\<close>

theorem cache_hits_bounded:
  assumes "view_reaches ttl (idle_view now0 n) v"
  shows "distinct (map fst (fv_reading v)) \<and>
    (\<forall>k m c. cache_enter ttl (fv_now v) k (fv_cache v) = (Hit m, c) \<longrightarrow>
       n \<le> m \<and> m \<le> fv_writes v \<and> (\<exists>t. (k, t, m) \<in> set (rc_entries (fv_cache v)) \<and> t \<le> fv_now v \<and> fv_now v - t < ttl))"
proof -
  have ok: "view_ok n v" using view_reaches_ok [OF assms view_idle] .
  have "distinct (map fst (fv_reading v))"
    using ok mset_eq_imp_distinct_iff [of "map fst (fv_reading v)" "rc_loading (fv_cache v)"] by (simp only: view_ok_def)
  moreover have "n \<le> m \<and> m \<le> fv_writes v \<and> (\<exists>t. (k, t, m) \<in> set (rc_entries (fv_cache v)) \<and> t \<le> fv_now v \<and> fv_now v - t < ttl)"
    if hit: "cache_enter ttl (fv_now v) k (fv_cache v) = (Hit m, c)" for k m c
  proof -
    obtain t where t: "(k, t, m) \<in> set (rc_entries (fv_cache v))" "fv_now v - t < ttl" using hit by (rule enter_hit)
    then have "n \<le> m \<and> m \<le> fv_writes v \<and> t \<le> fv_now v" using ok unfolding view_ok_def by fast
    with t show ?thesis by blast
  qed
  ultimately show ?thesis by blast
qed

theorem cache_hits_bounded_witness:
  "cache_enter 9 0 ''k'' (fv_cache ((idle_view 0 2)\<lparr>fv_cache := cache_store 0 ''k'' 2 (new_cache\<lparr>rc_loading := [''k'']\<rparr>)\<rparr>)) =
     (Hit 2, cache_store 0 ''k'' 2 (new_cache\<lparr>rc_loading := [''k'']\<rparr>)) \<and>
   view_reaches 9 (idle_view 0 2) ((idle_view 0 2)\<lparr>fv_cache := cache_store 0 ''k'' 2 (new_cache\<lparr>rc_loading := [''k'']\<rparr>)\<rparr>) \<and> (2::nat) \<le> 2"
proof -
  let ?v1 = "(idle_view 0 2)\<lparr>fv_cache := new_cache\<lparr>rc_loading := [''k'']\<rparr>, fv_reading := [(''k'', 2)]\<rparr>"
  let ?v2 = "(idle_view 0 2)\<lparr>fv_cache := cache_store 0 ''k'' 2 (new_cache\<lparr>rc_loading := [''k'']\<rparr>)\<rparr>"
  have "cache_enter 9 (fv_now (idle_view 0 2)) ''k'' (fv_cache (idle_view 0 2)) = (Must_load, new_cache\<lparr>rc_loading := [''k'']\<rparr>)"
    by (simp add: cache_enter_def cache_fresh_def idle_view_def new_cache_def)
  from vs_load [OF this] have 1: "view_step 9 (idle_view 0 2) ?v1" by (simp add: idle_view_def)
  from vs_stored [of "''k''" 2 ?v1 2 9] have 2: "view_step 9 ?v1 ?v2" by (simp add: idle_view_def)
  have run: "view_reaches 9 (idle_view 0 2) ?v2" using 1 2 by (meson rtranclp.rtrancl_into_rtrancl rtranclp.rtrancl_refl)
  have hit: "cache_enter 9 (fv_now ?v2) ''k'' (fv_cache ?v2) = (Hit 2, fv_cache ?v2)"
    by (simp add: cache_enter_def cache_fresh_def cache_store_def new_cache_def idle_view_def)
  from cache_hits_bounded [OF run] hit have "(2::nat) \<le> 2" by blast
  with run hit show ?thesis by (simp add: idle_view_def)
qed

text \<open>
  A write does not reach a load that was already in flight: its result is stored after the write cleared the
  cache, and requests are then answered with what the fleet was before the write, for a whole time to live.
\<close>

theorem stale_read_after_write:
  assumes "0 < ttl"
  shows "\<exists>v. view_reaches ttl (idle_view 0 n) v \<and> fv_writes v = Suc n \<and>
    (\<forall>t. 0 \<le> t \<and> t < ttl \<longrightarrow> view_reaches ttl (idle_view 0 n) (v\<lparr>fv_now := t\<rparr>) \<and>
       fst (cache_enter ttl t k (fv_cache v)) = Hit n)"
proof -
  let ?c1 = "new_cache\<lparr>rc_loading := [k]\<rparr>"
  let ?v1 = "(idle_view 0 n)\<lparr>fv_cache := ?c1, fv_reading := [(k, n)]\<rparr>"
  let ?v2 = "?v1\<lparr>fv_cache := cache_clear ?c1, fv_writes := Suc n\<rparr>"
  let ?v3 = "?v2\<lparr>fv_cache := cache_store 0 k n (cache_clear ?c1), fv_reading := []\<rparr>"
  have "cache_enter ttl (fv_now (idle_view 0 n)) k (fv_cache (idle_view 0 n)) = (Must_load, ?c1)"
    by (simp add: cache_enter_def cache_fresh_def idle_view_def new_cache_def)
  from vs_load [OF this] have 1: "view_step ttl (idle_view 0 n) ?v1" by (simp add: idle_view_def)
  from vs_write [of ttl ?v1] have 2: "view_step ttl ?v1 ?v2" by (simp add: idle_view_def)
  from vs_stored [of k n ?v2 n ttl] have 3: "view_step ttl ?v2 ?v3" by (simp add: idle_view_def)
  have run: "view_reaches ttl (idle_view 0 n) ?v3" using 1 2 3 by (meson rtranclp.rtrancl_into_rtrancl rtranclp.rtrancl_refl)
  have "view_reaches ttl (idle_view 0 n) (?v3\<lparr>fv_now := t\<rparr>)" if "0 \<le> t" for t
    using run vs_time [of ?v3 t ttl] that by (auto simp: idle_view_def intro: rtranclp.rtrancl_into_rtrancl)
  moreover have "fst (cache_enter ttl t k (fv_cache ?v3)) = Hit n" if "t < ttl" for t
    using that assms by (simp add: cache_enter_def cache_fresh_def cache_store_def cache_clear_def new_cache_def)
  ultimately show ?thesis using run by (intro exI [of _ ?v3]) simp
qed

theorem stale_read_after_write_witness:
  "\<exists>v. view_reaches 15000000 (idle_view 0 0) v \<and> fv_writes v = 1 \<and> fst (cache_enter 15000000 0 ''status@zNonesNone'' (fv_cache v)) = Hit 0"
proof -
  have "(0::int) < 15000000" by simp
  from stale_read_after_write [OF this, of 0 "''status@zNonesNone''"] this show ?thesis by (metis One_nat_def order_refl)
qed

text \<open>
  Filter lists are merged by address: each address of any server once, on exactly when every server that lists it
  has it on, with the largest rule count reported.
\<close>

theorem merged_lists_exact:
  assumes "merge_filters values key = Some ms" and "opt_list (map (\<lambda>v. listed_filters v key) values) = Some lss"
  shows "distinct (map mf_url ms) \<and> set (map mf_url ms) = fst ` set (concat lss) \<and>
    (\<forall>m \<in> set ms. (mf_enabled m \<longleftrightarrow> (\<forall>item \<in> set (items_at (mf_url m) (concat lss)). truthy (jget item ''enabled''))) \<and>
       mf_rules m = Max (rules_of ` set (items_at (mf_url m) (concat lss))))"
proof -
  let ?D = "merged_from (concat lss)"
  have ms: "ms = map snd ?D" using assms by (simp add: merge_filters_def)
  note k = merged_keys [of "concat lss"]
  have urls: "map mf_url ms = map fst ?D" unfolding ms using k by auto
  have at: "map_of ?D (mf_url m) = Some m" if m: "m \<in> set ms" for m
  proof -
    obtain u where "(u, m) \<in> set ?D" using m unfolding ms by auto
    then show ?thesis using k by (auto intro: map_of_is_SomeI)
  qed
  have "distinct (map mf_url ms)" "set (map mf_url ms) = fst ` set (concat lss)"
    unfolding urls using k by argo+
  then show ?thesis using merged_values [OF at] by (intro conjI ballI) simp_all
qed

theorem merged_lists_exact_witness:
  "\<exists>m. merge_filters
     [JObj [(''filters'', JList [JObj [(''url'', JStr ''u''), (''enabled'', JBool True), (''rules_count'', JInt 5)]])],
      JObj [(''filters'', JList [JObj [(''url'', JStr ''u''), (''enabled'', JBool False), (''rules_count'', JInt 7)]])]] ''filters''
     = Some [m] \<and> \<not> mf_enabled m \<and> mf_rules m = 7"
proof -
  let ?a = "JObj [(''url'', JStr ''u''), (''enabled'', JBool True), (''rules_count'', JInt 5)]"
  let ?b = "JObj [(''url'', JStr ''u''), (''enabled'', JBool False), (''rules_count'', JInt 7)]"
  let ?vs = "[JObj [(''filters'', JList [?a])], JObj [(''filters'', JList [?b])]]"
  have lists: "opt_list (map (\<lambda>v. listed_filters v ''filters'') ?vs) = Some [[(''u'', ?a)], [(''u'', ?b)]]" by code_simp
  have urls: "\<exists>m. merge_filters ?vs ''filters'' = Some [m] \<and> mf_url m = ''u''"
    unfolding merge_filters_def lists by (simp add: merge_filter_def Let_def)
  then obtain m where m: "merge_filters ?vs ''filters'' = Some [m]" "mf_url m = ''u''" by blast
  have items: "items_at ''u'' (concat [[(''u'', ?a)], [(''u'', ?b)]]) = [?a, ?b]" by (simp add: items_at_def)
  have "rules_of ?a = 5" "rules_of ?b = 7" by (simp_all add: rules_of_def py_trunc_def)
  with merged_lists_exact [OF m(1) lists] m(2) items have "\<not> mf_enabled m" "mf_rules m = 7" by simp_all
  with m show ?thesis by blast
qed

text \<open>
  C22. A toggle is sent once to every enabled server in its scope and to no other server, whatever becomes of the
  others, and succeeds exactly when at least one of them took it.
\<close>

theorem toggle_reaches_scope:
  assumes "distinct (map s_id (db_servers d))"
    and "apply_toggle F cfg G q m what d (W, c) = (r, W', c')"
  shows "(\<forall>s \<in> set (db_servers d). in_selection (q_zone_id q) (q_server_id q) s \<longrightarrow>
        W' (s_id s) = snd (call_one G m (target_row F cfg s) (W (s_id s)))) \<and>
    (\<forall>i. i \<notin> s_id ` {s \<in> set (db_servers d). in_selection (q_zone_id q) (q_server_id q) s} \<longrightarrow> W' i = W i) \<and>
    ((\<exists>j. r = Inr j) \<longleftrightarrow> (\<exists>s \<in> set (db_servers d). in_selection (q_zone_id q) (q_server_id q) s \<and>
        oc_ok (fst (call_one G m (target_row F cfg s) (W (s_id s))))))"
proof -
  let ?ts = "load_targets F cfg (q_zone_id q) (q_server_id q) d"
  note W' = toggle_runs(1) [OF assms(2)]
  have ts: "set ?ts = target_row F cfg ` {s \<in> set (db_servers d). in_selection (q_zone_id q) (q_server_id q) s}"
    by (simp add: load_targets_def)
  have id: "tg_id (target_row F cfg s) = s_id s" for s by (simp add: target_row_def)
  have "W' (s_id s) = snd (call_one G m (target_row F cfg s) (W (s_id s)))"
    if "s \<in> set (db_servers d)" "in_selection (q_zone_id q) (q_server_id q) s" for s
  proof -
    have "target_row F cfg s \<in> set ?ts" using that unfolding ts by blast
    from fan_out_world [OF load_targets_distinct [OF assms(1)] this, of G m W] show ?thesis unfolding W' id .
  qed
  moreover have "W' i = W i" if "i \<notin> s_id ` {s \<in> set (db_servers d). in_selection (q_zone_id q) (q_server_id q) s}" for i
    unfolding W' by (rule fan_out_others) (use that in \<open>simp add: load_targets_ids\<close>)
  moreover have "(\<exists>j. r = Inr j) \<longleftrightarrow> (\<exists>s \<in> set (db_servers d). in_selection (q_zone_id q) (q_server_id q) s \<and>
        oc_ok (fst (call_one G m (target_row F cfg s) (W (s_id s)))))"
    unfolding toggle_runs(2) [OF assms(2)] ts by (auto simp: outcome_of_def id)
  ultimately show ?thesis by blast
qed

definition nas_fleet :: "nat fleet" where
  "nas_fleet = \<lparr>ft_build = \<lambda>t. None, ft_env = \<lambda>i. nas_instance\<rparr>"

theorem toggle_reaches_scope_witness:
  "fst (apply_toggle no_fernet default_settings nas_fleet fleet_scope (\<lambda>e. no_answer (call_io e (AG_set_safety ''parental'' True)))
      ''parental=True'' (onboarding []) (\<lambda>i. import_world, new_cache :: json read_cache)) = Inr (JObj []) \<and>
   s_enabled pruned_server"
proof -
  let ?run = "apply_toggle no_fernet default_settings nas_fleet fleet_scope (\<lambda>e. no_answer (call_io e (AG_set_safety ''parental'' True)))
      ''parental=True'' (onboarding []) (\<lambda>i. import_world, new_cache :: json read_cache)"
  obtain r W' c' where run: "?run = (r, W', c')" by (metis prod_cases3)
  have d: "distinct (map s_id (db_servers (onboarding [])))" by (simp add: onboarding_def)
  have sel: "in_selection None None pruned_server" "s_enabled pruned_server"
    by (simp_all add: in_selection_def pruned_server_def sample_server_def)
  have "oc_ok (fst (call_one nas_fleet (\<lambda>e. no_answer (call_io e (AG_set_safety ''parental'' True))) t w))" for t w
    by (simp add: call_one_def nas_fleet_def no_answer_def io_finally_def io_bind_def io_return_def call_io_def nas_instance_def)
  with toggle_reaches_scope [OF d run] sel have "\<exists>j. r = Inr j" by (auto simp: fleet_scope_def onboarding_def)
  with run have "r = Inr (JObj [])" by (auto simp: apply_toggle_def Let_def split: if_splits prod.splits)
  with run sel(2) show ?thesis by simp
qed

text \<open>
  A refresh that fails everywhere can be answered with success: failures are counted by server name, names
  are not unique, and two servers of one name count as one.
\<close>

theorem refresh_failure_hidden:
  assumes "load_targets F cfg (q_zone_id q) (q_server_id q) d = [t1, t2]" and "tg_name t1 = tg_name t2"
    and "ft_build G t1 = Some x1" and "ft_build G t2 = Some x2"
  shows "fst (control_filtering_refresh F cfg G q whitelist force d (W, c)) = Inr (JObj [(''updated'', JInt 0)])"
  using assms
  by (simp add: control_filtering_refresh_def fan_out_def outcome_of_def call_one_def failed_map_def reported_def
      sum_stat_def py_trunc_def Let_def)

theorem refresh_failure_hidden_witness:
  "fst (control_filtering_refresh no_fernet default_settings (nas_fleet\<lparr>ft_build := \<lambda>t. Some (AdGuardError ''down'' None None)\<rparr>) fleet_scope
     False False (empty_db\<lparr>db_servers := [sample_server 1 ''a'' [], sample_server 2 ''a'' []]\<rparr>) (\<lambda>i. import_world, new_cache :: json read_cache)) =
   Inr (JObj [(''updated'', JInt 0)])"
proof -
  let ?d = "empty_db\<lparr>db_servers := [sample_server 1 ''a'' [], sample_server 2 ''a'' []]\<rparr>"
  have "load_targets no_fernet default_settings (q_zone_id fleet_scope) (q_server_id fleet_scope) ?d =
      [target_row no_fernet default_settings (sample_server 1 ''a'' []), target_row no_fernet default_settings (sample_server 2 ''a'' [])]"
    by (simp add: load_targets_def in_selection_def fleet_scope_def sample_server_def)
  then show ?thesis
    by (rule refresh_failure_hidden)
      (simp_all add: target_row_def sample_server_def)
qed

end
