(* ===== verification/Telemetry.thy ===== *)
theory Telemetry
  imports HaWrites
begin

text \<open>
  The metrics store, backend/app/telemetry.py: what one sample of a server, a host and a balancer holds, the
  rates between two samples, the collector that runs after every cycle, the hourly rollup and the retention. The
  reads of the store are in Traffic. Instants are microseconds of UTC, numbers are exact.
\<close>

section \<open>Instants as text\<close>

definition hour_us :: int where
  "hour_us = 3600000000"

definition day_us :: int where
  "day_us = 86400000000"

definition seconds_of :: "int \<Rightarrow> rat" where
  "seconds_of t = of_int t / 1000000"

text \<open>Year, month and day of a day counted from 1970-01-01; the year of the computation starts in March.\<close>

definition civil_date :: "int \<Rightarrow> int \<times> int \<times> int" where
  "civil_date days =
     (let z = days + 719468; era = z div 146097; doe = z mod 146097;
          yoe = (doe - doe div 1460 + doe div 36524 - doe div 146096) div 365;
          doy = doe - (365 * yoe + yoe div 4 - yoe div 100);
          mp = (5 * doy + 2) div 153;
          month = (if mp < 10 then mp + 3 else mp - 9) in
      (yoe + era * 400 + (if month \<le> 2 then 1 else 0), month, doy - (153 * mp + 2) div 5 + 1))"

definition padded :: "nat \<Rightarrow> int \<Rightarrow> string" where
  "padded n i = (let s = show_int i in replicate (n - length s) CHR ''0'' @ s)"

definition iso :: "int \<Rightarrow> string" where
  "iso t =
     (let (y, mo, dy) = civil_date (t div day_us); us = t mod day_us; sec = us div second_us; frac = us mod second_us in
      padded 4 y @ ''-'' @ padded 2 mo @ ''-'' @ padded 2 dy @ ''T'' @ padded 2 (sec div 3600) @ '':'' @
      padded 2 (sec div 60 mod 60) @ '':'' @ padded 2 (sec mod 60) @
      (if frac = 0 then [] else ''.'' @ padded 6 frac) @ ''Z'')"

section \<open>Rates and the newest samples\<close>

type_synonym reading = "(string \<times> rat option) list"

text \<open>\<open>v.get(k)\<close>: a missing name and a stored null are the same to every reader.\<close>

definition value_of :: "reading \<Rightarrow> string \<Rightarrow> rat option" where
  "value_of v key = Option.bind (map_of v key) (\<lambda>x. x)"

definition rate :: "settings \<Rightarrow> metric_sample option \<Rightarrow> string \<Rightarrow> rat option \<Rightarrow> int \<Rightarrow> rat option" where
  "rate cfg prev counter current ts =
     (case (current, prev) of
        (Some now, Some row) \<Rightarrow>
          (case value_of (m_values row) counter of
             None \<Rightarrow> None
           | Some before \<Rightarrow>
               (let dt = seconds_of (ts - m_ts row) in
                if dt \<le> 0 \<or> dt > of_int (cf_sync_interval_seconds cfg * 5) then None
                else let delta = (if now \<ge> before then now - before else now) in
                  Some (py_round 3 (max 0 (delta / dt)))))
      | _ \<Rightarrow> None)"

definition latest :: "string \<Rightarrow> int option \<Rightarrow> metric_sample list \<Rightarrow> (int \<times> metric_sample) list" where
  "latest kind since rows =
     fold (\<lambda>r. dict_set (m_entity_id r) r)
       (sort_key m_ts (filter (\<lambda>r. m_kind r = kind \<and> m_resolution r = ''1m'' \<and>
          (case since of None \<Rightarrow> True | Some t \<Rightarrow> m_ts r \<ge> t)) rows)) []"

section \<open>What a sample holds\<close>

definition flag :: "bool \<Rightarrow> rat option" where
  "flag b = Some (if b then 1 else 0)"

definition last_number :: "json \<Rightarrow> rat option" where
  "last_number j = (case list_of j of Some xs \<Rightarrow> if xs = [] then None else Some (as_number (last xs)) | None \<Rightarrow> None)"

definition server_values :: "settings \<Rightarrow> json option \<Rightarrow> bool \<Rightarrow> bool \<Rightarrow> metric_sample option \<Rightarrow> int \<Rightarrow> reading" where
  "server_values cfg stats online in_sync prev ts =
     (let v = [(''online'', flag online), (''in_sync'', flag in_sync)] in
      case (online, stats) of
        (True, Some st) \<Rightarrow>
          (let q_total = as_number (jget_def st ''num_dns_queries'' (JInt 0)); b_total = blocked_total st;
               (q, b) = (case last_number (jget st ''dns_queries'') of
                  None \<Rightarrow> (q_total, b_total)
                | Some n \<Rightarrow>
                    (n, sum_list (map (\<lambda>key. case last_number (jget st key) of None \<Rightarrow> 0 | Some r \<Rightarrow> r)
                          [''blocked_filtering'', ''replaced_safebrowsing'', ''replaced_parental'']))) in
           v @ [(''queries_24h'', Some q_total), (''blocked_24h'', Some b_total),
                (''avg_ms'', Some (py_round 3 (as_number (jget_def st ''avg_processing_time'' (JInt 0)) * 1000))),
                (''q_counter'', Some q), (''b_counter'', Some b),
                (''qps'', rate cfg prev ''q_counter'' (Some q) ts), (''bps'', rate cfg prev ''b_counter'' (Some b) ts)])
      | _ \<Rightarrow> v)"

definition top_25 :: "json \<Rightarrow> json" where
  "top_25 j = JList (take 25 (jlist j))"

definition stats_snapshot :: "json option \<Rightarrow> string option \<Rightarrow> int \<Rightarrow> json" where
  "stats_snapshot stats err ts =
     JObj ((''fetched_at'', JStr (iso ts)) #
       (case stats of
          None \<Rightarrow> [(''error'', JStr (str_or err ''no data''))]
        | Some st \<Rightarrow>
            (let q = as_number (jget_def st ''num_dns_queries'' (JInt 0)); b = blocked_total st in
             [(''num_dns_queries'', JInt (py_trunc q)), (''num_blocked'', JInt (py_trunc b)),
              (''blocked_pct'', if q \<noteq> 0 then JNum (py_round 2 (b / q * 100)) else JInt 0),
              (''avg_processing_ms'', JNum (py_round 2 (as_number (jget_def st ''avg_processing_time'' (JInt 0)) * 1000))),
              (''time_units'', jget st ''time_units''),
              (''top_queried_domains'', top_25 (jget st ''top_queried_domains'')),
              (''top_blocked_domains'', top_25 (jget st ''top_blocked_domains'')),
              (''top_clients'', top_25 (jget st ''top_clients''))])))"

text \<open>A document of the database as an object: anything else is read as an empty one.\<close>

definition as_obj :: "json option \<Rightarrow> json" where
  "as_obj j = (case j of Some (JObj d) \<Rightarrow> JObj d | _ \<Rightarrow> JObj [])"

text \<open>The objects of a list that is iterated over; \<open>None\<close> for the \<open>TypeError\<close> of a number.\<close>

definition objects_of :: "json \<Rightarrow> json list option" where
  "objects_of j = map_option (filter is_obj) (iter_or_empty j)"

definition disk_used :: "json \<Rightarrow> rat option" where
  "disk_used d =
     (let total = as_number (jget_def d ''total_bytes'' (JInt 0)) in
      if total > 0 then Some (1 - as_number (jget_def d ''free_bytes'' (JInt 0)) / total) else None)"

definition fullest :: "json list \<Rightarrow> rat option" where
  "fullest disks =
     (case List.map_filter disk_used disks of [] \<Rightarrow> None | u # us \<Rightarrow> Some (fold max us u))"

definition loads_of :: "json \<Rightarrow> reading" where
  "loads_of j = map (\<lambda>(key, x). (key, Some (py_round 3 (as_number x)))) (zip [''load1'', ''load5'', ''load15''] (jlist j))"

definition service_down :: "json \<Rightarrow> bool" where
  "service_down s \<longleftrightarrow> is_obj s \<and> truthy (jget s ''present'') \<and> \<not> truthy (jget s ''running'')"

definition agent_values :: "agent \<Rightarrow> int \<Rightarrow> reading option" where
  "agent_values a ts =
     (let h = as_obj (a_health a); mem = as_obj (Some (jget h ''mem''));
          total = as_number (jget_def mem ''total_bytes'' (JInt 0)) in
      map_option (\<lambda>disks.
        [(''online'', flag (a_status a = St_online))] @ loads_of (jget h ''load'') @
        (if total > 0
         then [(''mem_used'', Some (py_round 4 (1 - as_number (jget_def mem ''available_bytes'' (JInt 0)) / total)))] else []) @
        (case fullest disks of None \<Rightarrow> [] | Some r \<Rightarrow> [(''disk_used'', Some (py_round 4 r))]) @
        [(''services_down'',
          Some (of_nat (length (filter (\<lambda>e. service_down (snd e)) (obj_items (as_obj (Some (jget h ''services''))))))))] @
        (case a_cert_not_after a of None \<Rightarrow> [] | Some t \<Rightarrow> [(''cert_days'', Some (py_round 2 (seconds_of (t - ts) / 86400)))]))
      (objects_of (jget h ''disks'')))"

definition backend_up :: "json \<Rightarrow> bool" where
  "backend_up b \<longleftrightarrow> jget b ''state'' = JStr ''up'' \<and> \<not> truthy (jget b ''drained'')"

definition counted_values :: "settings \<Rightarrow> json list \<Rightarrow> rat option \<Rightarrow> metric_sample option \<Rightarrow> int \<Rightarrow> reading" where
  "counted_values cfg backends counter prev ts =
     [(''backends_total'', Some (of_nat (length backends))),
      (''backends_up'', Some (of_nat (length (filter backend_up backends))))] @
     (case counter of
        None \<Rightarrow> []
      | Some c \<Rightarrow> [(''q_counter'', Some c), (''qps'', rate cfg prev ''q_counter'' (Some c) ts)])"

definition balancer_values :: "settings \<Rightarrow> load_balancer \<Rightarrow> metric_sample option \<Rightarrow> int \<Rightarrow> reading option" where
  "balancer_values cfg b prev ts =
     (let ks = as_obj (b_keepalived_state b);
          v = [(''online'', flag (b_status b = St_online)), (''in_sync'', flag (b_in_sync b))] @
              (if truthy ks then [(''vip_owner'', flag (truthy (jget ks ''vip_owner'')))] else []) in
      if b_mode b = Mode_ipvs
      then (let ipvs = as_obj (Some (jget ks ''ipvs'')) in
        map_option (\<lambda>backends.
          v @ (if map_of (obj_items ipvs) ''director'' \<noteq> None then [(''director'', flag (truthy (jget ipvs ''director'')))] else []) @
          counted_values cfg backends
            (if backends \<noteq> [] \<and> list_all (\<lambda>x. jget x ''in_pkts'' \<noteq> JNull) backends
             then Some (sum_list (map (\<lambda>x. as_number (jget x ''in_pkts'')) backends)) else None) prev ts)
        (objects_of (jget ipvs ''backends'')))
      else (let st = as_obj (b_state b); stats = as_obj (Some (jget st ''stats''));
                hits = as_number (jget_def stats ''cache-hits'' (JInt 0)); misses = as_number (jget_def stats ''cache-misses'' (JInt 0)) in
        map_option (\<lambda>backends.
          v @ (if hits + misses > 0 then [(''cache_hit'', Some (py_round 4 (hits / (hits + misses))))] else []) @
          counted_values cfg backends
            (map_option as_number (map_of (obj_items stats) ''queries'')) prev ts)
        (objects_of (jget st ''backends''))))"

section \<open>Rollup and retention\<close>

definition averaged :: "string list" where
  "averaged =
     [''online'', ''in_sync'', ''qps'', ''bps'', ''avg_ms'', ''queries_24h'', ''blocked_24h'', ''load1'', ''load5'', ''load15'',
      ''mem_used'', ''disk_used'', ''services_down'', ''cert_days'', ''vip_owner'', ''director'', ''backends_up'',
      ''backends_total'', ''cache_hit'']"

definition mean :: "rat option list \<Rightarrow> rat option" where
  "mean values =
     (let xs = List.map_filter (\<lambda>x. x) values in
      if xs = [] then None else Some (py_round 3 (sum_list xs / of_nat (length xs))))"

definition hour_of :: "int \<Rightarrow> int" where
  "hour_of t = t - t mod hour_us"

definition retention_floor :: "settings \<Rightarrow> int \<Rightarrow> int" where
  "retention_floor cfg ts = ts - cf_metrics_retention_days cfg * day_us"

type_synonym hour_key = "string \<times> int \<times> int"

definition key_of :: "metric_sample \<Rightarrow> hour_key" where
  "key_of r = (m_kind r, m_entity_id r, hour_of (m_ts r))"

definition add_row :: "metric_sample \<Rightarrow> (hour_key \<times> reading list) list \<Rightarrow> (hour_key \<times> reading list) list" where
  "add_row r g =
     dict_set (key_of r) ((case map_of g (key_of r) of None \<Rightarrow> [] | Some vs \<Rightarrow> vs) @ [m_values r]) g"

definition rolled :: "reading list \<Rightarrow> reading" where
  "rolled rows =
     filter (\<lambda>e. snd e \<noteq> None) (map (\<lambda>k. (k, mean (map (\<lambda>v. value_of v k) rows))) averaged) @
       [(''samples'', Some (of_nat (length rows)))]"

definition hour_row :: "hour_key \<times> reading list \<Rightarrow> int \<Rightarrow> metric_sample" where
  "hour_row g i =
     (case g of ((kind, entity, start), rows) \<Rightarrow>
        \<lparr>m_id = i, m_ts = start, m_resolution = ''1h'', m_kind = kind, m_entity_id = entity, m_values = rolled rows\<rparr>)"

definition hours_done :: "settings \<Rightarrow> int \<Rightarrow> metric_sample list \<Rightarrow> hour_key list" where
  "hours_done cfg ts rows =
     map (\<lambda>r. (m_kind r, m_entity_id r, m_ts r))
       (filter (\<lambda>r. m_resolution r = ''1h'' \<and> m_ts r \<ge> retention_floor cfg ts) rows)"

definition hour_groups :: "settings \<Rightarrow> int \<Rightarrow> metric_sample list \<Rightarrow> (hour_key \<times> reading list) list" where
  "hour_groups cfg ts rows =
     fold add_row
       (filter (\<lambda>r. m_resolution r = ''1m'' \<and> m_ts r \<ge> retention_floor cfg ts \<and> m_ts r < hour_of ts \<and>
                    key_of r \<notin> set (hours_done cfg ts rows)) rows) []"

definition rollup :: "settings \<Rightarrow> int \<Rightarrow> metric_sample list \<Rightarrow> metric_sample list" where
  "rollup cfg ts rows = fold (\<lambda>g. row_add m_id (hour_row g)) (hour_groups cfg ts rows) rows"

definition prune_samples :: "settings \<Rightarrow> int \<Rightarrow> metric_sample list \<Rightarrow> metric_sample list" where
  "prune_samples cfg ts rows =
     filter (\<lambda>r. \<not> (m_resolution r = ''1h'' \<and> m_ts r < ts - cf_metrics_rollup_retention_days cfg * day_us))
       (filter (\<lambda>r. \<not> (m_resolution r = ''1m'' \<and> m_ts r < retention_floor cfg ts)) rows)"

section \<open>The collector\<close>

definition new_sample :: "string \<Rightarrow> int \<Rightarrow> int \<Rightarrow> reading \<Rightarrow> int \<Rightarrow> metric_sample" where
  "new_sample kind entity ts v i =
     \<lparr>m_id = i, m_ts = ts, m_resolution = ''1m'', m_kind = kind, m_entity_id = entity, m_values = v\<rparr>"

definition add_sample :: "string \<Rightarrow> int \<Rightarrow> int \<Rightarrow> reading \<Rightarrow> db \<Rightarrow> db" where
  "add_sample kind entity ts v d = d\<lparr>db_samples := row_add m_id (new_sample kind entity ts v) (db_samples d)\<rparr>"

text \<open>\<open>prev\<close> are the samples before the collection: the rows that are added are read only by the next one.\<close>

definition collect_server :: "settings \<Rightarrow> int \<Rightarrow> (int \<times> metric_sample) list \<Rightarrow> outcome \<Rightarrow> db \<Rightarrow> db" where
  "collect_server cfg ts prev oc d =
     (case get_server d (tg_id (oc_target oc)) of
        None \<Rightarrow> d
      | Some s \<Rightarrow>
          (let stats = (if oc_ok oc \<and> is_obj (oc_value oc) then Some (oc_value oc) else None) in
           put_server (s\<lparr>s_stats_snapshot := Some (stats_snapshot stats (oc_error oc) ts)\<rparr>)
             (add_sample ''server'' (s_id s) ts
                (server_values cfg stats (oc_ok oc \<and> s_status s \<noteq> St_error) (s_in_sync s) (map_of prev (s_id s)) ts) d)))"

fun sample_each :: "('r \<Rightarrow> int) \<Rightarrow> string \<Rightarrow> int \<Rightarrow> ('r \<Rightarrow> reading option) \<Rightarrow> 'r list \<Rightarrow> db \<Rightarrow> db option" where
  "sample_each key kind ts f [] d = Some d"
| "sample_each key kind ts f (r # rs) d =
     (case f r of None \<Rightarrow> None | Some v \<Rightarrow> sample_each key kind ts f rs (add_sample kind (key r) ts v d))"

definition half_hour_us :: int where
  "half_hour_us = 1800000000"

text \<open>One transaction: if a value raises, nothing is committed.\<close>

definition collect_samples :: "settings \<Rightarrow> int \<Rightarrow> outcome list \<Rightarrow> db \<Rightarrow> db option" where
  "collect_samples cfg ts outcomes d =
     (let prev_servers = latest ''server'' (Some (ts - half_hour_us)) (db_samples d);
          prev_lbs = latest ''load_balancer'' (Some (ts - half_hour_us)) (db_samples d) in
      Option.bind (sample_each a_id ''agent'' ts (\<lambda>a. agent_values a ts) (db_agents d)
                    (fold (collect_server cfg ts prev_servers) outcomes d))
        (sample_each b_id ''load_balancer'' ts (\<lambda>b. balancer_values cfg b (map_of prev_lbs (b_id b)) ts)
           (filter b_enabled (db_balancers d))))"

text \<open>
  \<open>collect_all\<close>: the targets are read from \<open>d0\<close>, the database before the fan-out, the rows are written to \<open>d\<close>, the one
  after it. The state also holds \<open>_last_rollup\<close>. A raise is the end of the collection: its caller logs it.
\<close>

definition collect_all ::
  "fernet \<Rightarrow> settings \<Rightarrow> 's fleet \<Rightarrow> int \<Rightarrow> db \<Rightarrow> db \<times> int option \<Rightarrow> (int \<Rightarrow> (call, 's) world)
   \<Rightarrow> (db \<times> int option) \<times> (int \<Rightarrow> (call, 's) world)" where
  "collect_all F cfg G ts d0 st W =
     (let (d, last_rollup) = st in
      if \<not> cf_metrics_enabled cfg then (st, W)
      else case fan_out G (\<lambda>e. call_io e AG_stats) (load_targets F cfg None None d0) W of
        (outcomes, W') \<Rightarrow>
          (case collect_samples cfg ts outcomes d of
             None \<Rightarrow> (st, W')
           | Some d1 \<Rightarrow>
               if (case last_rollup of None \<Rightarrow> True | Some t \<Rightarrow> ts - t \<ge> hour_us)
               then ((d1\<lparr>db_samples := prune_samples cfg ts (rollup cfg ts (db_samples d1))\<rparr>, Some ts), W')
               else ((d1, last_rollup), W')))"

section \<open>Facts about the rollup\<close>

definition hourly :: "hour_key \<Rightarrow> metric_sample \<Rightarrow> bool" where
  "hourly k r \<longleftrightarrow> m_resolution r = ''1h'' \<and> (m_kind r, m_entity_id r, m_ts r) = k"

lemma groups_of: "map_of (fold add_row rs g) k =
    (if filter (\<lambda>r. key_of r = k) rs = [] then map_of g k
     else Some ((case map_of g k of None \<Rightarrow> [] | Some vs \<Rightarrow> vs) @ map m_values (filter (\<lambda>r. key_of r = k) rs)))"
  by (induction rs arbitrary: g) (auto simp: add_row_def split: option.split)

lemma groups_distinct: "distinct (map fst g) \<Longrightarrow> distinct (map fst (fold add_row rs g))"
  by (induction rs arbitrary: g) (simp_all add: add_row_def dict_set_distinct)

lemma rows_of_key:
  "distinct (map fst g) \<Longrightarrow> filter (\<lambda>e. fst e = k) g = (case map_of g k of None \<Rightarrow> [] | Some v \<Rightarrow> [(k, v)])"
proof (induction g)
  case (Cons e g)
  then show ?case
    by (cases e) (auto simp: filter_empty_conv image_iff split: option.split)
qed simp

lemma hour_row_hourly: "hourly k (hour_row g i) \<longleftrightarrow> fst g = k"
  by (cases g) (auto simp: hourly_def hour_row_def split: prod.split)

lemma hour_row_values: "m_values (hour_row g i) = rolled (snd g)"
  by (simp add: hour_row_def split: prod.split)

lemma rollup_rows:
  "map m_values (filter (hourly k) (fold (\<lambda>g. row_add m_id (hour_row g)) gs rows)) =
     map m_values (filter (hourly k) rows) @ map (\<lambda>g. rolled (snd g)) (filter (\<lambda>g. fst g = k) gs)"
  by (induction gs arbitrary: rows) (simp_all add: row_add_def hour_row_hourly hour_row_values)

lemma rollup_minutes:
  "filter (\<lambda>r. m_resolution r = ''1m'') (fold (\<lambda>g. row_add m_id (hour_row g)) gs rows) =
     filter (\<lambda>r. m_resolution r = ''1m'') rows"
proof (induction gs arbitrary: rows)
  case (Cons g gs)
  have "m_resolution (hour_row g i) = ''1h''" for i by (simp add: hour_row_def split: prod.split)
  with Cons show ?case by (simp add: row_add_def)
qed simp

text \<open>What the rollup adds for one key: the mean of its rows inside the window, unless the key counts as done.\<close>

lemma rollup_key:
  "map m_values (filter (hourly k) (rollup cfg ts rows)) =
     map m_values (filter (hourly k) rows) @
       (let rs = filter (\<lambda>r. m_resolution r = ''1m'' \<and> m_ts r \<ge> retention_floor cfg ts \<and> m_ts r < hour_of ts \<and> key_of r = k) rows in
        if k \<in> set (hours_done cfg ts rows) \<or> rs = [] then [] else [rolled (map m_values rs)])"
proof -
  let ?in = "\<lambda>r. m_resolution r = ''1m'' \<and> m_ts r \<ge> retention_floor cfg ts \<and> m_ts r < hour_of ts"
  have own: "filter (\<lambda>r. key_of r = k) (filter (\<lambda>r. m_resolution r = ''1m'' \<and> m_ts r \<ge> retention_floor cfg ts \<and> m_ts r < hour_of ts \<and>
      key_of r \<notin> set (hours_done cfg ts rows)) rows) =
    (if k \<in> set (hours_done cfg ts rows) then [] else filter (\<lambda>r. ?in r \<and> key_of r = k) rows)"
    by (auto simp: filter_empty_conv intro!: filter_cong)
  have "map (\<lambda>g. rolled (snd g)) (filter (\<lambda>g. fst g = k) (hour_groups cfg ts rows)) =
      (let rs = filter (\<lambda>r. ?in r \<and> key_of r = k) rows in
       if k \<in> set (hours_done cfg ts rows) \<or> rs = [] then [] else [rolled (map m_values rs)])"
    unfolding hour_groups_def rows_of_key [OF groups_distinct [of "[]", simplified]] groups_of own
    by (auto simp: Let_def)
  then show ?thesis by (simp add: rollup_def rollup_rows)
qed

lemma hour_of_le: "hour_of t \<le> t"
  by (simp add: hour_of_def hour_us_def)

lemma hour_of_alt: "hour_of t = hour_us * (t div hour_us)"
  by (simp add: hour_of_def minus_mod_eq_mult_div)

lemma before_hour: "t < hour_of u \<longleftrightarrow> hour_of t < hour_of u"
proof -
  have pos: "0 < hour_us" by (simp add: hour_us_def)
  have split: "t = hour_us * (t div hour_us) + t mod hour_us" and "0 \<le> t mod hour_us" "t mod hour_us < hour_us"
    using pos by simp_all
  have "t < hour_us * q \<longleftrightarrow> t div hour_us < q" for q
  proof
    assume "t < hour_us * q"
    then have "hour_us * (t div hour_us) < hour_us * q" using split \<open>0 \<le> t mod hour_us\<close> by linarith
    then show "t div hour_us < q" using pos by simp
  next
    assume "t div hour_us < q"
    then have "hour_us * (t div hour_us + 1) \<le> hour_us * q" using pos by (intro mult_left_mono) simp_all
    then have "hour_us * (t div hour_us) + hour_us \<le> hour_us * q" by (simp add: distrib_left)
    then show "t < hour_us * q" using split \<open>t mod hour_us < hour_us\<close> by linarith
  qed
  then show ?thesis using pos by (simp add: hour_of_alt)
qed

section \<open>Facts about the collector\<close>

lemma py_round_near: "\<bar>py_round n r - r\<bar> \<le> 1 / (2 * 10 ^ n)"
proof -
  have "\<bar>of_int (round_even (r * 10 ^ n)) - r * 10 ^ n\<bar> / 10 ^ n \<le> (1 / 2) / (10 ^ n :: rat)"
    by (rule divide_right_mono [OF round_even_near]) simp
  moreover have "py_round n r - r = (of_int (round_even (r * 10 ^ n)) - r * 10 ^ n) / 10 ^ n"
    by (simp add: py_round_def diff_divide_distrib)
  ultimately show ?thesis by (simp add: abs_divide)
qed

text \<open>The tables the collector does not write, and a server without its snapshot.\<close>

definition without_metrics :: "db \<Rightarrow> db" where
  "without_metrics d =
     d\<lparr>db_samples := [], db_servers := map (\<lambda>s. s\<lparr>s_stats_snapshot := None\<rparr>) (db_servers d)\<rparr>"

text \<open>\<open>d'\<close> is \<open>d\<close> with one sample more for each of the named entities, in that order.\<close>

definition sampled :: "int \<Rightarrow> (string \<times> int) list \<Rightarrow> db \<Rightarrow> db \<Rightarrow> bool" where
  "sampled ts es d d' \<longleftrightarrow>
     without_metrics d' = without_metrics d \<and>
     (\<exists>new. db_samples d' = db_samples d @ new \<and> map (\<lambda>r. (m_kind r, m_entity_id r)) new = es \<and>
        (\<forall>r \<in> set new. m_ts r = ts \<and> m_resolution r = ''1m''))"

lemma sampled_none: "sampled ts [] d d"
  by (simp add: sampled_def)

lemma sampled_add: "sampled ts [(kind, entity)] d (add_sample kind entity ts v d)"
  by (simp add: sampled_def add_sample_def row_add_def new_sample_def without_metrics_def)

lemma sampled_trans: "sampled ts es d d1 \<Longrightarrow> sampled ts fs d1 d2 \<Longrightarrow> sampled ts (es @ fs) d d2"
  unfolding sampled_def by (elim conjE exE) (intro conjI, simp, rule exI, auto)

lemma snapshot_metrics:
  assumes "get_server d (s_id s) = Some s" and "distinct (map s_id (db_servers d))"
  shows "without_metrics (put_server (s\<lparr>s_stats_snapshot := x\<rparr>) d) = without_metrics d"
proof -
  have "s \<in> set (db_servers d)" using row_get_Some [OF assms(1)] by simp
  then have "y = s" if "y \<in> set (db_servers d)" "s_id y = s_id s" for y
    using assms(2) that by (simp add: distinct_map inj_on_def)
  then have "map (\<lambda>s. s\<lparr>s_stats_snapshot := None\<rparr>)
      (map (\<lambda>y. if s_id y = s_id s then s\<lparr>s_stats_snapshot := x\<rparr> else y) (db_servers d)) =
    map (\<lambda>s. s\<lparr>s_stats_snapshot := None\<rparr>) (db_servers d)"
    unfolding map_map comp_def by (intro map_cong refl) fastforce
  then show ?thesis by (simp add: without_metrics_def put_server_def row_put_def)
qed

lemma put_server_samples [simp]: "db_samples (put_server s d) = db_samples d"
  by (simp add: put_server_def)

lemma metrics_keep_ids: "without_metrics d' = without_metrics d \<Longrightarrow> map s_id (db_servers d') = map s_id (db_servers d)"
proof -
  assume "without_metrics d' = without_metrics d"
  then have "map s_id (db_servers (without_metrics d')) = map s_id (db_servers (without_metrics d))" by simp
  then show ?thesis by (simp add: without_metrics_def comp_def)
qed

lemma get_server_ids: "get_server d i = None \<longleftrightarrow> i \<notin> set (map s_id (db_servers d))"
  by (simp add: row_get_None)

lemma sampled_snapshot:
  assumes "get_server d (s_id s) = Some s" and "distinct (map s_id (db_servers d))"
  shows "sampled ts [(''server'', s_id s)] d (put_server (s\<lparr>s_stats_snapshot := x\<rparr>) (add_sample ''server'' (s_id s) ts v d))"
proof -
  let ?d1 = "add_sample ''server'' (s_id s) ts v d"
  have "db_servers ?d1 = db_servers d" by (simp add: add_sample_def)
  with assms have "without_metrics (put_server (s\<lparr>s_stats_snapshot := x\<rparr>) ?d1) = without_metrics ?d1"
    by (intro snapshot_metrics) simp_all
  with sampled_add [of ts "''server''" "s_id s" d v] show ?thesis by (simp only: sampled_def put_server_samples)
qed

lemma collect_server_sampled:
  assumes "distinct (map s_id (db_servers d))"
  shows "sampled ts (if tg_id (oc_target oc) \<in> set (map s_id (db_servers d)) then [(''server'', tg_id (oc_target oc))] else [])
           d (collect_server cfg ts prev oc d)"
proof (cases "get_server d (tg_id (oc_target oc))")
  case None
  then have "tg_id (oc_target oc) \<notin> set (map s_id (db_servers d))" unfolding get_server_ids .
  then show ?thesis unfolding collect_server_def None option.case by (simp add: sampled_none)
next
  case (Some s)
  then have id: "s_id s = tg_id (oc_target oc)" and known: "tg_id (oc_target oc) \<in> set (map s_id (db_servers d))"
    using row_get_Some [of s_id] get_server_ids [of "tg_id (oc_target oc)" d] by auto
  have "\<exists>x v. collect_server cfg ts prev oc d =
      put_server (s\<lparr>s_stats_snapshot := x\<rparr>) (add_sample ''server'' (s_id s) ts v d)"
    unfolding collect_server_def Some option.case Let_def by (intro exI) (rule refl)
  then obtain x v where step: "collect_server cfg ts prev oc d =
      put_server (s\<lparr>s_stats_snapshot := x\<rparr>) (add_sample ''server'' (s_id s) ts v d)"
    by (elim exE) (rule that)
  show ?thesis unfolding step if_P [OF known] using sampled_snapshot [OF Some [folded id] assms] unfolding id .
qed

lemma collect_servers_sampled:
  "distinct (map s_id (db_servers d)) \<Longrightarrow>
     sampled ts (map (Pair ''server'') (filter (\<lambda>i. i \<in> set (map s_id (db_servers d))) (map (\<lambda>oc. tg_id (oc_target oc)) ocs)))
       d (fold (collect_server cfg ts prev) ocs d)"
proof (induction ocs arbitrary: d)
  case (Cons oc ocs)
  let ?d1 = "collect_server cfg ts prev oc d"
  note one = collect_server_sampled [OF Cons.prems, of ts oc cfg prev]
  have ids: "map s_id (db_servers ?d1) = map s_id (db_servers d)"
    using one unfolding sampled_def by (elim conjE) (rule metrics_keep_ids)
  then have "distinct (map s_id (db_servers ?d1))" using Cons.prems by simp
  from sampled_trans [OF one Cons.IH [OF this]] show ?case
    unfolding ids by (cases "tg_id (oc_target oc) \<in> set (map s_id (db_servers d))") (simp_all only: list.map filter.simps if_True if_False append.simps fold_simps)
qed (simp add: sampled_none)

lemma sample_each_sampled:
  "sample_each key kind ts f rs d = Some d' \<Longrightarrow> sampled ts (map (\<lambda>r. (kind, key r)) rs) d d'"
proof (induction rs arbitrary: d)
  case (Cons r rs)
  then obtain v where "f r = Some v" "sample_each key kind ts f rs (add_sample kind (key r) ts v d) = Some d'"
    by (auto split: option.splits)
  from sampled_trans [OF sampled_add Cons.IH [OF this(2)]] show ?case by simp
qed (simp add: sampled_none)

lemma sample_each_none: "r \<in> set rs \<Longrightarrow> f r = None \<Longrightarrow> sample_each key kind ts f rs d = None"
  by (induction rs arbitrary: d) (auto split: option.split)

lemma rollup_keeps: "set rows \<subseteq> set (rollup cfg ts rows)"
proof -
  have "set rows \<subseteq> set (fold (\<lambda>g. row_add m_id (hour_row g)) gs rows)" for gs
  proof (induction gs arbitrary: rows)
    case (Cons g gs)
    from Cons [of "row_add m_id (hour_row g) rows"] show ?case by (simp add: row_add_def)
  qed simp
  then show ?thesis by (simp add: rollup_def)
qed

lemma collect_sampled:
  assumes "collect_samples cfg ts outcomes d = Some d'" and "distinct (map s_id (db_servers d))"
  shows "sampled ts
    (map (Pair ''server'') (filter (\<lambda>i. i \<in> set (map s_id (db_servers d))) (map (\<lambda>oc. tg_id (oc_target oc)) outcomes)) @
     map (\<lambda>a. (''agent'', a_id a)) (db_agents d) @
     map (\<lambda>b. (''load_balancer'', b_id b)) (filter b_enabled (db_balancers d))) d d'"
proof -
  obtain d1 where d1: "sample_each a_id ''agent'' ts (\<lambda>a. agent_values a ts) (db_agents d)
       (fold (collect_server cfg ts (latest ''server'' (Some (ts - half_hour_us)) (db_samples d))) outcomes d) = Some d1"
    and d': "sample_each b_id ''load_balancer'' ts
       (\<lambda>b. balancer_values cfg b (map_of (latest ''load_balancer'' (Some (ts - half_hour_us)) (db_samples d)) (b_id b)) ts)
       (filter b_enabled (db_balancers d)) d1 = Some d'"
    using assms(1) unfolding collect_samples_def Let_def bind_eq_Some_conv by (elim exE conjE) (rule that)
  from sampled_trans [OF sampled_trans [OF collect_servers_sampled [OF assms(2)] sample_each_sampled [OF d1]]
      sample_each_sampled [OF d']]
  show ?thesis by (simp only: append_assoc)
qed

lemma collect_keeps:
  assumes "collect_samples cfg ts outcomes d = Some d'" and "distinct (map s_id (db_servers d))"
  shows "set (db_samples d) \<subseteq> set (db_samples d')"
  using collect_sampled [OF assms] unfolding sampled_def by (elim conjE exE) simp

definition window_ok :: "settings \<Rightarrow> int \<Rightarrow> metric_sample \<Rightarrow> bool" where
  "window_ok cfg ts r \<longleftrightarrow>
     (m_resolution r = ''1m'' \<longrightarrow> ts - cf_metrics_retention_days cfg * day_us \<le> m_ts r) \<and>
     (m_resolution r = ''1h'' \<longrightarrow> ts - cf_metrics_rollup_retention_days cfg * day_us \<le> m_ts r)"

section \<open>Properties\<close>


definition qps_row :: "int \<Rightarrow> int \<Rightarrow> rat \<Rightarrow> metric_sample" where
  "qps_row i t x = new_sample ''server'' 1 t [(''qps'', Some x)] i"

lemma qps_row_simps [simp]:
  "m_id (qps_row i t x) = i" "m_ts (qps_row i t x) = t" "m_resolution (qps_row i t x) = ''1m''"
  "m_kind (qps_row i t x) = ''server''" "m_entity_id (qps_row i t x) = 1" "m_values (qps_row i t x) = [(''qps'', Some x)]"
  by (simp_all add: qps_row_def new_sample_def)


text \<open>
  The oldest hour is rolled up again: when the retention window begins inside an hour, the hourly row of that hour
  starts before the window and is not seen, so the rollup adds another one, made from the minutes that are left.
\<close>

theorem rollup_repeats_first_hour:
  assumes "h < retention_floor cfg ts" and "r \<in> set rows" and "m_resolution r = ''1m''" and "key_of r = (kind, entity, h)"
    and "retention_floor cfg ts \<le> m_ts r" and "m_ts r < hour_of ts"
  shows "\<exists>minutes. minutes \<noteq> [] \<and> set minutes \<subseteq> set rows \<and>
      (\<forall>x \<in> set minutes. key_of x = (kind, entity, h) \<and> retention_floor cfg ts \<le> m_ts x) \<and>
      map m_values (filter (hourly (kind, entity, h)) (rollup cfg ts rows)) =
        map m_values (filter (hourly (kind, entity, h)) rows) @ [rolled (map m_values minutes)]"
proof -
  let ?k = "(kind, entity, h)"
  let ?rs = "filter (\<lambda>r. m_resolution r = ''1m'' \<and> m_ts r \<ge> retention_floor cfg ts \<and> m_ts r < hour_of ts \<and> key_of r = ?k) rows"
  have "?k \<notin> set (hours_done cfg ts rows)" using assms(1) by (auto simp: hours_done_def)
  moreover have "r \<in> set ?rs" using assms by simp
  then have "?rs \<noteq> []" by (metis empty_iff list.set(1))
  ultimately show ?thesis using rollup_key [of ?k cfg ts rows] by (intro exI [of _ ?rs]) (simp add: Let_def)
qed

theorem rollup_repeats_first_hour_witness:
  "\<exists>ts. let rows = [hour_row ((''server'', 1, 0), [[(''qps'', Some 2)]]) 1, qps_row 2 3000000000 4] in
     length (filter (hourly (''server'', 1, 0)) rows) = 1 \<and>
     length (filter (hourly (''server'', 1, 0)) (rollup default_settings ts rows)) = 2"
proof -
  let ?rows = "[hour_row ((''server'', 1, 0), [[(''qps'', Some 2)]]) 1, qps_row 2 3000000000 4]"
  let ?ts = "7 * day_us + 1800000000"
  have floor: "retention_floor default_settings ?ts = 1800000000" by (simp add: retention_floor_def default_settings_def day_us_def)
  have one: "length (filter (hourly (''server'', 1, 0)) ?rows) = 1"
    by (simp add: hour_row_hourly) (simp add: hourly_def)
  have key: "key_of (qps_row 2 3000000000 4) = (''server'', 1, 0)" by (simp add: key_of_def hour_of_def hour_us_def)
  have "length (map m_values (filter (hourly (''server'', 1, 0)) (rollup default_settings ?ts ?rows))) =
      length (map m_values (filter (hourly (''server'', 1, 0)) ?rows)) + 1"
    using rollup_repeats_first_hour [of 0 default_settings ?ts "qps_row 2 3000000000 4" ?rows, OF _ _ _ key]
    unfolding floor by (fastforce simp: hour_of_def hour_us_def day_us_def)
  with one show ?thesis by (intro exI [of _ ?ts]) (simp only: Let_def length_map one_add_one simp_thms)
qed

text \<open>
  A rate is only ever computed over a positive gap of at most five intervals, is never negative, and is within
  half a thousandth of the growth of the counter per second, a counter that went down counting from zero.
\<close>

theorem rate_sound:
  assumes "rate cfg prev counter (Some now) ts = Some r" and "0 \<le> now"
  shows "\<exists>row before. prev = Some row \<and> value_of (m_values row) counter = Some before \<and> 0 \<le> r \<and>
    0 < seconds_of (ts - m_ts row) \<and> seconds_of (ts - m_ts row) \<le> of_int (cf_sync_interval_seconds cfg * 5) \<and>
    \<bar>r - (if before \<le> now then now - before else now) / seconds_of (ts - m_ts row)\<bar> \<le> 1 / 2000"
proof -
  obtain row before where row: "prev = Some row" "value_of (m_values row) counter = Some before"
    using assms(1) by (auto simp: rate_def split: option.splits)
  let ?dt = "seconds_of (ts - m_ts row)" and ?g = "if before \<le> now then now - before else now"
  have dt: "0 < ?dt" "?dt \<le> of_int (cf_sync_interval_seconds cfg * 5)" and r: "r = py_round 3 (max 0 (?g / ?dt))"
    using assms(1) row by (auto simp: rate_def Let_def not_le split: if_splits)
  have "0 \<le> ?g / ?dt" using dt(1) assms(2) by simp
  then have eq: "max 0 (?g / ?dt) = ?g / ?dt" by simp
  have "0 \<le> r" unfolding r by (intro py_round_nonneg) simp
  moreover have "\<bar>r - ?g / ?dt\<bar> \<le> 1 / 2000" using py_round_near [of 3 "?g / ?dt"] unfolding r eq by simp
  ultimately show ?thesis using row dt by blast
qed

theorem rate_sound_witness:
  "rate default_settings (Some (new_sample ''server'' 1 0 [(''q_counter'', Some 10)] 1)) ''q_counter'' (Some 70) 60000000 = Some 1 \<and> (0::rat) \<le> 1"
proof -
  have "rate default_settings (Some (new_sample ''server'' 1 0 [(''q_counter'', Some 10)] 1)) ''q_counter'' (Some 70) 60000000 = Some 1"
    using py_round_int [of 3 1] by (simp add: rate_def new_sample_def value_of_def seconds_of_def default_settings_def)
  with rate_sound [OF this] show ?thesis by auto
qed

text \<open>
  A collection stores exactly one sample of every server that answered or failed to and still exists, of every
  host and of every enabled balancer, all at one instant, and changes nothing else but the snapshots of servers.
\<close>

theorem collect_exact:
  assumes "collect_samples cfg ts outcomes d = Some d'" and "distinct (map s_id (db_servers d))"
  shows "sampled ts
    (map (Pair ''server'') (filter (\<lambda>i. i \<in> set (map s_id (db_servers d))) (map (\<lambda>oc. tg_id (oc_target oc)) outcomes)) @
     map (\<lambda>a. (''agent'', a_id a)) (db_agents d) @
     map (\<lambda>b. (''load_balancer'', b_id b)) (filter b_enabled (db_balancers d))) d d'"
  using assms by (rule collect_sampled)

theorem collect_exact_witness:
  "\<exists>d'. collect_samples default_settings 5 [] (empty_db\<lparr>db_agents := [sample_agent 3 ''h'']\<rparr>) = Some d' \<and>
     map (\<lambda>r. (m_kind r, m_entity_id r)) (db_samples d') = [(''agent'', 3)] \<and> (\<forall>r \<in> set (db_samples d'). m_ts r = 5)"
proof -
  let ?d = "empty_db\<lparr>db_agents := [sample_agent 3 ''h'']\<rparr>"
  have v: "agent_values (sample_agent 3 ''h'') 5 \<noteq> None"
    by (simp add: agent_values_def sample_agent_def as_obj_def objects_of_def iter_or_empty_def Let_def)
  have rows: "db_servers ?d = []" "db_balancers ?d = []" "db_agents ?d = [sample_agent 3 ''h'']" "db_samples ?d = []"
    by (simp_all add: empty_db_def)
  have "\<exists>d'. collect_samples default_settings 5 [] ?d = Some d'"
    unfolding collect_samples_def Let_def rows using v by (auto simp: rows)
  then obtain d' where run: "collect_samples default_settings 5 [] ?d = Some d'" by blast
  have "distinct (map s_id (db_servers ?d))" unfolding rows by simp
  from collect_exact [OF run this] show ?thesis
    unfolding run sampled_def rows by (auto simp: sample_agent_def)
qed

text \<open>
  One host whose health document names its disks by anything but a list, a text or an object makes every
  collection fail: no server, host or balancer gets a sample.
\<close>

theorem collection_all_or_nothing:
  assumes "a \<in> set (db_agents d)" and "a_health a = Some (JObj h)" and "map_of h ''disks'' = Some j"
    and "truthy j" and "py_iter j = None"
  shows "collect_samples cfg ts outcomes d = None"
proof -
  have "agent_values a ts = None"
    using assms(2-5) by (simp add: agent_values_def as_obj_def objects_of_def iter_or_empty_def Let_def)
  from sample_each_none [of a "db_agents d" "\<lambda>a. agent_values a ts", OF assms(1) this] show ?thesis
    by (simp add: collect_samples_def Let_def)
qed

theorem collection_all_or_nothing_witness:
  "collect_samples default_settings 5 [] (empty_db\<lparr>db_agents := [sample_agent 3 ''h'', (sample_agent 4 ''k'')\<lparr>a_health := Some (JObj [(''disks'', JInt 1)])\<rparr>]\<rparr>) = None"
proof -
  have "(\<lambda>k. map_of [(''disks'', JInt 1)] k) ''disks'' = Some (JInt 1)" by simp
  then show ?thesis
    by (intro collection_all_or_nothing [where a = "(sample_agent 4 ''k'')\<lparr>a_health := Some (JObj [(''disks'', JInt 1)])\<rparr>"
        and h = "[(''disks'', JInt 1)]" and j = "JInt 1"]) simp_all
qed

text \<open>
  Retention: after a collection with housekeeping every sample is inside the window of its resolution, and no
  sample inside its window was lost.
\<close>

theorem retention_exact:
  assumes "collect_all F cfg G ts d0 (d, None) W = ((d', Some t), W')" and "distinct (map s_id (db_servers d))"
  shows "(\<forall>r \<in> set (db_samples d'). window_ok cfg ts r) \<and>
    (\<forall>r \<in> set (db_samples d). window_ok cfg ts r \<longrightarrow> r \<in> set (db_samples d'))"
proof -
  let ?ocs = "fst (fan_out G (\<lambda>e. call_io e AG_stats) (load_targets F cfg None None d0) W)"
  obtain d1 where d1: "collect_samples cfg ts ?ocs d = Some d1"
    and d': "db_samples d' = prune_samples cfg ts (rollup cfg ts (db_samples d1))"
    using assms(1) by (auto simp: collect_all_def split: if_splits prod.splits option.splits)
  have in_iff: "r \<in> set (prune_samples cfg ts rs) \<longleftrightarrow> r \<in> set rs \<and> window_ok cfg ts r" for r rs
    by (auto simp: prune_samples_def retention_floor_def window_ok_def)
  show ?thesis unfolding d' Ball_def in_iff using collect_keeps [OF d1 assms(2)] rollup_keeps [of "db_samples d1" cfg ts] by blast
qed

theorem retention_exact_witness:
  "\<exists>d' W'. collect_all no_fernet default_settings nas_fleet (8 * day_us) empty_db
      (empty_db\<lparr>db_samples := [qps_row 1 0 1]\<rparr>, None) (\<lambda>i. import_world) = ((d', Some (8 * day_us)), W') \<and> qps_row 1 0 1 \<notin> set (db_samples d')"
proof -
  let ?d = "empty_db\<lparr>db_samples := [qps_row 1 0 1]\<rparr>"
  let ?run = "collect_all no_fernet default_settings nas_fleet (8 * day_us) empty_db (?d, None) (\<lambda>i. import_world)"
  obtain d' W' where run: "?run = ((d', Some (8 * day_us)), W')"
    by (auto simp: collect_all_def collect_samples_def load_targets_def fan_out_def empty_db_def default_settings_def Let_def)
  have "distinct (map s_id (db_servers ?d))" by (simp add: empty_db_def)
  from conjunct1 [OF retention_exact [OF run this]]
  have "qps_row 1 0 1 \<notin> set (db_samples d')" by (auto simp: window_ok_def default_settings_def day_us_def)
  with run show ?thesis by blast
qed

end
