(* ===== verification/QueryLog.thy ===== *)
theory QueryLog
  imports Telemetry
begin

text \<open>
  backend/app/routers/querylog.py: the query logs of the selected servers, fetched at once, tagged with their
  server, merged by instant and cut to the limit of the request. A failure of one server leaves its log out; an
  entry that is not shaped as AdGuard documents ends the request with an exception, \<open>None\<close> here.
\<close>

section \<open>Instants\<close>

definition days_of_civil :: "int \<Rightarrow> int \<Rightarrow> int \<Rightarrow> int" where
  "days_of_civil y mo dy =
     (let y' = (if mo \<le> 2 then y - 1 else y); era = y' div 400; yoe = y' mod 400;
          doy = (153 * ((mo + 9) mod 12) + 2) div 5 + dy - 1 in
      era * 146097 + (yoe * 365 + yoe div 4 - yoe div 100 + doy) - 719468)"

definition days_in_month :: "int \<Rightarrow> int \<Rightarrow> int" where
  "days_in_month y mo =
     (if mo = 2 then (if y mod 4 = 0 \<and> (y mod 100 \<noteq> 0 \<or> y mod 400 = 0) then 29 else 28)
      else if mo \<in> {4, 6, 9, 11} then 30 else 31)"

definition digits :: "nat \<Rightarrow> string \<Rightarrow> (int \<times> string) option" where
  "digits n s =
     (if n \<le> length s \<and> list_all is_digit_char (take n s) then Some (int (nat_of_digits 0 (take n s)), drop n s) else None)"

fun expect :: "string \<Rightarrow> string \<Rightarrow> string option" where
  "expect cs (c # s) = (if c \<in> set cs then Some s else None)"
| "expect cs [] = None"

text \<open>A fraction of a second in microseconds; further digits are dropped.\<close>

definition fraction :: "string \<Rightarrow> (int \<times> string) option" where
  "fraction s =
     (case expect ''.,'' s of
        None \<Rightarrow> Some (0, s)
      | Some r \<Rightarrow>
          (let ds = takeWhile is_digit_char r in
           if ds = [] then None else Some (int (nat_of_digits 0 (take 6 (ds @ ''00000''))), dropWhile is_digit_char r)))"

definition clock :: "string \<Rightarrow> ((int \<times> int \<times> int) \<times> string) option" where
  "clock s =
     Option.bind (digits 2 s) (\<lambda>(h, s). Option.bind (expect '':'' s) (\<lambda>s. Option.bind (digits 2 s) (\<lambda>(m, s).
       case expect '':'' s of
         None \<Rightarrow> Some ((h * 3600 + m * 60, m, 0), s)
       | Some s \<Rightarrow> map_option (\<lambda>(sec, s). ((h * 3600 + m * 60 + sec, m, sec), s)) (digits 2 s))))"

text \<open>The offset from UTC in microseconds; no offset is UTC.\<close>

definition utc_offset :: "string \<Rightarrow> int option" where
  "utc_offset s =
     (case s of
        [] \<Rightarrow> Some 0
      | c # r \<Rightarrow>
          if c \<noteq> CHR ''+'' \<and> c \<noteq> CHR ''-'' then None
          else Option.bind (clock r) (\<lambda>((sec, _, _), r). Option.bind (fraction r) (\<lambda>(us, r).
            if r \<noteq> [] \<or> sec * second_us + us \<ge> day_us then None
            else Some ((if c = CHR ''-'' then - 1 else 1) * (sec * second_us + us)))))"

text \<open>
  \<open>datetime.fromisoformat\<close> on a date and a time written with their separators, as RFC 3339 has it. The other
  forms of ISO 8601 (compact, week dates, reduced precision, hour 24), which AdGuard does not write, count as unreadable.
\<close>

definition from_iso :: "string \<Rightarrow> int option" where
  "from_iso s =
     Option.bind (digits 4 s) (\<lambda>(y, s). Option.bind (expect ''-'' s) (\<lambda>s. Option.bind (digits 2 s) (\<lambda>(mo, s).
     Option.bind (expect ''-'' s) (\<lambda>s. Option.bind (digits 2 s) (\<lambda>(dy, s).
       if y < 1 \<or> mo < 1 \<or> mo > 12 \<or> dy < 1 \<or> dy > days_in_month y mo then None
       else (case s of
           [] \<Rightarrow> Some (days_of_civil y mo dy * day_us)
         | _ # s \<Rightarrow>
             Option.bind (clock s) (\<lambda>((sec, m, ss), s). Option.bind (fraction s) (\<lambda>(us, s).
               if sec \<ge> 86400 \<or> m \<ge> 60 \<or> ss \<ge> 60 then None
               else map_option (\<lambda>off. days_of_civil y mo dy * day_us + sec * second_us + us - off) (utc_offset s)))))))))"

text \<open>\<open>datetime.min\<close>\<close>

definition epoch :: int where
  "epoch = days_of_civil 1 1 1 * day_us"

definition parse_time :: "json \<Rightarrow> int" where
  "parse_time v =
     (case v of
        JStr s \<Rightarrow>
          if s = [] then epoch
          else (let t = py_strip s;
                    u = (if t \<noteq> [] \<and> last t \<in> {CHR ''Z'', CHR ''z''} then butlast t @ ''+00:00'' else t) in
                case from_iso u of None \<Rightarrow> epoch | Some i \<Rightarrow> i)
      | _ \<Rightarrow> epoch)"

section \<open>Entries\<close>

record log_entry =
  le_server_id :: int
  le_server :: string
  le_time :: json
  le_client :: json
  le_client_name :: json
  le_question :: json
  le_type :: json
  le_answer :: string
  le_reason :: string
  le_blocked :: bool
  le_elapsed :: json
  le_upstream :: json
  le_cached :: json

text \<open>\<open>x or {}\<close> on which \<open>.get\<close> is called next, and \<open>x or ""\<close> on which a method of strings is.\<close>

definition dict_or_empty :: "json \<Rightarrow> json option" where
  "dict_or_empty j = (let d = jor j (JObj []) in if is_obj d then Some d else None)"

definition text_or_empty :: "json \<Rightarrow> string option" where
  "text_or_empty j = json_text (jor j (JStr []))"

definition answer_text :: "json \<Rightarrow> string option" where
  "answer_text e =
     Option.bind (iter_or_empty (jget e ''answer'')) (\<lambda>xs.
       if \<not> list_all is_obj xs then None
       else map_option (py_join '', '') (opt_list (map json_text (filter truthy (map (\<lambda>a. jget a ''value'') xs)))))"

definition entry_of :: "target \<Rightarrow> json \<Rightarrow> log_entry option" where
  "entry_of t e =
     (case (text_or_empty (jget e ''reason''), dict_or_empty (jget e ''question''), dict_or_empty (jget e ''client_info''), answer_text e) of
        (Some reason, Some q, Some info, Some ans) \<Rightarrow>
          Some \<lparr>le_server_id = tg_id t, le_server = tg_name t, le_time = jget e ''time'',
             le_client = jor (jget e ''client'') (JStr []),
             le_client_name = jor (jget info ''name'') (jor (jget e ''client_id'') (JStr [])),
             le_question = jor (jget q ''unicode_name'') (jor (jget q ''name'') (jget q ''host'')),
             le_type = jget q ''type'', le_answer = ans, le_reason = reason,
             le_blocked = py_startswith reason ''Filtered'', le_elapsed = jget e ''elapsedMs'',
             le_upstream = jget e ''upstream'', le_cached = jget_def e ''cached'' (JBool False)\<rparr>
      | _ \<Rightarrow> None)"

definition entries_of :: "target \<Rightarrow> json \<Rightarrow> log_entry list option" where
  "entries_of t rows = Option.bind (py_iter rows) (\<lambda>xs. opt_list (map (entry_of t) (filter is_obj xs)))"

section \<open>The request\<close>

text \<open>What one server contributes: its rows, nothing after any failure.\<close>

definition fetched :: "outcome \<Rightarrow> json" where
  "fetched oc = (if oc_ok oc \<and> is_obj (oc_value oc) then jor (jget (oc_value oc) ''data'') (JList []) else JList [])"

definition log_params :: "nat \<Rightarrow> string option \<Rightarrow> string \<Rightarrow> (string \<times> json) list" where
  "log_params limit search status =
     [(''limit'', JInt (int limit))] @
     (case search of None \<Rightarrow> [] | Some x \<Rightarrow> if x = [] then [] else [(''search'', JStr x)]) @
     (if status \<noteq> [] \<and> status \<noteq> ''all'' then [(''response_status'', JStr status)] else [])"

definition log_targets :: "fernet \<Rightarrow> settings \<Rightarrow> int option \<Rightarrow> int option \<Rightarrow> db \<Rightarrow> target list" where
  "log_targets F cfg zone_id server_id d = map (target_row F cfg) (filter (in_selection zone_id server_id) (db_servers d))"

definition newest_first :: "log_entry list \<Rightarrow> log_entry list" where
  "newest_first = sort_key (\<lambda>e. - parse_time (le_time e))"

record log_view =
  lv_entries :: "log_entry list"
  lv_servers :: nat
  lv_total :: nat

definition query_log ::
  "fernet \<Rightarrow> settings \<Rightarrow> 's fleet \<Rightarrow> int option \<Rightarrow> int option \<Rightarrow> string option \<Rightarrow> string \<Rightarrow> nat \<Rightarrow> db \<Rightarrow> (int \<Rightarrow> (call, 's) world)
   \<Rightarrow> log_view option" where
  "query_log F cfg G zone_id server_id search status limit d W =
     (let targets = log_targets F cfg zone_id server_id d;
          ocs = fst (fan_out G (\<lambda>e. call_io e (AG_query_log (log_params limit search status))) targets W) in
      map_option (\<lambda>ess. \<lparr>lv_entries = take limit (newest_first (concat ess)), lv_servers = length targets, lv_total = length (concat ess)\<rparr>)
        (opt_list (map (\<lambda>oc. entries_of (oc_target oc) (fetched oc)) ocs)))"

section \<open>The newest of several logs\<close>

text \<open>Merging two sorted lists, ties from the left, as the stable sort does.\<close>

fun merge_by :: "('a \<Rightarrow> 'k::linorder) \<Rightarrow> 'a list \<Rightarrow> 'a list \<Rightarrow> 'a list" where
  "merge_by f [] ys = ys"
| "merge_by f xs [] = xs"
| "merge_by f (x # xs) (y # ys) = (if f x \<le> f y then x # merge_by f xs (y # ys) else y # merge_by f (x # xs) ys)"

lemma merge_by_Nil [simp]: "merge_by f xs [] = xs"
  by (cases xs) simp_all

lemma take_merge: "n \<le> i \<Longrightarrow> n \<le> j \<Longrightarrow> take n (merge_by f (take i xs) (take j ys)) = take n (merge_by f xs ys)"
proof (induction f xs ys arbitrary: n i j rule: merge_by.induct)
  case (3 f x xs y ys)
  show ?case
  proof (cases n)
    case (Suc m)
    then obtain a b where ij: "i = Suc a" "j = Suc b" "m \<le> a" "m \<le> b" using "3.prems" by (cases i; cases j) auto
    show ?thesis
      using "3.IH"(1) [of m a j] "3.IH"(2) [of m i b] Suc ij "3.prems" by simp
  qed simp
qed (simp_all add: min_def)

lemma mset_merge_by: "mset (merge_by f xs ys) = mset xs + mset ys"
  by (induction f xs ys rule: merge_by.induct) simp_all

lemma set_merge_by: "set (merge_by f xs ys) = set xs \<union> set ys"
  by (induction f xs ys rule: merge_by.induct) auto

lemma sorted_merge_by: "sorted (map f xs) \<Longrightarrow> sorted (map f ys) \<Longrightarrow> sorted (map f (merge_by f xs ys))"
  by (induction f xs ys rule: merge_by.induct) (auto simp: set_merge_by)

lemma filter_merge_by:
  "sorted (map f xs) \<Longrightarrow> sorted (map f ys) \<Longrightarrow>
     filter (\<lambda>z. k = f z) (merge_by f xs ys) = filter (\<lambda>z. k = f z) xs @ filter (\<lambda>z. k = f z) ys"
proof (induction f xs ys rule: merge_by.induct)
  case (3 f x xs y ys)
  show ?case
  proof (cases "f x \<le> f y")
    case False
    then have "filter (\<lambda>z. f y = f z) (x # xs) = []" using "3.prems"(1) by (auto simp: filter_empty_conv)
    then have "k = f y \<Longrightarrow> filter (\<lambda>z. k = f z) (x # xs) = []" by simp
    then show ?thesis using 3 False by auto
  next
    case True
    then show ?thesis using 3 by (cases "k = f x") simp_all
  qed
qed simp_all

lemma sort_append: "sort_key f (xs @ ys) = merge_by f (sort_key f xs) (sort_key f ys)"
proof (rule properties_for_sort_key)
  fix z
  have "filter (\<lambda>x. f z = f x) (sort_key f zs) = filter (\<lambda>x. f z = f x) zs" for zs
    using sort_key_stable [of f "f z" zs] by (simp add: eq_commute)
  then show "filter (\<lambda>x. f z = f x) (merge_by f (sort_key f xs) (sort_key f ys)) = filter (\<lambda>x. f z = f x) (xs @ ys)"
    by (simp add: filter_merge_by)
qed (simp_all add: mset_merge_by sorted_merge_by)

text \<open>The first \<open>n\<close> of a sorted union need the first \<open>n\<close> of each sorted part only.\<close>

lemma take_sort_append:
  "take n (sort_key f xs) = take n (sort_key f xs') \<Longrightarrow> take n (sort_key f ys) = take n (sort_key f ys') \<Longrightarrow>
     take n (sort_key f (xs @ ys)) = take n (sort_key f (xs' @ ys'))"
  unfolding sort_append
  by (subst (1 2) take_merge [of n n n, OF order_refl order_refl, symmetric]) simp

lemma take_sort_concat:
  "list_all2 (\<lambda>xs ys. take n (sort_key f xs) = take n (sort_key f ys)) xss yss \<Longrightarrow>
     take n (sort_key f (concat xss)) = take n (sort_key f (concat yss))"
proof (induction rule: list_all2_induct)
  case (Cons xs xss ys yss)
  from take_sort_append [OF Cons(1) Cons(3)] show ?case by simp
qed simp

lemma sort_prefix:
  assumes "sorted (map f xs)"
  shows "take n (sort_key f (take n xs)) = take n (sort_key f xs)"
proof -
  have "sorted (map f (take n xs))" using sorted_wrt_take [OF assms, of n] by (simp add: take_map)
  then show ?thesis using assms by (simp add: sort_key_id_if_sorted)
qed

section \<open>Properties\<close>

lemma opt_list_take: "opt_list (map f xs) = Some ys \<Longrightarrow> opt_list (map f (take n xs)) = Some (take n ys)"
proof (induction xs arbitrary: n ys)
  case (Cons x xs)
  then obtain y zs where "f x = Some y" "opt_list (map f xs) = Some zs" "ys = y # zs"
    by (cases "f x") auto
  with Cons.IH show ?case by (cases n) simp_all
qed simp

lemma opt_list_map: "\<forall>x \<in> set xs. f x = Some (g x) \<Longrightarrow> opt_list (map f xs) = Some (map g xs)"
  by (induction xs) simp_all

text \<open>What a server that holds the log \<open>rows\<close>, newest first, answers to a request for \<open>limit\<close> entries.\<close>

definition answers_newest :: "outcome \<Rightarrow> nat \<Rightarrow> json list \<Rightarrow> log_entry list \<Rightarrow> bool" where
  "answers_newest oc limit rows es \<longleftrightarrow>
     oc_error oc = None \<and> oc_value oc = JObj [(''data'', JList (take limit rows))] \<and>
     list_all is_obj rows \<and> opt_list (map (entry_of (oc_target oc)) rows) = Some es \<and>
     sorted (map (\<lambda>e. - parse_time (le_time e)) es)"

lemma answers_newest_entries:
  assumes "answers_newest oc limit rows es"
  shows "entries_of (oc_target oc) (fetched oc) = Some (take limit es)"
proof -
  have "filter is_obj (take limit rows) = take limit rows"
    using assms by (auto simp: answers_newest_def filter_id_conv list_all_iff dest: in_set_takeD)
  moreover have "fetched oc = JList (take limit rows)"
    using assms by (simp add: answers_newest_def fetched_def jor_def)
  ultimately show ?thesis using assms opt_list_take by (auto simp: answers_newest_def entries_of_def)
qed

text \<open>
  C31. The limit is pushed down to the servers without loss: when every server either fails or answers with no more than
  the newest \<open>limit\<close> entries of its log, the request shows exactly the newest \<open>limit\<close> entries of the complete
  logs of the servers that answered, as if they had been sent whole.
\<close>

theorem query_log_pushdown:
  assumes "\<forall>t \<in> set (log_targets F cfg zone_id server_id d).
      let oc = outcome_of G (\<lambda>e. call_io e (AG_query_log (log_params limit search status))) W t in
      oc_error oc \<noteq> None \<and> full t = [] \<or> answers_newest oc limit (rows t) (full t)"
  shows "map_option lv_entries (query_log F cfg G zone_id server_id search status limit d W) =
    Some (take limit (newest_first (concat (map full (log_targets F cfg zone_id server_id d)))))"
proof -
  let ?ts = "log_targets F cfg zone_id server_id d" and ?f = "\<lambda>e. - parse_time (le_time e)"
  let ?oc = "outcome_of G (\<lambda>e. call_io e (AG_query_log (log_params limit search status))) W"
  have part: "entries_of (oc_target (?oc t)) (fetched (?oc t)) = Some (take limit (full t)) \<and> sorted (map ?f (full t))"
    if "t \<in> set ?ts" for t
    using bspec [OF assms that] answers_newest_entries [of "?oc t" limit "rows t" "full t"]
    by (auto simp: Let_def answers_newest_def fetched_def entries_of_def)
  have "opt_list (map (\<lambda>t. entries_of (oc_target (?oc t)) (fetched (?oc t))) ?ts) = Some (map (\<lambda>t. take limit (full t)) ?ts)"
    using part by (intro opt_list_map) blast
  moreover have "take limit (sort_key ?f (concat (map (\<lambda>t. take limit (full t)) ?ts))) = take limit (sort_key ?f (concat (map full ?ts)))"
  proof (rule take_sort_concat)
    have "take limit (sort_key ?f (take limit (full t))) = take limit (sort_key ?f (full t))" if "t \<in> set ?ts" for t
      using part [OF that] by (intro sort_prefix) blast
    then show "list_all2 (\<lambda>xs ys. take limit (sort_key ?f xs) = take limit (sort_key ?f ys))
        (map (\<lambda>t. take limit (full t)) ?ts) (map full ?ts)"
      by (simp add: list.rel_map list.rel_refl_strong)
  qed
  ultimately show ?thesis by (simp add: query_log_def Let_def fan_out_def comp_def newest_first_def)
qed

definition log_row :: "string \<Rightarrow> json" where
  "log_row t = JObj [(''time'', JStr t)]"

definition log_fleet :: "nat \<Rightarrow> (int \<Rightarrow> json list) \<Rightarrow> unit fleet" where
  "log_fleet limit logs =
     \<lparr>ft_build = \<lambda>t. None,
      ft_env = \<lambda>i. \<lparr>e_call = \<lambda>c s. (Inr (JObj [(''data'', JList (take limit (logs i)))]), s), e_now = \<lambda>s. 0, e_loop_time = \<lambda>s. 0\<rparr>\<rparr>"

definition two_logs :: "int \<Rightarrow> json list" where
  "two_logs i =
     (if i = 1 then [log_row ''2024-03-01T00:30:00+02:00'', log_row ''2024-02-29T21:00:00Z'']
      else [log_row ''2024-02-29T23:00:00.5Z''])"

lemmas time_defs = parse_time_def from_iso_def digits_def clock_def fraction_def utc_offset_def is_digit_char_def
  days_of_civil_def days_in_month_def day_us_def second_us_def

lemma log_times:
  "parse_time (JStr ''2024-03-01T00:30:00+02:00'') = 1709245800000000"
  "parse_time (JStr ''2024-02-29T21:00:00Z'') = 1709240400000000"
  "parse_time (JStr ''2024-02-29T23:00:00.5Z'') = 1709247600500000"
proof -
  have strip: "py_strip ''2024-03-01T00:30:00+02:00'' = ''2024-03-01T00:30:00+02:00''"
    "py_strip ''2024-02-29T21:00:00Z'' = ''2024-02-29T21:00:00Z''"
    "py_strip ''2024-02-29T23:00:00.5Z'' = ''2024-02-29T23:00:00.5Z''" by code_simp+
  show "parse_time (JStr ''2024-03-01T00:30:00+02:00'') = 1709245800000000"
    unfolding parse_time_def json.case strip by (simp add: time_defs)
  show "parse_time (JStr ''2024-02-29T21:00:00Z'') = 1709240400000000"
    unfolding parse_time_def json.case strip by (simp add: time_defs)
  show "parse_time (JStr ''2024-02-29T23:00:00.5Z'') = 1709247600500000"
    unfolding parse_time_def json.case strip by (simp add: time_defs)
qed

definition bare_entry :: "int \<Rightarrow> string \<Rightarrow> string \<Rightarrow> log_entry" where
  "bare_entry i name t =
     \<lparr>le_server_id = i, le_server = name, le_time = JStr t, le_client = JStr [], le_client_name = JStr [], le_question = JNull,
      le_type = JNull, le_answer = [], le_reason = [], le_blocked = False, le_elapsed = JNull, le_upstream = JNull, le_cached = JBool False\<rparr>"

lemma bare_entry: "entry_of t (log_row x) = Some (bare_entry (tg_id t) (tg_name t) x)"
  by (simp add: entry_of_def log_row_def bare_entry_def text_or_empty_def dict_or_empty_def answer_text_def
      iter_or_empty_def jor_def Let_def)

text \<open>Two servers, one writing local time: its entry of half past midnight is the older one.\<close>

theorem query_log_pushdown_witness:
  "map_option (\<lambda>v. map le_server_id (lv_entries v))
     (query_log no_fernet default_settings (log_fleet 1 two_logs) None None None ''all'' 1
        (empty_db\<lparr>db_servers := [sample_server 1 ''a'' [], sample_server 2 ''b'' []]\<rparr>) (\<lambda>i. \<lparr>w_log = [], w_out = ()\<rparr>)) = Some [2]"
proof -
  let ?d = "empty_db\<lparr>db_servers := [sample_server 1 ''a'' [], sample_server 2 ''b'' []]\<rparr>"
  let ?ts = "log_targets no_fernet default_settings None None ?d" and ?W = "\<lambda>i :: int. \<lparr>w_log = [] :: call list, w_out = ()\<rparr>"
  let ?full = "\<lambda>t. if tg_id t = 1 then [bare_entry 1 ''a'' ''2024-03-01T00:30:00+02:00'', bare_entry 1 ''a'' ''2024-02-29T21:00:00Z'']
     else [bare_entry 2 ''b'' ''2024-02-29T23:00:00.5Z'']"
  have ts: "map tg_id ?ts = [1, 2]" "map tg_name ?ts = [''a'', ''b'']"
    by (simp_all add: log_targets_def in_selection_def sample_server_def target_row_def)
  then obtain t u where tu: "?ts = [t, u]" "tg_id t = 1" "tg_name t = ''a''" "tg_id u = 2" "tg_name u = ''b''" by auto
  have oc: "outcome_of (log_fleet 1 two_logs) (\<lambda>e. call_io e c) ?W x =
      \<lparr>oc_target = x, oc_value = JObj [(''data'', JList (take 1 (two_logs (tg_id x))))], oc_error = None\<rparr>" for c x
    by (simp add: outcome_of_def call_one_def log_fleet_def call_io_def io_finally_def)
  have "map_option lv_entries (query_log no_fernet default_settings (log_fleet 1 two_logs) None None None ''all'' 1 ?d ?W) =
    Some (take 1 (newest_first (concat (map ?full ?ts))))"
  proof (rule query_log_pushdown [where rows = "\<lambda>t. two_logs (tg_id t)"], unfold oc Let_def)
    have "is_obj (log_row x)" for x by (simp add: log_row_def)
    then show "\<forall>x \<in> set ?ts. oc_error \<lparr>oc_target = x, oc_value = JObj [(''data'', JList (take 1 (two_logs (tg_id x))))], oc_error = None\<rparr> \<noteq> None \<and> ?full x = [] \<or>
        answers_newest \<lparr>oc_target = x, oc_value = JObj [(''data'', JList (take 1 (two_logs (tg_id x))))], oc_error = None\<rparr> 1 (two_logs (tg_id x)) (?full x)"
      by (simp add: tu answers_newest_def two_logs_def bare_entry) (simp add: bare_entry_def log_times)
  qed
  also have "\<dots> = Some [bare_entry 2 ''b'' ''2024-02-29T23:00:00.5Z'']"
    by (simp add: tu newest_first_def bare_entry_def log_times)
  finally show ?thesis by (auto simp: bare_entry_def)
qed

end
