(* ===== verification/Versions.thy ===== *)
theory Versions
  imports QueryLog Updater Admin
begin

text \<open>
  backend/app/routers/updates.py and backend/app/agent_bin.py: the forced check for new AdGuard releases, the
  buttons that start upgrades, and the manifest of the agent builds with its cache.
\<close>

section \<open>The forced check\<close>

record posture =
  ps_latest :: "string option"
  ps_available :: bool
  ps_can_autoupdate :: bool
  ps_check_disabled :: bool

definition no_posture :: posture where
  "no_posture = \<lparr>ps_latest = None, ps_available = False, ps_can_autoupdate = False, ps_check_disabled = False\<rparr>"

text \<open>What the answer of an instance says; \<open>None\<close> where reading it raises.\<close>

definition posture_of :: "string option \<Rightarrow> json \<Rightarrow> posture option" where
  "posture_of version info =
     (if \<not> is_obj info then None
      else map_option (\<lambda>v.
          \<lparr>ps_latest = none_if_empty v, ps_available = v \<noteq> [] \<and> v \<noteq> str_or version [],
           ps_can_autoupdate = truthy (jget info ''can_autoupdate''), ps_check_disabled = truthy (jget info ''disabled'')\<rparr>)
        (strip_or_empty (jget info ''new_version'')))"

text \<open>One server: \<open>None\<close> for a task that ends with an exception.\<close>

definition check_one :: "'s fleet \<Rightarrow> (int \<Rightarrow> (call, 's) world) \<Rightarrow> target \<times> string option \<Rightarrow> posture option" where
  "check_one G W tv =
     (case tv of (t, version) \<Rightarrow>
        (case ft_build G t of
           Some x \<Rightarrow> Some no_posture
         | None \<Rightarrow>
             (case fst (io_finally (call_io (ft_env G (tg_id t)) (AG_version_check True)) (log_call AG_close) (W (tg_id t))) of
                Inl x \<Rightarrow> if is_adguard_error x then Some no_posture else None
              | Inr info \<Rightarrow> posture_of version info)))"

definition posture_row :: "posture \<Rightarrow> server \<Rightarrow> server" where
  "posture_row p s =
     s\<lparr>s_latest_version := ps_latest p, s_update_available := ps_available p, s_can_autoupdate := ps_can_autoupdate p,
       s_update_check_disabled := ps_check_disabled p\<rparr>"

definition write_posture :: "settings \<Rightarrow> int \<Rightarrow> int \<times> posture \<Rightarrow> (server \<times> skip option) list \<times> db \<Rightarrow> (server \<times> skip option) list \<times> db" where
  "write_posture cfg now ip od =
     (case ip of (i, p) \<Rightarrow> case od of (out, d) \<Rightarrow>
        (case get_server d i of
           None \<Rightarrow> (out, d)
         | Some s \<Rightarrow> (out @ [(posture_row p s, skip_reason cfg (posture_row p s) now)], put_server (posture_row p s) d)))"

definition check_targets :: "fernet \<Rightarrow> settings \<Rightarrow> int option \<Rightarrow> db \<Rightarrow> (target \<times> string option) list" where
  "check_targets F cfg server_id d =
     map (\<lambda>s. (target_row F cfg s, s_version s)) (filter (in_selection None server_id) (db_servers d))"

text \<open>\<open>d0\<close> is the database the targets are read from, \<open>d\<close> the one the answers are written to.\<close>

definition check_results :: "'s fleet \<Rightarrow> (int \<Rightarrow> (call, 's) world) \<Rightarrow> (target \<times> string option) list \<Rightarrow> (int \<times> posture) list" where
  "check_results G W targets = List.map_filter (\<lambda>tv. map_option (Pair (tg_id (fst tv))) (check_one G W tv)) targets"

definition check_now ::
  "fernet \<Rightarrow> settings \<Rightarrow> 's fleet \<Rightarrow> int \<Rightarrow> int option \<Rightarrow> (int \<Rightarrow> (call, 's) world) \<Rightarrow> db \<Rightarrow> db
   \<Rightarrow> ((server \<times> skip option) list \<times> db) http" where
  "check_now F cfg G now server_id W d0 d =
     (let targets = check_targets F cfg server_id d0 in
      if server_id \<noteq> None \<and> targets = [] then Inl (HTTPException 404 ''Server not found (or disabled)'')
      else Inr (fold (write_posture cfg now) (check_results G W targets) ([], d)))"

section \<open>Starting upgrades\<close>

definition run_update_for_server ::
  "settings \<Rightarrow> int \<Rightarrow> int \<Rightarrow> (int \<Rightarrow> exn + update_outcome option) \<Rightarrow> db \<Rightarrow> update_outcome http" where
  "run_update_for_server cfg now i task d =
     (case get_server d i of
        None \<Rightarrow> Inl server_not_found
      | Some s \<Rightarrow>
          (case run_updates cfg now True (Some i) task d of
             [] \<Rightarrow> Inl (HTTPException 409 ''Nothing to install - this server is already on the latest version it knows about.'')
           | out # _ \<Rightarrow> Inr out))"

text \<open>\<open>UpdateManager.run_once\<close>: what the manager remembers of its last pass over the fleet.\<close>

record update_manager =
  um_last_run :: "int option"
  um_last_outcomes :: "update_outcome list"

definition run_once ::
  "settings \<Rightarrow> int \<Rightarrow> int \<Rightarrow> bool \<Rightarrow> int option \<Rightarrow> (int \<Rightarrow> exn + update_outcome option) \<Rightarrow> db \<Rightarrow> update_manager
   \<Rightarrow> update_outcome list \<times> update_manager" where
  "run_once cfg now done_at force only task d M =
     (let outcomes = run_updates cfg now force only task d in
      (outcomes, if only = None then M\<lparr>um_last_outcomes := outcomes, um_last_run := Some done_at\<rparr> else M))"

record update_view =
  uv_servers :: "(server \<times> skip option) list"
  uv_enabled :: bool
  uv_window :: string
  uv_in_window :: bool
  uv_interval :: int
  uv_retry_hours :: int
  uv_last_run :: "int option"
  uv_in_progress :: bool
  uv_command :: string

definition docker_agent_command :: "settings \<Rightarrow> string" where
  "docker_agent_command cfg =
     ''curl -fsSL '' @ [CHR 0x22] @ py_rstrip_char (CHR ''/'') (cf_public_base_url cfg) @ ''/api/updates/docker-agent.sh'' @ [CHR 0x22] @
     '' | sudo bash''"

definition updates_overview :: "settings \<Rightarrow> int \<Rightarrow> update_manager \<Rightarrow> bool \<Rightarrow> db \<Rightarrow> update_view" where
  "updates_overview cfg now M busy d =
     \<lparr>uv_servers = map (\<lambda>s. (s, skip_reason cfg s now)) (sort_key s_name (db_servers d)),
      uv_enabled = cf_auto_update_enabled cfg, uv_window = cf_auto_update_window cfg, uv_in_window = in_maintenance_window cfg now,
      uv_interval = cf_auto_update_interval_seconds cfg, uv_retry_hours = cf_auto_update_retry_hours cfg,
      uv_last_run = um_last_run M, uv_in_progress = busy, uv_command = docker_agent_command cfg\<rparr>"

section \<open>The agent builds\<close>

record build_file =
  bf_mtime :: int
  bf_size :: int
  bf_content :: string

record bin_dir =
  bd_files :: "string \<Rightarrow> build_file option"
  bd_version :: "string option"

definition arches :: "string list" where
  "arches = [''amd64'', ''arm64'', ''arm'']"

type_synonym stat_key = "(string \<times> int \<times> int) list"

record built_manifest =
  bm_version :: string
  bm_files :: "(string \<times> string \<times> int) list"

definition manifest_key :: "bin_dir \<Rightarrow> stat_key" where
  "manifest_key B =
     List.map_filter (\<lambda>a. map_option (\<lambda>f. (a, bf_mtime f, bf_size f)) (bd_files B a)) arches"

definition hashed :: "(string \<Rightarrow> string) \<Rightarrow> bin_dir \<Rightarrow> stat_key \<Rightarrow> (string \<times> string \<times> int) list option" where
  "hashed sha256 B key =
     opt_list (map (\<lambda>(a, _, size). map_option (\<lambda>f. (''linux/'' @ a, sha256 (bf_content f), size)) (bd_files B a)) key)"

definition version_text :: "bin_dir \<Rightarrow> string" where
  "version_text B = (case bd_version B of None \<Rightarrow> ''unknown'' | Some v \<Rightarrow> if py_strip v = [] then ''unknown'' else py_strip v)"

text \<open>
  \<open>B\<close> is the directory when the files are looked up, \<open>B'\<close> when they are read; \<open>None\<close> is the exception of a
  file that is gone by then. The second component is the module's cache.
\<close>

definition build_manifest ::
  "(string \<Rightarrow> string) \<Rightarrow> bin_dir \<Rightarrow> bin_dir \<Rightarrow> (stat_key \<times> built_manifest) option
   \<Rightarrow> built_manifest option \<times> (stat_key \<times> built_manifest) option" where
  "build_manifest sha256 B B' cache =
     (let key = manifest_key B in
      case Option.bind cache (\<lambda>(k, m). if k = key then Some m else None) of
        Some m \<Rightarrow> (Some m, cache)
      | None \<Rightarrow>
          (case hashed sha256 B' key of
             None \<Rightarrow> (None, cache)
           | Some fs \<Rightarrow> (let m = \<lparr>bm_version = version_text B', bm_files = fs\<rparr> in (Some m, Some (key, m)))))"

definition as_manifest :: "built_manifest \<Rightarrow> manifest" where
  "as_manifest m = \<lparr>mf_version = bm_version m, mf_files = map (\<lambda>(a, sha, _). (a, sha)) (bm_files m)\<rparr>"

text \<open>The two downloads.\<close>

definition download_manifest :: "built_manifest \<Rightarrow> built_manifest http" where
  "download_manifest m =
     (if bm_files m = []
      then Inl (HTTPException 404 ''No agent binaries are available on this control plane (AGENT_BIN_DIR is empty).'')
      else Inr m)"

definition download_binary :: "bin_dir \<Rightarrow> string \<Rightarrow> string http" where
  "download_binary B arch =
     (if arch \<notin> set arches then Inl (HTTPException 404 ''Unknown architecture'')
      else case bd_files B arch of
        None \<Rightarrow> Inl (HTTPException 404 (''No agent build for linux/'' @ arch))
      | Some f \<Rightarrow> Inr (bf_content f))"

section \<open>Facts\<close>

lemma posture_row_id [simp]: "s_id (posture_row p s) = s_id s"
  by (simp add: posture_row_def)

lemma row_get_member: "distinct (map key rows) \<Longrightarrow> r \<in> set rows \<Longrightarrow> row_get key (key r) rows = Some r"
  by (induction rows) (auto simp: row_get_def)

lemma write_posture_db:
  "snd (write_posture cfg now (i, p) (out, d)) =
     (case get_server d i of None \<Rightarrow> d | Some s \<Rightarrow> put_server (posture_row p s) d)"
  by (simp add: write_posture_def split: option.split)

lemma server_key: "get_server d i = Some s \<Longrightarrow> s_id s = i"
  by (drule row_get_Some) simp

text \<open>After the writes each server that was asked has the posture it answered, every other row and table is as before.\<close>

lemma fold_write_posture:
  "distinct (map fst ips) \<Longrightarrow> snd (fold (write_posture cfg now) ips (out, d)) = d' \<Longrightarrow>
     d'\<lparr>db_servers := []\<rparr> = d\<lparr>db_servers := []\<rparr> \<and> map s_id (db_servers d') = map s_id (db_servers d) \<and>
     (\<forall>i. get_server d' i = map_option (\<lambda>s. case map_of ips i of None \<Rightarrow> s | Some p \<Rightarrow> posture_row p s) (get_server d i))"
proof (induction ips arbitrary: out d)
  case Nil
  then show ?case by (auto simp: option.map_id0 [unfolded id_def])
next
  case (Cons ip ips)
  obtain i p where ip: "ip = (i, p)" by (cases ip)
  obtain out1 d1 where step: "write_posture cfg now ip (out, d) = (out1, d1)" by (cases "write_posture cfg now ip (out, d)")
  then have d1: "d1 = (case get_server d i of None \<Rightarrow> d | Some s \<Rightarrow> put_server (posture_row p s) d)"
    using write_posture_db [of cfg now i p out d] ip by simp
  have same: "d1\<lparr>db_servers := []\<rparr> = d\<lparr>db_servers := []\<rparr>" "map s_id (db_servers d1) = map s_id (db_servers d)"
    unfolding d1 by (simp_all add: put_server_def keys_row_put split: option.split)
  have got: "get_server d1 j = map_option (\<lambda>s. if j = i then posture_row p s else s) (get_server d j)" for j
    unfolding d1 by (cases "get_server d j") (auto split: option.split dest: server_key)
  have fresh: "map_of ips i = None" using Cons.prems(1) ip by (simp add: map_of_eq_None_iff)
  have IH: "d'\<lparr>db_servers := []\<rparr> = d1\<lparr>db_servers := []\<rparr>" "map s_id (db_servers d') = map s_id (db_servers d1)"
    "get_server d' j = map_option (\<lambda>s. case map_of ips j of None \<Rightarrow> s | Some p \<Rightarrow> posture_row p s) (get_server d1 j)" for j
    using Cons.IH [of out1 d1] Cons.prems step by simp_all
  show ?case unfolding IH(1,2) same using IH(3) fresh
    by (auto simp: ip got option.map_comp comp_def intro!: option.map_cong split: option.split)
qed

lemma check_results_keys: "map fst (check_results G W tvs) = map (\<lambda>tv. tg_id (fst tv)) (filter (\<lambda>tv. check_one G W tv \<noteq> None) tvs)"
  by (induction tvs) (auto simp: check_results_def map_filter_simps)

lemma check_results_get:
  "distinct (map (\<lambda>tv. tg_id (fst tv)) tvs) \<Longrightarrow> tv \<in> set tvs \<Longrightarrow>
     map_of (check_results G W tvs) (tg_id (fst tv)) = check_one G W tv"
proof (induction tvs)
  case (Cons x tvs)
  have miss: "map_of (check_results G W tvs) (tg_id (fst x)) = None"
    using Cons.prems(1) unfolding map_of_eq_None_iff set_map [symmetric] check_results_keys by auto
  have "tv \<in> set tvs \<Longrightarrow> tg_id (fst tv) \<noteq> tg_id (fst x)" using Cons.prems(1) by (auto intro: rev_image_eqI)
  then show ?case using Cons miss by (auto simp: check_results_def map_filter_simps split: option.split)
qed simp

text \<open>The posture a check finds for a server, \<open>None\<close> for one it does not ask or whose answer cannot be read.\<close>

definition found_posture :: "fernet \<Rightarrow> settings \<Rightarrow> 's fleet \<Rightarrow> int option \<Rightarrow> (int \<Rightarrow> (call, 's) world) \<Rightarrow> db \<Rightarrow> int \<Rightarrow> posture option" where
  "found_posture F cfg G server_id W d0 i =
     (case get_server d0 i of
        None \<Rightarrow> None
      | Some s \<Rightarrow> if in_selection None server_id s then check_one G W (target_row F cfg s, s_version s) else None)"

lemma check_results_found:
  assumes "distinct (map s_id (db_servers d0))"
  shows "map_of (check_results G W (check_targets F cfg server_id d0)) i = found_posture F cfg G server_id W d0 i"
    and "distinct (map fst (check_results G W (check_targets F cfg server_id d0)))"
proof -
  let ?tvs = "check_targets F cfg server_id d0"
  have ids: "map (\<lambda>tv. tg_id (fst tv)) ?tvs = map s_id (filter (in_selection None server_id) (db_servers d0))"
    by (simp add: check_targets_def target_row_def comp_def)
  then have dist: "distinct (map (\<lambda>tv. tg_id (fst tv)) ?tvs)" using distinct_map_filter [OF assms] by simp
  then show "distinct (map fst (check_results G W ?tvs))" unfolding check_results_keys by (rule distinct_map_filter)
  show "map_of (check_results G W ?tvs) i = found_posture F cfg G server_id W d0 i"
  proof (cases "\<exists>s. get_server d0 i = Some s \<and> in_selection None server_id s")
    case True
    then obtain s where s: "get_server d0 i = Some s" "in_selection None server_id s" by blast
    then have "(target_row F cfg s, s_version s) \<in> set ?tvs" using row_get_Some [OF s(1)] by (auto simp: check_targets_def)
    from check_results_get [OF dist this, of G W] show ?thesis
      using s server_key [OF s(1)] by (simp add: found_posture_def target_row_def)
  next
    case False
    have "i \<notin> set (map s_id (filter (in_selection None server_id) (db_servers d0)))"
    proof
      assume "i \<in> set (map s_id (filter (in_selection None server_id) (db_servers d0)))"
      then obtain s where "s \<in> set (db_servers d0)" "s_id s = i" "in_selection None server_id s" by auto
      moreover from this have "get_server d0 i = Some s" using row_get_member [OF assms] by blast
      ultimately show False using False by blast
    qed
    then have "map_of (check_results G W ?tvs) i = None"
      unfolding map_of_eq_None_iff set_map [symmetric] check_results_keys ids [symmetric] by auto
    moreover have "found_posture F cfg G server_id W d0 i = None" using False by (auto simp: found_posture_def split: option.split)
    ultimately show ?thesis by simp
  qed
qed

section \<open>Properties\<close>

lemma check_writes_facts:
  assumes "check_now F cfg G now server_id W d0 d = Inr (out, d')" and "distinct (map s_id (db_servers d0))"
  shows "d'\<lparr>db_servers := []\<rparr> = d\<lparr>db_servers := []\<rparr>" and "map s_id (db_servers d') = map s_id (db_servers d)"
    and "get_server d' i = map_option (\<lambda>s. case found_posture F cfg G server_id W d0 i of None \<Rightarrow> s | Some p \<Rightarrow> posture_row p s) (get_server d i)"
proof -
  have "fold (write_posture cfg now) (check_results G W (check_targets F cfg server_id d0)) ([], d) = (out, d')"
    using assms(1) by (simp add: check_now_def Let_def split: if_splits)
  then have "snd (fold (write_posture cfg now) (check_results G W (check_targets F cfg server_id d0)) ([], d)) = d'" by simp
  note facts = fold_write_posture [OF check_results_found(2) [OF assms(2)] this]
  show "d'\<lparr>db_servers := []\<rparr> = d\<lparr>db_servers := []\<rparr>" and "map s_id (db_servers d') = map s_id (db_servers d)"
    using facts by blast+
  show "get_server d' i = map_option (\<lambda>s. case found_posture F cfg G server_id W d0 i of None \<Rightarrow> s | Some p \<Rightarrow> posture_row p s) (get_server d i)"
    using facts unfolding check_results_found(1) [OF assms(2)] by blast
qed

text \<open>
  The forced check writes to every selected enabled server exactly the posture its instance answered, leaves a server
  whose answer cannot be read as it is, and touches no other column, row or table.
\<close>

theorem check_writes_postures:
  assumes "check_now F cfg G now server_id W d0 d = Inr (out, d')" and "distinct (map s_id (db_servers d0))"
  shows "d'\<lparr>db_servers := []\<rparr> = d\<lparr>db_servers := []\<rparr> \<and> map s_id (db_servers d') = map s_id (db_servers d) \<and>
    (\<forall>i. get_server d' i = map_option (\<lambda>s. case found_posture F cfg G server_id W d0 i of None \<Rightarrow> s | Some p \<Rightarrow> posture_row p s) (get_server d i))"
  using check_writes_facts [OF assms] by blast

text \<open>
  A server that does not answer the forced check loses the upgrade that was waiting for it: it counts as up to date,
  and until the next reconcile pass the button that upgrades it is refused.
\<close>

theorem failed_check_hides_update:
  assumes "check_now F cfg G now None W d d = Inr (out, d')" and "distinct (map s_id (db_servers d))"
    and "get_server d i = Some s" and "s_enabled s" and "s_agent_id s = None"
    and "ft_build G (target_row F cfg s) = None" and "fst (call_io (ft_env G i) (AG_version_check True) (W i)) = Inl (AdGuardError m c r)"
  shows "run_update_for_server cfg now i task d' =
      Inl (HTTPException 409 ''Nothing to install - this server is already on the latest version it knows about.'') \<and>
    map_option (\<lambda>s'. skip_reason cfg s' now) (get_server d' i) = Some (Some (if s_auto_update s then Skip_latest else Skip_not_opted_in))"
proof -
  have i: "s_id s = i" using server_key [OF assms(3)] .
  have tg: "tg_id (target_row F cfg s) = i" using i by (simp add: target_row_def)
  have sel: "in_selection None None s" using assms(4) by (simp add: in_selection_def)
  obtain w' where call: "call_io (ft_env G i) (AG_version_check True) (W i) = (Inl (AdGuardError m c r), w')"
    using assms(7) by (cases "call_io (ft_env G i) (AG_version_check True) (W i)") simp
  have "check_one G W (target_row F cfg s, s_version s) = Some no_posture"
    by (simp add: check_one_def tg assms(6) io_finally_def call)
  then have "found_posture F cfg G None W d i = Some no_posture" by (simp add: found_posture_def assms(3) sel)
  then have row: "get_server d' i = Some (posture_row no_posture s)"
    using check_writes_facts [OF assms(1,2)] assms(3) by simp
  have not_due: "\<not> forced_due (posture_row no_posture s)" using assms(5) by (simp add: forced_due_def posture_row_def no_posture_def)
  have "filter forced_due (filter (\<lambda>x. s_id x = i) (db_servers d')) = []"
  proof -
    have "distinct (map s_id (db_servers d'))" using check_writes_facts [OF assms(1,2)] assms(2) by simp
    then have "x = posture_row no_posture s" if "x \<in> set (db_servers d')" "s_id x = i" for x
      using row_get_member [of s_id "db_servers d'" x] that row by simp
    then show ?thesis using not_due by (auto simp: filter_empty_conv)
  qed
  then have "run_updates cfg now True (Some i) task d' = []"
    by (simp add: run_updates_def updates_to_run_def due_server_ids_def collect_outcomes_def eq_commute map_filter_simps)
  then show ?thesis using row assms(4)
    by (simp add: run_update_for_server_def skip_reason_def posture_row_def no_posture_def)
qed

definition waiting_server :: server where
  "waiting_server = (sample_server 1 ''a'' ''http://10.0.0.2'')\<lparr>s_update_available := True, s_latest_version := Some ''v2'', s_auto_update := True\<rparr>"

definition answering :: "exn + json \<Rightarrow> unit fleet" where
  "answering r = \<lparr>ft_build = \<lambda>t. None, ft_env = \<lambda>i. \<lparr>e_call = \<lambda>c s. (r, s), e_now = \<lambda>s. 0, e_loop_time = \<lambda>s. 0\<rparr>\<rparr>"

definition idle_worlds :: "int \<Rightarrow> (call, unit) world" where
  "idle_worlds i = \<lparr>w_log = [], w_out = ()\<rparr>"

lemma answering_call: "fst (call_io (ft_env (answering r) i) c w) = r"
  by (simp add: answering_def call_io_def)

theorem check_writes_postures_witness:
  "\<exists>out d'. check_now no_fernet default_settings (answering (Inr (JObj [(''new_version'', JStr ''v3'')]))) 0 None idle_worlds
       (empty_db\<lparr>db_servers := [waiting_server]\<rparr>) (empty_db\<lparr>db_servers := [waiting_server]\<rparr>) = Inr (out, d') \<and>
     map_option s_latest_version (get_server d' 1) = Some (Some ''v3'')"
proof -
  let ?G = "answering (Inr (JObj [(''new_version'', JStr ''v3'')]))" and ?d = "empty_db\<lparr>db_servers := [waiting_server]\<rparr>"
  obtain out d' where c: "check_now no_fernet default_settings ?G 0 None idle_worlds ?d ?d = Inr (out, d')"
    by (cases "check_now no_fernet default_settings ?G 0 None idle_worlds ?d ?d") (auto simp: check_now_def Let_def)
  have dist: "distinct (map s_id (db_servers ?d))" by simp
  have got: "get_server ?d 1 = Some waiting_server" by (simp add: row_get_def waiting_server_def sample_server_def)
  have sel: "in_selection None None waiting_server" by (simp add: in_selection_def waiting_server_def sample_server_def)
  have "ft_build ?G t = None" for t by (simp add: answering_def)
  moreover have "py_strip ''v3'' = ''v3''" by code_simp
  ultimately have "map_option ps_latest (found_posture no_fernet default_settings ?G None idle_worlds ?d 1) = Some (Some ''v3'')"
    unfolding found_posture_def got option.case
    by (simp add: sel check_one_def io_finally_def answering_def call_io_def posture_of_def none_if_empty_def)
  then show ?thesis
    using check_writes_postures [OF c dist] c got by (auto simp: posture_row_def split: option.splits)
qed

theorem failed_check_hides_update_witness:
  "\<exists>out d'. check_now no_fernet default_settings (answering (Inl (AdGuardError ''timeout'' None None))) 0 None idle_worlds
       (empty_db\<lparr>db_servers := [waiting_server]\<rparr>) (empty_db\<lparr>db_servers := [waiting_server]\<rparr>) = Inr (out, d') \<and>
     run_update_for_server default_settings 0 1 (\<lambda>i. Inr None) d' =
       Inl (HTTPException 409 ''Nothing to install - this server is already on the latest version it knows about.'')"
proof -
  let ?G = "answering (Inl (AdGuardError ''timeout'' None None))" and ?d = "empty_db\<lparr>db_servers := [waiting_server]\<rparr>"
  obtain out d' where c: "check_now no_fernet default_settings ?G 0 None idle_worlds ?d ?d = Inr (out, d')"
    by (cases "check_now no_fernet default_settings ?G 0 None idle_worlds ?d ?d") (auto simp: check_now_def Let_def)
  have dist: "distinct (map s_id (db_servers ?d))" by simp
  have got: "get_server ?d 1 = Some waiting_server" by (simp add: row_get_def waiting_server_def sample_server_def)
  have "s_enabled waiting_server" "s_agent_id waiting_server = None" by (simp_all add: waiting_server_def sample_server_def)
  moreover have "ft_build ?G t = None" for t by (simp add: answering_def)
  ultimately show ?thesis using failed_check_hides_update [OF c dist got _ _ _ answering_call] c by blast
qed

section \<open>The cache of the manifest\<close>

text \<open>Calls one after the other, each with the directory of its moment.\<close>

fun manifests :: "(string \<Rightarrow> string) \<Rightarrow> bin_dir list \<Rightarrow> (stat_key \<times> built_manifest) option \<Rightarrow> built_manifest option list" where
  "manifests sha256 [] cache = []"
| "manifests sha256 (B # Bs) cache =
     (case build_manifest sha256 B B cache of (m, cache') \<Rightarrow> m # manifests sha256 Bs cache')"

definition same_stat :: "build_file \<Rightarrow> build_file \<Rightarrow> bool" where
  "same_stat f g \<longleftrightarrow> bf_mtime f = bf_mtime g \<and> bf_size f = bf_size g"

definition stat_identifies :: "bin_dir set \<Rightarrow> bool" where
  "stat_identifies D \<longleftrightarrow>
     (\<forall>B \<in> D. \<forall>B' \<in> D. \<forall>a f g. bd_files B a = Some f \<longrightarrow> bd_files B' a = Some g \<longrightarrow> same_stat f g \<longrightarrow> bf_content f = bf_content g)"

lemma manifest_key_iff:
  "(a, t, n) \<in> set (manifest_key B) \<longleftrightarrow> a \<in> set arches \<and> (\<exists>f. bd_files B a = Some f \<and> bf_mtime f = t \<and> bf_size f = n)"
  unfolding manifest_key_def set_map_filter by auto

lemma hashed_same:
  assumes "stat_identifies D" and "B \<in> D" and "B' \<in> D" and "manifest_key B = manifest_key B'"
  shows "hashed sha256 B (manifest_key B) = hashed sha256 B' (manifest_key B')"
  unfolding hashed_def assms(4)
proof (intro arg_cong [where f = opt_list] map_cong refl, clarify)
  fix a t n
  assume e: "(a, t, n) \<in> set (manifest_key B')"
  then obtain f g where fg: "bd_files B a = Some f" "bd_files B' a = Some g" "same_stat f g"
    using assms(4) manifest_key_iff [of a t n B] manifest_key_iff [of a t n B'] by (auto simp: same_stat_def)
  then have "bf_content f = bf_content g" using assms(1-3) unfolding stat_identifies_def by blast
  with fg show "map_option (\<lambda>f. (''linux/'' @ a, sha256 (bf_content f), n)) (bd_files B a) =
      map_option (\<lambda>f. (''linux/'' @ a, sha256 (bf_content f), n)) (bd_files B' a)" by simp
qed

definition cache_ok :: "(string \<Rightarrow> string) \<Rightarrow> bin_dir set \<Rightarrow> (stat_key \<times> built_manifest) option \<Rightarrow> bool" where
  "cache_ok sha256 D cache \<longleftrightarrow>
     (\<forall>k m. cache = Some (k, m) \<longrightarrow> (\<exists>B \<in> D. manifest_key B = k \<and> hashed sha256 B k = Some (bm_files m)))"

lemma build_manifest_ok:
  assumes "stat_identifies D" and "B \<in> D" and "cache_ok sha256 D cache" and "build_manifest sha256 B B cache = (m, cache')"
  shows "map_option bm_files m = hashed sha256 B (manifest_key B)" and "cache_ok sha256 D cache'"
proof -
  consider (hit) m0 where "cache = Some (manifest_key B, m0)" "m = Some m0" "cache' = cache"
    | (fails) "hashed sha256 B (manifest_key B) = None" "m = None" "cache' = cache"
    | (made) fs where "hashed sha256 B (manifest_key B) = Some fs"
        "m = Some \<lparr>bm_version = version_text B, bm_files = fs\<rparr>" "cache' = Some (manifest_key B, the m)"
  proof (cases "Option.bind cache (\<lambda>(k, m). if k = manifest_key B then Some m else None)")
    case None
    show thesis
    proof (cases "hashed sha256 B (manifest_key B)")
      case None
      with assms(4) \<open>Option.bind cache _ = None\<close> show thesis by (intro fails) (simp_all add: build_manifest_def)
    next
      case (Some fs)
      with assms(4) \<open>Option.bind cache _ = None\<close> show thesis by (intro made [of fs]) (auto simp: build_manifest_def Let_def)
    qed
  next
    case (Some m0)
    then have "cache = Some (manifest_key B, m0)" by (auto simp: bind_eq_Some_conv split: if_splits)
    with assms(4) Some show thesis by (intro hit [of m0]) (simp_all add: build_manifest_def)
  qed
  then have "map_option bm_files m = hashed sha256 B (manifest_key B) \<and> cache_ok sha256 D cache'"
  proof cases
    case hit
    then obtain B0 where B0: "B0 \<in> D" "manifest_key B0 = manifest_key B" "hashed sha256 B0 (manifest_key B) = Some (bm_files m0)"
      using assms(3) by (auto simp: cache_ok_def)
    from hashed_same [OF assms(1) B0(1) assms(2) B0(2), of sha256] B0 show ?thesis using hit assms(3) by simp
  next
    case fails
    then show ?thesis using assms(3) by simp
  next
    case made
    then show ?thesis using assms(2) by (auto simp: cache_ok_def)
  qed
  then show "map_option bm_files m = hashed sha256 B (manifest_key B)" and "cache_ok sha256 D cache'" by blast+
qed

lemma manifests_current:
  "stat_identifies D \<Longrightarrow> set Bs \<subseteq> D \<Longrightarrow> cache_ok sha256 D cache \<Longrightarrow>
     map (map_option bm_files) (manifests sha256 Bs cache) = map (\<lambda>B. hashed sha256 B (manifest_key B)) Bs"
proof (induction Bs arbitrary: cache)
  case (Cons B Bs)
  obtain m cache' where b: "build_manifest sha256 B B cache = (m, cache')" by (cases "build_manifest sha256 B B cache")
  from build_manifest_ok [OF Cons.prems(1) _ Cons.prems(3) b] Cons.prems(2) Cons.IH [OF Cons.prems(1)]
  show ?case by (simp add: b)
qed simp

text \<open>
  C33. The cache never serves a checksum of an older build: as long as a build that differs also differs in its time of
  modification or its size, every manifest of a sequence of calls has the checksums of the files of its moment.
\<close>

theorem manifest_checksums_current:
  assumes "stat_identifies (set Bs)"
  shows "map (map_option bm_files) (manifests sha256 Bs None) = map (\<lambda>B. hashed sha256 B (manifest_key B)) Bs"
  using manifests_current [OF assms order_refl] by (simp add: cache_ok_def)

definition one_build :: "int \<Rightarrow> string \<Rightarrow> string \<Rightarrow> bin_dir" where
  "one_build t content version =
     \<lparr>bd_files = (\<lambda>a. if a = ''arm64'' then Some \<lparr>bf_mtime = t, bf_size = int (length content), bf_content = content\<rparr> else None),
      bd_version = Some version\<rparr>"

theorem manifest_checksums_current_witness:
  "map (map_option bm_files) (manifests (\<lambda>s. s) [one_build 1 ''a'' ''1.0'', one_build 2 ''b'' ''1.1''] None) =
     [Some [(''linux/arm64'', ''a'', 1)], Some [(''linux/arm64'', ''b'', 1)]]"
proof -
  have "stat_identifies (set [one_build 1 ''a'' ''1.0'', one_build 2 ''b'' ''1.1''])"
    by (auto simp: stat_identifies_def one_build_def same_stat_def split: if_splits)
  from manifest_checksums_current [OF this, of "\<lambda>s. s"] show ?thesis
    by (simp add: one_build_def hashed_def manifest_key_def arches_def map_filter_simps)
qed

text \<open>A new VERSION file beside unchanged builds is not noticed: the old version is handed out until a build changes.\<close>

theorem version_file_not_noticed:
  assumes "manifest_key B = manifest_key B'" and "hashed sha256 B (manifest_key B) = Some fs"
  shows "map (map_option bm_version) (manifests sha256 [B, B'] None) = [Some (version_text B), Some (version_text B)]"
  using assms by (simp add: build_manifest_def Let_def)

end
