(* ===== verification/Wire.thy ===== *)
theory Wire
  imports Telemetry SyncApply
begin

text \<open>
  The HTTP side of the two clients (backend/app/adguard_client.py, backend/app/agent_client.py): the request of
  every call, how a response or a failure of the transport becomes the value or the exception the rest of the
  program sees, and the hint how long to stay away from an instance that has locked us out. Instantiates the
  environment of Clients, of which everything else is proved for all.
\<close>

section \<open>Requests and responses\<close>

record request =
  rq_method :: string
  rq_path :: string
  rq_params :: "(string \<times> json) list"
  rq_body :: "json option"

definition get_req :: "string \<Rightarrow> request" where
  "get_req p = \<lparr>rq_method = ''GET'', rq_path = p, rq_params = [], rq_body = None\<rparr>"

definition post_req :: "string \<Rightarrow> json option \<Rightarrow> request" where
  "post_req p b = \<lparr>rq_method = ''POST'', rq_path = p, rq_params = [], rq_body = b\<rparr>"

definition put_req :: "string \<Rightarrow> json \<Rightarrow> request" where
  "put_req p b = \<lparr>rq_method = ''PUT'', rq_path = p, rq_params = [], rq_body = Some b\<rparr>"

record response =
  rp_status :: int
  rp_headers :: "(string \<times> string) list"
  rp_text :: string
  rp_json :: "json option"   \<comment> \<open>the body, where it is JSON\<close>

text \<open>The exceptions of httpx the client tells apart; every other of its classes by name.\<close>

datatype httpx_class =
    Connect_timeout | Read_timeout | Write_timeout | Pool_timeout
  | Connect_error | Read_error | Remote_protocol_error | Too_many_redirects
  | Other_class string

datatype failure = Httpx httpx_class string | Raised string

section \<open>Naming a failure of the transport\<close>

fun transport_hint :: "httpx_class \<Rightarrow> string" where
  "transport_hint Connect_timeout = ''timed out establishing a TCP/TLS connection''"
| "transport_hint Read_timeout = ''connected, but the server sent no response in time''"
| "transport_hint Write_timeout = ''timed out sending the request''"
| "transport_hint Pool_timeout = ''timed out waiting for a free connection in the client pool''"
| "transport_hint Connect_error = ''could not connect (DNS failure, refused, or unroutable)''"
| "transport_hint Read_error = ''the connection dropped while reading the response''"
| "transport_hint Remote_protocol_error = ''the server spoke invalid HTTP''"
| "transport_hint Too_many_redirects = ''too many redirects''"
| "transport_hint (Other_class name) = name"

fun is_timeout :: "httpx_class \<Rightarrow> bool" where
  "is_timeout Connect_timeout = True"
| "is_timeout Read_timeout = True"
| "is_timeout Write_timeout = True"
| "is_timeout Pool_timeout = True"
| "is_timeout _ = False"

text \<open>\<open>secs\<close> is the timeout as Python prints it.\<close>

definition describe_transport_error :: "httpx_class \<Rightarrow> string \<Rightarrow> string option \<Rightarrow> string" where
  "describe_transport_error c msg secs =
     (let hint = transport_hint c @
            (case secs of None \<Rightarrow> [] | Some t \<Rightarrow> if is_timeout c then '' after '' @ t @ ''s'' else []) in
      if py_strip msg = [] then hint else hint @ '' ('' @ py_strip msg @ '')'')"

section \<open>How long to stay away\<close>

text \<open>\<open>float(s)\<close>: a number (exact here, where Python rounds to 53 bits), an infinity, not a number, or a \<open>ValueError\<close>.\<close>

datatype float_value = Finite rat | Infinite | Not_a_number | No_float

definition float_of :: "string \<Rightarrow> float_value" where
  "float_of s =
     (let t = py_lower (py_strip s); u = (if t \<noteq> [] \<and> hd t \<in> {CHR ''+'', CHR ''-''} then tl t else t) in
      if u = ''inf'' \<or> u = ''infinity'' then Infinite
      else if u = ''nan'' then Not_a_number
      else case py_float s of
        None \<Rightarrow> No_float
      | Some r \<Rightarrow> if \<bar>r\<bar> \<ge> 2 ^ 1024 - 2 ^ 970 then Infinite else Finite r)"

definition is_sec_char :: "char \<Rightarrow> bool" where
  "is_sec_char c \<longleftrightarrow> is_digit_char c \<or> c = CHR ''.''"

text \<open>\<open>([\d.]+)s\<close> at the start of a text.\<close>

definition match_seconds :: "string \<Rightarrow> string option" where
  "match_seconds s =
     (case dropWhile is_sec_char s of
        CHR ''s'' # _ \<Rightarrow> if takeWhile is_sec_char s = [] then None else Some (takeWhile is_sec_char s)
      | _ \<Rightarrow> None)"

text \<open>\<open>(?:(\d+)m)?([\d.]+)s\<close>: the group is left out where the rest does not match after it.\<close>

definition match_duration :: "string \<Rightarrow> (string \<times> string) option" where
  "match_duration s =
     (let ds = takeWhile is_digit_char s;
          with_minutes = (case dropWhile is_digit_char s of
              CHR ''m'' # r \<Rightarrow> if ds = [] then None else map_option (Pair ds) (match_seconds r)
            | _ \<Rightarrow> None) in
      case with_minutes of Some x \<Rightarrow> Some x | None \<Rightarrow> map_option (Pair []) (match_seconds s))"

definition match_blocked :: "string \<Rightarrow> (string \<times> string) option" where
  "match_blocked s =
     (if py_startswith s ''blocked for'' \<and> drop 11 s \<noteq> [] \<and> py_isspace (hd (drop 11 s))
      then match_duration (dropWhile py_isspace (drop 11 s)) else None)"

fun search_blocked :: "string \<Rightarrow> (string \<times> string) option" where
  "search_blocked [] = None"
| "search_blocked (c # s) = (case match_blocked (c # s) of Some x \<Rightarrow> Some x | None \<Rightarrow> search_blocked s)"

text \<open>The left side is an exception that nothing catches.\<close>

definition lockout_hint :: "string \<Rightarrow> exn + int option" where
  "lockout_hint text =
     (case search_blocked text of
        None \<Rightarrow> Inr None
      | Some (m, s) \<Rightarrow>
          (case float_of s of
             Finite r \<Rightarrow> Inr (Some (py_trunc (of_nat (nat_of_digits 0 m * 60) + r) + 1))
           | Infinite \<Rightarrow> Inl (PyError ''cannot convert float infinity to integer'')
           | _ \<Rightarrow> Inl (PyError (''could not convert string to float: '' @ apostrophe @ s @ apostrophe))))"

definition retry_after_header :: "response \<Rightarrow> exn + int option" where
  "retry_after_header r =
     (case map_of (rp_headers r) ''retry-after'' of
        None \<Rightarrow> lockout_hint (rp_text r)
      | Some ra \<Rightarrow>
          if ra = [] then lockout_hint (rp_text r)
          else (case float_of ra of
             Finite x \<Rightarrow> Inr (Some (py_trunc x))
           | Infinite \<Rightarrow> Inl (PyError ''cannot convert float infinity to integer'')
           | _ \<Rightarrow> lockout_hint (rp_text r)))"

section \<open>The AdGuard client\<close>

definition request_name :: "request \<Rightarrow> string" where
  "request_name rq = rq_method rq @ '' '' @ rq_path rq"

definition adguard_request :: "string \<Rightarrow> request \<Rightarrow> failure + response \<Rightarrow> exn + response" where
  "adguard_request secs rq raw =
     (case raw of
        Inl (Raised m) \<Rightarrow> Inl (PyError m)
      | Inl (Httpx c m) \<Rightarrow> Inl (AdGuardError (request_name rq @ '' failed: '' @ describe_transport_error c m (Some secs)) None None)
      | Inr r \<Rightarrow>
          if 200 \<le> rp_status r \<and> rp_status r \<le> 299 then Inr r
          else (case retry_after_header r of
             Inl x \<Rightarrow> Inl x
           | Inr hint \<Rightarrow>
               Inl (AdGuardError (request_name rq @ '' -> HTTP '' @ show_int (rp_status r)) (Some (rp_status r)) hint)))"

text \<open>\<open>resp.json()\<close>: a \<open>ValueError\<close> on a body that is not JSON.\<close>

definition decoded :: "response \<Rightarrow> exn + json" where
  "decoded r = (case rp_json r of None \<Rightarrow> Inl (PyError ''Expecting value'') | Some j \<Rightarrow> Inr j)"

definition rewrite_body :: "rewrite \<Rightarrow> json" where
  "rewrite_body r = JObj [(''domain'', JStr (rw_domain r)), (''answer'', JStr (rw_answer r))]"

fun adguard_wire :: "call \<Rightarrow> request option" where
  "adguard_wire AG_status = Some (get_req ''/control/status'')"
| "adguard_wire AG_stats = Some (get_req ''/control/stats'')"
| "adguard_wire (AG_version_check recheck) = Some (post_req ''/control/version.json'' (Some (JObj [(''recheck_now'', JBool recheck)])))"
| "adguard_wire AG_update_now = Some (post_req ''/control/update'' None)"
| "adguard_wire (AG_query_log params) = Some ((get_req ''/control/querylog'')\<lparr>rq_params := params\<rparr>)"
| "adguard_wire AG_dns_info = Some (get_req ''/control/dns_info'')"
| "adguard_wire (AG_set_dns_config config) = Some (post_req ''/control/dns_config'' (Some (JObj config)))"
| "adguard_wire AG_list_rewrites = Some (get_req ''/control/rewrite/list'')"
| "adguard_wire (AG_add_rewrite r) = Some (post_req ''/control/rewrite/add'' (Some (rewrite_body r)))"
| "adguard_wire (AG_delete_rewrite r) = Some (post_req ''/control/rewrite/delete'' (Some (rewrite_body r)))"
| "adguard_wire AG_filtering_status = Some (get_req ''/control/filtering/status'')"
| "adguard_wire (AG_filtering_config enabled interval) =
     Some (post_req ''/control/filtering/config'' (Some (JObj [(''enabled'', JBool enabled), (''interval'', JInt interval)])))"
| "adguard_wire (AG_add_url name url wl) =
     Some (post_req ''/control/filtering/add_url'' (Some (JObj [(''name'', JStr name), (''url'', JStr url), (''whitelist'', JBool wl)])))"
| "adguard_wire (AG_remove_url url wl) =
     Some (post_req ''/control/filtering/remove_url'' (Some (JObj [(''url'', JStr url), (''whitelist'', JBool wl)])))"
| "adguard_wire (AG_set_url url enabled name wl) =
     Some (post_req ''/control/filtering/set_url'' (Some (JObj [(''url'', JStr url), (''whitelist'', JBool wl),
       (''data'', JObj [(''enabled'', JBool enabled), (''name'', JStr name), (''url'', JStr url)])])))"
| "adguard_wire (AG_filtering_refresh wl force) =
     Some ((post_req ''/control/filtering/refresh'' (Some (JObj [(''whitelist'', JBool wl)])))
       \<lparr>rq_params := [(''force'', JStr (if force then ''true'' else ''false''))]\<rparr>)"
| "adguard_wire (AG_protection enabled duration) =
     Some (post_req ''/control/protection'' (Some (JObj (
       (''enabled'', JBool enabled) # (case duration of None \<Rightarrow> [] | Some t \<Rightarrow> [(''duration'', JInt t)])))))"
| "adguard_wire (AG_safety_status service) = Some (get_req (''/control/'' @ service @ ''/status''))"
| "adguard_wire (AG_set_safety service enabled) =
     Some (post_req (''/control/'' @ service @ ''/'' @ (if enabled then ''enable'' else ''disable'')) None)"
| "adguard_wire AG_querylog_info = Some (get_req ''/control/querylog_info'')"
| "adguard_wire (AG_querylog_config enabled interval) =
     Some (post_req ''/control/querylog_config'' (Some (JObj [(''enabled'', JBool enabled), (''interval'', JNum interval)])))"
| "adguard_wire AG_services_all = Some (get_req ''/control/blocked_services/all'')"
| "adguard_wire AG_blocked_get = Some (get_req ''/control/blocked_services/get'')"
| "adguard_wire (AG_blocked_update ids schedule) =
     Some (put_req ''/control/blocked_services/update'' (JObj (
       (''ids'', JList (map JStr ids)) # (if schedule = JNull then [] else [(''schedule'', schedule)]))))"
| "adguard_wire _ = None"

text \<open>The calls that return nothing do not read the body.\<close>

fun discards_body :: "call \<Rightarrow> bool" where
  "discards_body AG_update_now = True"
| "discards_body (AG_set_dns_config _) = True"
| "discards_body (AG_add_rewrite _) = True"
| "discards_body (AG_delete_rewrite _) = True"
| "discards_body (AG_filtering_config _ _) = True"
| "discards_body (AG_add_url _ _ _) = True"
| "discards_body (AG_remove_url _ _) = True"
| "discards_body (AG_set_url _ _ _ _) = True"
| "discards_body (AG_protection _ _) = True"
| "discards_body (AG_set_safety _ _) = True"
| "discards_body (AG_querylog_config _ _) = True"
| "discards_body (AG_blocked_update _ _) = True"
| "discards_body _ = False"

definition adguard_answer :: "string \<Rightarrow> call \<Rightarrow> request \<Rightarrow> failure + response \<Rightarrow> exn + json" where
  "adguard_answer secs c rq raw =
     (case adguard_request secs rq raw of
        Inl x \<Rightarrow> Inl x
      | Inr r \<Rightarrow> if discards_body c then Inr JNull else decoded r)"

section \<open>The client of the host agent\<close>

text \<open>What an error response says: its JSON field \<open>error\<close>, or the start of a body that is no JSON object.\<close>

definition error_detail :: "response \<Rightarrow> json" where
  "error_detail r =
     (case rp_json r of
        Some (JObj o') \<Rightarrow> jor (jget (JObj o') ''error'') (JStr [])
      | _ \<Rightarrow> JStr (take 200 (rp_text r)))"

definition agent_request :: "string \<Rightarrow> request \<Rightarrow> failure + response \<Rightarrow> exn + json" where
  "agent_request secs rq raw =
     (case raw of
        Inl (Raised m) \<Rightarrow> Inl (PyError m)
      | Inl (Httpx c m) \<Rightarrow> Inl (AgentError (request_name rq @ '' failed: '' @ describe_transport_error c m (Some secs)) None)
      | Inr r \<Rightarrow>
          if rp_status r \<ge> 400
          then (case error_detail r of
                  JStr t \<Rightarrow> Inl (AgentError (request_name rq @ '' -> HTTP '' @ show_int (rp_status r) @
                      (if t = [] then [] else '': '' @ t)) (Some (rp_status r)))
                | _ \<Rightarrow> Inl (PyError ''can only concatenate str''))
          else if rp_status r = 204 \<or> rp_text r = [] then Inr JNull
          else (case rp_json r of
                  Some j \<Rightarrow> Inr j
                | None \<Rightarrow> Inl (AgentError (request_name rq @ '' returned a non-JSON body'') None)))"

fun agent_wire :: "call \<Rightarrow> request option" where
  "agent_wire AT_info = Some (get_req ''/v1/info'')"
| "agent_wire AT_health = Some (get_req ''/v1/health'')"
| "agent_wire (AT_put_role role spec) = Some (put_req (''/v1/'' @ role) spec)"
| "agent_wire (AT_get_role role) = Some (get_req (''/v1/'' @ role))"
| "agent_wire AT_adguard_update = Some (post_req ''/v1/adguard/update'' None)"
| "agent_wire AT_reset = Some (post_req ''/v1/adguard/reset'' None)"
| "agent_wire (AT_self_update version url sha256) =
     Some (post_req ''/v1/self-update'' (Some (JObj [(''version'', JStr version), (''url'', JStr url), (''sha256'', JStr sha256)])))"
| "agent_wire (AT_drain backend undrain role) =
     Some (post_req (''/v1/'' @ role @ ''/backends/'' @ backend @ ''/'' @ (if undrain then ''undrain'' else ''drain'')) None)"
| "agent_wire (AT_restart service) = Some (post_req (''/v1/services/'' @ service @ ''/restart'') None)"
| "agent_wire (AT_logs service lines) =
     Some ((get_req ''/v1/logs'')\<lparr>rq_params := [(''service'', JStr service), (''lines'', JInt lines)]\<rparr>)"
| "agent_wire AT_renew_csr = Some (post_req ''/v1/cert/renew'' None)"
| "agent_wire (AT_install_cert cert ca) =
     Some (put_req ''/v1/cert'' (JObj ((''cert_pem'', JStr cert) # (if ca = [] then [] else [(''ca_pem'', JStr ca)]))))"
| "agent_wire _ = None"

section \<open>The environment over HTTP\<close>

text \<open>The instance and the agent behind two clients, with the timeouts of the clients as they are printed.\<close>

record 's http_env =
  hx_adguard :: "request \<Rightarrow> 's \<Rightarrow> (failure + response) \<times> 's"
  hx_agent :: "request \<Rightarrow> 's \<Rightarrow> (failure + response) \<times> 's"
  hx_other :: "call \<Rightarrow> 's \<Rightarrow> 's"
  hx_now :: "'s \<Rightarrow> int"
  hx_loop_time :: "'s \<Rightarrow> int"
  hx_timeout :: string
  hx_agent_timeout :: string

definition over_http :: "'s http_env \<Rightarrow> 's wenv" where
  "over_http X =
     \<lparr>e_call = (\<lambda>c s. case adguard_wire c of
          Some rq \<Rightarrow> (case hx_adguard X rq s of (raw, s') \<Rightarrow> (adguard_answer (hx_timeout X) c rq raw, s'))
        | None \<Rightarrow> (case agent_wire c of
            Some rq \<Rightarrow> (case hx_agent X rq s of (raw, s') \<Rightarrow> (agent_request (hx_agent_timeout X) rq raw, s'))
          | None \<Rightarrow> (Inr JNull, hx_other X c s))),
      e_now = hx_now X, e_loop_time = hx_loop_time X\<rparr>"

section \<open>A request says which call it is\<close>

text \<open>The API as an instance reads it: the call of a request.\<close>

definition body_of :: "request \<Rightarrow> json" where
  "body_of rq = (case rq_body rq of None \<Rightarrow> JNull | Some j \<Rightarrow> j)"

definition field_text :: "json \<Rightarrow> string \<Rightarrow> string" where
  "field_text j k = (case jget j k of JStr s \<Rightarrow> s | _ \<Rightarrow> [])"

definition field_flag :: "json \<Rightarrow> string \<Rightarrow> bool" where
  "field_flag j k = truthy (jget j k)"

definition get_paths :: "string list" where
  "get_paths =
    [''/control/status'', ''/control/stats'', ''/control/querylog'', ''/control/dns_info'',
     ''/control/rewrite/list'', ''/control/filtering/status'', ''/control/querylog_info'',
     ''/control/blocked_services/all'', ''/control/blocked_services/get'', ''/control/safebrowsing/status'',
     ''/control/parental/status'', ''/control/safesearch/status'']"

definition post_paths :: "string list" where
  "post_paths =
    [''/control/version.json'', ''/control/update'', ''/control/dns_config'', ''/control/rewrite/add'',
     ''/control/rewrite/delete'', ''/control/filtering/config'', ''/control/filtering/add_url'',
     ''/control/filtering/remove_url'', ''/control/filtering/set_url'', ''/control/filtering/refresh'',
     ''/control/protection'', ''/control/querylog_config'', ''/control/safebrowsing/enable'',
     ''/control/safebrowsing/disable'', ''/control/parental/enable'', ''/control/parental/disable'',
     ''/control/safesearch/enable'', ''/control/safesearch/disable'']"

definition position :: "'a list \<Rightarrow> 'a \<Rightarrow> nat" where
  "position xs x = length (takeWhile (\<lambda>y. y \<noteq> x) xs)"

definition read_get :: "request \<Rightarrow> call list" where
  "read_get rq =
    [AG_status, AG_stats, AG_query_log (rq_params rq), AG_dns_info, AG_list_rewrites, AG_filtering_status,
     AG_querylog_info, AG_services_all, AG_blocked_get, AG_safety_status ''safebrowsing'',
     AG_safety_status ''parental'', AG_safety_status ''safesearch'']"

definition read_post :: "request \<Rightarrow> json \<Rightarrow> call list" where
  "read_post rq b =
    [AG_version_check (field_flag b ''recheck_now''), AG_update_now,
     AG_set_dns_config (case b of JObj d \<Rightarrow> d | _ \<Rightarrow> []),
     AG_add_rewrite \<lparr>rw_domain = field_text b ''domain'', rw_answer = field_text b ''answer''\<rparr>,
     AG_delete_rewrite \<lparr>rw_domain = field_text b ''domain'', rw_answer = field_text b ''answer''\<rparr>,
     AG_filtering_config (field_flag b ''enabled'') (case jget b ''interval'' of JInt i \<Rightarrow> i | _ \<Rightarrow> 0),
     AG_add_url (field_text b ''name'') (field_text b ''url'') (field_flag b ''whitelist''),
     AG_remove_url (field_text b ''url'') (field_flag b ''whitelist''),
     AG_set_url (field_text b ''url'') (field_flag (jget b ''data'') ''enabled'')
          (field_text (jget b ''data'') ''name'') (field_flag b ''whitelist''),
     AG_filtering_refresh (field_flag b ''whitelist'') (map_of (rq_params rq) ''force'' = Some (JStr ''true'')),
     AG_protection (field_flag b ''enabled'') (case jget b ''duration'' of JInt t \<Rightarrow> Some t | _ \<Rightarrow> None),
     AG_querylog_config (field_flag b ''enabled'') (case jget b ''interval'' of JNum r \<Rightarrow> r | _ \<Rightarrow> 0),
     AG_set_safety ''safebrowsing'' True, AG_set_safety ''safebrowsing'' False, AG_set_safety ''parental'' True,
     AG_set_safety ''parental'' False, AG_set_safety ''safesearch'' True, AG_set_safety ''safesearch'' False]"

definition pick :: "'a list \<Rightarrow> nat \<Rightarrow> 'a option" where
  "pick xs n = (if n < length xs then Some (xs ! n) else None)"

definition read_request :: "request \<Rightarrow> call option" where
  "read_request rq =
     (if rq_method rq = ''GET'' then pick (read_get rq) (position get_paths (rq_path rq))
      else if rq_method rq = ''POST'' then pick (read_post rq (body_of rq)) (position post_paths (rq_path rq))
      else if rq_method rq = ''PUT'' \<and> rq_path rq = ''/control/blocked_services/update''
      then Some (AG_blocked_update (json_strings (jget (body_of rq) ''ids'')) (jget (body_of rq) ''schedule'')) else None)"

fun known_service :: "call \<Rightarrow> bool" where
  "known_service (AG_safety_status s) = (s \<in> {''safebrowsing'', ''parental'', ''safesearch''})"
| "known_service (AG_set_safety s _) = (s \<in> {''safebrowsing'', ''parental'', ''safesearch''})"
| "known_service _ = True"

lemma json_strings_back: "json_strings (JList (map JStr xs)) = xs"
  by (induction xs) (simp_all add: json_strings_def map_filter_simps)

lemma get_positions:
  "position get_paths ''/control/status'' = 0"
  "position get_paths ''/control/stats'' = 1"
  "position get_paths ''/control/querylog'' = 2"
  "position get_paths ''/control/dns_info'' = 3"
  "position get_paths ''/control/rewrite/list'' = 4"
  "position get_paths ''/control/filtering/status'' = 5"
  "position get_paths ''/control/querylog_info'' = 6"
  "position get_paths ''/control/blocked_services/all'' = 7"
  "position get_paths ''/control/blocked_services/get'' = 8"
  "position get_paths ''/control/safebrowsing/status'' = 9"
  "position get_paths ''/control/parental/status'' = 10"
  "position get_paths ''/control/safesearch/status'' = 11"
  by code_simp+

lemma post_positions:
  "position post_paths ''/control/version.json'' = 0"
  "position post_paths ''/control/update'' = 1"
  "position post_paths ''/control/dns_config'' = 2"
  "position post_paths ''/control/rewrite/add'' = 3"
  "position post_paths ''/control/rewrite/delete'' = 4"
  "position post_paths ''/control/filtering/config'' = 5"
  "position post_paths ''/control/filtering/add_url'' = 6"
  "position post_paths ''/control/filtering/remove_url'' = 7"
  "position post_paths ''/control/filtering/set_url'' = 8"
  "position post_paths ''/control/filtering/refresh'' = 9"
  "position post_paths ''/control/protection'' = 10"
  "position post_paths ''/control/querylog_config'' = 11"
  "position post_paths ''/control/safebrowsing/enable'' = 12"
  "position post_paths ''/control/safebrowsing/disable'' = 13"
  "position post_paths ''/control/parental/enable'' = 14"
  "position post_paths ''/control/parental/disable'' = 15"
  "position post_paths ''/control/safesearch/enable'' = 16"
  "position post_paths ''/control/safesearch/disable'' = 17"
  by code_simp+

lemmas wire_simps = read_request_def read_get_def read_post_def get_req_def post_req_def put_req_def body_of_def
  field_text_def field_flag_def rewrite_body_def pick_def get_positions post_positions

lemma read_service:
  "s \<in> {''safebrowsing'', ''parental'', ''safesearch''} \<Longrightarrow> read_request (the (adguard_wire (AG_safety_status s))) = Some (AG_safety_status s)"
  "s \<in> {''safebrowsing'', ''parental'', ''safesearch''} \<Longrightarrow> read_request (the (adguard_wire (AG_set_safety s on))) = Some (AG_set_safety s on)"
proof -
  have "\<forall>s \<in> {''safebrowsing'', ''parental'', ''safesearch''}. read_request (the (adguard_wire (AG_safety_status s))) = Some (AG_safety_status s)"
    unfolding ball_simps by (simp add: wire_simps)
  then show "s \<in> {''safebrowsing'', ''parental'', ''safesearch''} \<Longrightarrow>
      read_request (the (adguard_wire (AG_safety_status s))) = Some (AG_safety_status s)" by (rule bspec)
  have "\<forall>s \<in> {''safebrowsing'', ''parental'', ''safesearch''}. read_request (the (adguard_wire (AG_set_safety s on))) = Some (AG_set_safety s on)"
    unfolding ball_simps by (cases on) (simp_all add: wire_simps)
  then show "s \<in> {''safebrowsing'', ''parental'', ''safesearch''} \<Longrightarrow>
      read_request (the (adguard_wire (AG_set_safety s on))) = Some (AG_set_safety s on)" by (rule bspec)
qed

lemma read_adguard_wire:
  assumes "known_service c" and "adguard_wire c \<noteq> None"
  shows "read_request (the (adguard_wire c)) = Some c"
proof (cases c)
  case (AG_safety_status s)
  then show ?thesis using assms(1) read_service(1) [of s] by (simp only: known_service.simps)
next
  case (AG_set_safety s on)
  then show ?thesis using assms(1) read_service(2) [of s on] by (simp only: known_service.simps)
qed (use assms(2) in \<open>simp_all add: wire_simps json_strings_back split: option.split\<close>)

section \<open>The lockout text\<close>

lemma unsigned_float_nonneg: "unsigned_float s = Some r \<Longrightarrow> 0 \<le> r"
  by (auto simp: unsigned_float_def Let_def pow10_def split: prod.splits option.splits list.splits if_splits char.splits bool.splits)

lemma strip_subset: "set (py_strip s) \<subseteq> set s"
proof
  fix c assume "c \<in> set (py_strip s)"
  then have "c \<in> set (dropWhile py_isspace (rev (py_lstrip s)))" by (simp add: py_strip_def py_rstrip_def)
  then have "c \<in> set (dropWhile py_isspace s)" using set_dropWhileD by (fastforce simp: py_lstrip_def)
  then show "c \<in> set s" using set_dropWhileD by fastforce
qed

lemma float_seconds_nonneg:
  assumes "list_all is_sec_char sec" and "float_of sec = Finite r"
  shows "0 \<le> r"
proof -
  have f: "py_float sec = Some r"
    using assms(2) by (auto simp: float_of_def Let_def split: option.splits if_splits)
  then obtain c cs where strip: "py_strip sec = c # cs" by (auto simp: py_float_def split: list.splits)
  then have "is_sec_char c" using strip_subset [of sec] assms(1) by (auto simp: list_all_iff)
  then have "c \<noteq> CHR ''-''" "c \<noteq> CHR ''+''" by (auto simp: is_sec_char_def is_digit_char_def)
  then show ?thesis using f strip unsigned_float_nonneg [of "c # cs"] by (simp add: py_float_def)
qed

lemma search_skip: "list_all (\<lambda>c. c \<noteq> CHR ''b'') pre \<Longrightarrow> search_blocked (pre @ s) = search_blocked s"
  by (induction pre) (simp_all add: match_blocked_def)

lemma takeWhile_part: "list_all P xs \<Longrightarrow> \<not> P c \<Longrightarrow> takeWhile P (xs @ c # ys) = xs \<and> dropWhile P (xs @ c # ys) = c # ys"
  by (induction xs) simp_all

lemma match_seconds_at: "list_all is_sec_char sec \<Longrightarrow> sec \<noteq> [] \<Longrightarrow> match_seconds (sec @ CHR ''s'' # post) = Some sec"
  using takeWhile_part [of is_sec_char sec "CHR ''s''" post]
  by (simp add: match_seconds_def is_sec_char_def is_digit_char_def)

lemma search_minutes:
  assumes "list_all (\<lambda>c. c \<noteq> CHR ''b'') pre" and "list_all is_sec_char sec" and "sec \<noteq> []"
  shows "search_blocked (pre @ ''blocked for '' @ show_nat m @ CHR ''m'' # sec @ CHR ''s'' # post) = Some (show_nat m, sec)"
proof -
  let ?r = "show_nat m @ CHR ''m'' # sec @ CHR ''s'' # post"
  have digits: "list_all is_digit_char (show_nat m)" "show_nat m \<noteq> []"
    using show_nat_digits [of m] by (simp_all add: list_all_iff)
  then obtain c cs where c: "show_nat m = c # cs" "is_digit_char c" by (cases "show_nat m") auto
  then have "\<not> py_isspace c" by (auto simp: is_digit_char_def py_isspace_def Let_def)
  then have spaces: "dropWhile py_isspace (CHR '' '' # ?r) = ?r" using c by (simp add: py_isspace_def)
  have "match_duration ?r = Some (show_nat m, sec)"
    using takeWhile_part [OF digits(1), of "CHR ''m''" "sec @ CHR ''s'' # post"] digits(2) match_seconds_at [OF assms(2,3), of post]
    by (simp add: match_duration_def Let_def is_digit_char_def)
  then have "match_blocked (''blocked for '' @ ?r) = Some (show_nat m, sec)"
    using spaces by (simp add: match_blocked_def py_isspace_def)
  then show ?thesis unfolding search_skip [OF assms(1)] by simp
qed

lemma lockout_hint_minutes:
  assumes "list_all (\<lambda>c. c \<noteq> CHR ''b'') pre" and "list_all is_sec_char sec" and "sec \<noteq> []" and "float_of sec = Finite x"
  shows "\<exists>k. lockout_hint (pre @ ''blocked for '' @ show_nat m @ CHR ''m'' # sec @ CHR ''s'' # post) = Inr (Some k) \<and>
    of_nat (m * 60) + x < of_int k \<and> of_int k \<le> of_nat (m * 60) + x + 1 \<and> 0 < k"
proof -
  let ?d = "of_nat (m * 60) + x :: rat"
  have "0 \<le> x" using assms(2,4) by (rule float_seconds_nonneg)
  then have d: "0 \<le> ?d" by simp
  have "lockout_hint (pre @ ''blocked for '' @ show_nat m @ CHR ''m'' # sec @ CHR ''s'' # post) = Inr (Some (py_trunc ?d + 1))"
    unfolding lockout_hint_def search_minutes [OF assms(1-3)] by (simp add: assms(4) nat_of_show_nat)
  moreover have "py_trunc ?d = \<lfloor>?d\<rfloor>" using d by (simp add: py_trunc_def)
  ultimately have hint: "lockout_hint (pre @ ''blocked for '' @ show_nat m @ CHR ''m'' # sec @ CHR ''s'' # post) = Inr (Some (\<lfloor>?d\<rfloor> + 1))"
    by simp
  have "?d < of_int (\<lfloor>?d\<rfloor> + 1)" using floor_correct [of ?d] by blast
  moreover have "of_int (\<lfloor>?d\<rfloor> + 1) \<le> ?d + 1" using floor_correct [of ?d] by (simp only: of_int_add of_int_1 add_le_cancel_right)
  moreover have "0 < \<lfloor>?d\<rfloor> + 1" using d zero_le_floor [of ?d] by linarith
  ultimately show ?thesis using hint by blast
qed

section \<open>A pass that is locked out\<close>

lemma locked_out_pass:
  assumes "build (p_url plan) (p_username plan) (p_password_enc plan) (p_tls_cert plan) = None"
    and "e_call e AG_status (w_out w) = (Inl (AdGuardError t (Some code) (Some k)), s')"
    and "is_auth_status (Some code)" and "k \<noteq> 0"
    and "apply_plan build e plan dry w = ((res, u), w')"
  shows "su_cooldown_until u = Some (e_now e s' + k * second_us) \<and> \<not> su_clear_cooldown u \<and> w_log w' = w_log w @ [AG_status, AG_close]"
proof -
  let ?p = "\<lparr>w_log = w_log w, w_out = w_out w, ps_result = init_result (p_server_id plan) (p_name plan), ps_updates = init_updates\<rparr>"
  let ?q = "?p\<lparr>w_log := w_log w @ [AG_status], w_out := s'\<rparr>"
  have "apply_body e plan dry ?p = (Inl (AdGuardError t (Some code) (Some k)), ?q)"
    by (simp add: apply_body_def apply_main_def apply_contact_def call_obj_def io_bind_def io_seq_def call_io_def assms(2))
  then show ?thesis
    using assms(3-5) unfolding apply_plan_def assms(1)
    by (auto simp: Let_def io_finally_def io_except_def apply_failed_def io_seq_def io_bind_def set_result_def set_updates_def
        io_modify_def now_io_def io_get_def log_call_def backoff_seconds_def init_updates_def)
qed

lemma cooled_not_due:
  assumes "su_cooldown_until u = Some t" and "\<not> su_clear_cooldown u" and "later < t" and "get_server d i = Some srv"
  shows "i \<notin> set (due_servers (apply_updates i u d) later False only)"
proof -
  have key: "s_id srv = i" using row_get_Some [OF assms(4)] by simp
  have "s_id (apply_updates_row u srv) = i" "s_cooldown_until (apply_updates_row u srv) = Some t"
    using assms(1,2) key by (simp_all add: apply_updates_row_def Let_def split: option.split)
  moreover have "x = apply_updates_row u srv" if "x \<in> set (db_servers (apply_updates i u d))" "s_id x = i" for x
    using that calculation(1) by (auto simp: apply_updates_def assms(4) put_server_def row_put_def)
  ultimately have "\<not> server_due False later x" if "x \<in> set (db_servers (apply_updates i u d))" "s_id x = i" for x
    using that assms(3) by (auto simp: server_due_def)
  then show ?thesis by (auto simp: due_servers_def)
qed

section \<open>Properties\<close>




definition refused :: "string \<Rightarrow> response" where
  "refused text = \<lparr>rp_status = 403, rp_headers = [], rp_text = text, rp_json = None\<rparr>"

definition locked_box :: "unit http_env" where
  "locked_box =
     \<lparr>hx_adguard = (\<lambda>rq s. (Inr (refused ''auth: blocked for 13m47.96s''), s)), hx_agent = (\<lambda>rq s. (Inl (Raised []), s)),
      hx_other = (\<lambda>c s. s), hx_now = (\<lambda>s. 0), hx_loop_time = (\<lambda>s. 0), hx_timeout = ''10'', hx_agent_timeout = ''15''\<rparr>"

lemma lockout_seconds: "float_of ''47.96'' = Finite (1199 / 25)"
proof -
  have "py_strip ''47.96'' = ''47.96''" "py_lower ''47.96'' = ''47.96''" by code_simp+
  then show ?thesis
    by (simp add: float_of_def py_float_def unsigned_float_def is_digit_char_def exponent_of_def pow10_def)
qed


text \<open>
  A lockout of an hour or more is not read: Go writes its hours first, the pattern has none, and the hint is missing.
\<close>

theorem hour_lockout_unread:
  "lockout_hint (''auth: blocked for '' @ show_nat h @ ''h'' @ show_nat m @ ''m'' @ show_nat n @ ''s'') = Inr None"
proof -
  have digits: "list_all is_digit_char (show_nat k)" "show_nat k \<noteq> []" for k using show_nat_digits [of k] by (simp_all add: list_all_iff)
  have no_b: "list_all (\<lambda>c. c \<noteq> CHR ''b'') (show_nat k)" for k
    using digits(1) [of k] by (auto simp: list_all_iff is_digit_char_def)
  let ?r = "show_nat h @ CHR ''h'' # show_nat m @ CHR ''m'' # show_nat n @ ''s''"
  obtain c cs where c: "show_nat h = c # cs" "is_digit_char c" using digits [of h] by (cases "show_nat h") auto
  then have "\<not> py_isspace c" by (auto simp: is_digit_char_def py_isspace_def Let_def)
  then have spaces: "dropWhile py_isspace (CHR '' '' # ?r) = ?r" using c by (simp add: py_isspace_def)
  have sec: "list_all is_sec_char (show_nat h)" using digits(1) [of h] by (auto simp: list_all_iff is_sec_char_def)
  have "match_duration ?r = None"
    using takeWhile_part [OF digits(1) [of h], of "CHR ''h''" "show_nat m @ CHR ''m'' # show_nat n @ ''s''"]
      takeWhile_part [OF sec, of "CHR ''h''" "show_nat m @ CHR ''m'' # show_nat n @ ''s''"]
    by (simp add: match_duration_def match_seconds_def is_digit_char_def is_sec_char_def)
  then have miss: "match_blocked (''blocked for '' @ ?r) = None" using spaces by (simp add: match_blocked_def py_isspace_def)
  have end_b: "search_blocked t = None" if "list_all (\<lambda>c. c \<noteq> CHR ''b'') t" for t
    using search_skip [OF that, of "[]"] by simp
  have "search_blocked ?r = None" by (rule end_b) (simp add: no_b)
  then have "search_blocked (''locked for '' @ ?r) = None" using search_skip [of "''locked for ''" ?r] by simp
  then have "search_blocked (''blocked for '' @ ?r) = None" using miss by simp
  then have "search_blocked (''auth: '' @ ''blocked for '' @ ?r) = None" using search_skip [of "''auth: ''" "''blocked for '' @ ?r"] by simp
  then show ?thesis by (simp add: lockout_hint_def)
qed

text \<open>A header that says infinity ends the call with an exception that is no \<open>AdGuardError\<close>.\<close>

theorem infinite_header_escapes:
  assumes "map_of (rp_headers r) ''retry-after'' = Some ''inf''" and "rp_status r \<ge> 400"
  shows "adguard_request secs rq (Inr r) = Inl (PyError ''cannot convert float infinity to integer'')"
proof -
  have "float_of ''inf'' = Infinite" by code_simp
  then show ?thesis using assms by (simp add: adguard_request_def retry_after_header_def)
qed

text \<open>An agent that explains an error by anything but a text ends the call with an exception that is no \<open>AgentError\<close>.\<close>

theorem structured_error_escapes:
  assumes "rp_status r \<ge> 400" and "rp_json r = Some (JObj d)" and "map_of d ''error'' = Some (JObj e)" and "e \<noteq> []"
  shows "agent_request secs rq (Inr r) = Inl (PyError ''can only concatenate str'')"
  using assms by (simp add: agent_request_def error_detail_def jor_def)

end
