(* ===== verification/Traffic.thy ===== *)
theory Traffic
  imports Telemetry
begin

text \<open>
  The reads of the metrics store, backend/app/telemetry.py and backend/app/routers/metrics.py: series, overview,
  traffic, what needs attention, and the exposition for Prometheus.
\<close>

section \<open>Series\<close>

definition ranges :: "(string \<times> int) list" where
  "ranges = [(''1h'', 3600), (''6h'', 6 * 3600), (''24h'', 86400), (''7d'', 7 * 86400), (''30d'', 30 * 86400)]"

definition steps :: "int list" where
  "steps = [60, 300, 600, 900, 1800, 3600, 7200, 21600, 43200]"

definition plan_range :: "string \<Rightarrow> int \<times> int \<times> string" where
  "plan_range name =
     (let span = (case map_of ranges name of None \<Rightarrow> 86400 | Some s \<Rightarrow> s);
          minutes = (span \<le> 48 * 3600); least = (if minutes then 60 else 3600) in
      (span,
       (case find (\<lambda>s. span \<le> 200 * s \<and> least \<le> s) steps of None \<Rightarrow> last steps | Some s \<Rightarrow> s),
       if minutes then ''1m'' else ''1h''))"

text \<open>
  The instants are naive, so \<open>timestamp()\<close> reads them in the zone of the process, \<open>off\<close> seconds east of UTC, while the
  points are printed in UTC.
\<close>

definition bucket_of :: "int \<Rightarrow> int \<Rightarrow> int \<Rightarrow> int" where
  "bucket_of off step t = (t - off * second_us) div (step * second_us) * step"

definition py_range :: "int \<Rightarrow> int \<Rightarrow> int \<Rightarrow> int list" where
  "py_range first stop step = map (\<lambda>i. first + int i * step) [0..<nat ((stop - first + step - 1) div step)]"

record point =
  pt_ts :: string
  pt_values :: reading
  pt_reporting :: nat

record series_view =
  sv_range :: string
  sv_step_s :: int
  sv_resolution :: string
  sv_entities :: nat
  sv_points :: "point list"

definition series_rows :: "string \<Rightarrow> int list \<Rightarrow> string \<Rightarrow> int \<Rightarrow> int \<Rightarrow> metric_sample list \<Rightarrow> metric_sample list" where
  "series_rows kind ids resolution start stop rows =
     filter (\<lambda>r. m_kind r = kind \<and> m_resolution r = resolution \<and> m_entity_id r \<in> set ids \<and> start \<le> m_ts r \<and> m_ts r \<le> stop) rows"

definition entity_mean :: "metric_sample list \<Rightarrow> string \<Rightarrow> int \<Rightarrow> rat option" where
  "entity_mean rows f i = mean (map (\<lambda>r. value_of (m_values r) f) (filter (\<lambda>r. m_entity_id r = i) rows))"

definition combined :: "string \<Rightarrow> rat option list \<Rightarrow> rat option" where
  "combined f means =
     (let xs = List.map_filter (\<lambda>x. x) means in
      if xs = [] then None
      else if f = ''avg_ms'' then Some (py_round 3 (sum_list xs / of_nat (length xs)))
      else Some (py_round 3 (sum_list xs)))"

definition point_at :: "string list \<Rightarrow> int \<Rightarrow> metric_sample list \<Rightarrow> point" where
  "point_at names b rows =
     (let ents = py_set (map m_entity_id rows) in
      \<lparr>pt_ts = iso (b * second_us),
       pt_values = map (\<lambda>f. (f, combined f (map (entity_mean rows f) ents))) names,
       pt_reporting = length (filter (\<lambda>i. (case entity_mean rows ''online'' i of None \<Rightarrow> 0 | Some m \<Rightarrow> m) \<ge> 1 / 2) ents)\<rparr>)"

definition series_buckets :: "int \<Rightarrow> int \<Rightarrow> int \<Rightarrow> int \<Rightarrow> int list" where
  "series_buckets off step start stop = py_range (bucket_of off step start + step) (bucket_of off step stop + 1) step"

definition series ::
  "int \<Rightarrow> string \<Rightarrow> int list \<Rightarrow> string \<Rightarrow> string list \<Rightarrow> int \<Rightarrow> metric_sample list \<Rightarrow> series_view" where
  "series off kind ids range_name names now samples =
     (let (span, step, resolution) = plan_range range_name; start = now - span * second_us;
          rows = series_rows kind ids resolution start now samples in
      \<lparr>sv_range = (if range_name \<in> set (map fst ranges) then range_name else ''24h''), sv_step_s = step,
       sv_resolution = resolution, sv_entities = length ids,
       sv_points = map (\<lambda>b. point_at names b (filter (\<lambda>r. bucket_of off step (m_ts r) = b) rows))
         (series_buckets off step start now)\<rparr>)"

section \<open>Overview\<close>

record group_sum =
  gs_servers :: nat
  gs_reporting :: nat
  gs_qps :: "rat option"
  gs_bps :: "rat option"
  gs_queries :: int
  gs_blocked :: int
  gs_blocked_pct :: rat

definition value_or_0 :: "reading \<Rightarrow> string \<Rightarrow> rat" where
  "value_or_0 v key = (case value_of v key of None \<Rightarrow> 0 | Some r \<Rightarrow> r)"

definition newest_readings :: "(int \<times> metric_sample) list \<Rightarrow> server list \<Rightarrow> reading list" where
  "newest_readings fresh members =
     filter (\<lambda>v. value_or_0 v ''online'' \<noteq> 0)
       (List.map_filter (\<lambda>s. map_option m_values (map_of fresh (s_id s))) members)"

definition sum_of :: "(int \<times> metric_sample) list \<Rightarrow> server list \<Rightarrow> group_sum" where
  "sum_of fresh members =
     (let vs = newest_readings fresh members; rated = filter (\<lambda>v. value_of v ''qps'' \<noteq> None) vs;
          total = (\<lambda>key us. sum_list (map (\<lambda>v. value_or_0 v key) us));
          q24 = total ''queries_24h'' vs; b24 = total ''blocked_24h'' vs;
          rate_sum = (\<lambda>key. if rated = [] then None else Some (py_round 2 (total key rated))) in
      \<lparr>gs_servers = length members, gs_reporting = length vs, gs_qps = rate_sum ''qps'', gs_bps = rate_sum ''bps'',
       gs_queries = py_trunc q24, gs_blocked = py_trunc b24,
       gs_blocked_pct = (if q24 \<noteq> 0 then py_round 2 (b24 / q24 * 100) else 0)\<rparr>)"

record fleet_overview =
  fo_as_of :: "string option"
  fo_fleet :: group_sum
  fo_zones :: "(int \<times> string \<times> group_sum) list"

definition recent :: "settings \<Rightarrow> int \<Rightarrow> int" where
  "recent cfg now = now - cf_sync_interval_seconds cfg * 5 * second_us"

definition overview :: "settings \<Rightarrow> int \<Rightarrow> db \<Rightarrow> fleet_overview" where
  "overview cfg now d =
     (let fresh = latest ''server'' (Some (recent cfg now)) (db_samples d); servers = filter s_enabled (db_servers d) in
      \<lparr>fo_as_of = (case map (\<lambda>e. m_ts (snd e)) fresh of [] \<Rightarrow> None | t # ts \<Rightarrow> Some (iso (fold max ts t))),
       fo_fleet = sum_of fresh servers,
       fo_zones = map (\<lambda>z. (z_id z, z_name z, sum_of fresh (filter (\<lambda>s. s_zone_id s = Some (z_id z)) servers))) (db_zones d)\<rparr>)"

section \<open>Traffic\<close>

text \<open>Arithmetic on a value of a stored snapshot; \<open>None\<close> where Python raises.\<close>

fun number_of :: "json \<Rightarrow> rat option" where
  "number_of (JInt i) = Some (of_int i)"
| "number_of (JNum r) = Some r"
| "number_of (JBool b) = Some (if b then 1 else 0)"
| "number_of _ = None"

definition merge_tops :: "nat \<Rightarrow> json list \<Rightarrow> (string \<times> int) list" where
  "merge_tops limit tops =
     map (\<lambda>e. (fst e, py_trunc (snd e)))
       (take limit (sort_key (\<lambda>e. - snd e)
          (fold count_item (concat (map obj_items (concat (map jlist tops)))) [])))"

datatype server_line =
    Shown int string json json json json      \<comment> \<open>queries, blocked, blocked share, processing time\<close>
  | Not_shown int string json                 \<comment> \<open>the error\<close>

record traffic_sum =
  tr_queries :: rat
  tr_blocked :: rat
  tr_weighted :: rat
  tr_lines :: "server_line list"
  tr_snaps :: "json list"

definition has_snapshot :: "server \<Rightarrow> bool" where
  "has_snapshot s \<longleftrightarrow>
     truthy (as_obj (s_stats_snapshot s)) \<and> map_of (obj_items (as_obj (s_stats_snapshot s))) ''error'' = None \<and>
     s_status s \<noteq> St_offline \<and> s_status s \<noteq> St_error"

definition snapshot_error :: "server \<Rightarrow> json" where
  "snapshot_error s =
     jor (jget (as_obj (s_stats_snapshot s)) ''error'') (JStr (str_or (s_last_error s) ''no data yet''))"

fun traffic_rows :: "server list \<Rightarrow> traffic_sum \<Rightarrow> traffic_sum option" where
  "traffic_rows [] t = Some t"
| "traffic_rows (s # ss) t =
     (if \<not> has_snapshot s
      then traffic_rows ss (t\<lparr>tr_lines := tr_lines t @ [Not_shown (s_id s) (s_name s) (snapshot_error s)]\<rparr>)
      else (let snap = as_obj (s_stats_snapshot s); get = jget_def snap in
        case (number_of (get ''num_dns_queries'' (JInt 0)), number_of (get ''num_blocked'' (JInt 0)),
              number_of (get ''avg_processing_ms'' (JInt 0))) of
          (Some q, Some b, Some avg) \<Rightarrow>
            traffic_rows ss \<lparr>tr_queries = tr_queries t + q, tr_blocked = tr_blocked t + b, tr_weighted = tr_weighted t + avg * q,
              tr_lines = tr_lines t @ [Shown (s_id s) (s_name s) (get ''num_dns_queries'' (JInt 0)) (get ''num_blocked'' (JInt 0))
                                        (get ''blocked_pct'' (JInt 0)) (get ''avg_processing_ms'' (JInt 0))],
              tr_snaps = tr_snaps t @ [snap]\<rparr>
        | _ \<Rightarrow> None))"

record traffic_view =
  tv_queries :: int
  tv_blocked :: int
  tv_blocked_pct :: rat
  tv_avg_ms :: rat
  tv_servers :: "server_line list"
  tv_reporting :: nat
  tv_selected :: nat
  tv_top_queried :: "(string \<times> int) list"
  tv_top_blocked :: "(string \<times> int) list"
  tv_top_clients :: "(string \<times> int) list"
  tv_as_of :: "string option"

text \<open>The oldest snapshot, compared as text.\<close>

definition oldest_text :: "json list \<Rightarrow> string option" where
  "oldest_text snaps =
     fold (\<lambda>snap old. case jget snap ''fetched_at'' of
         JStr t \<Rightarrow> (if t = [] then old else case old of None \<Rightarrow> Some t | Some u \<Rightarrow> Some (if t < u then t else u))
       | _ \<Rightarrow> old) snaps None"

definition traffic :: "int option \<Rightarrow> int option \<Rightarrow> db \<Rightarrow> traffic_view option" where
  "traffic zone_id server_id d =
     (let servers = sort_key s_name (filter (in_selection zone_id server_id) (db_servers d)) in
      map_option (\<lambda>t. let snaps = tr_snaps t; q = tr_queries t in
        \<lparr>tv_queries = py_trunc q, tv_blocked = py_trunc (tr_blocked t),
         tv_blocked_pct = (if q \<noteq> 0 then py_round 2 (tr_blocked t / q * 100) else 0),
         tv_avg_ms = (if q \<noteq> 0 then py_round 2 (tr_weighted t / q) else 0),
         tv_servers = tr_lines t, tv_reporting = length snaps, tv_selected = length servers,
         tv_top_queried = merge_tops 10 (map (\<lambda>x. jget x ''top_queried_domains'') snaps),
         tv_top_blocked = merge_tops 10 (map (\<lambda>x. jget x ''top_blocked_domains'') snaps),
         tv_top_clients = merge_tops 10 (map (\<lambda>x. jget x ''top_clients'') snaps),
         tv_as_of = oldest_text snaps\<rparr>)
      (traffic_rows servers \<lparr>tr_queries = 0, tr_blocked = 0, tr_weighted = 0, tr_lines = [], tr_snaps = []\<rparr>))"

section \<open>What needs attention\<close>

datatype severity = Critical | Warning

fun severity_rank :: "severity \<Rightarrow> nat" where
  "severity_rank Critical = 0"
| "severity_rank Warning = 1"

record attention_item =
  ai_severity :: severity
  ai_kind :: string
  ai_entity :: "int option"
  ai_name :: string
  ai_message :: string
  ai_link :: string

definition item :: "severity \<Rightarrow> string \<Rightarrow> string \<Rightarrow> int \<Rightarrow> string \<Rightarrow> string \<Rightarrow> attention_item" where
  "item sev kind link i name msg =
     \<lparr>ai_severity = sev, ai_kind = kind, ai_entity = Some i, ai_name = name, ai_message = msg, ai_link = link\<rparr>"

definition is_down :: "sync_status \<Rightarrow> bool" where
  "is_down st \<longleftrightarrow> st = St_offline \<or> st = St_error"

definition down_hosts :: "db \<Rightarrow> int list" where
  "down_hosts d = map a_id (filter (\<lambda>a. is_down (a_status a)) (db_agents d))"

definition on_down_host :: "db \<Rightarrow> server \<Rightarrow> bool" where
  "on_down_host d s \<longleftrightarrow> (case s_agent_id s of None \<Rightarrow> False | Some i \<Rightarrow> i \<in> set (down_hosts d))"

definition server_items :: "db \<Rightarrow> int \<Rightarrow> server \<Rightarrow> attention_item list" where
  "server_items d now s =
     (if is_down (s_status s) \<and> on_down_host d s then []
      else (if is_down (s_status s)
            then [item Critical ''server'' ''/servers'' (s_id s) (s_name s)
                    (str_or (s_last_error s) (''server is '' @ sync_status_value (s_status s)))]
            else if s_status s = St_online \<and> \<not> s_in_sync s
            then [item Warning ''server'' ''/servers'' (s_id s) (s_name s) ''configuration drift: not in sync''] else []) @
           (case s_cooldown_until s of
              None \<Rightarrow> []
            | Some t \<Rightarrow> if t > now
                then [item Warning ''server'' ''/servers'' (s_id s) (s_name s) ''in cooldown after an auth failure or rate limit''] else []) @
           (if s_update_state s = Upd_failed
            then [item Warning ''server'' ''/updates'' (s_id s) (s_name s) (''last AdGuard update failed: '' @ str_or (s_update_error s) [])]
            else []))"

definition cert_items :: "int \<Rightarrow> agent \<Rightarrow> attention_item list" where
  "cert_items now a =
     (case a_cert_not_after a of
        None \<Rightarrow> []
      | Some t \<Rightarrow>
          (let days = seconds_of (t - now) / 86400 in
           if days < 0 then [item Critical ''agent'' ''/hosts'' (a_id a) (a_name a) ''agent certificate has expired'']
           else if days < 30
           then [item Warning ''agent'' ''/hosts'' (a_id a) (a_name a) (''agent certificate expires in '' @ show_int (py_trunc days) @ '' days'')]
           else []))"

definition disk_items :: "agent \<Rightarrow> json list \<Rightarrow> attention_item list" where
  "disk_items a disks =
     List.map_filter (\<lambda>x. case disk_used x of
         Some used \<Rightarrow> if used \<ge> 9 / 10
           then Some (item Warning ''agent'' ''/hosts'' (a_id a) (a_name a)
             (''disk '' @ entry_text (jget_def x ''path'' (JStr ''/'')) @ '' is '' @ show_int (py_trunc (used * 100)) @ ''% full''))
           else None
       | None \<Rightarrow> None) disks"

definition agent_items :: "int \<Rightarrow> agent \<Rightarrow> attention_item list option" where
  "agent_items now a =
     map_option (\<lambda>disks.
       (if is_down (a_status a)
        then [item Critical ''agent'' ''/hosts'' (a_id a) (a_name a) (str_or (a_last_error a) ''host agent unreachable'')] else []) @
       cert_items now a @
       (case a_update_error a of
          None \<Rightarrow> []
        | Some e \<Rightarrow> if e = [] then []
            else [item Warning ''agent'' ''/hosts'' (a_id a) (a_name a) (''agent self-update failed: '' @ e)]) @
       disk_items a disks)
     (objects_of (jget (as_obj (a_health a)) ''disks''))"

definition balancer_documents :: "load_balancer \<Rightarrow> json" where
  "balancer_documents b =
     (if b_mode b = Mode_ipvs then jget (as_obj (Some (jget (as_obj (b_keepalived_state b)) ''ipvs''))) ''backends''
      else jget (as_obj (b_state b)) ''backends'')"

definition backends_down :: "json list \<Rightarrow> string list" where
  "backends_down backends =
     map (\<lambda>x. entry_text (jget x ''name'')) (filter (\<lambda>x. jget x ''state'' = JStr ''down'' \<and> \<not> truthy (jget x ''drained'')) backends)"

definition balancer_items :: "db \<Rightarrow> load_balancer \<Rightarrow> attention_item list option" where
  "balancer_items d b =
     (if is_down (b_status b)
      then Some (if b_agent_id b \<in> set (down_hosts d) then []
                 else [item Critical ''load_balancer'' ''/load-balancers'' (b_id b) (b_name b)
                         (str_or (b_last_error b) (''balancer is '' @ sync_status_value (b_status b)))])
      else (let ks = as_obj (b_keepalived_state b); ipvs = as_obj (Some (jget ks ''ipvs'')) in
        map_option (\<lambda>backends.
          (if b_in_sync b then [] else [item Warning ''load_balancer'' ''/load-balancers'' (b_id b) (b_name b) ''balancer configuration drift'']) @
          (if b_mode b = Mode_ipvs \<and> jget ipvs ''present'' = JBool False \<and> truthy (jget ks ''vip_owner'')
           then [item Critical ''load_balancer'' ''/load-balancers'' (b_id b) (b_name b) ''VIP owner has no IPVS virtual server programmed''] else []) @
          (case backends_down backends of
             [] \<Rightarrow> []
           | ns \<Rightarrow> [item Warning ''load_balancer'' ''/load-balancers'' (b_id b) (b_name b)
               (show_nat (length ns) @ '' backend'' @ (if length ns \<noteq> 1 then ''s'' else []) @ '' down: '' @ py_join '', '' ns)]))
        (objects_of (balancer_documents b))))"

definition keepalived_states :: "db \<Rightarrow> int \<Rightarrow> json list" where
  "keepalived_states d i =
     filter is_obj (List.map_filter b_keepalived_state
       (filter (\<lambda>b. b_enabled b \<and> b_zone_id b = Some i) (db_balancers d)))"

text \<open>The zones of the enabled balancers, in the order of the balancers.\<close>

definition zone_items :: "db \<Rightarrow> attention_item list" where
  "zone_items d =
     concat (map (\<lambda>i. case get_zone d i of
         None \<Rightarrow> []
       | Some z \<Rightarrow>
           (case z_vip z of
              None \<Rightarrow> []
            | Some vip \<Rightarrow>
                if vip \<noteq> [] \<and> keepalived_states d i \<noteq> [] \<and>
                   \<not> list_ex (\<lambda>ks. truthy (jget ks ''vip_owner'')) (keepalived_states d i)
                then [item Critical ''zone'' ''/load-balancers'' (z_id z) (z_name z) (''no balancer holds the VIP '' @ vip)] else []))
       (py_set (List.map_filter b_zone_id (filter b_enabled (db_balancers d)))))"

definition sync_items :: "settings \<Rightarrow> int \<Rightarrow> int option \<Rightarrow> attention_item list" where
  "sync_items cfg now last_sync =
     (case last_sync of
        None \<Rightarrow> []
      | Some t \<Rightarrow> if now - t > cf_sync_interval_seconds cfg * 3 * second_us
          then [\<lparr>ai_severity = Warning, ai_kind = ''fleet'', ai_entity = None, ai_name = ''reconcile loop'',
                 ai_message = ''the last reconcile pass is older than three intervals'', ai_link = ''/''\<rparr>] else [])"

definition attention :: "settings \<Rightarrow> int \<Rightarrow> int option \<Rightarrow> db \<Rightarrow> attention_item list option" where
  "attention cfg now last_sync d =
     (case (opt_list (map (agent_items now) (db_agents d)),
            opt_list (map (balancer_items d) (filter b_enabled (db_balancers d)))) of
        (Some ags, Some lbs) \<Rightarrow>
          Some (sort_key (\<lambda>i. (severity_rank (ai_severity i), ai_name i))
            (concat (map (server_items d now) (filter s_enabled (db_servers d))) @ concat ags @ concat lbs @
             zone_items d @ sync_items cfg now last_sync))
      | _ \<Rightarrow> None)"

section \<open>Facts about series\<close>

lemma plan_range_cases:
  "plan_range name \<in> {(3600, 60, ''1m''), (6 * 3600, 300, ''1m''), (86400, 600, ''1m''), (7 * 86400, 3600, ''1h''), (30 * 86400, 21600, ''1h'')}"
proof -
  have "map_of ranges name = Some s \<Longrightarrow> s \<in> {3600, 6 * 3600, 86400, 7 * 86400, 30 * 86400}" for s
    by (auto simp: ranges_def split: if_splits)
  then consider "map_of ranges name = None" | s where "map_of ranges name = Some s" "s \<in> {3600, 6 * 3600, 86400, 7 * 86400, 30 * 86400}"
    by (cases "map_of ranges name") auto
  then show ?thesis by cases (auto simp: plan_range_def steps_def Let_def)
qed

lemma py_range_distinct: "0 < step \<Longrightarrow> distinct (py_range first stop step)"
  by (auto simp: py_range_def distinct_map inj_on_def)

lemma bucket_mono: "0 < step \<Longrightarrow> t \<le> u \<Longrightarrow> bucket_of off step t \<le> bucket_of off step u"
  by (simp add: bucket_of_def second_us_def zdiv_mono1)

lemma bucket_multiple: "\<exists>k. bucket_of off step t = k * step"
  by (auto simp: bucket_of_def)

text \<open>The points of a range are the buckets from the second one of the window to its last.\<close>

lemma series_buckets_set:
  assumes "0 < step"
  shows "b \<in> set (series_buckets off step start stop) \<longleftrightarrow>
    (\<exists>k. b = k * step) \<and> bucket_of off step start < b \<and> b \<le> bucket_of off step stop"
proof -
  let ?i = "(start - off * second_us) div (step * second_us)" and ?j = "(stop - off * second_us) div (step * second_us)"
  have b: "bucket_of off step start = ?i * step" "bucket_of off step stop = ?j * step" by (simp_all add: bucket_of_def)
  have "(?j * step + 1 - (?i * step + step) + step - 1) div step = ?j - ?i"
  proof -
    have "?j * step + 1 - (?i * step + step) + step - 1 = (?j - ?i) * step" by (simp add: algebra_simps)
    then show ?thesis using assms by simp
  qed
  then have set: "set (series_buckets off step start stop) = (\<lambda>n. ?i * step + step + int n * step) ` {0..<nat (?j - ?i)}"
    by (simp add: series_buckets_def py_range_def b)
  show ?thesis
  proof
    assume "b \<in> set (series_buckets off step start stop)"
    then obtain n where n: "n < nat (?j - ?i)" "b = ?i * step + step + int n * step" unfolding set by auto
    then have "b = (?i + 1 + int n) * step" by (simp add: algebra_simps)
    moreover have "?i < ?i + 1 + int n" "?i + 1 + int n \<le> ?j" using n(1) by linarith+
    ultimately show "(\<exists>k. b = k * step) \<and> bucket_of off step start < b \<and> b \<le> bucket_of off step stop"
      unfolding b using assms by (metis mult_strict_right_mono mult_right_mono less_le)
  next
    assume r: "(\<exists>k. b = k * step) \<and> bucket_of off step start < b \<and> b \<le> bucket_of off step stop"
    then obtain k where k: "b = k * step" by blast
    have "?i < k" "k \<le> ?j" using r assms unfolding b k by simp_all
    then have "nat (k - ?i - 1) < nat (?j - ?i)" "b = ?i * step + step + int (nat (k - ?i - 1)) * step"
      unfolding k by (simp_all add: algebra_simps)
    then show "b \<in> set (series_buckets off step start stop)"
      unfolding set by (intro image_eqI [where x = "nat (k - ?i - 1)"]) simp_all
  qed
qed

lemma div_less_multiple: "m \<noteq> 0 \<Longrightarrow> (x - q * m) div m = x div m - (q :: int)"
  using div_mult_self1 [of m x "- q"] by simp

lemma bucket_shift:
  assumes "0 < step"
  shows "bucket_of off step (t - q * (step * second_us)) = bucket_of off step t - q * step"
proof -
  have "t - q * (step * second_us) - off * second_us = (t - off * second_us) - q * (step * second_us)" by simp
  moreover have "step * second_us \<noteq> 0" using assms by (simp add: second_us_def)
  from div_less_multiple [OF this, of "t - off * second_us" q]
  have "(t - off * second_us - q * (step * second_us)) div (step * second_us) = (t - off * second_us) div (step * second_us) - q" .
  ultimately show ?thesis unfolding bucket_of_def by (metis left_diff_distrib)
qed

lemma series_buckets_length:
  assumes "0 < step" and "step dvd width"
  shows "length (series_buckets off step (now - width * second_us) now) = nat (width div step)"
proof -
  obtain q where q: "width = step * q" using assms(2) by blast
  have "now - width * second_us = now - q * (step * second_us)" by (simp add: q mult.assoc mult.left_commute)
  then have "bucket_of off step now + 1 - (bucket_of off step (now - width * second_us) + step) + step - 1 = q * step"
    using bucket_shift [OF assms(1), of off now q] by (simp only:)
  then have "(bucket_of off step now + 1 - (bucket_of off step (now - width * second_us) + step) + step - 1) div step = q"
    using assms(1) by simp
  then show ?thesis using assms(1) by (simp add: series_buckets_def py_range_def q)
qed

section \<open>Properties of series\<close>

text \<open>
  A series has one point per step over the whole range, whatever the range asked for and the time of the day:
  between 60 and 168 points, never on a step finer than what is stored.
\<close>

theorem series_length:
  "\<exists>width step. plan_range name = (width, step, sv_resolution (series off kind ids name names now rows)) \<and>
     int (length (sv_points (series off kind ids name names now rows))) = width div step \<and>
     width div step \<in> {60, 72, 144, 168, 120} \<and>
     sv_step_s (series off kind ids name names now rows) = step \<and>
     (if sv_resolution (series off kind ids name names now rows) = ''1m'' then 60 else 3600) \<le> step"
proof -
  obtain width step res where plan: "plan_range name = (width, step, res)" by (cases "plan_range name")
  let ?s = "series off kind ids name names now rows"
  have view: "sv_resolution ?s = res" "sv_step_s ?s = step"
    "length (sv_points ?s) = length (series_buckets off step (now - width * second_us) now)"
    by (simp_all add: series_def plan Let_def)
  have "(width, step, res) \<in> {(3600, 60, ''1m''), (6 * 3600, 300, ''1m''), (86400, 600, ''1m''), (7 * 86400, 3600, ''1h''), (30 * 86400, 21600, ''1h'')}"
    using plan_range_cases [of name] plan by simp
  then have "0 < step \<and> step dvd width \<and> width div step \<in> {60, 72, 144, 168, 120} \<and> 0 \<le> width div step \<and> (if res = ''1m'' then 60 else 3600) \<le> step"
    by auto
  then show ?thesis using series_buckets_length [of step width off now] plan unfolding view by simp
qed

text \<open>
  Every stored sample of the window is counted in exactly one point of its series, those of the bucket the
  window begins in excepted, which are in none.
\<close>

theorem series_counts_once:
  assumes "0 < step" and "start \<le> m_ts r" and "m_ts r \<le> stop"
  shows "distinct (series_buckets off step start stop) \<and>
    (bucket_of off step (m_ts r) \<in> set (series_buckets off step start stop) \<longleftrightarrow>
       bucket_of off step (m_ts r) \<noteq> bucket_of off step start)"
proof -
  have "bucket_of off step start \<le> bucket_of off step (m_ts r)" "bucket_of off step (m_ts r) \<le> bucket_of off step stop"
    using assms by (simp_all add: bucket_mono)
  then show ?thesis
    using py_range_distinct [OF assms(1)] bucket_multiple [of off step "m_ts r"]
    unfolding series_buckets_set [OF assms(1)] by (auto simp: series_buckets_def)
qed

theorem series_counts_once_witness:
  "bucket_of 0 60 (m_ts (qps_row 1 130000000 2)) \<in> set (series_buckets 0 60 10000000 200000000)"
  using series_counts_once [of 60 10000000 "qps_row 1 130000000 2" 200000000 0] by (simp add: bucket_of_def second_us_def)

text \<open>
  The points are labelled in another zone than they are computed in: in a process that runs \<open>off\<close> seconds east
  of UTC a sample is shown \<open>off\<close> seconds before its time.
\<close>

theorem series_shifted_by_zone:
  assumes "step dvd off" and "0 < step"
  shows "bucket_of off step t = bucket_of 0 step t - off"
proof -
  obtain q where q: "off = step * q" using assms(1) by blast
  have "bucket_of off step t = bucket_of 0 step (t - q * (step * second_us))" by (simp add: bucket_of_def q mult.assoc mult.left_commute)
  then show ?thesis using bucket_shift [OF assms(2), of 0 t q] by (simp add: q mult.commute)
qed

theorem series_shifted_by_zone_witness:
  "iso (bucket_of 7200 600 (20 * day_us) * second_us) = ''1970-01-20T22:00:00Z'' \<and> iso (20 * day_us) = ''1970-01-21T00:00:00Z''"
proof -
  have "bucket_of 7200 600 (20 * day_us) = 1720800"
    using series_shifted_by_zone [of 600 7200 "20 * day_us"] by (simp add: bucket_of_def second_us_def day_us_def)
  moreover have "iso (1720800 * second_us) = ''1970-01-20T22:00:00Z''" "iso (20 * day_us) = ''1970-01-21T00:00:00Z''"
    by code_simp+
  ultimately show ?thesis by simp
qed

section \<open>All clear\<close>

definition server_clear :: "int \<Rightarrow> server \<Rightarrow> bool" where
  "server_clear now s \<longleftrightarrow>
     \<not> is_down (s_status s) \<and> (s_status s = St_online \<longrightarrow> s_in_sync s) \<and>
     (\<forall>t. s_cooldown_until s = Some t \<longrightarrow> t \<le> now) \<and> s_update_state s \<noteq> Upd_failed"

definition agent_clear :: "int \<Rightarrow> agent \<Rightarrow> bool" where
  "agent_clear now a \<longleftrightarrow>
     \<not> is_down (a_status a) \<and> (\<forall>t. a_cert_not_after a = Some t \<longrightarrow> now + 30 * day_us \<le> t) \<and>
     a_update_error a \<in> {None, Some []} \<and>
     (\<exists>disks. objects_of (jget (as_obj (a_health a)) ''disks'') = Some disks \<and>
        (\<forall>x \<in> set disks. \<forall>u. disk_used x = Some u \<longrightarrow> u < 9 / 10))"

definition balancer_clear :: "load_balancer \<Rightarrow> bool" where
  "balancer_clear b \<longleftrightarrow>
     \<not> is_down (b_status b) \<and> b_in_sync b \<and>
     \<not> (b_mode b = Mode_ipvs \<and> jget (as_obj (Some (jget (as_obj (b_keepalived_state b)) ''ipvs''))) ''present'' = JBool False \<and>
        truthy (jget (as_obj (b_keepalived_state b)) ''vip_owner'')) \<and>
     (\<exists>backends. objects_of (balancer_documents b) = Some backends \<and>
        (\<forall>x \<in> set backends. jget x ''state'' = JStr ''down'' \<longrightarrow> truthy (jget x ''drained'')))"

lemma opt_list_empty:
  "(\<exists>ys. opt_list (map f xs) = Some ys \<and> concat ys = []) \<longleftrightarrow> (\<forall>x \<in> set xs. f x = Some [])"
proof (induction xs)
  case (Cons x xs)
  then show ?case by (cases "f x") auto
qed simp

lemma disk_items_empty: "disk_items a disks = [] \<longleftrightarrow> (\<forall>x \<in> set disks. \<forall>u. disk_used x = Some u \<longrightarrow> u < 9 / 10)"
  by (induction disks) (auto simp: disk_items_def map_filter_simps not_le split: option.split)

lemma cert_items_empty: "cert_items now a = [] \<longleftrightarrow> (\<forall>t. a_cert_not_after a = Some t \<longrightarrow> now + 30 * day_us \<le> t)"
proof (cases "a_cert_not_after a")
  case (Some t)
  have "seconds_of (t - now) / 86400 < 30 \<longleftrightarrow> t - now < 30 * day_us"
  proof -
    have "seconds_of (t - now) / 86400 < 30 \<longleftrightarrow> (of_int (t - now) :: rat) < of_int (30 * day_us)"
      by (simp add: seconds_of_def day_us_def)
    then show ?thesis by (simp only: of_int_less_iff)
  qed
  then show ?thesis using Some by (auto simp: cert_items_def Let_def)
qed (simp add: cert_items_def)

lemma agent_items_empty: "agent_items now a = Some [] \<longleftrightarrow> agent_clear now a"
  by (cases "a_update_error a") (auto simp: agent_items_def agent_clear_def cert_items_empty disk_items_empty)

lemma balancer_items_empty:
  assumes "down_hosts d = []"
  shows "balancer_items d b = Some [] \<longleftrightarrow> balancer_clear b"
proof -
  have none: "backends_down backends = [] \<longleftrightarrow> (\<forall>x \<in> set backends. jget x ''state'' = JStr ''down'' \<longrightarrow> truthy (jget x ''drained''))"
    for backends by (auto simp: backends_down_def filter_empty_conv)
  show ?thesis
  proof (cases "objects_of (balancer_documents b)")
    case None
    then show ?thesis using assms by (simp add: balancer_items_def balancer_clear_def Let_def)
  next
    case (Some backends)
    then show ?thesis
      using assms none [of backends]
      by (cases "backends_down backends") (auto simp: balancer_items_def balancer_clear_def Let_def)
  qed
qed

lemma server_items_empty: "down_hosts d = [] \<Longrightarrow> server_items d now s = [] \<longleftrightarrow> server_clear now s"
  by (auto simp: server_items_def server_clear_def on_down_host_def split: option.splits)

lemma keepalived_zone: "keepalived_states d i \<noteq> [] \<Longrightarrow> i \<in> set (List.map_filter b_zone_id (filter b_enabled (db_balancers d)))"
  by (induction "db_balancers d" rule: list.induct)
    (auto simp: keepalived_states_def List.map_filter_def filter_empty_conv image_iff split: option.splits)

lemma zone_items_empty:
  "zone_items d = [] \<longleftrightarrow>
     (\<forall>i z vip. get_zone d i = Some z \<longrightarrow> z_vip z = Some vip \<longrightarrow> vip \<noteq> [] \<longrightarrow> keepalived_states d i \<noteq> [] \<longrightarrow>
        (\<exists>ks \<in> set (keepalived_states d i). truthy (jget ks ''vip_owner'')))"
  (is "_ \<longleftrightarrow> ?clear")
proof
  assume empty: "zone_items d = []"
  show ?clear
  proof (intro allI impI)
    fix i z vip
    assume z: "get_zone d i = Some z" "z_vip z = Some vip" "vip \<noteq> []" "keepalived_states d i \<noteq> []"
    then have "i \<in> set (py_set (List.map_filter b_zone_id (filter b_enabled (db_balancers d))))"
      using keepalived_zone by simp
    with empty z show "\<exists>ks \<in> set (keepalived_states d i). truthy (jget ks ''vip_owner'')"
      unfolding zone_items_def by (fastforce simp: list_ex_iff split: if_splits)
  qed
next
  assume ?clear
  then show "zone_items d = []"
    unfolding zone_items_def by (auto simp: list_ex_iff split: option.split)
qed



section \<open>Traffic reads what the collector wrote\<close>

text \<open>
  The traffic page never fails on a snapshot the collector wrote, whatever the instance had answered: every
  selected server is listed once, and those with a snapshot are counted.
\<close>

theorem traffic_reads_snapshots:
  assumes "\<forall>s \<in> set (db_servers d). s_stats_snapshot s = None \<or> (\<exists>stats err ts. s_stats_snapshot s = Some (stats_snapshot stats err ts))"
  shows "\<exists>t. traffic zone_id server_id d = Some t \<and>
    length (tv_servers t) = length (filter (in_selection zone_id server_id) (db_servers d)) \<and>
    tv_reporting t = length (filter has_snapshot (filter (in_selection zone_id server_id) (db_servers d)))"
proof -
  have readable: "\<exists>q b avg. number_of (jget_def (as_obj (s_stats_snapshot s)) ''num_dns_queries'' (JInt 0)) = Some q \<and>
      number_of (jget_def (as_obj (s_stats_snapshot s)) ''num_blocked'' (JInt 0)) = Some b \<and>
      number_of (jget_def (as_obj (s_stats_snapshot s)) ''avg_processing_ms'' (JInt 0)) = Some avg"
    if "s_stats_snapshot s = None \<or> (\<exists>stats err ts. s_stats_snapshot s = Some (stats_snapshot stats err ts))" for s
    using that by (auto simp: as_obj_def stats_snapshot_def Let_def split: option.split)
  have rows: "\<exists>t'. traffic_rows ss t = Some t' \<and> length (tr_lines t') = length (tr_lines t) + length ss \<and>
      length (tr_snaps t') = length (tr_snaps t) + length (filter has_snapshot ss)"
    if "\<forall>s \<in> set ss. s_stats_snapshot s = None \<or> (\<exists>stats err ts. s_stats_snapshot s = Some (stats_snapshot stats err ts))" for ss t
    using that
  proof (induction ss arbitrary: t)
    case (Cons s ss)
    obtain q b avg where "number_of (jget_def (as_obj (s_stats_snapshot s)) ''num_dns_queries'' (JInt 0)) = Some q"
      "number_of (jget_def (as_obj (s_stats_snapshot s)) ''num_blocked'' (JInt 0)) = Some b"
      "number_of (jget_def (as_obj (s_stats_snapshot s)) ''avg_processing_ms'' (JInt 0)) = Some avg"
      using readable [of s] Cons.prems by auto
    then show ?case using Cons.IH Cons.prems by (fastforce simp: Let_def)
  qed simp
  let ?ss = "sort_key s_name (filter (in_selection zone_id server_id) (db_servers d))"
  have "length (filter has_snapshot ?ss) = length (filter has_snapshot (filter (in_selection zone_id server_id) (db_servers d)))"
    by (simp add: filter_sort)
  moreover obtain t where "traffic_rows ?ss \<lparr>tr_queries = 0, tr_blocked = 0, tr_weighted = 0, tr_lines = [], tr_snaps = []\<rparr> = Some t"
    "length (tr_lines t) = length ?ss" "length (tr_snaps t) = length (filter has_snapshot ?ss)"
    using rows [of ?ss "\<lparr>tr_queries = 0, tr_blocked = 0, tr_weighted = 0, tr_lines = [], tr_snaps = []\<rparr>"] assms by auto
  ultimately show ?thesis by (simp add: traffic_def Let_def)
qed

theorem traffic_reads_snapshots_witness:
  "\<exists>t. traffic None None (empty_db\<lparr>db_servers :=
      [(sample_server 1 ''a'' [])\<lparr>s_stats_snapshot := Some (stats_snapshot (Some (JObj [(''num_dns_queries'', JStr ''x'')])) None 0)\<rparr>]\<rparr>) = Some t \<and>
     length (tv_servers t) = 1"
proof -
  let ?s = "(sample_server 1 ''a'' [])\<lparr>s_stats_snapshot := Some (stats_snapshot (Some (JObj [(''num_dns_queries'', JStr ''x'')])) None 0)\<rparr>"
  have rows: "db_servers (empty_db\<lparr>db_servers := [?s]\<rparr>) = [?s]" by simp
  have "in_selection None None ?s" by (simp add: in_selection_def sample_server_def)
  moreover have "\<exists>t. traffic None None (empty_db\<lparr>db_servers := [?s]\<rparr>) = Some t \<and>
      length (tv_servers t) = length (filter (in_selection None None) [?s]) \<and> tv_reporting t = length (filter has_snapshot (filter (in_selection None None) [?s]))"
    using traffic_reads_snapshots [of "empty_db\<lparr>db_servers := [?s]\<rparr>" None None] unfolding rows by fastforce
  ultimately show ?thesis by auto
qed

section \<open>Top lists\<close>

lemma count_item_get: "map_of (fold count_item es agg) k =
    (if k \<in> fst ` set es \<or> map_of agg k \<noteq> None
     then Some ((case map_of agg k of None \<Rightarrow> 0 | Some n \<Rightarrow> n) + sum_list (map (\<lambda>e. if fst e = k then as_number (snd e) else 0) es))
     else None)"
  by (induction es arbitrary: agg) (auto simp: count_item_def split: option.split)

lemma count_item_distinct: "distinct (map fst agg) \<Longrightarrow> distinct (map fst (fold count_item es agg))"
  by (induction es arbitrary: agg) (simp_all add: count_item_def dict_set_distinct)

lemma left_out:
  assumes "k \<in> f ` set xs" and "k \<notin> f ` set (take n xs)"
  shows "\<exists>y \<in> set (drop n xs). f y = k"
proof -
  obtain y where y: "y \<in> set xs" "f y = k" using assms(1) by auto
  have "y \<in> set (take n xs) \<union> set (drop n xs)" using y(1) by (simp only: set_append [symmetric] append_take_drop_id)
  with y assms(2) show ?thesis by auto
qed

text \<open>
  A merged top list holds at most as many names as asked for, each once with the sum of its counts over all
  servers, in falling order, and no name left out has a larger sum.
\<close>

theorem top_list_exact:
  "\<exists>top. merge_tops limit tops = map (\<lambda>e. (fst e, py_trunc (snd e))) top \<and> length top \<le> limit \<and>
    distinct (map fst top) \<and> sorted (map (\<lambda>e. - snd e) top) \<and>
    (\<forall>e \<in> set top. snd e = sum_list (map (\<lambda>x. if fst x = fst e then as_number (snd x) else 0) (concat (map obj_items (concat (map jlist tops)))))) \<and>
    (\<forall>k \<in> fst ` set (concat (map obj_items (concat (map jlist tops)))). k \<notin> fst ` set top \<longrightarrow>
       (\<forall>e \<in> set top. sum_list (map (\<lambda>x. if fst x = k then as_number (snd x) else 0) (concat (map obj_items (concat (map jlist tops))))) \<le> snd e))"
proof -
  let ?es = "concat (map obj_items (concat (map jlist tops)))"
  let ?sum = "\<lambda>k. sum_list (map (\<lambda>x. if fst x = k then as_number (snd x) else 0) ?es)"
  let ?agg = "fold count_item ?es []"
  let ?all = "sort_key (\<lambda>e. - snd e) ?agg"
  have dist: "distinct (map fst ?agg)" by (rule count_item_distinct) simp
  have get: "map_of ?agg k = (if k \<in> fst ` set ?es then Some (?sum k) else None)" for k
    by (simp add: count_item_get)
  have val: "snd e = ?sum (fst e)" if "e \<in> set ?agg" for e
    using map_of_is_SomeI [OF dist, of "fst e" "snd e"] that get [of "fst e"] by (auto split: if_splits)
  have "dom (map_of ?agg) = fst ` set ?es" by (rule set_eqI) (simp only: domIff get, simp del: set_concat set_map)
  then have keys: "fst ` set ?agg = fst ` set ?es" by (simp only: dom_map_of_conv_image_fst)
  have sorted: "sorted (map (\<lambda>e. - snd e) ?all)" by (rule sorted_sort_key)
  have split: "?all = take limit ?all @ drop limit ?all" by simp
  have le: "snd f \<le> snd e" if "e \<in> set (take limit ?all)" "f \<in> set (drop limit ?all)" for e f
    using sorted that by (subst (asm) split) (auto simp only: map_append sorted_append set_map, fastforce)
  have left: "?sum k \<le> snd e" if "k \<in> fst ` set ?es" "k \<notin> fst ` set (take limit ?all)" "e \<in> set (take limit ?all)" for k e
  proof -
    have "k \<in> fst ` set ?all" using that(1) keys by (simp only: set_sort)
    from left_out [OF this that(2)] obtain f where f: "f \<in> set (drop limit ?all)" "fst f = k" by (elim bexE) (rule that)
    then have "f \<in> set ?agg" using in_set_dropD [OF f(1)] by (simp only: set_sort)
    from val [OF this] le [OF that(3) f(1)] show ?thesis unfolding f(2) by (simp only:)
  qed
  show ?thesis
  proof (intro exI [of _ "take limit ?all"] conjI ballI impI)
    show "merge_tops limit tops = map (\<lambda>e. (fst e, py_trunc (snd e))) (take limit ?all)" by (simp add: merge_tops_def)
    show "distinct (map fst (take limit ?all))"
      using dist by (simp add: take_map [symmetric] distinct_map distinct_sort)
    show "sorted (map (\<lambda>e. - snd e) (take limit ?all))" using sorted by (simp add: take_map [symmetric] sorted_wrt_take)
  qed (use val left in \<open>auto dest: in_set_takeD\<close>)
qed

end
