(* ===== verification/Exposition.thy ===== *)
theory Exposition
  imports Traffic
begin

text \<open>
  The Prometheus endpoint: backend/app/telemetry.py (\<open>token_ok\<close>, \<open>_Exposition\<close>, \<open>prometheus\<close>) and the scrape
  handler of backend/app/routers/metrics.py.
\<close>

section \<open>The token\<close>

text \<open>\<open>compare_digest\<close> raises \<open>TypeError\<close> on text that is not ASCII: \<open>None\<close>.\<close>

definition compare_digest :: "string \<Rightarrow> string \<Rightarrow> bool option" where
  "compare_digest a b = (if list_all (\<lambda>c. (of_char c :: nat) < 128) (a @ b) then Some (a = b) else None)"

definition token_ok :: "settings \<Rightarrow> string option \<Rightarrow> bool option" where
  "token_ok cfg header =
     (if cf_metrics_token cfg = [] \<or> str_or header [] = [] then Some False
      else (case py_partition CHR '' '' (str_or header []) of
        (scheme, _, value) \<Rightarrow>
          if py_lower scheme = ''bearer'' then compare_digest (py_strip value) (cf_metrics_token cfg) else Some False))"

section \<open>The text format\<close>

definition py_replace_char :: "char \<Rightarrow> string \<Rightarrow> string \<Rightarrow> string" where
  "py_replace_char x by s = concat (map (\<lambda>c. if c = x then by else [c]) s)"

definition backslash :: char where
  "backslash = CHR 0x5C"

definition newline :: char where
  "newline = CHR 0x0A"

definition dquote :: char where
  "dquote = CHR 0x22"

definition esc :: "string \<Rightarrow> string" where
  "esc v =
     py_replace_char newline [backslash, CHR ''n'']
       (py_replace_char dquote [backslash, dquote] (py_replace_char backslash [backslash, backslash] v))"

text \<open>
  A number as Python prints it: an integer, or a decimal expansion, of at most \<open>n\<close> places, without trailing
  zeros. The values of the store have at most four places. The store does not tell \<open>12.0\<close> from \<open>12\<close> and both are printed
  as the integer.
\<close>

fun decimals :: "nat \<Rightarrow> rat \<Rightarrow> string" where
  "decimals 0 r = []"
| "decimals (Suc n) r = (if r = 0 then [] else digit_char (nat \<lfloor>10 * r\<rfloor>) # decimals n (10 * r - of_int \<lfloor>10 * r\<rfloor>))"

definition show_number :: "rat \<Rightarrow> string" where
  "show_number r =
     (if r < 0 then ''-'' else []) @ show_int \<lfloor>\<bar>r\<bar>\<rfloor> @
     (if \<bar>r\<bar> = of_int \<lfloor>\<bar>r\<bar>\<rfloor> then [] else ''.'' @ decimals 17 (\<bar>r\<bar> - of_int \<lfloor>\<bar>r\<bar>\<rfloor>))"

type_synonym labels = "(string \<times> string option) list"

record exposition =
  ex_lines :: "string list"
  ex_seen :: "string list"

definition no_exposition :: exposition where
  "no_exposition = \<lparr>ex_lines = [], ex_seen = []\<rparr>"

definition metric :: "string \<Rightarrow> string \<Rightarrow> exposition \<Rightarrow> exposition" where
  "metric name help x =
     (if name \<in> set (ex_seen x) then x
      else x\<lparr>ex_seen := name # ex_seen x,
             ex_lines := ex_lines x @ [''# HELP '' @ name @ '' '' @ help, ''# TYPE '' @ name @ '' gauge'']\<rparr>)"

definition label_text :: "labels \<Rightarrow> string" where
  "label_text labels =
     py_join '','' (List.map_filter (\<lambda>(k, v). map_option (\<lambda>t. k @ ''='' @ [dquote] @ esc t @ [dquote]) v) labels)"

definition sample_line :: "string \<Rightarrow> labels \<Rightarrow> string \<Rightarrow> string" where
  "sample_line name labels value = name @ ''{'' @ label_text labels @ ''} '' @ value"

definition sample :: "labels \<Rightarrow> string \<times> string option \<Rightarrow> exposition \<Rightarrow> exposition" where
  "sample labels e x =
     (case snd e of
        None \<Rightarrow> x
      | Some v \<Rightarrow> x\<lparr>ex_lines := ex_lines x @ [sample_line (''adguard_admin_'' @ fst e) labels v]\<rparr>)"

definition exposition_text :: "exposition \<Rightarrow> string" where
  "exposition_text x = py_join [newline] (ex_lines x) @ [newline]"

section \<open>The fleet as gauges\<close>

definition one_if :: "bool \<Rightarrow> string option" where
  "one_if b = Some (if b then ''1'' else ''0'')"

definition gauge :: "reading \<Rightarrow> string \<Rightarrow> string option" where
  "gauge v key = map_option show_number (value_of v key)"

definition zone_name :: "db \<Rightarrow> int option \<Rightarrow> string option" where
  "zone_name d i = map_option z_name (Option.bind i (get_zone d))"

text \<open>A value of a JSON document as it is printed; a value that is not a number or a text never occurs there.\<close>

fun json_value :: "json \<Rightarrow> string option" where
  "json_value JNull = None"
| "json_value (JBool b) = one_if b"
| "json_value (JInt i) = Some (show_int i)"
| "json_value (JNum r) = Some (show_number r)"
| "json_value j = Some (entry_text j)"

definition server_metrics :: "(string \<times> string) list" where
  "server_metrics =
     [(''server_up'', ''1 when the AdGuard server answered its last reconcile''),
      (''server_in_sync'', ''1 when the server matches its desired configuration''),
      (''server_update_available'', ''1 when AdGuard reports a newer release''),
      (''server_queries_per_second'', ''DNS queries per second, from the last two samples''),
      (''server_blocked_per_second'', ''blocked queries per second, from the last two samples''),
      (''server_queries_window'', ''queries in AdGuard'' @ apostrophe @ ''s own statistics window (24h by default)''),
      (''server_blocked_window'', ''blocked queries in AdGuard'' @ apostrophe @ ''s statistics window''),
      (''server_processing_milliseconds'', ''average processing time AdGuard reports''),
      (''server_sample_age_seconds'', ''age of the newest stored sample for the server''),
      (''server_info'', ''static labels for the server'')]"

definition server_labels :: "db \<Rightarrow> server \<Rightarrow> labels" where
  "server_labels d s = [(''server'', Some (s_name s)), (''zone'', zone_name d (s_zone_id s))]"

definition server_gauges :: "int \<Rightarrow> metric_sample option \<Rightarrow> (string \<times> string option) list" where
  "server_gauges now row =
     (case row of
        None \<Rightarrow> []
      | Some r \<Rightarrow>
          [(''server_queries_per_second'', gauge (m_values r) ''qps''), (''server_blocked_per_second'', gauge (m_values r) ''bps''),
           (''server_queries_window'', gauge (m_values r) ''queries_24h''), (''server_blocked_window'', gauge (m_values r) ''blocked_24h''),
           (''server_processing_milliseconds'', gauge (m_values r) ''avg_ms''),
           (''server_sample_age_seconds'', Some (show_number (py_round 1 (seconds_of (now - m_ts r)))))])"

definition server_samples :: "db \<Rightarrow> int \<Rightarrow> (int \<times> metric_sample) list \<Rightarrow> server \<Rightarrow> (labels \<times> string \<times> string option) list" where
  "server_samples d now fresh s =
     (let l = server_labels d s in
      map (Pair l)
        [(''server_up'', one_if (s_status s = St_online)), (''server_in_sync'', one_if (s_in_sync s)),
         (''server_update_available'', one_if (s_update_available s))] @
      [(l @ [(''version'', Some (str_or (s_version s) [])), (''enabled'', Some (if s_enabled s then ''true'' else ''false''))],
        ''server_info'', Some ''1'')] @
      map (Pair l) (server_gauges now (map_of fresh (s_id s))))"

definition agent_metrics :: "(string \<times> string) list" where
  "agent_metrics =
     [(''agent_up'', ''1 when the host agent answered its last reconcile''),
      (''agent_load1'', ''1-minute load average on the host''),
      (''agent_memory_used_ratio'', ''used memory as a fraction of total''),
      (''agent_disk_used_ratio'', ''used space as a fraction of the fullest monitored disk''),
      (''agent_services_down'', ''managed services present on the host but not running''),
      (''agent_cert_expiry_timestamp_seconds'', ''when the agent certificate expires, as a Unix time''),
      (''agent_info'', ''static labels for the host agent'')]"

definition unix_time :: "int \<Rightarrow> string" where
  "unix_time t = show_int (py_trunc (seconds_of t))"

definition agent_gauges :: "metric_sample option \<Rightarrow> (string \<times> string option) list" where
  "agent_gauges row =
     (case row of
        None \<Rightarrow> []
      | Some r \<Rightarrow>
          [(''agent_load1'', gauge (m_values r) ''load1''), (''agent_memory_used_ratio'', gauge (m_values r) ''mem_used''),
           (''agent_disk_used_ratio'', gauge (m_values r) ''disk_used''), (''agent_services_down'', gauge (m_values r) ''services_down'')])"

definition agent_samples :: "db \<Rightarrow> (int \<times> metric_sample) list \<Rightarrow> agent \<Rightarrow> (labels \<times> string \<times> string option) list" where
  "agent_samples d fresh a =
     (let l = [(''host'', Some (a_name a)), (''zone'', zone_name d (a_zone_id a))] in
      [(l, ''agent_up'', one_if (a_status a = St_online)),
       (l @ [(''version'', Some (str_or (a_version a) [])), (''arch'', Some (str_or (a_arch a) [])), (''os'', Some (str_or (a_os a) []))],
        ''agent_info'', Some ''1''),
       (l, ''agent_cert_expiry_timestamp_seconds'', map_option unix_time (a_cert_not_after a))] @
      map (Pair l) (agent_gauges (map_of fresh (a_id a))))"

definition balancer_metrics :: "(string \<times> string) list" where
  "balancer_metrics =
     [(''balancer_up'', ''1 when the balancer host answered its last reconcile''),
      (''balancer_in_sync'', ''1 when the balancer matches its desired configuration''),
      (''balancer_vip_owner'', ''1 when this balancer currently holds the zone VIP''),
      (''balancer_director'', ''1 when this balancer schedules queries (ipvs: the owner; dnsdist: always)''),
      (''balancer_backends_up'', ''backends the balancer considers up and not drained''),
      (''balancer_backends_total'', ''backends the balancer knows''),
      (''balancer_queries_per_second'', ''queries per second through the balancer, from the last two samples''),
      (''balancer_cache_hit_ratio'', ''dnsdist cache hits as a fraction of lookups''),
      (''balancer_backend_up'', ''1 when the balancer considers the backend up''),
      (''balancer_backend_queries_per_second'', ''queries per second the balancer reports for the backend'')]"

text \<open>A stored null is not replaced by the default of \<open>director\<close>, a missing entry is.\<close>

definition director_gauge :: "load_balancer \<Rightarrow> reading \<Rightarrow> string option" where
  "director_gauge b v =
     (case map_of v ''director'' of
        Some x \<Rightarrow> map_option show_number x
      | None \<Rightarrow> if b_mode b = Mode_dnsdist then Some ''1'' else None)"

definition balancer_gauges :: "load_balancer \<Rightarrow> metric_sample option \<Rightarrow> (string \<times> string option) list" where
  "balancer_gauges b row =
     (case row of
        None \<Rightarrow> []
      | Some r \<Rightarrow>
          [(''balancer_vip_owner'', gauge (m_values r) ''vip_owner''), (''balancer_director'', director_gauge b (m_values r)),
           (''balancer_backends_up'', gauge (m_values r) ''backends_up''), (''balancer_backends_total'', gauge (m_values r) ''backends_total''),
           (''balancer_queries_per_second'', gauge (m_values r) ''qps''), (''balancer_cache_hit_ratio'', gauge (m_values r) ''cache_hit'')])"

definition backend_samples :: "labels \<Rightarrow> lb_mode \<Rightarrow> json \<Rightarrow> (labels \<times> string \<times> string option) list" where
  "backend_samples l md x =
     (let bl = l @ [(''backend'', if jget x ''name'' = JNull then None else Some (entry_text (jget x ''name'')))] in
      [(bl, ''balancer_backend_up'', one_if (jget x ''state'' = JStr ''up'')),
       (bl, ''balancer_backend_queries_per_second'', json_value (jget x (if md = Mode_ipvs then ''in_pps'' else ''qps'')))])"

definition balancer_samples ::
  "db \<Rightarrow> (int \<times> metric_sample) list \<Rightarrow> load_balancer \<Rightarrow> (labels \<times> string \<times> string option) list option" where
  "balancer_samples d fresh b =
     (let l = [(''balancer'', Some (b_name b)), (''zone'', zone_name d (b_zone_id b)), (''mode'', Some (lb_mode_value (b_mode b))),
               (''host'', map_option a_name (get_agent d (b_agent_id b)))] in
      map_option (\<lambda>backends.
        map (Pair l) ([(''balancer_up'', one_if (b_status b = St_online)), (''balancer_in_sync'', one_if (b_in_sync b))] @
                      balancer_gauges b (map_of fresh (b_id b))) @
        concat (map (backend_samples l (b_mode b)) backends))
      (objects_of (balancer_documents b)))"

definition fleet_metrics :: "(string \<times> string) list" where
  "fleet_metrics =
     [(''fleet_servers'', ''servers managed''), (''fleet_servers_online'', ''servers online at the last reconcile''),
      (''fleet_agents_online'', ''host agents online at the last reconcile''),
      (''fleet_last_sync_timestamp_seconds'', ''when the last reconcile pass finished, as a Unix time'')]"

definition fleet_samples :: "db \<Rightarrow> int option \<Rightarrow> (labels \<times> string \<times> string option) list" where
  "fleet_samples d last_sync =
     map (Pair [])
       [(''fleet_servers'', Some (show_nat (length (db_servers d)))),
        (''fleet_servers_online'', Some (show_nat (length (filter (\<lambda>s. s_status s = St_online) (db_servers d))))),
        (''fleet_agents_online'', Some (show_nat (length (filter (\<lambda>a. a_status a = St_online) (db_agents d))))),
        (''fleet_last_sync_timestamp_seconds'', map_option unix_time last_sync)]"

definition family :: "(string \<times> string) list \<Rightarrow> (labels \<times> string \<times> string option) list \<Rightarrow> exposition \<Rightarrow> exposition" where
  "family metrics samples x =
     fold (\<lambda>s. sample (fst s) (snd s)) samples (fold (\<lambda>e. metric (''adguard_admin_'' @ fst e) (snd e)) metrics x)"

definition prometheus :: "settings \<Rightarrow> int \<Rightarrow> int option \<Rightarrow> db \<Rightarrow> exposition option" where
  "prometheus cfg now last_sync d =
     (let fresh = (\<lambda>kind. latest kind (Some (recent cfg now)) (db_samples d)) in
      map_option (\<lambda>lbs.
        family fleet_metrics (fleet_samples d last_sync)
          (family balancer_metrics (concat lbs)
            (family agent_metrics (concat (map (agent_samples d (fresh ''agent'')) (db_agents d)))
              (family server_metrics (concat (map (server_samples d now (fresh ''server'')) (db_servers d))) no_exposition))))
      (opt_list (map (balancer_samples d (fresh ''load_balancer'')) (db_balancers d))))"

definition scrape :: "settings \<Rightarrow> int \<Rightarrow> int option \<Rightarrow> string option \<Rightarrow> db \<Rightarrow> string http" where
  "scrape cfg now last_sync header d =
     (if cf_metrics_token cfg = [] then Inl (HTTPException 404 ''Not found'')
      else case token_ok cfg header of
        None \<Rightarrow> Inl server_error
      | Some False \<Rightarrow> Inl (HTTPException 401 ''Bearer token required'')
      | Some True \<Rightarrow>
          (case prometheus cfg now last_sync d of None \<Rightarrow> Inl server_error | Some x \<Rightarrow> Inr (exposition_text x)))"

text \<open>The handler of the series of a dashboard, with the servers it is for.\<close>

definition series_handler :: "int \<Rightarrow> string \<Rightarrow> int option \<Rightarrow> int option \<Rightarrow> int \<Rightarrow> db \<Rightarrow> series_view" where
  "series_handler off range_name zone_id server_id now d =
     series off ''server'' (map s_id (filter (in_selection zone_id server_id) (db_servers d))) range_name
       [''qps'', ''bps'', ''avg_ms''] now (db_samples d)"

section \<open>Facts about the text\<close>

text \<open>How a scraper reads a quoted value and a list of labels.\<close>

fun read_quoted :: "string \<Rightarrow> (string \<times> string) option" where
  "read_quoted [] = None"
| "read_quoted (c # cs) =
     (if c = dquote then Some ([], cs)
      else if c = backslash
      then (case cs of
          [] \<Rightarrow> None
        | e # es \<Rightarrow> map_option (\<lambda>(t, r). ((if e = CHR ''n'' then newline else e) # t, r)) (read_quoted es))
      else map_option (\<lambda>(t, r). (c # t, r)) (read_quoted cs))"

fun read_labels :: "nat \<Rightarrow> string \<Rightarrow> (string \<times> string) list option" where
  "read_labels 0 s = (if s = [] then Some [] else None)"
| "read_labels (Suc n) s =
     (case py_partition CHR ''='' s of
        (k, True, c # cs) \<Rightarrow>
          if c \<noteq> dquote then None
          else (case read_quoted cs of
             None \<Rightarrow> None
           | Some (v, r) \<Rightarrow>
               (case r of
                  [] \<Rightarrow> if n = 0 then Some [(k, v)] else None
                | e # es \<Rightarrow> if e = CHR '','' \<and> n \<noteq> 0 then map_option (Cons (k, v)) (read_labels n es) else None))
      | _ \<Rightarrow> None)"

definition present :: "labels \<Rightarrow> (string \<times> string) list" where
  "present labels = List.map_filter (\<lambda>(k, v). map_option (Pair k) v) labels"

lemmas marks = backslash_def dquote_def newline_def

lemma esc_simps [simp]:
  "esc [] = []"
  "esc (c # s) =
     (if c = backslash then [backslash, backslash] else if c = dquote then [backslash, dquote]
      else if c = newline then [backslash, CHR ''n''] else [c]) @ esc s"
  by (simp_all add: esc_def py_replace_char_def marks)

lemma read_quoted_esc: "read_quoted (esc v @ dquote # rest) = Some (v, rest)"
  by (induction v) (simp_all add: marks)

lemma esc_line: "newline \<notin> set (esc v)"
  by (induction v) (auto simp: marks)

definition pair_text :: "string \<times> string \<Rightarrow> string" where
  "pair_text e = fst e @ ''='' @ [dquote] @ esc (snd e) @ [dquote]"

lemma label_text_present: "label_text labels = py_join '','' (map pair_text (present labels))"
proof -
  have "List.map_filter (\<lambda>(k, v). map_option (\<lambda>t. k @ ''='' @ [dquote] @ esc t @ [dquote]) v) labels = map pair_text (present labels)"
    by (induction labels) (auto simp: present_def map_filter_simps pair_text_def split: option.split)
  then show ?thesis by (simp add: label_text_def)
qed

lemma read_labels_text:
  "\<forall>e \<in> set es. CHR ''='' \<notin> set (fst e) \<Longrightarrow> read_labels (length es) (py_join '','' (map pair_text es)) = Some es"
proof (induction es)
  case (Cons e es)
  have part: "py_partition CHR ''='' (pair_text e @ r) = (fst e, True, dquote # esc (snd e) @ dquote # r)" for r
    using Cons.prems py_partition_at [of "CHR ''=''" "fst e" "dquote # esc (snd e) @ dquote # r"] by (simp add: pair_text_def)
  show ?case
  proof (cases es)
    case Nil
    then show ?thesis using part [of "[]"] by (simp add: read_quoted_esc)
  next
    case (Cons f fs)
    have "read_labels (length es) (py_join '','' (map pair_text es)) = Some es" using Cons.IH Cons.prems by simp
    then show ?thesis using part [of "'','' @ py_join '','' (map pair_text es)"] Cons
      by (simp add: read_quoted_esc)
  qed
qed simp

lemma join_set: "c \<in> set (py_join sep xs) \<Longrightarrow> c \<in> set sep \<or> (\<exists>x \<in> set xs. c \<in> set x)"
  by (induction sep xs rule: py_join.induct) auto

lemma labels_line:
  assumes "\<forall>e \<in> set (present labels). newline \<notin> set (fst e)"
  shows "newline \<notin> set (label_text labels)"
proof
  assume "newline \<in> set (label_text labels)"
  then have "newline \<in> set '','' \<or> (\<exists>x \<in> set (map pair_text (present labels)). newline \<in> set x)"
    unfolding label_text_present by (rule join_set)
  then show False using assms esc_line by (auto simp: pair_text_def marks)
qed

section \<open>Properties\<close>

text \<open>
  C30. Labels are read back exactly, whatever the names of servers, zones, hosts and backends are: quotes, backslashes
  and line breaks in them neither end a value nor a line.
\<close>

theorem labels_read_back:
  assumes "\<forall>e \<in> set labels. CHR ''='' \<notin> set (fst e) \<and> newline \<notin> set (fst e)"
  shows "read_labels (length (present labels)) (label_text labels) = Some (present labels) \<and> newline \<notin> set (label_text labels)"
proof -
  have "fst ` set (present labels) \<subseteq> fst ` set labels"
    by (induction labels) (auto simp: present_def map_filter_simps split: option.split)
  then have "\<forall>e \<in> set (present labels). CHR ''='' \<notin> set (fst e) \<and> newline \<notin> set (fst e)" using assms by fastforce
  then show ?thesis using read_labels_text [of "present labels"] labels_line label_text_present by auto
qed

theorem labels_read_back_witness:
  "read_labels 1 (label_text (server_labels empty_db ((sample_server 1 [dquote, CHR ''a'', newline, backslash] [])))) =
     Some [(''server'', [dquote, CHR ''a'', newline, backslash])]"
proof -
  let ?l = "server_labels empty_db (sample_server 1 [dquote, CHR ''a'', newline, backslash] [])"
  have l: "?l = [(''server'', Some [dquote, CHR ''a'', newline, backslash]), (''zone'', None)]"
    by (simp add: server_labels_def zone_name_def sample_server_def)
  have "\<forall>e \<in> set ?l. CHR ''='' \<notin> set (fst e) \<and> newline \<notin> set (fst e)" unfolding l by (simp add: marks)
  from labels_read_back [OF this] show ?thesis unfolding l by (simp add: present_def map_filter_simps)
qed

text \<open>
  The scrape endpoint answers with data only to the configured token: the answer implies a non-empty token in the
  settings and a bearer header that carries it.
\<close>

theorem scrape_needs_token:
  assumes "scrape cfg now last_sync header d = Inr body"
  shows "\<exists>h scheme found value. header = Some h \<and> py_partition CHR '' '' h = (scheme, found, value) \<and> py_lower scheme = ''bearer'' \<and>
    py_strip value = cf_metrics_token cfg \<and> cf_metrics_token cfg \<noteq> []"
proof -
  have tok: "token_ok cfg header = Some True" and configured: "cf_metrics_token cfg \<noteq> []"
    using assms by (auto simp: scrape_def split: if_splits option.splits bool.splits)
  then obtain h where h: "header = Some h" by (cases header) (auto simp: token_ok_def str_or_def)
  obtain scheme found val where part: "py_partition CHR '' '' h = (scheme, found, val)" by (metis prod_cases3)
  have "str_or header [] = h" using h by (simp add: str_or_def)
  with tok part have "py_lower scheme = ''bearer''" "compare_digest (py_strip val) (cf_metrics_token cfg) = Some True"
    by (auto simp: token_ok_def split: if_splits)
  then show ?thesis using h part configured by (auto simp: compare_digest_def split: if_splits)
qed

theorem scrape_needs_token_witness:
  "\<exists>body. scrape (default_settings\<lparr>cf_metrics_token := ''s3cret''\<rparr>) 0 None (Some ''Bearer s3cret'') empty_db = Inr body \<and>
     cf_metrics_token (default_settings\<lparr>cf_metrics_token := ''s3cret''\<rparr>) \<noteq> []"
proof -
  let ?cfg = "default_settings\<lparr>cf_metrics_token := ''s3cret''\<rparr>"
  have "token_ok ?cfg (Some ''Bearer s3cret'') = Some True" by code_simp
  then have "\<exists>body. scrape ?cfg 0 None (Some ''Bearer s3cret'') empty_db = Inr body"
    by (simp add: scrape_def prometheus_def empty_db_def)
  then obtain body where "scrape ?cfg 0 None (Some ''Bearer s3cret'') empty_db = Inr body" by blast
  with scrape_needs_token [OF this] show ?thesis by blast
qed

text \<open>
  Two servers of one name in one zone are given the same series: the exposition holds the same name with the same
  labels twice.
\<close>

theorem same_name_series_collide:
  assumes "s_name s = s_name t" and "s_zone_id s = s_zone_id t" and "db_servers d = us @ s # vs @ t # ws"
  shows "\<exists>x y z e f. concat (map (server_samples d now fresh) (db_servers d)) = x @ e # y @ f # z \<and>
     fst e = fst f \<and> fst (snd e) = ''server_up'' \<and> fst (snd f) = ''server_up''"
proof -
  have head: "\<exists>r. server_samples d now fresh u = (server_labels d u, ''server_up'', one_if (s_status u = St_online)) # r" for u
    by (simp add: server_samples_def Let_def)
  obtain r1 r2 where "server_samples d now fresh s = (server_labels d s, ''server_up'', one_if (s_status s = St_online)) # r1"
    "server_samples d now fresh t = (server_labels d t, ''server_up'', one_if (s_status t = St_online)) # r2"
    using head by blast
  then have "concat (map (server_samples d now fresh) (db_servers d)) =
      concat (map (server_samples d now fresh) us) @ (server_labels d s, ''server_up'', one_if (s_status s = St_online)) #
      (r1 @ concat (map (server_samples d now fresh) vs)) @ (server_labels d t, ''server_up'', one_if (s_status t = St_online)) #
      (r2 @ concat (map (server_samples d now fresh) ws))"
    by (simp add: assms(3))
  moreover have "server_labels d s = server_labels d t" using assms(1,2) by (simp add: server_labels_def)
  ultimately show ?thesis by (metis fst_conv snd_conv)
qed

end
