(* ===== verification/Views.thy ===== *)
theory Views
  imports Versions Wire Balancers Provision Exposition Cycle
begin

text \<open>
  What the API lets an operator read (the read models of backend/app/schemas.py and the list and detail handlers of
  the routers) and what an operator may ask a host to do at once (logs, restarts, probes, credentials). The column
  \<open>created_at\<close>, which no code but the database sets, is an argument where rows are sorted by it.
\<close>

section \<open>Read models\<close>

record user_read =
  ur_id :: int
  ur_username :: string
  ur_email :: "string option"
  ur_role :: role
  ur_is_active :: bool
  ur_oidc_sub :: "string option"

definition user_view :: "user \<Rightarrow> user_read" where
  "user_view u =
     \<lparr>ur_id = u_id u, ur_username = u_username u, ur_email = u_email u, ur_role = u_role u, ur_is_active = u_is_active u,
      ur_oidc_sub = u_oidc_sub u\<rparr>"

record zone_read =
  zr_id :: int
  zr_name :: string
  zr_slug :: string
  zr_description :: "string option"
  zr_vip :: "string option"
  zr_vrrp_router_id :: "int option"
  zr_server_count :: nat
  zr_record_count :: nat
  zr_load_balancer_count :: nat

definition zone_view :: "db \<Rightarrow> zone \<Rightarrow> zone_read" where
  "zone_view d z =
     \<lparr>zr_id = z_id z, zr_name = z_name z, zr_slug = z_slug z, zr_description = z_description z, zr_vip = z_vip z,
      zr_vrrp_router_id = z_vrrp_router_id z,
      zr_server_count = length (filter (\<lambda>s. s_zone_id s = Some (z_id z)) (db_servers d)),
      zr_record_count = length (filter (\<lambda>r. z_id z \<in> set (r_zone_ids r)) (db_records d)),
      zr_load_balancer_count = length (filter (\<lambda>b. b_zone_id b = Some (z_id z)) (db_balancers d))\<rparr>"

text \<open>A JSON column of a read model is an object or null; anything else fails the validation of the response.\<close>

definition opt_object :: "json option \<Rightarrow> json option option" where
  "opt_object j =
     (case j of None \<Rightarrow> Some None | Some JNull \<Rightarrow> Some None | Some x \<Rightarrow> if is_obj x then Some (Some x) else None)"

record server_read =
  sx_id :: int
  sx_name :: string
  sx_url :: string
  sx_username :: "string option"
  sx_zone_id :: "int option"
  sx_enabled :: bool
  sx_prune :: bool
  sx_manage_upstreams :: bool
  sx_manage_filtering :: bool
  sx_auto_update :: bool
  sx_install_method :: "install_method option"
  sx_can_autoupdate :: bool
  sx_update_check_disabled :: bool
  sx_update_state :: update_state
  sx_update_attempted_at :: "int option"
  sx_update_completed_at :: "int option"
  sx_update_error :: "string option"
  sx_status :: sync_status
  sx_version :: "string option"
  sx_latest_version :: "string option"
  sx_update_available :: bool
  sx_last_seen :: "int option"
  sx_last_synced :: "int option"
  sx_last_error :: "string option"
  sx_cooldown_until :: "int option"
  sx_in_sync :: bool
  sx_agent_id :: "int option"
  sx_dns_port :: int
  sx_expose_web_ui :: bool
  sx_agent_state :: "json option"
  sx_lb_state :: "json option"

definition server_view :: "server \<Rightarrow> server_read option" where
  "server_view s =
     (case (opt_object (s_agent_state s), opt_object (s_lb_state s)) of
        (Some ast, Some lst) \<Rightarrow> Some
          \<lparr>sx_id = s_id s, sx_name = s_name s, sx_url = s_url s, sx_username = s_username s, sx_zone_id = s_zone_id s,
           sx_enabled = s_enabled s, sx_prune = s_prune s, sx_manage_upstreams = s_manage_upstreams s,
           sx_manage_filtering = s_manage_filtering s, sx_auto_update = s_auto_update s, sx_install_method = s_install_method s,
           sx_can_autoupdate = s_can_autoupdate s, sx_update_check_disabled = s_update_check_disabled s,
           sx_update_state = s_update_state s, sx_update_attempted_at = s_update_attempted_at s,
           sx_update_completed_at = s_update_completed_at s, sx_update_error = s_update_error s, sx_status = s_status s,
           sx_version = s_version s, sx_latest_version = s_latest_version s, sx_update_available = s_update_available s,
           sx_last_seen = s_last_seen s, sx_last_synced = s_last_synced s, sx_last_error = s_last_error s,
           sx_cooldown_until = s_cooldown_until s, sx_in_sync = s_in_sync s, sx_agent_id = s_agent_id s,
           sx_dns_port = s_dns_port s, sx_expose_web_ui = s_expose_web_ui s, sx_agent_state = ast, sx_lb_state = lst\<rparr>
      | _ \<Rightarrow> None)"

text \<open>One server on the page of updates.\<close>

record update_server_read =
  vr_id :: int
  vr_name :: string
  vr_zone_id :: "int option"
  vr_enabled :: bool
  vr_status :: sync_status
  vr_version :: "string option"
  vr_latest_version :: "string option"
  vr_update_available :: bool
  vr_auto_update :: bool
  vr_install_method :: "install_method option"
  vr_can_autoupdate :: bool
  vr_update_check_disabled :: bool
  vr_update_state :: update_state
  vr_update_attempted_at :: "int option"
  vr_update_completed_at :: "int option"
  vr_update_error :: "string option"
  vr_agent_id :: "int option"
  vr_skip_reason :: "skip option"

definition update_server_view :: "server \<times> skip option \<Rightarrow> update_server_read" where
  "update_server_view sk = (case sk of (s, k) \<Rightarrow>
     \<lparr>vr_id = s_id s, vr_name = s_name s, vr_zone_id = s_zone_id s, vr_enabled = s_enabled s, vr_status = s_status s,
      vr_version = s_version s, vr_latest_version = s_latest_version s, vr_update_available = s_update_available s,
      vr_auto_update = s_auto_update s, vr_install_method = s_install_method s, vr_can_autoupdate = s_can_autoupdate s,
      vr_update_check_disabled = s_update_check_disabled s, vr_update_state = s_update_state s,
      vr_update_attempted_at = s_update_attempted_at s, vr_update_completed_at = s_update_completed_at s,
      vr_update_error = s_update_error s, vr_agent_id = s_agent_id s, vr_skip_reason = k\<rparr>)"

record token_read =
  tr_id :: int
  tr_name :: string
  tr_zone_id :: "int option"
  tr_roles :: "string list"
  tr_method :: install_method
  tr_auto_update :: bool
  tr_connect_address :: "string option"
  tr_agent_port :: int
  tr_vrrp_priority :: int
  tr_expose_web_ui :: bool
  tr_lb_mode :: lb_mode
  tr_status :: provision_status
  tr_token :: string
  tr_command :: string
  tr_expires_at :: int
  tr_completed_at :: "int option"
  tr_server_id :: "int option"
  tr_agent_id :: "int option"
  tr_load_balancer_id :: "int option"

definition install_command :: "settings \<Rightarrow> string \<Rightarrow> string" where
  "install_command cfg token =
     ''curl -fsSL '' @ [CHR 0x22] @ py_rstrip_char (CHR ''/'') (cf_public_base_url cfg) @ ''/api/provision/'' @ token @
     ''/install.sh'' @ [CHR 0x22] @ '' | sudo bash''"

definition enrolment_view :: "settings \<Rightarrow> provisioning_token \<Rightarrow> token_read" where
  "enrolment_view cfg t =
     \<lparr>tr_id = t_id t, tr_name = t_name t, tr_zone_id = t_zone_id t,
      tr_roles = (if t_roles t = [] then [''adguard''] else t_roles t), tr_method = t_method t, tr_auto_update = t_auto_update t,
      tr_connect_address = t_connect_address t, tr_agent_port = t_agent_port t, tr_vrrp_priority = t_vrrp_priority t,
      tr_expose_web_ui = t_expose_web_ui t, tr_lb_mode = t_lb_mode t, tr_status = t_status t, tr_token = t_token t,
      tr_command = install_command cfg (t_token t), tr_expires_at = t_expires_at t, tr_completed_at = t_completed_at t,
      tr_server_id = t_server_id t, tr_agent_id = t_agent_id t, tr_load_balancer_id = t_load_balancer_id t\<rparr>"

record agent_read =
  ar_id :: int
  ar_name :: string
  ar_url :: string
  ar_zone_id :: "int option"
  ar_address :: string
  ar_port :: int
  ar_hostname :: "string option"
  ar_os :: "string option"
  ar_arch :: "string option"
  ar_version :: "string option"
  ar_status :: sync_status
  ar_last_seen :: "int option"
  ar_last_error :: "string option"
  ar_cert_not_after :: "int option"
  ar_roles :: "string list"
  ar_health :: "json option"
  ar_info :: "json option"
  ar_server_ids :: "int list"
  ar_load_balancer_ids :: "int list"
  ar_update_available :: bool
  ar_update_attempted_at :: "int option"
  ar_update_error :: "string option"

definition agent_view :: "manifest \<Rightarrow> db \<Rightarrow> agent \<Rightarrow> agent_read option" where
  "agent_view m d a =
     (let server_ids = map s_id (filter (\<lambda>s. s_agent_id s = Some (a_id a)) (db_servers d));
          lbs = filter (\<lambda>b. b_agent_id b = a_id a) (db_balancers d);
          shipped = shipped_version m in
      case (opt_object (a_health a), opt_object (a_info a)) of
        (Some health, Some info) \<Rightarrow> Some
          \<lparr>ar_id = a_id a, ar_name = a_name a, ar_url = a_url a, ar_zone_id = a_zone_id a, ar_address = a_address a,
           ar_port = a_port a, ar_hostname = a_hostname a, ar_os = a_os a, ar_arch = a_arch a, ar_version = a_version a,
           ar_status = a_status a, ar_last_seen = a_last_seen a, ar_last_error = a_last_error a,
           ar_cert_not_after = a_cert_not_after a,
           ar_roles = (if server_ids \<noteq> [] then [''adguard''] else []) @
             (if list_ex (\<lambda>b. b_mode b = Mode_dnsdist) lbs then [''dnsdist''] else []) @
             (if list_ex (\<lambda>b. b_mode b = Mode_ipvs) lbs then [''keepalived''] else []),
           ar_health = health, ar_info = info, ar_server_ids = server_ids, ar_load_balancer_ids = map b_id lbs,
           ar_update_available = (truthy_text shipped \<and> Some (py_strip (str_or (a_version a) [])) \<noteq> shipped),
           ar_update_attempted_at = a_update_attempted_at a, ar_update_error = a_update_error a\<rparr>
      | _ \<Rightarrow> None)"

text \<open>\<open>_num\<close>: what \<open>float\<close> makes of a value an agent reported; infinities and NaN pass.\<close>

fun num :: "json \<Rightarrow> float_value option" where
  "num (JInt i) = Some (Finite (of_int i))"
| "num (JNum r) = Some (Finite r)"
| "num (JBool b) = Some (Finite (if b then 1 else 0))"
| "num (JStr s) = (case float_of s of No_float \<Rightarrow> None | v \<Rightarrow> Some v)"
| "num _ = None"

record lb_live =
  ll_state :: "string option"
  ll_drained :: bool
  ll_qps :: "float_value option"
  ll_queries :: "float_value option"
  ll_latency_ms :: "float_value option"
  ll_outstanding :: "float_value option"
  ll_drop_rate :: "float_value option"
  ll_conns :: "float_value option"
  ll_active_conns :: "float_value option"
  ll_inactive_conns :: "float_value option"

definition lb_live_of :: "json \<Rightarrow> lb_live option" where
  "lb_live_of entry =
     map_option (\<lambda>state.
       \<lparr>ll_state = state, ll_drained = truthy (jget entry ''drained''), ll_qps = num (jget entry ''qps''),
        ll_queries = num (jget entry ''queries''), ll_latency_ms = num (jget entry ''latency_ms''),
        ll_outstanding = num (jget entry ''outstanding''), ll_drop_rate = num (jget entry ''drop_rate''),
        ll_conns = num (jget entry ''conns''), ll_active_conns = num (jget entry ''active_conns''),
        ll_inactive_conns = num (jget entry ''inactive_conns'')\<rparr>)
     (case jget entry ''state'' of JNull \<Rightarrow> Some None | JStr s \<Rightarrow> Some (Some s) | _ \<Rightarrow> None)"

record lb_backend_read =
  br_server_id :: int
  br_server_name :: string
  br_address :: string
  br_port :: int
  br_enabled :: bool
  br_weight :: int
  br_order :: int
  br_live :: "lb_live option"

definition lb_backend_view :: "json list \<Rightarrow> backend_target \<Rightarrow> lb_backend_read option" where
  "lb_backend_view rows t =
     map_option (\<lambda>live.
       \<lparr>br_server_id = bt_server_id t, br_server_name = bt_server_name t, br_address = bt_address t, br_port = bt_port t,
        br_enabled = bt_enabled t, br_weight = bt_weight t, br_order = bt_order t, br_live = live\<rparr>)
     (if truthy (live_entry rows (bt_name t)) then map_option Some (lb_live_of (live_entry rows (bt_name t))) else Some None)"

text \<open>The row, with the VIP of its zone and the backends.\<close>

record lb_read =
  br_row :: load_balancer
  br_vip :: "string option"
  br_backends :: "lb_backend_read list"

definition hashable_name :: "json \<Rightarrow> bool" where
  "hashable_name b = (case jget b ''name'' of JList _ \<Rightarrow> False | JObj _ \<Rightarrow> False | _ \<Rightarrow> True)"

definition balancer_rows :: "load_balancer \<Rightarrow> json list" where
  "balancer_rows lb = live_backends ((case b_state lb of None \<Rightarrow> JNull | Some j \<Rightarrow> j)) ((case b_keepalived_state lb of None \<Rightarrow> JNull | Some j \<Rightarrow> j))"

definition lb_view :: "settings \<Rightarrow> db \<Rightarrow> load_balancer \<Rightarrow> lb_read option" where
  "lb_view cfg d lb =
     (case (opt_object (b_state lb), opt_object (b_keepalived_state lb),
            opt_list (map (lb_backend_view (balancer_rows lb)) (desired_backends cfg d lb))) of
        (Some _, Some _, Some backends) \<Rightarrow>
          if list_all hashable_name (filter is_obj (balancer_rows lb))
          then Some \<lparr>br_row = lb, br_vip = Option.bind (Option.bind (b_zone_id lb) (get_zone d)) z_vip, br_backends = backends\<rparr>
          else None
      | _ \<Rightarrow> None)"


section \<open>The handlers that read\<close>

text \<open>A response that fails its validation is a status 500.\<close>

definition validated :: "'a option \<Rightarrow> 'a http" where
  "validated x = (case x of None \<Rightarrow> Inl server_error | Some y \<Rightarrow> Inr y)"

definition matches :: "'a option \<Rightarrow> 'a \<Rightarrow> bool" where
  "matches filter_value v = (case filter_value of None \<Rightarrow> True | Some x \<Rightarrow> v = x)"

text \<open>The selection of the four scoped lists: scope and server in the query, the zone afterwards.\<close>

definition scoped_rows :: "config_scope option \<Rightarrow> int option \<Rightarrow> int option \<Rightarrow> 'm scoped_scheme list \<Rightarrow> 'm scoped_scheme list" where
  "scoped_rows scope zone_id server_id rows =
     filter (\<lambda>c. case zone_id of None \<Rightarrow> True | Some z \<Rightarrow> z \<in> set (c_zone_ids c))
       (filter (\<lambda>c. matches scope (c_scope c) \<and> (case server_id of None \<Rightarrow> True | Some i \<Rightarrow> c_server_id c = Some i)) rows)"

definition list_upstreams ::
  "dns_server_kind option \<Rightarrow> config_scope option \<Rightarrow> int option \<Rightarrow> int option \<Rightarrow> db \<Rightarrow> upstream list" where
  "list_upstreams kind scope zone_id server_id d =
     scoped_rows scope zone_id server_id (filter (\<lambda>u. matches kind (up_kind u)) (db_upstreams d))"

definition list_forward_zones :: "config_scope option \<Rightarrow> int option \<Rightarrow> int option \<Rightarrow> db \<Rightarrow> forward_zone list" where
  "list_forward_zones scope zone_id server_id d = scoped_rows scope zone_id server_id (db_forward_zones d)"

definition list_filters :: "filter_kind option \<Rightarrow> config_scope option \<Rightarrow> int option \<Rightarrow> int option \<Rightarrow> db \<Rightarrow> filter_list list" where
  "list_filters kind scope zone_id server_id d =
     scoped_rows scope zone_id server_id (filter (\<lambda>f. matches kind (fl_kind f)) (db_filter_lists d))"

definition list_blocked_services :: "config_scope option \<Rightarrow> int option \<Rightarrow> int option \<Rightarrow> db \<Rightarrow> blocked_service list" where
  "list_blocked_services scope zone_id server_id d = scoped_rows scope zone_id server_id (db_blocked_services d)"

definition list_records :: "record_scope option \<Rightarrow> int option \<Rightarrow> db \<Rightarrow> dns_record list" where
  "list_records scope zone_id d =
     filter (\<lambda>r. case zone_id of None \<Rightarrow> True | Some z \<Rightarrow> z \<in> set (r_zone_ids r))
       (sort_key r_domain (filter (\<lambda>r. matches scope (r_scope r)) (db_records d)))"

definition list_users :: "db \<Rightarrow> user_read list" where
  "list_users d = map user_view (db_users d)"

definition list_zones :: "db \<Rightarrow> zone_read list" where
  "list_zones d = map (zone_view d) (db_zones d)"

definition list_servers :: "db \<Rightarrow> server_read list http" where
  "list_servers d = validated (opt_list (map server_view (db_servers d)))"

definition list_tokens :: "settings \<Rightarrow> (int \<Rightarrow> int) \<Rightarrow> db \<Rightarrow> token_read list" where
  "list_tokens cfg created_at d = map (enrolment_view cfg) (sort_key (\<lambda>t. - created_at (t_id t)) (db_tokens d))"

definition list_agents :: "manifest \<Rightarrow> db \<Rightarrow> agent_read list http" where
  "list_agents m d = validated (opt_list (map (agent_view m d) (sort_key a_name (db_agents d))))"

definition get_agent_read :: "manifest \<Rightarrow> int \<Rightarrow> db \<Rightarrow> agent_read http" where
  "get_agent_read m i d = (case get_agent d i of None \<Rightarrow> Inl host_missing | Some a \<Rightarrow> validated (agent_view m d a))"

definition list_load_balancers :: "settings \<Rightarrow> db \<Rightarrow> lb_read list http" where
  "list_load_balancers cfg d = validated (opt_list (map (lb_view cfg d) (sort_key b_name (db_balancers d))))"

definition get_load_balancer :: "settings \<Rightarrow> int \<Rightarrow> db \<Rightarrow> lb_read http" where
  "get_load_balancer cfg i d = (case get_balancer d i of None \<Rightarrow> Inl balancer_missing | Some b \<Rightarrow> validated (lb_view cfg d b))"

record stats_view =
  sv_zones :: nat
  sv_servers :: nat
  sv_servers_online :: nat
  sv_servers_in_sync :: nat
  sv_agents :: nat
  sv_agents_online :: nat
  sv_load_balancers :: nat
  sv_load_balancers_in_sync :: nat
  sv_records :: nat
  sv_records_global :: nat
  sv_users :: nat
  sv_last_sync :: "int option"

definition count_of :: "('a \<Rightarrow> bool) \<Rightarrow> 'a list \<Rightarrow> nat" where
  "count_of P xs = length (filter P xs)"

definition stats :: "int option \<Rightarrow> db \<Rightarrow> stats_view" where
  "stats last_run d =
     \<lparr>sv_zones = length (db_zones d), sv_servers = length (db_servers d),
      sv_servers_online = count_of (\<lambda>s. s_status s = St_online) (db_servers d),
      sv_servers_in_sync = count_of s_in_sync (db_servers d), sv_agents = length (db_agents d),
      sv_agents_online = count_of (\<lambda>a. a_status a = St_online) (db_agents d),
      sv_load_balancers = length (db_balancers d), sv_load_balancers_in_sync = count_of b_in_sync (db_balancers d),
      sv_records = length (db_records d), sv_records_global = count_of (\<lambda>r. r_scope r = Rec_global) (db_records d),
      sv_users = length (db_users d), sv_last_sync = last_run\<rparr>"

section \<open>Asking a host or an instance\<close>

text \<open>An answer of a host that is read as an object: null stands for the empty one; \<open>None\<close> where \<open>get\<close> raises.\<close>

definition host_object :: "json \<Rightarrow> json option" where
  "host_object j = (if \<not> truthy j then Some (JObj []) else if is_obj j then Some j else None)"

definition reply_lines :: "json \<Rightarrow> exn + string list" where
  "reply_lines data =
     (case Option.bind (host_object data) (\<lambda>o'.
             case jor (jget o' ''lines'') (JList []) of
               JList xs \<Rightarrow> opt_list (map (\<lambda>x. case x of JStr s \<Rightarrow> Some s | _ \<Rightarrow> None) xs)
             | JStr s \<Rightarrow> Some (map (\<lambda>c. [c]) s)
             | JObj ps \<Rightarrow> Some (map fst ps)
             | _ \<Rightarrow> None) of
        None \<Rightarrow> Inl (PyError ''unexpected reply'')
      | Some ls \<Rightarrow> Inr ls)"

text \<open>\<open>AgentServiceResult\<close>; a message that is not text fails its validation.\<close>

definition service_result :: "json \<Rightarrow> exn + bool \<times> string" where
  "service_result data =
     (case host_object data of
        None \<Rightarrow> Inl (PyError ''unexpected reply'')
      | Some o' \<Rightarrow>
          (case jor (jget o' ''message'') (JStr []) of
             JStr msg \<Rightarrow> Inr (truthy (jget_def o' ''ok'' (JBool True)), msg)
           | _ \<Rightarrow> Inl (PyError ''unexpected reply'')))"

definition io_of_sum :: "exn + 'a \<Rightarrow> ('w, 'a) io" where
  "io_of_sum r = (\<lambda>w. (r, w))"

definition host_services :: "string list" where
  "host_services = [''adguard'', ''dnsdist'', ''keepalived'', ''agent'']"

definition agent_logs ::
  "pki \<Rightarrow> 's wenv \<Rightarrow> int \<Rightarrow> string \<Rightarrow> int \<Rightarrow> db \<Rightarrow> (call, 's) world \<Rightarrow> string list http \<times> (call, 's) world" where
  "agent_logs K e i service lines d w =
     (if service \<notin> set host_services then (Inl (HTTPException 400 (''service must be one of '' @ py_join '', '' host_services)), w)
      else case get_agent d i of
        None \<Rightarrow> (Inl host_missing, w)
      | Some a \<Rightarrow> ask_host K (\<lambda>x. server_error) (a_url a)
          (io_bind (call_io e (AT_logs service lines)) (\<lambda>data. io_of_sum (reply_lines data))) w)"

definition restart_service ::
  "pki \<Rightarrow> 's wenv \<Rightarrow> int \<Rightarrow> string \<Rightarrow> db \<Rightarrow> (call, 's) world \<Rightarrow> (bool \<times> string) http \<times> (call, 's) world" where
  "restart_service K e i service d w =
     (if service \<notin> {''adguard'', ''dnsdist'', ''keepalived''}
      then (Inl (HTTPException 400 ''service must be adguard, dnsdist or keepalived''), w)
      else case get_agent d i of
        None \<Rightarrow> (Inl host_missing, w)
      | Some a \<Rightarrow> ask_host K (\<lambda>x. server_error) (a_url a)
          (io_bind (call_io e (AT_restart service)) (\<lambda>data. io_of_sum (service_result data))) w)"

definition no_balancer_host :: http_error where
  "no_balancer_host = HTTPException 409 (''This balancer'' @ apostrophe @ ''s host no longer exists'')"

text \<open>The balancer and its host.\<close>

definition balancer_host :: "db \<Rightarrow> int \<Rightarrow> (load_balancer \<times> agent) http" where
  "balancer_host d i =
     (case get_balancer d i of
        None \<Rightarrow> Inl balancer_missing
      | Some lb \<Rightarrow> (case get_agent d (b_agent_id lb) of None \<Rightarrow> Inl no_balancer_host | Some a \<Rightarrow> Inr (lb, a)))"

definition restart_balancer ::
  "pki \<Rightarrow> 's wenv \<Rightarrow> int \<Rightarrow> db \<Rightarrow> (call, 's) world \<Rightarrow> (bool \<times> string) http \<times> (call, 's) world" where
  "restart_balancer K e i d w =
     (case balancer_host d i of
        Inl x \<Rightarrow> (Inl x, w)
      | Inr (lb, a) \<Rightarrow> ask_host K (\<lambda>x. server_error) (a_url a)
          (io_bind (call_io e (AT_restart (if b_mode lb = Mode_ipvs then ''keepalived'' else ''dnsdist'')))
             (\<lambda>data. io_of_sum (service_result data))) w)"

text \<open>\<open>live_state\<close>: what dnsdist and keepalived report now.\<close>

definition live_reads :: "'s wenv \<Rightarrow> lb_mode \<Rightarrow> ((call, 's) world, json \<times> json) io" where
  "live_reads e mode =
     (if mode = Mode_ipvs then io_bind (call_io e (AT_get_role ''keepalived'')) (\<lambda>k. io_return (JNull, k))
      else io_bind (call_io e (AT_get_role ''dnsdist'')) (\<lambda>ds.
        io_bind (io_except is_agent_error (call_io e (AT_get_role ''keepalived'')) (\<lambda>x. io_return JNull)) (\<lambda>k. io_return (ds, k))))"

definition live_state :: "pki \<Rightarrow> 's wenv \<Rightarrow> int \<Rightarrow> db \<Rightarrow> (call, 's) world \<Rightarrow> (json \<times> json) http \<times> (call, 's) world" where
  "live_state K e i d w =
     (case balancer_host d i of
        Inl x \<Rightarrow> (Inl x, w)
      | Inr (lb, a) \<Rightarrow>
          (case ask_host K (\<lambda>x. server_error) (a_url a) (live_reads e (b_mode lb)) w of
             (Inl x, w') \<Rightarrow> (Inl x, w')
           | (Inr (ds, k), w') \<Rightarrow>
               (if opt_object (Some ds) = None \<or> opt_object (Some k) = None then Inl server_error else Inr (ds, k), w')))"


text \<open>
  The three handlers that run a pass over a host or a balancer at once: the pass reads \<open>d\<close>, \<open>d'\<close> is the database
  it writes to, and what an exception leaves is \<open>d'\<close>.
\<close>

definition refresh_agent ::
  "fernet \<Rightarrow> settings \<Rightarrow> manifest \<Rightarrow> pki \<Rightarrow> 's wenv \<Rightarrow> (int \<Rightarrow> string option) \<Rightarrow> int \<Rightarrow> int \<Rightarrow> db \<Rightarrow> db \<Rightarrow> (call, 's) world
   \<Rightarrow> (agent_read http \<times> db) \<times> (call, 's) world" where
  "refresh_agent F cfg m K e addr now i d d' w =
     (case get_agent d i of
        None \<Rightarrow> ((Inl host_missing, d'), w)
      | Some _ \<Rightarrow>
          (case reconcile_agent F cfg m K e addr now i d d' w of
             (Inl x, w') \<Rightarrow> ((Inl server_error, d'), w')
           | (Inr (_, d''), w') \<Rightarrow> ((get_agent_read m i d'', d''), w')))"

definition sync_now ::
  "fernet \<Rightarrow> settings \<Rightarrow> string \<Rightarrow> pki \<Rightarrow> 's wenv \<Rightarrow> int \<Rightarrow> int \<Rightarrow> db \<Rightarrow> (db \<Rightarrow> db) \<Rightarrow> (call, 's) world
   \<Rightarrow> (lb_read http \<times> db) \<times> (call, 's) world" where
  "sync_now F cfg tok K e now i d meanwhile w =
     (case get_balancer d i of
        None \<Rightarrow> ((Inl balancer_missing, d), w)
      | Some _ \<Rightarrow>
          (case reconcile_load_balancer F cfg tok K e now i d meanwhile w of
             (Inl x, w') \<Rightarrow> ((Inl server_error, d), w')
           | (Inr (_, d''), w') \<Rightarrow> ((get_load_balancer cfg i d'', d''), w')))"

text \<open>\<open>update_agent_now\<close> of hosts.py leaves the outcome in the row and the handler reads it from the pass.\<close>

definition update_agent_binary ::
  "fernet \<Rightarrow> settings \<Rightarrow> manifest \<Rightarrow> pki \<Rightarrow> 's wenv \<Rightarrow> int \<Rightarrow> int \<Rightarrow> db \<Rightarrow> db \<Rightarrow> (call, 's) world
   \<Rightarrow> (agent_read http \<times> db) \<times> (call, 's) world" where
  "update_agent_binary F cfg m K e now i d d' w =
     (case (get_agent d i, agent_plan_of F cfg d i) of
        (Some _, Some plan) \<Rightarrow>
          (case update_agent_now cfg m K e plan w of
             (Inl x, w') \<Rightarrow> ((Inl server_error, d'), w')
           | (Inr u, w') \<Rightarrow>
               (case record_agent K now u d' of
                  Inl x \<Rightarrow> ((Inl server_error, d'), w')
                | Inr d'' \<Rightarrow>
                    ((case get_agent d'' i of
                        None \<Rightarrow> Inl host_missing
                      | Some a \<Rightarrow>
                          if truthy_text (ao_error u) then Inl (HTTPException 502 (the (ao_error u))) else validated (agent_view m d'' a), d''), w')))
      | _ \<Rightarrow> ((Inl host_missing, d'), w))"

text \<open>
  The buttons of routers/sync.py: a forced cycle over one server or the fleet. Only a full one that is not a dry run is
  remembered; the collection of samples that follows it is \<open>collect_all\<close> of Telemetry.
\<close>

definition sync_report :: "sync_result manager \<Rightarrow> int option \<times> sync_result list" where
  "sync_report M = (mg_last_run M, mg_last_results M)"

definition run_sync ::
  "fernet \<Rightarrow> settings \<Rightarrow> manifest \<Rightarrow> pki \<Rightarrow> 's outside \<Rightarrow> int list \<Rightarrow> (int list \<Rightarrow> fan_event list) \<Rightarrow> int
   \<Rightarrow> bool \<Rightarrow> int option \<Rightarrow> db \<Rightarrow> sync_result manager \<Rightarrow> sync_result list \<times> db \<times> sync_result manager" where
  "run_sync F cfg m K G busy evs done_at dry only d M =
     (case reconcile_all F cfg m K G busy evs dry only True d of
        (results, d') \<Rightarrow> (results, d', if \<not> dry \<and> only = None then record_pass done_at results M else M))"

text \<open>The stored login of a server, and the probe that changes nothing. \<open>build\<close> is the exception of the client's constructor.\<close>

record credentials =
  cr_username :: "string option"
  cr_password :: "string option"
  cr_has_password :: bool
  cr_url :: string

definition reveal_credentials :: "fernet \<Rightarrow> settings \<Rightarrow> int \<Rightarrow> db \<Rightarrow> credentials http" where
  "reveal_credentials F cfg i d =
     (case get_server d i of
        None \<Rightarrow> Inl server_not_found
      | Some s \<Rightarrow> Inr \<lparr>cr_username = s_username s, cr_password = decrypt_secret F cfg (s_password_enc s),
                       cr_has_password = truthy_text (s_password_enc s), cr_url = s_url s\<rparr>)"

datatype probe = Probe_ok json json nat | Probe_failed string

definition probe_reads :: "'s wenv \<Rightarrow> ((call, 's) world, probe) io" where
  "probe_reads e =
     io_except is_adguard_error
       (io_bind (call_io e AG_status) (\<lambda>st.
        io_bind (list_rewrites e) (\<lambda>rewrites.
          if is_obj st then io_return (Probe_ok (jget st ''version'') (jget st ''running'') (length rewrites))
          else io_raise (PyError ''not an object''))))
       (\<lambda>x. io_return (Probe_failed (exn_str x)))"

definition test_connection :: "exn option \<Rightarrow> 's wenv \<Rightarrow> int \<Rightarrow> db \<Rightarrow> (call, 's) world \<Rightarrow> probe http \<times> (call, 's) world" where
  "test_connection build e i d w =
     (case get_server d i of
        None \<Rightarrow> (Inl server_not_found, w)
      | Some s \<Rightarrow>
          if build \<noteq> None then (Inl server_error, w)
          else case io_finally (probe_reads e) (log_call AG_close) w of
                 (Inl x, w') \<Rightarrow> (Inl server_error, w')
               | (Inr p, w') \<Rightarrow> (Inr p, w'))"

section \<open>The reads behind their roles\<close>

datatype api_get =
    Get_users
  | Get_zones
  | Get_servers
  | Get_records "record_scope option" "int option"
  | Get_upstreams "dns_server_kind option" "config_scope option" "int option" "int option"
  | Get_forward_zones "config_scope option" "int option" "int option"
  | Get_filters "filter_kind option" "config_scope option" "int option" "int option"
  | Get_blocked_services "config_scope option" "int option" "int option"
  | Get_tokens
  | Get_agents
  | Get_agent int
  | Get_balancers
  | Get_balancer int
  | Get_updates
  | Get_stats

datatype api_answer =
    Users "user_read list"
  | Zones "zone_read list"
  | Servers "server_read list"
  | Records "dns_record list"
  | Upstreams "upstream list"
  | Forward_zones "forward_zone list"
  | Filters "filter_list list"
  | Blocked_services "blocked_service list"
  | Tokens "token_read list"
  | Agents "agent_read list"
  | One_agent agent_read
  | Balancers "lb_read list"
  | One_balancer lb_read
  | Updates "update_server_read list"
  | Stats stats_view

fun minimum_role :: "api_get \<Rightarrow> role" where
  "minimum_role Get_users = Role_admin"
| "minimum_role Get_tokens = Role_editor"
| "minimum_role _ = Role_viewer"

definition as_answer :: "('a \<Rightarrow> api_answer) \<Rightarrow> 'a http \<Rightarrow> api_answer http" where
  "as_answer f r = (case r of Inl x \<Rightarrow> Inl x | Inr a \<Rightarrow> Inr (f a))"

text \<open>What the answers depend on besides the database.\<close>

record reader =
  rd_settings :: settings
  rd_manifest :: manifest
  rd_created_at :: "int \<Rightarrow> int"
  rd_now :: int
  rd_last_sync :: "int option"

fun answer :: "reader \<Rightarrow> db \<Rightarrow> api_get \<Rightarrow> api_answer http" where
  "answer R d Get_users = Inr (Users (list_users d))"
| "answer R d Get_zones = Inr (Zones (list_zones d))"
| "answer R d Get_servers = as_answer Servers (list_servers d)"
| "answer R d (Get_records scope z) = Inr (Records (list_records scope z d))"
| "answer R d (Get_upstreams kind scope z s) = Inr (Upstreams (list_upstreams kind scope z s d))"
| "answer R d (Get_forward_zones scope z s) = Inr (Forward_zones (list_forward_zones scope z s d))"
| "answer R d (Get_filters kind scope z s) = Inr (Filters (list_filters kind scope z s d))"
| "answer R d (Get_blocked_services scope z s) = Inr (Blocked_services (list_blocked_services scope z s d))"
| "answer R d Get_tokens = Inr (Tokens (list_tokens (rd_settings R) (rd_created_at R) d))"
| "answer R d Get_agents = as_answer Agents (list_agents (rd_manifest R) d)"
| "answer R d (Get_agent i) = as_answer One_agent (get_agent_read (rd_manifest R) i d)"
| "answer R d Get_balancers = as_answer Balancers (list_load_balancers (rd_settings R) d)"
| "answer R d (Get_balancer i) = as_answer One_balancer (get_load_balancer (rd_settings R) i d)"
| "answer R d Get_updates =
     Inr (Updates (map (\<lambda>s. update_server_view (s, skip_reason (rd_settings R) s (rd_now R))) (sort_key s_name (db_servers d))))"
| "answer R d Get_stats = Inr (Stats (stats (rd_last_sync R) d))"

definition api_read :: "'t jwt \<Rightarrow> reader \<Rightarrow> 't \<Rightarrow> api_get \<Rightarrow> db \<Rightarrow> api_answer http" where
  "api_read J R token q d =
     (case get_current_user J (rd_now R) token d of
        Inl x \<Rightarrow> Inl x
      | Inr u \<Rightarrow> (case require_role (minimum_role q) u of Inl x \<Rightarrow> Inl x | Inr _ \<Rightarrow> answer R d q))"

section \<open>What is kept from a reader\<close>

text \<open>The columns nobody reads back: password hashes, stored passwords and keys, certificates, the VRRP secret.\<close>

definition blank_server :: "server \<Rightarrow> server" where
  "blank_server s = s\<lparr>s_password_enc := None, s_tls_cert := None, s_stats_snapshot := None\<rparr>"

definition blank_zone :: "zone \<Rightarrow> zone" where
  "blank_zone z = z\<lparr>z_vrrp_auth_enc := None\<rparr>"

definition blank_agent :: "agent \<Rightarrow> agent" where
  "blank_agent a = a\<lparr>a_cert_pem := []\<rparr>"

definition blank_token :: "provisioning_token \<Rightarrow> provisioning_token" where
  "blank_token t = t\<lparr>t_admin_password_enc := None, t_tls_cert := None, t_tls_key_enc := None\<rparr>"

definition blank_user :: "role \<Rightarrow> user \<Rightarrow> user" where
  "blank_user r u =
     (if r = Role_admin then u\<lparr>u_hashed_password := None\<rparr>
      else u\<lparr>u_hashed_password := None, u_username := [], u_email := None, u_oidc_sub := None\<rparr>)"

text \<open>The database as far as a reader of role \<open>r\<close> may know it.\<close>

definition visible :: "role \<Rightarrow> db \<Rightarrow> db" where
  "visible r d =
     d\<lparr>db_users := map (blank_user r) (db_users d), db_zones := map blank_zone (db_zones d),
       db_servers := map blank_server (db_servers d), db_agents := map blank_agent (db_agents d),
       db_tokens := (if r = Role_viewer then [] else map blank_token (db_tokens d)), db_samples := []\<rparr>"


lemma row_get_map: "(\<And>x. key (f x) = key x) \<Longrightarrow> row_get key i (map f xs) = map_option f (row_get key i xs)"
  by (induction xs) (simp_all add: row_get_def)

lemma insort_key_map: "(\<And>x. k (f x) = k x) \<Longrightarrow> insort_key k (f x) (map f xs) = map f (insort_key k x xs)"
  by (induction xs) simp_all

lemma sort_key_map: "(\<And>x. k (f x) = k x) \<Longrightarrow> sort_key k (map f xs) = map f (sort_key k xs)"
  by (induction xs) (simp_all add: insort_key_map)

lemma map_filter_map: "List.map_filter g (map f xs) = List.map_filter (g \<circ> f) xs"
  by (induction xs) (auto simp: List.map_filter_simps split: option.split)

lemma map_filter_cong: "(\<And>x. f x = g x) \<Longrightarrow> List.map_filter f xs = List.map_filter g xs"
  by (simp add: List.map_filter_def cong: filter_cong map_cong)

lemma filter_map_same: "(\<And>x. P (f x) = P x) \<Longrightarrow> filter P (map f xs) = map f (filter P xs)"
  by (simp add: filter_map o_def)

lemma blank_simps [simp]:
  "s_id (blank_server s) = s_id s" "s_name (blank_server s) = s_name s" "s_zone_id (blank_server s) = s_zone_id s"
  "s_enabled (blank_server s) = s_enabled s" "s_agent_id (blank_server s) = s_agent_id s" "s_url (blank_server s) = s_url s"
  "s_dns_port (blank_server s) = s_dns_port s" "s_status (blank_server s) = s_status s" "s_in_sync (blank_server s) = s_in_sync s"
  "z_id (blank_zone z) = z_id z" "z_vip (blank_zone z) = z_vip z"
  "a_id (blank_agent a) = a_id a" "a_name (blank_agent a) = a_name a" "a_address (blank_agent a) = a_address a"
  "a_status (blank_agent a) = a_status a" "t_id (blank_token t) = t_id t"
  "u_id (blank_user r u) = u_id u" "u_role (blank_user r u) = u_role u" "u_is_active (blank_user r u) = u_is_active u"
  by (simp_all add: blank_server_def blank_zone_def blank_agent_def blank_token_def blank_user_def)

lemma visible_tables [simp]:
  "db_servers (visible r d) = map blank_server (db_servers d)" "db_zones (visible r d) = map blank_zone (db_zones d)"
  "db_agents (visible r d) = map blank_agent (db_agents d)" "db_users (visible r d) = map (blank_user r) (db_users d)"
  "db_records (visible r d) = db_records d" "db_upstreams (visible r d) = db_upstreams d"
  "db_forward_zones (visible r d) = db_forward_zones d" "db_filter_lists (visible r d) = db_filter_lists d"
  "db_blocked_services (visible r d) = db_blocked_services d" "db_balancers (visible r d) = db_balancers d"
  "db_backends (visible r d) = db_backends d"
  "db_tokens (visible r d) = (if r = Role_viewer then [] else map blank_token (db_tokens d))"
  by (simp_all add: visible_def)

lemma view_blank [simp]:
  "zone_view (visible r d) (blank_zone z) = zone_view d z" "server_view (blank_server s) = server_view s"
  "enrolment_view cfg (blank_token t) = enrolment_view cfg t" "user_view (blank_user Role_admin u) = user_view u"
  by (simp_all add: zone_view_def blank_zone_def server_view_def blank_server_def enrolment_view_def blank_token_def user_view_def blank_user_def
      filter_map o_def split: option.split)

lemma backend_address_visible: "backend_address cfg (visible r d) lb (blank_server s) = backend_address cfg d lb s"
  by (simp add: backend_address_def row_get_map zone_has_balancer_on_agent_def split: option.split)

lemma target_of_visible: "target_of cfg (visible r d) lb (blank_server s) = target_of cfg d lb s"
  by (simp add: target_of_def backend_address_visible override_for_def split: option.split)

lemma desired_backends_visible: "desired_backends cfg (visible r d) lb = desired_backends cfg d lb"
  by (simp add: desired_backends_def filter_map_same sort_key_map map_filter_map o_def target_of_visible split: option.split)

lemma lb_view_visible: "lb_view cfg (visible r d) lb = lb_view cfg d lb"
  by (cases "b_zone_id lb") (simp_all add: lb_view_def desired_backends_visible row_get_map option.map_comp o_def Option.bind_map_option
      split: option.split)

lemma lb_view_visible_fun: "lb_view cfg (visible r d) = lb_view cfg d"
  by (rule ext) (rule lb_view_visible)

lemma agent_view_visible: "agent_view m (visible r d) (blank_agent a) = agent_view m d a"
  by (simp add: agent_view_def filter_map_same o_def blank_agent_def Let_def split: option.split)


lemma update_view_blank: "update_server_view (blank_server s, skip_reason cfg (blank_server s) now) = update_server_view (s, skip_reason cfg s now)"
  by (simp add: update_server_view_def blank_server_def skip_reason_def Let_def split: option.split)

lemma list_servers_visible: "list_servers (visible r d) = list_servers d"
  by (simp add: list_servers_def o_def)

lemma list_agents_visible: "list_agents m (visible r d) = list_agents m d"
  by (simp add: list_agents_def sort_key_map o_def agent_view_visible)

lemma get_agent_visible: "get_agent_read m i (visible r d) = get_agent_read m i d"
  by (simp add: get_agent_read_def row_get_map agent_view_visible split: option.split)

lemma balancers_visible:
  "list_load_balancers cfg (visible r d) = list_load_balancers cfg d" "get_load_balancer cfg i (visible r d) = get_load_balancer cfg i d"
  by (simp_all add: list_load_balancers_def get_load_balancer_def lb_view_visible_fun lb_view_visible split: option.split)

lemma stats_visible: "stats t (visible r d) = stats t d"
  by (simp add: stats_def count_of_def filter_map o_def)

lemma answer_visible:
  assumes "role_rank (minimum_role q) \<le> role_rank r"
  shows "answer R (visible r d) q = answer R d q"
proof (cases q)
  case Get_users
  then have "r = Role_admin" using assms by (cases r) simp_all
  then show ?thesis using Get_users by (simp add: list_users_def o_def)
next
  case Get_tokens
  then have "r \<noteq> Role_viewer" using assms by auto
  then show ?thesis using Get_tokens by (simp add: list_tokens_def sort_key_map o_def)
next
  case Get_updates
  then show ?thesis by (simp add: sort_key_map o_def update_view_blank)
next
  case Get_zones
  then show ?thesis by (simp add: list_zones_def o_def)
qed (simp_all add: list_servers_visible list_agents_visible get_agent_visible balancers_visible stats_visible list_records_def list_upstreams_def
      list_forward_zones_def list_filters_def list_blocked_services_def)

lemma current_user_visible:
  "get_current_user J now token (visible r d) = (case get_current_user J now token d of Inl x \<Rightarrow> Inl x | Inr u \<Rightarrow> Inr (blank_user r u))"
  by (simp add: get_current_user_def row_get_map split: option.split json.split)


text \<open>A witness: two databases that differ in a hash, a key and a token look the same to a viewer.\<close>

definition plain_reader :: reader where
  "plain_reader = \<lparr>rd_settings = default_settings, rd_manifest = \<lparr>mf_version = [], mf_files = []\<rparr>, rd_created_at = id, rd_now = 0, rd_last_sync = None\<rparr>"

definition viewer_only :: "string option \<Rightarrow> string option \<Rightarrow> db" where
  "viewer_only h v =
     empty_db\<lparr>db_users := [\<lparr>u_id = 1, u_username = ''eve'', u_email = None, u_hashed_password = h, u_role = Role_viewer, u_is_active = True, u_oidc_sub = None\<rparr>],
       db_zones := [\<lparr>z_id = 1, z_name = ''lan'', z_slug = ''lan'', z_description = None, z_vip = None, z_vrrp_router_id = None, z_vrrp_auth_enc = v\<rparr>]\<rparr>"

definition eve_jwt :: "unit jwt" where
  "eve_jwt = \<lparr>jw_encode = (\<lambda>_. ()), jw_decode = (\<lambda>_ _. Some [(''sub'', JStr ''1'')])\<rparr>"


section \<open>What an operator's question sends\<close>

lemma ask_host_log:
  assumes "keeps (log_ext P) m" and "P AT_close"
  shows "log_ext P w (snd (ask_host K f url m w))"
proof (cases "pk_client K url")
  case None
  have "keeps (log_ext P) (io_finally m (log_call AT_close))"
    using assms by (intro log.keeps_finally) (auto intro: log_ext_log_call)
  then have "log_ext P w (snd (io_finally m (log_call AT_close) w))" by (simp add: keeps_def)
  then show ?thesis by (auto simp: ask_host_def None split: prod.split sum.split exn.split)
qed (simp add: ask_host_def log_ext_def split: exn.split)

lemma keeps_io_of_sum: "keeps (log_ext P) (io_of_sum r)"
  by (simp add: keeps_def io_of_sum_def log_ext_def)

lemma log_ext_refl: "log_ext P w w"
  by (simp add: log_ext_def)

lemma test_connection_log: "log_ext (\<lambda>c. c \<in> {AG_status, AG_list_rewrites, AG_close}) w (snd (test_connection build e i d w))"
proof (cases "get_server d i = None \<or> build \<noteq> None")
  case False
  let ?P = "\<lambda>c. c \<in> {AG_status, AG_list_rewrites, AG_close}"
  have "keeps (log_ext ?P) (io_finally (probe_reads e) (log_call AG_close))"
    unfolding probe_reads_def
    by (intro log.keeps_finally log.keeps_except log.keeps_bind log.keeps_call log.keeps_list_rewrites)
       (auto intro: log_ext_log_call log.keeps_return log.keeps_raise)
  then have "log_ext ?P w (snd (io_finally (probe_reads e) (log_call AG_close) w))" by (simp add: keeps_def)
  then show ?thesis using False by (auto simp: test_connection_def split: prod.split sum.split)
qed (auto simp: test_connection_def log_ext_refl split: option.split)

lemma agent_logs_log: "log_ext (\<lambda>c. c \<in> {AT_logs service lines, AT_close}) w (snd (agent_logs K e i service lines d w))"
  unfolding agent_logs_def
  by (auto simp: log_ext_refl split: option.split intro!: ask_host_log log.keeps_bind log.keeps_call keeps_io_of_sum)

lemma restart_service_log: "log_ext (\<lambda>c. c \<in> {AT_restart service, AT_close}) w (snd (restart_service K e i service d w))"
  unfolding restart_service_def
  by (auto simp: log_ext_refl split: option.split intro!: ask_host_log log.keeps_bind log.keeps_call keeps_io_of_sum)

lemma live_state_log: "log_ext (\<lambda>c. c \<in> {AT_get_role ''dnsdist'', AT_get_role ''keepalived'', AT_close}) w (snd (live_state K e i d w))"
proof (cases "balancer_host d i")
  case (Inr r)
  obtain lb a where r: "r = (lb, a)" by (cases r)
  let ?P = "\<lambda>c. c \<in> {AT_get_role ''dnsdist'', AT_get_role ''keepalived'', AT_close}"
  have "keeps (log_ext ?P) (live_reads e (b_mode lb))"
    unfolding live_reads_def
    by (auto intro!: log.keeps_bind log.keeps_call log.keeps_except log.keeps_return)
  then have "log_ext ?P w (snd (ask_host K (\<lambda>x. server_error) (a_url a) (live_reads e (b_mode lb)) w))"
    by (rule ask_host_log) simp
  then show ?thesis by (auto simp: live_state_def Inr r split: prod.split sum.split)
qed (simp add: live_state_def log_ext_refl)

lemma restart_balancer_log:
  "log_ext (\<lambda>c. c = AT_close \<or> (\<exists>lb. get_balancer d i = Some lb \<and> c = AT_restart (if b_mode lb = Mode_ipvs then ''keepalived'' else ''dnsdist'')))
     w (snd (restart_balancer K e i d w))"
proof (cases "balancer_host d i")
  case (Inr r)
  obtain lb a where r: "r = (lb, a)" by (cases r)
  then have "get_balancer d i = Some lb" using Inr by (auto simp: balancer_host_def split: option.splits)
  then show ?thesis
    unfolding restart_balancer_def
    by (auto simp: Inr r intro!: ask_host_log log.keeps_bind log.keeps_call keeps_io_of_sum)
qed (simp add: restart_balancer_def log_ext_refl)

text \<open>
  A probe, a look at the logs and a look at the live state of a balancer ask and never change anything, and ask for
  nothing else; a restart sends the one request for the service that is named, or for the one that runs the balancer.
\<close>

theorem operator_requests_confined:
  "log_ext (\<lambda>c. c \<in> {AG_status, AG_list_rewrites, AG_close}) w (snd (test_connection build e i d w)) \<and>
   log_ext (\<lambda>c. c \<in> {AT_logs service lines, AT_close}) w (snd (agent_logs K e i service lines d w)) \<and>
   log_ext (\<lambda>c. c \<in> {AT_get_role ''dnsdist'', AT_get_role ''keepalived'', AT_close}) w (snd (live_state K e i d w)) \<and>
   log_ext (\<lambda>c. c \<in> {AT_restart service, AT_close}) w (snd (restart_service K e i service d w)) \<and>
   log_ext (\<lambda>c. c = AT_close \<or> (\<exists>lb. get_balancer d i = Some lb \<and> c = AT_restart (if b_mode lb = Mode_ipvs then ''keepalived'' else ''dnsdist'')))
     w (snd (restart_balancer K e i d w))"
  by (intro conjI test_connection_log agent_logs_log live_state_log restart_service_log restart_balancer_log)

end
