(* ===== verification/Certificates.thy ===== *)
theory Certificates
  imports HostPass Net Auth
begin

text \<open>
  backend/app/pki.py and backend/app/certs.py: the deployment's private CA, what it puts into the certificates it
  signs, how the client chain gets onto disk and into the TLS context. Keys, signatures and PEM belong to the
  cryptography library, the record \<open>crypto\<close>; fresh keys and serial numbers are arguments.
\<close>

section \<open>Certificates\<close>

datatype key_usage = Digital_signature | Key_cert_sign | Crl_sign

datatype eku = Server_auth | Client_auth

datatype general_name = San_ip ip | San_dns string

record 'p certificate =
  ct_subject :: string
  ct_issuer :: string
  ct_key :: 'p
  ct_serial :: int
  ct_not_before :: int
  ct_not_after :: int
  ct_ca :: bool
  ct_path_length :: "nat option"
  ct_usage :: "key_usage list"
  ct_eku :: "eku list"
  ct_san :: "general_name list"
  ct_key_id :: "'p option"
  ct_authority :: "'p option"

text \<open>
  Private keys are of type \<open>'k\<close>, public ones of type \<open>'p\<close>. Signing yields the PEM text or the exception of the
  library; a request is unreadable, or a public key and whether its own signature verifies.
\<close>

record ('k, 'p) crypto =
  cy_public :: "'k \<Rightarrow> 'p"
  cy_key_pem :: "'k \<Rightarrow> string"
  cy_load_key :: "string \<Rightarrow> 'k option"
  cy_load :: "string \<Rightarrow> 'p certificate option"
  cy_sign :: "'k \<Rightarrow> 'p certificate \<Rightarrow> exn + string"
  cy_csr :: "string \<Rightarrow> string + 'p \<times> bool"

definition days_us :: "int \<Rightarrow> int" where
  "days_us n = n * 86400 * second_us"

definition ca_certificate :: "'p \<Rightarrow> int \<Rightarrow> int \<Rightarrow> 'p certificate" where
  "ca_certificate p serial now =
     \<lparr>ct_subject = ''AdGuard Admin Agent CA'', ct_issuer = ''AdGuard Admin Agent CA'', ct_key = p, ct_serial = serial,
      ct_not_before = now - 300 * second_us, ct_not_after = now + days_us (365 * 20), ct_ca = True, ct_path_length = Some 0,
      ct_usage = [Digital_signature, Key_cert_sign, Crl_sign], ct_eku = [], ct_san = [], ct_key_id = Some p, ct_authority = None\<rparr>"

text \<open>The second component of a result is the list of what has been signed by then: the key and the certificate.\<close>

type_synonym ('k, 'p, 'a) signing = "(exn + 'a) \<times> ('k \<times> 'p certificate) list"

definition sign_io :: "('k, 'p) crypto \<Rightarrow> 'k \<Rightarrow> 'p certificate \<Rightarrow> ('k, 'p, string) signing" where
  "sign_io C k c = (case cy_sign C k c of Inl x \<Rightarrow> (Inl x, []) | Inr pem \<Rightarrow> (Inr pem, [(k, c)]))"

definition then_sign :: "('k, 'p, 'a) signing \<Rightarrow> ('a \<Rightarrow> ('k, 'p, 'b) signing) \<Rightarrow> ('k, 'p, 'b) signing" where
  "then_sign m f = (case m of (Inl x, l) \<Rightarrow> (Inl x, l) | (Inr a, l) \<Rightarrow> (case f a of (r, l') \<Rightarrow> (r, l @ l')))"

definition generate_ca :: "('k, 'p) crypto \<Rightarrow> 'k \<Rightarrow> int \<Rightarrow> int \<Rightarrow> ('k, 'p, string \<times> string) signing" where
  "generate_ca C k serial now =
     then_sign (sign_io C k (ca_certificate (cy_public C k) serial now)) (\<lambda>pem. (Inr (pem, cy_key_pem C k), []))"

definition leaf_certificate :: "string \<Rightarrow> 'p \<Rightarrow> 'p \<Rightarrow> string \<Rightarrow> int \<Rightarrow> eku \<Rightarrow> general_name list \<Rightarrow> int \<Rightarrow> int \<Rightarrow> 'p certificate" where
  "leaf_certificate issuer authority p name days usage san serial now =
     \<lparr>ct_subject = name, ct_issuer = issuer, ct_key = p, ct_serial = serial, ct_not_before = now - 300 * second_us,
      ct_not_after = now + days_us days, ct_ca = False, ct_path_length = None, ct_usage = [Digital_signature], ct_eku = [usage],
      ct_san = san, ct_key_id = None, ct_authority = Some authority\<rparr>"

definition issue ::
  "('k, 'p) crypto \<Rightarrow> int \<Rightarrow> int \<Rightarrow> string \<Rightarrow> string \<Rightarrow> 'p \<Rightarrow> string \<Rightarrow> int \<Rightarrow> eku \<Rightarrow> general_name list \<Rightarrow> ('k, 'p, string) signing" where
  "issue C serial now ca_cert_pem ca_key_pem p name days usage san =
     (case (cy_load C ca_cert_pem, cy_load_key C ca_key_pem) of
        (Some ca, Some k) \<Rightarrow> sign_io C k (leaf_certificate (ct_subject ca) (cy_public C k) p name days usage san serial now)
      | _ \<Rightarrow> (Inl (PyError ''Unable to load PEM file''), []))"

definition san_for :: "string \<Rightarrow> general_name" where
  "san_for address = (case parse_ip address of Some a \<Rightarrow> San_ip a | None \<Rightarrow> San_dns address)"

definition sign_agent_csr ::
  "('k, 'p) crypto \<Rightarrow> int \<Rightarrow> int \<Rightarrow> string \<Rightarrow> string \<Rightarrow> string \<Rightarrow> string \<Rightarrow> string \<Rightarrow> ('k, 'p, string) signing" where
  "sign_agent_csr C serial now ca_cert_pem ca_key_pem csr_pem name address =
     (case cy_csr C csr_pem of
        Inl m \<Rightarrow> (Inl (PyError (''invalid CSR: '' @ m)), [])
      | Inr (p, valid) \<Rightarrow>
          if \<not> valid then (Inl (PyError ''CSR signature does not verify''), [])
          else issue C serial now ca_cert_pem ca_key_pem p (take 64 name) 365 Server_auth [san_for address])"

definition issue_client_cert :: "('k, 'p) crypto \<Rightarrow> 'k \<Rightarrow> int \<Rightarrow> int \<Rightarrow> string \<Rightarrow> string \<Rightarrow> ('k, 'p, string \<times> string) signing" where
  "issue_client_cert C k serial now ca_cert_pem ca_key_pem =
     then_sign (issue C serial now ca_cert_pem ca_key_pem (cy_public C k) ''adguard-admin'' (365 * 5) Client_auth [])
       (\<lambda>pem. (Inr (pem, cy_key_pem C k), []))"

text \<open>The certificate of a provisioned server is its own anchor, so it is a CA certificate (certs.py).\<close>

definition generate_self_signed ::
  "('k, 'p) crypto \<Rightarrow> 'k \<Rightarrow> int \<Rightarrow> int \<Rightarrow> string \<Rightarrow> int \<Rightarrow> ('k, 'p, string \<times> string) signing" where
  "generate_self_signed C k serial now address valid_days =
     then_sign
       (sign_io C k
         \<lparr>ct_subject = address, ct_issuer = address, ct_key = cy_public C k, ct_serial = serial, ct_not_before = now - 300 * second_us,
          ct_not_after = now + days_us valid_days, ct_ca = True, ct_path_length = None, ct_usage = [], ct_eku = [],
          ct_san = [san_for address], ct_key_id = None, ct_authority = None\<rparr>)
       (\<lambda>pem. (Inr (pem, cy_key_pem C k), []))"

section \<open>The deployment's CA\<close>

record ca_row =
  cr_ca_cert_pem :: string
  cr_ca_key_enc :: string
  cr_client_cert_pem :: string
  cr_client_key_enc :: string

text \<open>What a first use draws: two keys, two serial numbers and the time.\<close>

record 'k draws =
  dw_ca_key :: 'k
  dw_client_key :: 'k
  dw_ca_serial :: int
  dw_client_serial :: int
  dw_now :: int

definition kept_secret :: "fernet \<Rightarrow> settings \<Rightarrow> string \<Rightarrow> ('k, 'p, string) signing" where
  "kept_secret F cfg s =
     (case encrypt_secret F cfg (Some s) of Inl x \<Rightarrow> (Inl x, []) | Inr t \<Rightarrow> (Inr (str_or t []), []))"

text \<open>The row, and the table after the commit; \<open>None\<close> where an exception came first.\<close>

definition ensure_ca ::
  "('k, 'p) crypto \<Rightarrow> fernet \<Rightarrow> settings \<Rightarrow> 'k draws \<Rightarrow> ca_row list \<Rightarrow> ('k, 'p, ca_row \<times> ca_row list) signing" where
  "ensure_ca C F cfg w rows =
     (case rows of
        row # _ \<Rightarrow> (Inr (row, rows), [])
      | [] \<Rightarrow>
          then_sign (generate_ca C (dw_ca_key w) (dw_ca_serial w) (dw_now w)) (\<lambda>(ca, ca_key).
          then_sign (issue_client_cert C (dw_client_key w) (dw_client_serial w) (dw_now w) ca ca_key) (\<lambda>(cert, key).
          then_sign (kept_secret F cfg ca_key) (\<lambda>ca_enc.
          then_sign (kept_secret F cfg key) (\<lambda>key_enc.
            let row = \<lparr>cr_ca_cert_pem = ca, cr_ca_key_enc = ca_enc, cr_client_cert_pem = cert, cr_client_key_enc = key_enc\<rparr> in
            (Inr (row, [row]), []))))))"

record material =
  mt_ca_cert :: string
  mt_ca_key :: string
  mt_client_cert :: string
  mt_client_key :: string

definition material_of :: "fernet \<Rightarrow> settings \<Rightarrow> ca_row \<Rightarrow> material" where
  "material_of F cfg row =
     \<lparr>mt_ca_cert = cr_ca_cert_pem row, mt_ca_key = str_or (decrypt_secret F cfg (Some (cr_ca_key_enc row))) [],
      mt_client_cert = cr_client_cert_pem row, mt_client_key = str_or (decrypt_secret F cfg (Some (cr_client_key_enc row))) []\<rparr>"

definition load_pki ::
  "('k, 'p) crypto \<Rightarrow> fernet \<Rightarrow> settings \<Rightarrow> 'k draws \<Rightarrow> ca_row list \<Rightarrow> ('k, 'p, material \<times> ca_row list) signing" where
  "load_pki C F cfg w rows = then_sign (ensure_ca C F cfg w rows) (\<lambda>(row, rows'). (Inr (material_of F cfg row, rows'), []))"

text \<open>\<open>get_pki\<close>, under the lock of the module: the cached material, or the one of the database.\<close>

definition get_pki ::
  "('k, 'p) crypto \<Rightarrow> fernet \<Rightarrow> settings \<Rightarrow> 'k draws \<Rightarrow> material option \<Rightarrow> ca_row list
   \<Rightarrow> ('k, 'p, material \<times> material option \<times> ca_row list) signing" where
  "get_pki C F cfg w cached rows =
     (case cached of
        Some m \<Rightarrow> (Inr (m, cached, rows), [])
      | None \<Rightarrow> then_sign (load_pki C F cfg w rows) (\<lambda>(m, rows'). (Inr (m, Some m, rows'), [])))"

section \<open>The chain on disk and the TLS context\<close>

definition resolved_pki_dir :: "(string \<Rightarrow> string) \<Rightarrow> string \<Rightarrow> string \<Rightarrow> string" where
  "resolved_pki_dir beside pki_dir url =
     (if py_strip pki_dir \<noteq> [] then py_strip pki_dir
      else if py_startswith url ''sqlite:///'' \<and> drop 10 url \<noteq> [] \<and> drop 10 url \<noteq> '':memory:'' then beside (drop 10 url)
      else ''./pki'')"

type_synonym files = "string \<Rightarrow> string option"

datatype file_step = Open_tmp string | Fill_tmp string string | Replace string

fun disk_step :: "file_step \<Rightarrow> files \<Rightarrow> files" where
  "disk_step (Open_tmp n) f = f(n @ ''.tmp'' \<mapsto> [])"
| "disk_step (Fill_tmp n s) f = f(n @ ''.tmp'' \<mapsto> s)"
| "disk_step (Replace n) f = f(n := f (n @ ''.tmp''), n @ ''.tmp'' := None)"

definition chain :: "material \<Rightarrow> (string \<times> string) list" where
  "chain m = [(''ca.crt'', mt_ca_cert m), (''client.crt'', mt_client_cert m), (''client.key'', mt_client_key m)]"

definition write_steps :: "material \<Rightarrow> file_step list" where
  "write_steps m = concat (map (\<lambda>(n, s). [Open_tmp n, Fill_tmp n s, Replace n]) (chain m))"

text \<open>The module's globals, with what the context was built from: the three files.\<close>

record tls_state =
  ts_files :: files
  ts_materialized_for :: "string option"
  ts_context :: "(string \<times> string \<times> string) option"

definition materialize :: "material \<Rightarrow> tls_state \<Rightarrow> tls_state" where
  "materialize m st =
     (if ts_materialized_for st = Some (mt_client_cert m) \<and> list_all (\<lambda>(n, _). ts_files st n \<noteq> None) (chain m) then st
      else st\<lparr>ts_files := fold disk_step (write_steps m) (ts_files st),
              ts_materialized_for := Some (mt_client_cert m), ts_context := None\<rparr>)"

definition read_chain :: "files \<Rightarrow> (string \<times> string \<times> string) option" where
  "read_chain f =
     (case (f ''ca.crt'', f ''client.crt'', f ''client.key'') of (Some a, Some b, Some c) \<Rightarrow> Some (a, b, c) | _ \<Rightarrow> None)"

text \<open>The second half of \<open>client_ssl_context\<close>, after \<open>materialize\<close> has given its lock back; \<open>None\<close> where a file is gone.\<close>

definition take_context :: "tls_state \<Rightarrow> (string \<times> string \<times> string) option \<times> tls_state" where
  "take_context st =
     (case ts_context st of
        Some c \<Rightarrow> (Some c, st)
      | None \<Rightarrow> (case read_chain (ts_files st) of None \<Rightarrow> (None, st) | Some c \<Rightarrow> (Some c, st\<lparr>ts_context := Some c\<rparr>)))"

definition client_ssl_context :: "material \<Rightarrow> tls_state \<Rightarrow> (string \<times> string \<times> string) option \<times> tls_state" where
  "client_ssl_context m st = take_context (materialize m st)"

definition reset_cache :: "tls_state \<Rightarrow> tls_state" where
  "reset_cache st = st\<lparr>ts_materialized_for := None, ts_context := None\<rparr>"

section \<open>How a server is verified\<close>

datatype verify = Default_trust | Pinned string | Mutual "(string \<times> string \<times> string) option"

text \<open>\<open>ctx\<close> is the context of the deployment's client chain.\<close>

definition verify_for :: "(string \<times> string \<times> string) option \<Rightarrow> string option \<Rightarrow> verify" where
  "verify_for ctx tls_cert =
     (if tls_cert = Some ''@agent'' then Mutual ctx
      else case tls_cert of None \<Rightarrow> Default_trust | Some c \<Rightarrow> if c = [] then Default_trust else Pinned c)"

section \<open>The record the passes use\<close>

definition deployment_pki ::
  "('k, 'p) crypto \<Rightarrow> material \<Rightarrow> (string \<Rightarrow> string) \<Rightarrow> (rat \<Rightarrow> string) \<Rightarrow> (string \<Rightarrow> exn option) \<Rightarrow> int \<Rightarrow> int \<Rightarrow> pki" where
  "deployment_pki C m sha256 show_float client serial now =
     \<lparr>pk_ca_cert = mt_ca_cert m, pk_ca_key = mt_ca_key m, pk_digest = sha256, pk_float = show_float,
      pk_sign = (\<lambda>ca key csr name address. fst (sign_agent_csr C serial now ca key csr name address)),
      pk_not_after = (\<lambda>pem. case cy_load C pem of None \<Rightarrow> 0 | Some c \<Rightarrow> ct_not_after c), pk_client = client\<rparr>"

section \<open>What is ever signed\<close>

lemma then_sign_log:
  "x \<in> set (snd (then_sign m f)) \<longleftrightarrow> x \<in> set (snd m) \<or> (\<exists>a. fst m = Inr a \<and> x \<in> set (snd (f a)))"
  by (cases m) (auto simp: then_sign_def split: sum.split prod.split)

lemma then_sign_Inr: "fst (then_sign m f) = Inr b \<longleftrightarrow> (\<exists>a. fst m = Inr a \<and> fst (f a) = Inr b)"
  by (cases m) (auto simp: then_sign_def split: sum.split prod.split)

lemma sign_io_log: "x \<in> set (snd (sign_io C k c)) \<Longrightarrow> x = (k, c)"
  by (auto simp: sign_io_def split: sum.splits)

lemma kept_secret_log [simp]: "snd (kept_secret F cfg s) = []"
  by (simp add: kept_secret_def split: sum.split)

text \<open>The three kinds of certificates: the CA's, the one client certificate, and those of the hosts.\<close>

definition is_ca_cert :: "('k, 'p) crypto \<Rightarrow> 'k draws \<Rightarrow> 'p certificate \<Rightarrow> bool" where
  "is_ca_cert C w c \<longleftrightarrow> c = ca_certificate (cy_public C (dw_ca_key w)) (dw_ca_serial w) (dw_now w)"

definition is_client_cert :: "('k, 'p) crypto \<Rightarrow> 'k draws \<Rightarrow> 'p certificate \<Rightarrow> bool" where
  "is_client_cert C w c \<longleftrightarrow>
     ct_key c = cy_public C (dw_client_key w) \<and> ct_subject c = ''adguard-admin'' \<and> ct_eku c = [Client_auth] \<and>
     \<not> ct_ca c \<and> ct_usage c = [Digital_signature]"

definition is_host_cert :: "('k, 'p) crypto \<Rightarrow> string \<Rightarrow> string \<Rightarrow> string \<Rightarrow> 'p certificate \<Rightarrow> bool" where
  "is_host_cert C csr name address c \<longleftrightarrow>
     cy_csr C csr = Inr (ct_key c, True) \<and> ct_subject c = take 64 name \<and> ct_san c = [san_for address] \<and>
     ct_eku c = [Server_auth] \<and> \<not> ct_ca c \<and> ct_usage c = [Digital_signature]"

lemma issue_log:
  "(k, c) \<in> set (snd (issue C serial now ca key p name days usage san)) \<Longrightarrow>
     \<exists>issuer authority. c = leaf_certificate issuer authority p name days usage san serial now"
  by (auto simp: issue_def split: option.splits dest!: sign_io_log)

lemma sign_agent_csr_log: "(k, c) \<in> set (snd (sign_agent_csr C serial now ca key csr name address)) \<Longrightarrow> is_host_cert C csr name address c"
  by (auto simp: sign_agent_csr_def is_host_cert_def leaf_certificate_def split: sum.splits if_splits dest!: issue_log)

lemma ensure_ca_log: "(k, c) \<in> set (snd (ensure_ca C F cfg w rows)) \<Longrightarrow> is_ca_cert C w c \<or> is_client_cert C w c"
  by (auto simp: ensure_ca_def then_sign_log generate_ca_def issue_client_cert_def is_ca_cert_def is_client_cert_def leaf_certificate_def Let_def
      split: list.splits dest!: sign_io_log issue_log)

lemma load_pki_log: "(k, c) \<in> set (snd (load_pki C F cfg w rows)) \<Longrightarrow> is_ca_cert C w c \<or> is_client_cert C w c"
  using ensure_ca_log [of k c C F cfg w rows] by (auto simp: load_pki_def then_sign_log)

text \<open>The requests that use the CA: loading it, and signing for a host (an enrolment or a renewal).\<close>

datatype 'k pki_op = Use "'k draws" | Sign "'k draws" string string string int int

fun op_draws :: "'k pki_op \<Rightarrow> 'k draws" where
  "op_draws (Use w) = w"
| "op_draws (Sign w _ _ _ _ _) = w"

definition rows_after :: "('k, 'p, material \<times> ca_row list) signing \<Rightarrow> ca_row list \<Rightarrow> ca_row list" where
  "rows_after r rows = (case fst r of Inl x \<Rightarrow> rows | Inr (m, rows') \<Rightarrow> rows')"

fun pki_step ::
  "('k, 'p) crypto \<Rightarrow> fernet \<Rightarrow> settings \<Rightarrow> 'k pki_op \<Rightarrow> ca_row list \<times> ('k \<times> 'p certificate) list
   \<Rightarrow> ca_row list \<times> ('k \<times> 'p certificate) list" where
  "pki_step C F cfg (Use w) (rows, sg) =
     (let r = load_pki C F cfg w rows in (rows_after r rows, sg @ snd r))"
| "pki_step C F cfg (Sign w csr name address serial now) (rows, sg) =
     (let r = load_pki C F cfg w rows in
      (rows_after r rows, sg @ snd (then_sign r (\<lambda>(m, _). sign_agent_csr C serial now (mt_ca_cert m) (mt_ca_key m) csr name address))))"

fun signed_for :: "('k, 'p) crypto \<Rightarrow> 'k pki_op \<Rightarrow> 'p certificate \<Rightarrow> bool" where
  "signed_for C (Use w) c = (is_ca_cert C w c \<or> is_client_cert C w c)"
| "signed_for C (Sign w csr name address serial now) c =
     (is_ca_cert C w c \<or> is_client_cert C w c \<or> is_host_cert C csr name address c)"

lemma pki_step_log:
  "(k, c) \<in> set (snd (pki_step C F cfg x (rows, sg))) \<Longrightarrow> (k, c) \<in> set sg \<or> signed_for C x c"
  by (cases x) (auto simp: Let_def then_sign_log dest!: load_pki_log sign_agent_csr_log split: prod.splits)

lemma pki_run_log:
  "(k, c) \<in> set (snd (fold (pki_step C F cfg) ops (rows, sg))) \<Longrightarrow> (k, c) \<in> set sg \<or> (\<exists>x \<in> set ops. signed_for C x c)"
proof (induction ops arbitrary: rows sg)
  case (Cons x ops)
  obtain rows' sg' where step: "pki_step C F cfg x (rows, sg) = (rows', sg')" by (cases "pki_step C F cfg x (rows, sg)")
  then show ?case using Cons.IH [of rows' sg'] Cons.prems pki_step_log [of k c C F cfg x rows sg] by auto
qed simp

lemma load_keeps_row: "rows \<noteq> [] \<Longrightarrow> load_pki C F cfg w rows = (Inr (material_of F cfg (hd rows), rows), [])"
  by (cases rows) (simp_all add: load_pki_def ensure_ca_def then_sign_def)

lemma pki_run_rows: "rows \<noteq> [] \<Longrightarrow> fst (fold (pki_step C F cfg) ops (rows, sg)) = rows"
proof (induction ops arbitrary: sg)
  case (Cons x ops)
  have "\<exists>sg'. pki_step C F cfg x (rows, sg) = (rows, sg')"
    by (cases x) (simp_all add: load_keeps_row [OF Cons.prems] rows_after_def Let_def)
  then show ?case using Cons by auto
qed simp


text \<open>
  C19. Certificates are separated by what they may be used for: in any run of requests, from an empty table or a filled one, a
  certificate that authenticates a client carries a key the control plane drew itself, a CA certificate is the one of
  \<open>generate_ca\<close>, and every other certificate answers a request that proved possession of its key, is good for
  serving only, at the one address the control plane named, and can sign nothing. So no host's certificate opens another host.
\<close>

theorem certificates_separated:
  assumes "(k, c) \<in> set (snd (fold (pki_step C F cfg) ops (rows, [])))"
  shows "(Client_auth \<in> set (ct_eku c) \<longrightarrow> (\<exists>x \<in> set ops. ct_key c = cy_public C (dw_client_key (op_draws x)))) \<and>
         (ct_ca c \<or> Key_cert_sign \<in> set (ct_usage c) \<longrightarrow>
            (\<exists>x \<in> set ops. c = ca_certificate (cy_public C (dw_ca_key (op_draws x))) (dw_ca_serial (op_draws x)) (dw_now (op_draws x)))) \<and>
         (\<not> ct_ca c \<and> Client_auth \<notin> set (ct_eku c) \<longrightarrow>
            (\<exists>w csr name address serial now. Sign w csr name address serial now \<in> set ops \<and> cy_csr C csr = Inr (ct_key c, True) \<and>
               ct_eku c = [Server_auth] \<and> ct_san c = [san_for address] \<and> ct_subject c = take 64 name))"
proof -
  obtain x where x: "x \<in> set ops" and s: "signed_for C x c" using pki_run_log [OF assms] by auto
  show ?thesis
  proof (cases x)
    case (Use w)
    then show ?thesis using x s by (force simp: is_ca_cert_def is_client_cert_def ca_certificate_def)
  next
    case (Sign w csr name address serial now)
    consider "is_ca_cert C w c \<or> is_client_cert C w c" | "is_host_cert C csr name address c" using s Sign by auto
    then show ?thesis
    proof cases
      case 1
      then show ?thesis using x Sign by (force simp: is_ca_cert_def is_client_cert_def ca_certificate_def)
    next
      case 2
      then have "Client_auth \<notin> set (ct_eku c)" "\<not> ct_ca c" "Key_cert_sign \<notin> set (ct_usage c)" by (simp_all add: is_host_cert_def)
      then show ?thesis using 2 x Sign unfolding is_host_cert_def by blast
    qed
  qed
qed


definition toy_crypto :: "(nat, nat) crypto" where
  "toy_crypto =
     \<lparr>cy_public = (\<lambda>k. k + 100), cy_key_pem = (\<lambda>k. replicate k CHR ''k''), cy_load_key = (\<lambda>s. Some 1),
      cy_load = (\<lambda>s. Some (ca_certificate 101 1 0)), cy_sign = (\<lambda>k c. Inr (replicate (ct_key c) CHR ''c'')),
      cy_csr = (\<lambda>s. if s = [] then Inl ''empty'' else Inr (3, True))\<rparr>"

definition toy_fernet :: fernet where
  "toy_fernet = \<lparr>fe_encrypt = (\<lambda>k s. k @ s), fe_decrypt = (\<lambda>k s. Some (drop (length k) s))\<rparr>"

definition toy_settings :: settings where
  "toy_settings = default_settings\<lparr>cf_fernet_key := ''key''\<rparr>"

definition toy_draws :: "nat draws" where
  "toy_draws = \<lparr>dw_ca_key = 1, dw_client_key = 2, dw_ca_serial = 11, dw_client_serial = 12, dw_now = 0\<rparr>"

definition toy_enrolment :: "nat pki_op" where
  "toy_enrolment = Sign toy_draws ''csr'' ''dns1'' ''10.0.0.9'' 13 5"

definition toy_row :: ca_row where
  "toy_row = \<lparr>cr_ca_cert_pem = ''c'', cr_ca_key_enc = ''keyk'', cr_client_cert_pem = ''p'', cr_client_key_enc = ''keyq''\<rparr>"

definition toy_host_cert :: "nat certificate" where
  "toy_host_cert = leaf_certificate ''AdGuard Admin Agent CA'' 101 3 ''dns1'' 365 Server_auth [san_for ''10.0.0.9''] 13 5"

lemma toy_signed:
  "(1, toy_host_cert) \<in> set (snd (fold (pki_step toy_crypto toy_fernet toy_settings) [toy_enrolment] ([toy_row], [])))"
proof -
  have s: "snd (sign_agent_csr toy_crypto 13 5 a b ''csr'' ''dns1'' ''10.0.0.9'') = [(1, toy_host_cert)]" for a b
    by (simp add: sign_agent_csr_def toy_crypto_def issue_def sign_io_def toy_host_cert_def ca_certificate_def)
  show ?thesis
    by (simp add: toy_enrolment_def Let_def load_pki_def ensure_ca_def then_sign_def s split: prod.split)
qed

lemma toy_host_fields: "ct_eku toy_host_cert = [Server_auth]" "\<not> ct_ca toy_host_cert" "ct_key toy_host_cert = 3"
  by (simp_all add: toy_host_cert_def leaf_certificate_def)

theorem certificates_separated_witness:
  "\<exists>w csr name address serial now. Sign w csr name address serial now = toy_enrolment \<and>
     cy_csr toy_crypto csr = Inr (3, True) \<and> ct_san toy_host_cert = [san_for address]"
proof -
  have "\<exists>w csr name address serial now. Sign w csr name address serial now \<in> set [toy_enrolment] \<and>
     cy_csr toy_crypto csr = Inr (ct_key toy_host_cert, True) \<and> ct_eku toy_host_cert = [Server_auth] \<and>
     ct_san toy_host_cert = [san_for address] \<and> ct_subject toy_host_cert = take 64 name"
    by (rule certificates_separated [OF toy_signed, THEN conjunct2, THEN conjunct2, rule_format]) (simp add: toy_host_fields)
  then show ?thesis unfolding toy_host_fields by force
qed

lemma sign_agent_csr_signer:
  "(k, c) \<in> set (snd (sign_agent_csr C serial now cert key csr name address)) \<Longrightarrow>
     cy_load_key C key = Some k \<and> (\<exists>ca. cy_load C cert = Some ca \<and> ct_issuer c = ct_subject ca) \<and>
     ct_authority c = Some (cy_public C k) \<and> ct_eku c = [Server_auth] \<and> \<not> ct_ca c"
  by (auto simp: sign_agent_csr_def issue_def leaf_certificate_def split: sum.splits if_splits option.splits dest!: sign_io_log)

definition host_cert_of :: "('k, 'p) crypto \<Rightarrow> material \<Rightarrow> 'k \<Rightarrow> 'p certificate \<Rightarrow> bool" where
  "host_cert_of C m k c \<longleftrightarrow>
     cy_load_key C (mt_ca_key m) = Some k \<and> (\<exists>ca. cy_load C (mt_ca_cert m) = Some ca \<and> ct_issuer c = ct_subject ca) \<and>
     ct_authority c = Some (cy_public C k) \<and> ct_eku c = [Server_auth] \<and> \<not> ct_ca c"

lemma pki_step_stays:
  assumes "rows \<noteq> []"
  shows "\<exists>l. pki_step C F cfg x (rows, sg) = (rows, sg @ l) \<and> (\<forall>(k, c) \<in> set l. host_cert_of C (material_of F cfg (hd rows)) k c)"
proof (cases x)
  case (Use w)
  then show ?thesis by (simp add: load_keeps_row [OF assms] rows_after_def Let_def)
next
  case (Sign w csr name address serial now)
  let ?m = "material_of F cfg (hd rows)"
  let ?r = "sign_agent_csr C serial now (mt_ca_cert ?m) (mt_ca_key ?m) csr name address"
  have "pki_step C F cfg x (rows, sg) = (rows, sg @ snd ?r)"
    by (simp add: Sign load_keeps_row [OF assms] rows_after_def Let_def then_sign_def split: prod.split)
  moreover have "\<forall>(k, c) \<in> set (snd ?r). host_cert_of C ?m k c"
    using sign_agent_csr_signer [of _ _ C serial now] by (auto simp: host_cert_of_def)
  ultimately show ?thesis by (intro exI [of _ "snd ?r"] conjI)
qed

lemma pki_run_stays:
  "rows \<noteq> [] \<Longrightarrow> \<exists>l. fold (pki_step C F cfg) ops (rows, sg) = (rows, sg @ l) \<and>
     (\<forall>(k, c) \<in> set l. host_cert_of C (material_of F cfg (hd rows)) k c)"
proof (induction ops arbitrary: sg)
  case (Cons x ops)
  obtain l where l: "pki_step C F cfg x (rows, sg) = (rows, sg @ l)" "\<forall>(k, c) \<in> set l. host_cert_of C (material_of F cfg (hd rows)) k c"
    using pki_step_stays [OF Cons.prems, of C F cfg x sg] by (elim exE conjE)
  obtain l' where "fold (pki_step C F cfg) ops (rows, sg @ l) = (rows, (sg @ l) @ l')"
    "\<forall>(k, c) \<in> set l'. host_cert_of C (material_of F cfg (hd rows)) k c"
    using Cons.IH [OF Cons.prems, of "sg @ l"] by (elim exE conjE)
  then show ?case using l by (intro exI [of _ "l @ l'"]) (simp add: ball_Un)
qed simp

text \<open>
  A deployment has one CA for life: once its row is there, no request replaces it or the client certificate, whatever it
  draws, and the only thing ever signed is a host's certificate, with the key of that row and under the CA's name.
\<close>

theorem ca_never_replaced:
  assumes "rows \<noteq> []"
  shows "fst (fold (pki_step C F cfg) ops (rows, [])) = rows \<and>
         (\<forall>k c. (k, c) \<in> set (snd (fold (pki_step C F cfg) ops (rows, []))) \<longrightarrow>
            cy_load_key C (mt_ca_key (material_of F cfg (hd rows))) = Some k \<and>
            (\<exists>ca. cy_load C (cr_ca_cert_pem (hd rows)) = Some ca \<and> ct_issuer c = ct_subject ca) \<and>
            ct_authority c = Some (cy_public C k) \<and> ct_eku c = [Server_auth] \<and> \<not> ct_ca c)"
  using pki_run_stays [OF assms, of C F cfg ops "[]"] by (auto simp: host_cert_of_def material_of_def)

theorem ca_never_replaced_witness:
  "fst (fold (pki_step toy_crypto toy_fernet toy_settings) [toy_enrolment, Use toy_draws] ([toy_row], [])) = [toy_row]"
  by (rule ca_never_replaced [THEN conjunct1]) simp

section \<open>Which chain the TLS contexts hold\<close>

text \<open>
  What happens to the files and the globals between two calls: a thread runs \<open>materialize\<close> and later, when others have
  run, takes the context; a write fails after some steps; the process dies after some steps and is started again; the cache
  is reset; someone removes a file. The second component counts the threads between the two halves of
  \<open>client_ssl_context\<close>, the third lists the contexts handed out.
\<close>

datatype tls_op = Thread_materialize | Thread_context | Write_fails nat | Dies nat | Reset | Remove_file string

type_synonym tls_world = "tls_state \<times> nat \<times> (string \<times> string \<times> string) list"

definition cut_short :: "nat \<Rightarrow> material \<Rightarrow> tls_state \<Rightarrow> tls_state" where
  "cut_short n m st =
     (if ts_materialized_for st = Some (mt_client_cert m) \<and> list_all (\<lambda>(n, _). ts_files st n \<noteq> None) (chain m) then st
      else st\<lparr>ts_files := fold disk_step (take n (write_steps m)) (ts_files st)\<rparr>)"

fun tls_step :: "material \<Rightarrow> tls_op \<Rightarrow> tls_world \<Rightarrow> tls_world" where
  "tls_step m Thread_materialize (st, w, out) = (materialize m st, Suc w, out)"
| "tls_step m Thread_context (st, w, out) =
     (if w = 0 then (st, w, out)
      else case take_context st of (c, st') \<Rightarrow> (st', w - 1, (case c of None \<Rightarrow> out | Some x \<Rightarrow> out @ [x])))"
| "tls_step m (Write_fails n) (st, w, out) = (cut_short n m st, w, out)"
| "tls_step m (Dies n) (st, w, out) = (reset_cache (cut_short n m st), 0, out)"
| "tls_step m Reset (st, w, out) = (reset_cache st, w, out)"
| "tls_step m (Remove_file n) (st, w, out) = (st\<lparr>ts_files := (ts_files st)(n := None)\<rparr>, w, out)"

definition own_files :: "material \<Rightarrow> files \<Rightarrow> bool" where
  "own_files m f \<longleftrightarrow> (\<forall>n s. (n, s) \<in> set (chain m) \<longrightarrow> f n = None \<or> f n = Some s)"

definition own_context :: "material \<Rightarrow> string \<times> string \<times> string" where
  "own_context m = (mt_ca_cert m, mt_client_cert m, mt_client_key m)"

definition tls_ok :: "material \<Rightarrow> tls_world \<Rightarrow> bool" where
  "tls_ok m = (\<lambda>(st, w, out).
     (ts_materialized_for st \<noteq> None \<or> 0 < w \<longrightarrow> own_files m (ts_files st)) \<and>
     (ts_context st = None \<or> ts_context st = Some (own_context m)) \<and> set out \<subseteq> {own_context m})"

text \<open>Each file is replaced in one step: whatever the number of steps done, it is the old one or the whole new one.\<close>

lemma write_prefix:
  assumes "(x, s) \<in> set (chain m)"
  shows "fold disk_step (take n (write_steps m)) f x = f x \<or> fold disk_step (take n (write_steps m)) f x = Some s"
proof -
  have len: "length (write_steps m) = 9" by (simp add: write_steps_def chain_def)
  consider "n = 0" | "n = 1" | "n = 2" | "n = 3" | "n = 4" | "n = 5" | "n = 6" | "n = 7" | "n = 8" | "9 \<le> n" by linarith
  then show ?thesis
    using assms len by cases (auto simp: write_steps_def chain_def)
qed

lemma write_all: "(x, s) \<in> set (chain m) \<Longrightarrow> fold disk_step (write_steps m) f x = Some s"
  by (auto simp: write_steps_def chain_def)


lemma own_files_prefix: "own_files m f \<Longrightarrow> own_files m (fold disk_step (take n (write_steps m)) f)"
  unfolding own_files_def by (metis write_prefix)

lemma own_files_all: "own_files m (fold disk_step (write_steps m) f)"
  by (simp add: own_files_def write_all)

lemma own_files_remove: "own_files m f \<Longrightarrow> own_files m (f(n := None))"
  by (simp add: own_files_def)

lemma read_own: "own_files m f \<Longrightarrow> read_chain f = Some c \<Longrightarrow> c = own_context m"
  by (auto simp: own_files_def chain_def read_chain_def own_context_def split: option.splits)

lemma take_own:
  assumes "own_files m (ts_files st)" "ts_context st = None \<or> ts_context st = Some (own_context m)" "take_context st = (c, st')"
  shows "ts_files st' = ts_files st \<and> ts_materialized_for st' = ts_materialized_for st \<and>
         (ts_context st' = None \<or> ts_context st' = Some (own_context m)) \<and> (c = None \<or> c = Some (own_context m))"
  using assms by (auto simp: take_context_def split: option.splits dest: read_own)

text \<open>A key of the globals other than the own one cannot arise: there is one material.\<close>

lemma tls_step_ok:
  assumes "tls_ok m (st, w, out)"
  shows "tls_ok m (tls_step m x (st, w, out))"
proof (cases x)
  case Thread_materialize
  then show ?thesis using assms by (auto simp: tls_ok_def materialize_def own_files_all)
next
  case Thread_context
  obtain c st' where t: "take_context st = (c, st')" by (cases "take_context st")
  show ?thesis
  proof (cases "w = 0")
    case False
    then have "ts_files st' = ts_files st \<and> ts_materialized_for st' = ts_materialized_for st \<and>
         (ts_context st' = None \<or> ts_context st' = Some (own_context m)) \<and> (c = None \<or> c = Some (own_context m))"
      using assms t by (intro take_own) (simp_all add: tls_ok_def)
    then show ?thesis using assms False by (auto simp: Thread_context t tls_ok_def)
  qed (use assms in \<open>simp add: Thread_context\<close>)
next
  case (Write_fails n)
  then show ?thesis using assms by (auto simp: tls_ok_def cut_short_def own_files_prefix)
next
  case (Dies n)
  then show ?thesis using assms by (simp add: tls_ok_def reset_cache_def)
next
  case Reset
  then show ?thesis using assms by (auto simp: tls_ok_def reset_cache_def)
next
  case (Remove_file n)
  then show ?thesis using assms by (auto simp: tls_ok_def own_files_remove)
qed

lemma tls_run_ok: "tls_ok m s \<Longrightarrow> tls_ok m (fold (tls_step m) ops s)"
proof (induction ops arbitrary: s)
  case (Cons x ops)
  then show ?case using tls_step_ok [of m "fst s" "fst (snd s)" "snd (snd s)" x] by simp
qed simp

lemma chain_all: "(\<forall>n s. (n, s) \<in> set (chain m) \<longrightarrow> P n s) \<longleftrightarrow>
    P ''ca.crt'' (mt_ca_cert m) \<and> P ''client.crt'' (mt_client_cert m) \<and> P ''client.key'' (mt_client_key m)"
  by (simp only: chain_def set_simps) blast

lemma read_all:
  assumes "own_files m f" and "list_all (\<lambda>(n, _). f n \<noteq> None) (chain m)"
  shows "read_chain f = Some (own_context m)"
proof -
  have "\<forall>n s. (n, s) \<in> set (chain m) \<longrightarrow> f n = Some s"
    using assms by (fastforce simp: own_files_def list_all_iff)
  then have "f ''ca.crt'' = Some (mt_ca_cert m)" "f ''client.crt'' = Some (mt_client_cert m)" "f ''client.key'' = Some (mt_client_key m)"
    unfolding chain_all [of m "\<lambda>n s. f n = Some s"] by simp_all
  then show ?thesis unfolding read_chain_def own_context_def by (simp only: option.case prod.case)
qed

lemma read_written: "read_chain (fold disk_step (write_steps m) f) = Some (own_context m)"
proof -
  let ?f = "fold disk_step (write_steps m) f"
  have "?f ''ca.crt'' = Some (mt_ca_cert m)" "?f ''client.crt'' = Some (mt_client_cert m)" "?f ''client.key'' = Some (mt_client_key m)"
    by (rule write_all, simp add: chain_def)+
  then show ?thesis unfolding read_chain_def own_context_def by (simp only: option.case prod.case)
qed

lemma context_after_materialize:
  assumes "tls_ok m (st, w, out)"
  shows "fst (take_context (materialize m st)) = Some (own_context m)"
  using assms by (auto simp: materialize_def take_context_def tls_ok_def read_all read_written split: option.split)

text \<open>
  C32. Every TLS context ever handed to a caller trusts the deployment's CA and presents its one client certificate with its own
  key: from any files left in the directory (an older deployment's, a half-written chain), under any interleaving of the
  two halves of \<open>client_ssl_context\<close> with failing writes, deaths of the process in the middle of a write, resets of the
  cache and removed files. After \<open>materialize\<close> the three files are the chain and a context is there to be taken.
\<close>

theorem contexts_trusted:
  assumes "fold (tls_step m) ops (\<lparr>ts_files = f, ts_materialized_for = None, ts_context = None\<rparr>, 0, []) = (st, w, out)"
  shows "set out \<subseteq> {(mt_ca_cert m, mt_client_cert m, mt_client_key m)} \<and>
         fst (client_ssl_context m st) = Some (mt_ca_cert m, mt_client_cert m, mt_client_key m)"
proof -
  have ok: "tls_ok m (st, w, out)" using tls_run_ok [of m "(\<lparr>ts_files = f, ts_materialized_for = None, ts_context = None\<rparr>, 0, [])" ops]
    by (simp add: assms tls_ok_def)
  have "fst (client_ssl_context m st) = Some (own_context m)"
    unfolding client_ssl_context_def by (rule context_after_materialize [OF ok])
  then show ?thesis using ok by (simp add: tls_ok_def own_context_def)
qed

definition own_material :: material where
  "own_material = \<lparr>mt_ca_cert = ''CA'', mt_ca_key = ''cak'', mt_client_cert = ''CERT'', mt_client_key = ''KEY''\<rparr>"

theorem contexts_trusted_witness:
  "\<exists>st w out. fold (tls_step own_material) [Thread_materialize, Dies 4, Thread_materialize, Remove_file ''ca.crt'', Reset, Thread_context, Thread_materialize, Thread_context]
      (\<lparr>ts_files = [''ca.crt'' \<mapsto> ''OTHER CA'', ''client.key'' \<mapsto> ''OTHER KEY''], ts_materialized_for = None, ts_context = None\<rparr>, 0, []) = (st, w, out) \<and>
     set out \<subseteq> {(''CA'', ''CERT'', ''KEY'')}"
proof -
  let ?s = "fold (tls_step own_material) [Thread_materialize, Dies 4, Thread_materialize, Remove_file ''ca.crt'', Reset, Thread_context, Thread_materialize, Thread_context]
      (\<lparr>ts_files = [''ca.crt'' \<mapsto> ''OTHER CA'', ''client.key'' \<mapsto> ''OTHER KEY''], ts_materialized_for = None, ts_context = None\<rparr>, 0, [])"
  obtain st w out where r: "?s = (st, w, out)" by (cases ?s)
  show ?thesis using contexts_trusted [OF r] r by (auto simp: own_material_def)
qed

end
