(* ===== verification/Proxy.thy ===== *)
theory Proxy
  imports HaWrites
begin

text \<open>
  The embedded UI of a managed server, backend/app/routers/proxy.py, and the middleware around every request,
  backend/app/main.py: who may use the proxy, what is forwarded in either direction, how the answer is rewritten.
  Headers are lists of pairs with lower-case names. A body is its text.
\<close>

section \<open>Requests and responses\<close>

type_synonym headers = "(string \<times> string) list"

record 't http_request =
  rq_method :: string
  rq_path :: string
  rq_query :: string
  rq_headers :: headers
  rq_cookies :: "(string \<times> 't) list"
  rq_body :: string

record http_response =
  rs_status :: int
  rs_headers :: headers
  rs_body :: string

definition header_or :: "headers \<Rightarrow> string \<Rightarrow> string \<Rightarrow> string" where
  "header_or h key dflt = (case map_of h key of None \<Rightarrow> dflt | Some v \<Rightarrow> v)"

definition set_headers :: "headers \<Rightarrow> headers \<Rightarrow> headers" where
  "set_headers new h = fold (\<lambda>e. dict_set (fst e) (snd e)) new h"

definition proxy_methods :: "string list" where
  "proxy_methods = [''GET'', ''POST'', ''PUT'', ''PATCH'', ''DELETE'', ''OPTIONS'', ''HEAD'']"

definition hop_by_hop :: "string list" where
  "hop_by_hop =
     [''host'', ''cookie'', ''authorization'', ''accept-encoding'', ''content-length'', ''connection'', ''keep-alive'',
      ''proxy-authenticate'', ''proxy-authorization'', ''te'', ''trailers'', ''transfer-encoding'', ''upgrade'']"

definition strip_resp :: "string list" where
  "strip_resp =
     [''x-frame-options'', ''content-security-policy'', ''content-security-policy-report-only'', ''content-encoding'',
      ''content-length'', ''transfer-encoding'', ''connection'', ''strict-transport-security'', ''set-cookie'',
      ''access-control-allow-origin'', ''access-control-allow-credentials'', ''access-control-allow-methods'',
      ''access-control-allow-headers'']"

section \<open>Which requests are for the proxy\<close>

text \<open>\<open>^/api/servers/\d+/ui(/|$)\<close>\<close>

definition ui_proxy_path :: "string \<Rightarrow> bool" where
  "ui_proxy_path path =
     (py_startswith path ''/api/servers/'' \<and>
      (let rest = drop 13 path; digits = takeWhile is_digit_char rest; tail = drop (length digits) rest in
       digits \<noteq> [] \<and> py_startswith tail ''/ui'' \<and>
       (let after = drop 3 tail in after = [] \<or> hd after = CHR ''/'' \<or> after = [CHR 0x0A])))"

definition is_ui_proxy_preflight :: "'t http_request \<Rightarrow> bool" where
  "is_ui_proxy_preflight rq \<longleftrightarrow>
     rq_method rq = ''OPTIONS'' \<and> map_of (rq_headers rq) ''access-control-request-method'' \<noteq> None \<and> ui_proxy_path (rq_path rq)"

definition cors_headers :: "'t http_request \<Rightarrow> headers" where
  "cors_headers rq =
     (let origin = header_or (rq_headers rq) ''origin'' []; host = header_or (rq_headers rq) ''host'' [] in
      if origin = [] then []
      else if origin \<noteq> ''null'' \<and> origin \<noteq> ''http://'' @ host \<and> origin \<noteq> ''https://'' @ host then []
      else [(''access-control-allow-origin'', origin), (''access-control-allow-credentials'', ''true''),
            (''access-control-allow-methods'', py_join '', '' proxy_methods),
            (''access-control-allow-headers'', header_or (rq_headers rq) ''access-control-request-headers'' ''content-type''),
            (''vary'', ''Origin'')])"

definition preflight_response :: "'t http_request \<Rightarrow> http_response" where
  "preflight_response rq =
     (if cors_headers rq = [] then \<lparr>rs_status = 403, rs_headers = [], rs_body = []\<rparr>
      else \<lparr>rs_status = 204, rs_headers = cors_headers rq @ [(''access-control-max-age'', ''600'')], rs_body = []\<rparr>)"

section \<open>Who may use it\<close>

definition proxy_cookie :: "int \<Rightarrow> string" where
  "proxy_cookie i = ''aghproxy_'' @ show_int i"

definition ui_prefix :: "int \<Rightarrow> string" where
  "ui_prefix i = ''/api/servers/'' @ show_int i @ ''/ui''"

definition authorize :: "'t jwt \<Rightarrow> settings \<Rightarrow> int \<Rightarrow> 't http_request \<Rightarrow> int \<Rightarrow> db \<Rightarrow> server http" where
  "authorize J cfg now rq i d =
     (if \<not> cf_ui_proxy_enabled cfg then Inl (HTTPException 404 ''Embedded UI proxy is disabled'')
      else case Option.bind (map_of (rq_cookies rq) (proxy_cookie i)) (\<lambda>token. decode_proxy_token J now token i) of
        None \<Rightarrow> Inl (HTTPException 401 ''UI session expired - reopen the server UI'')
      | Some user_id \<Rightarrow>
          (case get_user d user_id of
             None \<Rightarrow> Inl (HTTPException 403 ''Not authorized for this server UI'')
           | Some u \<Rightarrow>
               if \<not> u_is_active u \<or> \<not> user_has_role u Role_editor
               then Inl (HTTPException 403 ''Not authorized for this server UI'')
               else (case get_server d i of None \<Rightarrow> Inl server_missing | Some s \<Rightarrow> Inr s)))"

record 't ui_cookie =
  uc_key :: string
  uc_value :: 't
  uc_path :: string
  uc_httponly :: bool
  uc_samesite :: string
  uc_secure :: bool
  uc_max_age :: int

definition secure_cookies :: "settings \<Rightarrow> bool" where
  "secure_cookies cfg = py_startswith (py_lower (cf_public_base_url cfg)) ''https''"

definition sandbox_attr :: string where
  "sandbox_attr = ''allow-scripts allow-forms allow-popups allow-downloads allow-same-origin''"

definition isolation_mode :: string where
  "isolation_mode = ''same-origin''"

definition ui_session :: "'t jwt \<Rightarrow> settings \<Rightarrow> int \<Rightarrow> user \<Rightarrow> int \<Rightarrow> db \<Rightarrow> ('t ui_cookie \<times> json) http" where
  "ui_session J cfg now u i d =
     (if \<not> cf_ui_proxy_enabled cfg then Inl (HTTPException 404 ''Embedded UI proxy is disabled'')
      else if get_server d i = None then Inl server_missing
      else Inr
        (\<lparr>uc_key = proxy_cookie i, uc_value = create_proxy_token J cfg now i (u_id u) None, uc_path = ui_prefix i,
          uc_httponly = True, uc_samesite = ''lax'', uc_secure = secure_cookies cfg,
          uc_max_age = cf_proxy_token_ttl_minutes cfg * 60\<rparr>,
         JObj [(''ok'', JBool True), (''src'', JStr (ui_prefix i @ ''/'')), (''sandbox'', JStr sandbox_attr),
               (''isolation'', JStr isolation_mode)]))"

section \<open>Rewriting\<close>

definition rewrite_location :: "string \<Rightarrow> string \<Rightarrow> string \<Rightarrow> string" where
  "rewrite_location loc server_url prefix =
     (let base = py_rstrip_char CHR ''/'' server_url;
          loc1 = (if py_startswith loc base then (if drop (length base) loc = [] then ''/'' else drop (length base) loc) else loc) in
      if py_startswith loc1 ''/'' \<and> \<not> py_startswith loc1 ''//'' \<and> \<not> py_startswith loc1 prefix then prefix @ loc1 else loc1)"

text \<open>\<open>(src|href|action)=["']/\<close> not followed by another slash: what precedes the path, and the path after its slash.\<close>

definition attr_heads :: "string list" where
  "attr_heads = concat (map (\<lambda>n. [n @ ''='' @ [CHR 0x22], n @ ''='' @ apostrophe]) [''src'', ''href'', ''action''])"

definition attr_match :: "string \<Rightarrow> (string \<times> string) option" where
  "attr_match s =
     (case find (\<lambda>h. py_startswith s (h @ ''/'')) attr_heads of
        None \<Rightarrow> None
      | Some h \<Rightarrow>
          (let rest = drop (length h + 1) s in
           if py_startswith rest ''/'' then None else Some (h, rest)))"

lemma py_startswith_drop: "py_startswith s p \<Longrightarrow> s = p @ drop (length p) s"
  by (induction s p rule: py_startswith.induct) auto

lemma attr_match_split: "attr_match s = Some (h, rest) \<Longrightarrow> s = h @ CHR ''/'' # rest \<and> h \<in> set attr_heads"
  using py_startswith_drop [of s "h @ ''/''"]
  by (auto simp: attr_match_def Let_def find_Some_iff split: option.splits if_splits)

function rewrite_attrs :: "string \<Rightarrow> string \<Rightarrow> string" where
  "rewrite_attrs prefix [] = []"
| "rewrite_attrs prefix (c # cs) =
     (case (if py_isspace c then attr_match cs else None) of
        None \<Rightarrow> c # rewrite_attrs prefix cs
      | Some (h, rest) \<Rightarrow> c # h @ prefix @ ''/'' @ rewrite_attrs prefix rest)"
  by pat_completeness auto

termination
  by (relation "measure (\<lambda>(_, s). length s)") (auto dest!: attr_match_split split: if_splits)

text \<open>\<open><head[^>]*>\<close> in any case: what comes before its end and after it.\<close>

fun split_head :: "string \<Rightarrow> (string \<times> string) option" where
  "split_head [] = None"
| "split_head (c # cs) =
     (let name = py_lower (take 5 (c # cs)); tail = dropWhile (\<lambda>x. x \<noteq> CHR ''>'') (drop 5 (c # cs)) in
      if name = ''<head'' \<and> tail \<noteq> []
      then Some (take (length (c # cs) - length (tl tail)) (c # cs), tl tail)
      else map_option (\<lambda>(a, b). (c # a, b)) (split_head cs))"

definition to_js_str :: "string \<Rightarrow> string" where
  "to_js_str s =
     [CHR 0x22] @
     concat (map (\<lambda>c. if c = CHR 0x5C then [CHR 0x5C, CHR 0x5C] else if c = CHR 0x22 then [CHR 0x5C, CHR 0x22]
                       else if c = CHR ''<'' then CHR 0x5C # ''x3c'' else [c]) s) @
     [CHR 0x22]"

text \<open>\<open>body\<close> is the fixed text of the script.\<close>

definition shim :: "string \<Rightarrow> string \<Rightarrow> string" where
  "shim body prefix = ''<script>(function(){var P='' @ to_js_str prefix @ '';'' @ body @ ''})();</script>''"

definition rewrite_html :: "string \<Rightarrow> string \<Rightarrow> string \<Rightarrow> string" where
  "rewrite_html body html prefix =
     rewrite_attrs prefix
       (case split_head html of None \<Rightarrow> shim body prefix @ html | Some (a, b) \<Rightarrow> a @ shim body prefix @ b)"

section \<open>The proxy\<close>

text \<open>The dash in the detail of the 401 is outside Latin-1 and is written as a hyphen above.\<close>

datatype upload = No_body | Buffered string | Streamed string

record upstream_request =
  ur_method :: string
  ur_url :: string
  ur_headers :: headers
  ur_auth :: "(string \<times> string option) option"
  ur_body :: upload

definition max_rewrite_bytes :: nat where
  "max_rewrite_bytes = 8388608"

definition max_buffered_upload :: int where
  "max_buffered_upload = 33554432"

definition forwarded_headers :: "headers \<Rightarrow> headers" where
  "forwarded_headers h =
     dict_set ''accept-encoding'' ''identity'' (set_headers (filter (\<lambda>e. py_lower (fst e) \<notin> set hop_by_hop) h) [])"

text \<open>\<open>None\<close> where a declared length is no integer, which nothing catches.\<close>

definition upload_of :: "'t http_request \<Rightarrow> upload option" where
  "upload_of rq =
     (let h = rq_headers rq; declared = header_or h ''content-length'' [] in
      if py_contains ''chunked'' (py_lower (header_or h ''transfer-encoding'' [])) then Some (Streamed (rq_body rq))
      else if declared = [] then Some No_body
      else map_option (\<lambda>n. if n > max_buffered_upload then Streamed (rq_body rq)
             else if n > 0 then Buffered (rq_body rq) else No_body) (py_int declared))"

definition answered_headers :: "server \<Rightarrow> string \<Rightarrow> headers \<Rightarrow> headers \<Rightarrow> headers" where
  "answered_headers s prefix cors up =
     set_headers cors
       (set_headers (map (\<lambda>e. if py_lower (fst e) = ''location'' then (fst e, rewrite_location (snd e) (s_url s) prefix) else e)
          (filter (\<lambda>e. py_lower (fst e) \<notin> set strip_resp) up)) [])"

definition upstream_target :: "server \<Rightarrow> string \<Rightarrow> string \<Rightarrow> string" where
  "upstream_target s path query =
     py_rstrip_char CHR ''/'' (s_url s) @ ''/'' @ path @ (if query = [] then [] else ''?'' @ query)"

text \<open>\<open>send\<close> is the exchange with the managed server: the text of a transport error, or its response.\<close>

definition proxy_ui ::
  "'t jwt \<Rightarrow> fernet \<Rightarrow> settings \<Rightarrow> client_builder \<Rightarrow> string \<Rightarrow> (upstream_request \<Rightarrow> string + http_response) \<Rightarrow> int
   \<Rightarrow> int \<Rightarrow> string \<Rightarrow> 't http_request \<Rightarrow> db \<Rightarrow> http_response http" where
  "proxy_ui J F cfg build body send now i path rq d =
     (if is_ui_proxy_preflight rq then Inr (preflight_response rq)
      else case authorize J cfg now rq i d of
        Inl x \<Rightarrow> Inl x
      | Inr s \<Rightarrow>
          (if build (s_url s) (s_username s) (s_password_enc s) (s_tls_cert s) \<noteq> None then Inl server_error
           else case upload_of rq of
             None \<Rightarrow> Inl server_error
           | Some content \<Rightarrow>
               (case send \<lparr>ur_method = rq_method rq, ur_url = upstream_target s path (rq_query rq),
                           ur_headers = forwarded_headers (rq_headers rq),
                           ur_auth = (if truthy_text (s_username s)
                                      then Some (the (s_username s), decrypt_secret F cfg (s_password_enc s)) else None),
                           ur_body = content\<rparr> of
                  Inl err \<Rightarrow> Inl (HTTPException 502 (''Upstream error: '' @ err))
                | Inr up \<Rightarrow>
                    Inr \<lparr>rs_status = rs_status up,
                         rs_headers = answered_headers s (ui_prefix i) (cors_headers rq) (rs_headers up),
                         rs_body = (if py_contains ''text/html'' (py_lower (header_or (rs_headers up) ''content-type'' [])) \<and>
                                       length (rs_body up) \<le> max_rewrite_bytes
                                    then rewrite_html body (rs_body up) (ui_prefix i) else rs_body up)\<rparr>)))"

section \<open>The middleware\<close>

definition csp :: string where
  "csp = ''default-src '' @ apostrophe @ ''self'' @ apostrophe @ ''; script-src '' @ apostrophe @ ''self'' @ apostrophe @
     ''; style-src '' @ apostrophe @ ''self'' @ apostrophe @ '' '' @ apostrophe @ ''unsafe-inline'' @ apostrophe @
     ''; img-src '' @ apostrophe @ ''self'' @ apostrophe @ '' data:; font-src '' @ apostrophe @ ''self'' @ apostrophe @
     '' data:; connect-src '' @ apostrophe @ ''self'' @ apostrophe @ ''; frame-ancestors '' @ apostrophe @ ''none'' @ apostrophe @
     ''; form-action '' @ apostrophe @ ''self'' @ apostrophe @ ''; base-uri '' @ apostrophe @ ''none'' @ apostrophe @
     ''; object-src '' @ apostrophe @ ''none'' @ apostrophe"

definition set_default :: "string \<Rightarrow> string \<Rightarrow> headers \<Rightarrow> headers" where
  "set_default k v h = (if map_of h k = None then h @ [(k, v)] else h)"

definition security_headers :: "settings \<Rightarrow> string \<Rightarrow> headers \<Rightarrow> headers" where
  "security_headers cfg path h =
     (let h1 = set_default ''cross-origin-opener-policy'' ''same-origin''
                 (set_default ''referrer-policy'' ''no-referrer'' (set_default ''x-content-type-options'' ''nosniff'' h));
          h2 = (if ui_proxy_path path then h1
                else set_default ''x-frame-options'' ''DENY'' (set_default ''content-security-policy'' csp h1)) in
      if secure_cookies cfg then set_default ''strict-transport-security'' ''max-age=31536000; includeSubDomains'' h2 else h2)"

text \<open>
  The whole application: the preflight middleware is outermost, then the security headers; \<open>inner\<close> is the CORS
  middleware of the framework and the routes behind it.
\<close>

definition app_response :: "settings \<Rightarrow> ('t http_request \<Rightarrow> http_response) \<Rightarrow> 't http_request \<Rightarrow> http_response" where
  "app_response cfg inner rq =
     (if is_ui_proxy_preflight rq then preflight_response rq
      else let r = inner rq in r\<lparr>rs_headers := security_headers cfg (rq_path rq) (rs_headers r)\<rparr>)"

section \<open>Start-up and the files of the web interface\<close>

definition check_configuration :: "(string \<Rightarrow> bool) \<Rightarrow> settings \<Rightarrow> problem list + unit" where
  "check_configuration fernet_ok cfg =
     (if config_problems fernet_ok cfg = [] \<or> cf_allow_insecure_config cfg then Inr ()
      else Inl (config_problems fernet_ok cfg))"

definition bootstrap_admin :: "(string \<Rightarrow> string) \<Rightarrow> settings \<Rightarrow> db \<Rightarrow> db" where
  "bootstrap_admin hash cfg d =
     (if db_users d \<noteq> [] then d
      else d\<lparr>db_users := row_add u_id
        (\<lambda>i. \<lparr>u_id = i, u_username = cf_admin_username cfg, u_email = None,
              u_hashed_password = Some (hash (cf_admin_password cfg)), u_role = Role_admin, u_is_active = True,
              u_oidc_sub = None\<rparr>) (db_users d)\<rparr>)"

definition lifespan :: "(string \<Rightarrow> bool) \<Rightarrow> (string \<Rightarrow> string) \<Rightarrow> settings \<Rightarrow> db \<Rightarrow> problem list + db" where
  "lifespan fernet_ok hash cfg d =
     (case check_configuration fernet_ok cfg of Inl ps \<Rightarrow> Inl ps | Inr _ \<Rightarrow> Inr (bootstrap_admin hash cfg d))"

text \<open>Segments of a path with \<open>..\<close> resolved, below \<open>base\<close> unless the path is absolute; no symbolic links.\<close>

fun resolve_segments :: "string list \<Rightarrow> string list \<Rightarrow> string list" where
  "resolve_segments acc [] = acc"
| "resolve_segments acc (x # xs) =
     (if x = [] \<or> x = ''.'' then resolve_segments acc xs
      else if x = ''..'' then resolve_segments (butlast acc) xs
      else resolve_segments (acc @ [x]) xs)"

definition resolved :: "string list \<Rightarrow> string \<Rightarrow> string list" where
  "resolved base full_path = resolve_segments (if py_startswith full_path ''/'' then [] else base) (py_split CHR ''/'' full_path)"

datatype spa_answer = Spa_not_found | Spa_file "string list" | Spa_index

definition spa :: "string list \<Rightarrow> (string list \<Rightarrow> bool) \<Rightarrow> string \<Rightarrow> spa_answer" where
  "spa base is_file full_path =
     (if list_ex (py_startswith full_path)
           [''api/'', ''docs'', ''redoc'', ''openapi.json'', ''control/'', ''zone/'', ''server/''] then Spa_not_found
      else if is_file (resolved base full_path) \<and> take (length base) (resolved base full_path) = base
      then Spa_file (resolved base full_path) else Spa_index)"

section \<open>Facts about headers\<close>

lemma set_headers_set: "set (set_headers new h) \<subseteq> set new \<union> set h"
  using dict_set_subset unfolding set_headers_def
  by (induction new arbitrary: h) (simp, fastforce)

lemma set_headers_get: "map_of (set_headers new h) k = (case map_of (rev new) k of None \<Rightarrow> map_of h k | Some v \<Rightarrow> Some v)"
  by (induction new arbitrary: h) (auto simp: set_headers_def map_add_def split: option.split)

lemma set_default_get: "map_of (set_default k v h) j = (if j = k \<and> map_of h k = None then Some v else map_of h j)"
  by (auto simp: set_default_def map_add_def split: option.split)

section \<open>Facts about the rewriting\<close>

text \<open>Positions of a text at which an attribute with an absolute path begins, with the path.\<close>

definition absolute_at :: "string \<Rightarrow> string option" where
  "absolute_at s = (case s of [] \<Rightarrow> None | c # cs \<Rightarrow> if py_isspace c then map_option (\<lambda>(h, rest). CHR ''/'' # rest) (attr_match cs) else None)"

fun suffixes :: "'a list \<Rightarrow> 'a list list" where
  "suffixes [] = [[]]"
| "suffixes (x # xs) = (x # xs) # suffixes xs"

definition confined :: "string \<Rightarrow> string \<Rightarrow> bool" where
  "confined prefix s \<longleftrightarrow> (\<forall>t \<in> set (suffixes s). \<forall>path. absolute_at t = Some path \<longrightarrow> py_startswith path (prefix @ ''/''))"

lemma suffix_in: "t \<in> set (suffixes (s @ t))"
  by (induction s) (cases t, simp_all)

lemma confined_cons: "confined prefix (c # s) \<longleftrightarrow>
    confined prefix s \<and> (\<forall>path. absolute_at (c # s) = Some path \<longrightarrow> py_startswith path (prefix @ ''/''))"
  by (auto simp: confined_def)

lemma confined_solid: "list_all (\<lambda>c. \<not> py_isspace c) p \<Longrightarrow> confined prefix (p @ s) \<longleftrightarrow> confined prefix s"
  by (induction p) (auto simp: confined_cons absolute_at_def)

lemma startswith_append: "py_startswith (p @ s) p"
  by (induction p) (cases s, simp_all)

lemma startswith_iff: "py_startswith s p \<longleftrightarrow> (\<exists>r. s = p @ r)"
  using py_startswith_drop startswith_append by metis

lemma heads_solid: "h \<in> set attr_heads \<Longrightarrow> list_all (\<lambda>c. \<not> py_isspace c) h"
proof -
  have "list_all (\<lambda>h. list_all (\<lambda>c. \<not> py_isspace c) h) attr_heads" by code_simp
  then show "h \<in> set attr_heads \<Longrightarrow> list_all (\<lambda>c. \<not> py_isspace c) h" by (simp add: list_all_iff)
qed

text \<open>Text without white space is copied, and is found in the copy only where it was.\<close>

lemma rewrite_solid: "list_all (\<lambda>c. \<not> py_isspace c) p \<Longrightarrow> rewrite_attrs prefix (p @ s) = p @ rewrite_attrs prefix s"
  by (induction p) simp_all

lemma rewrite_hd: "rewrite_attrs prefix s = c # r \<Longrightarrow> \<exists>cs. s = c # cs"
  by (cases s) (auto split: option.splits prod.splits)

lemma rewrite_starts:
  "list_all (\<lambda>c. \<not> py_isspace c) p \<Longrightarrow> rewrite_attrs prefix s = p @ r \<Longrightarrow> \<exists>t. s = p @ t \<and> r = rewrite_attrs prefix t"
proof (induction p arbitrary: s)
  case (Cons c p)
  then obtain cs where s: "s = c # cs" using rewrite_hd [of prefix s c "p @ r"] by auto
  have "rewrite_attrs prefix cs = p @ r" using Cons.prems s by simp
  with Cons.IH [of cs] Cons.prems(1) s show ?case by auto
qed simp

lemma heads_unique:
  assumes "h \<in> set attr_heads" and "h' \<in> set attr_heads" and "py_startswith s (h @ ''/'')" and "py_startswith s (h' @ ''/'')"
  shows "h = h'"
proof -
  have all: "list_all (\<lambda>h. list_all (\<lambda>h'. h = h' \<or> take (min (length h) (length h')) h \<noteq> take (min (length h) (length h')) h') attr_heads) attr_heads"
    by code_simp
  obtain r r' where r: "s = (h @ ''/'') @ r" "s = (h' @ ''/'') @ r'" using assms(3,4) unfolding startswith_iff by blast
  have "take (min (length h) (length h')) h = take (min (length h) (length h')) s" by (simp add: r(1))
  moreover have "take (min (length h) (length h')) h' = take (min (length h) (length h')) s" by (simp add: r(2))
  ultimately show ?thesis using all assms(1,2) unfolding list_all_iff by metis
qed

lemma attr_match_iff:
  "attr_match s = Some (h, rest) \<longleftrightarrow> h \<in> set attr_heads \<and> s = h @ CHR ''/'' # rest \<and> \<not> py_startswith rest ''/''"
proof
  show "attr_match s = Some (h, rest) \<Longrightarrow> h \<in> set attr_heads \<and> s = h @ CHR ''/'' # rest \<and> \<not> py_startswith rest ''/''"
    using attr_match_split [of s h rest] by (auto simp: attr_match_def Let_def split: option.splits if_splits)
next
  assume a: "h \<in> set attr_heads \<and> s = h @ CHR ''/'' # rest \<and> \<not> py_startswith rest ''/''"
  then have starts: "py_startswith s (h @ ''/'')" using startswith_append [of "h @ ''/''" rest] by simp
  have "find (\<lambda>h. py_startswith s (h @ ''/'')) attr_heads = Some h"
  proof (cases "find (\<lambda>h. py_startswith s (h @ ''/'')) attr_heads")
    case None
    then show ?thesis using a starts by (auto simp: find_None_iff)
  next
    case (Some g)
    then have "g \<in> set attr_heads" "py_startswith s (g @ ''/'')" by (auto simp: find_Some_iff)
    with heads_unique [of g h s] a starts Some show ?thesis by simp
  qed
  with a show "attr_match s = Some (h, rest)" by (simp add: attr_match_def)
qed

lemma slash_solid: "\<not> py_isspace CHR ''/''"
  by code_simp

lemma rewrite_attrs_confined:
  "py_startswith prefix ''/'' \<Longrightarrow> list_all (\<lambda>c. \<not> py_isspace c) prefix \<Longrightarrow> confined prefix (rewrite_attrs prefix s)"
proof (induction prefix s rule: rewrite_attrs.induct)
  case (1 prefix)
  then show ?case by (simp add: confined_def absolute_at_def)
next
  case (2 prefix c cs)
  show ?case
  proof (cases "if py_isspace c then attr_match cs else None")
    case None
    have False if "absolute_at (c # rewrite_attrs prefix cs) = Some path" for path
    proof -
      obtain h rest where m: "py_isspace c" "attr_match (rewrite_attrs prefix cs) = Some (h, rest)"
        using \<open>absolute_at (c # rewrite_attrs prefix cs) = Some path\<close> by (auto simp: absolute_at_def split: if_splits)
      then have h: "h \<in> set attr_heads" "rewrite_attrs prefix cs = (h @ ''/'') @ rest" "\<not> py_startswith rest ''/''"
        unfolding attr_match_iff by auto
      have "list_all (\<lambda>c. \<not> py_isspace c) (h @ ''/'')" using heads_solid [OF h(1)] slash_solid by simp
      from rewrite_starts [OF this h(2)] obtain t where t: "cs = (h @ ''/'') @ t" "rest = rewrite_attrs prefix t" by blast
      have "attr_match cs = None" using None m(1) by simp
      then have "py_startswith t ''/''" using attr_match_iff [of cs h t] h(1) t(1) by auto
      then obtain t' where "t = CHR ''/'' # t'" unfolding startswith_iff by auto
      then have "rest = CHR ''/'' # rewrite_attrs prefix t'" using t(2) slash_solid by simp
      with h(3) show ?thesis by simp
    qed
    moreover have "confined prefix (rewrite_attrs prefix cs)" using 2(1) [OF None] 2(3,4) by simp
    ultimately show ?thesis using None by (auto simp: confined_cons)
  next
    case (Some e)
    obtain h rest where e: "e = (h, rest)" by (cases e)
    let ?R = "rewrite_attrs prefix rest"
    have c: "py_isspace c" and m: "attr_match cs = Some (h, rest)" using Some e by (auto split: if_splits)
    have IH: "confined prefix ?R" using 2(2) [OF Some e [symmetric]] 2(3,4) by simp
    obtain p where p: "prefix = CHR ''/'' # p" using 2(3) unfolding startswith_iff by auto
    have h: "h \<in> set attr_heads" using m unfolding attr_match_iff by simp
    have "list_all (\<lambda>c. \<not> py_isspace c) (h @ prefix @ ''/'')" using heads_solid [OF h] slash_solid 2(4) by simp
    from confined_solid [OF this, of prefix ?R] IH have "confined prefix (h @ prefix @ ''/'' @ ?R)" by simp
    moreover have "py_startswith path (prefix @ ''/'')" if "absolute_at (c # h @ prefix @ ''/'' @ ?R) = Some path" for path
    proof -
      obtain g r where g: "attr_match (h @ prefix @ ''/'' @ ?R) = Some (g, r)" "path = CHR ''/'' # r"
        using \<open>absolute_at (c # h @ prefix @ ''/'' @ ?R) = Some path\<close> c by (auto simp: absolute_at_def)
      then have s: "g \<in> set attr_heads" "h @ prefix @ ''/'' @ ?R = (g @ ''/'') @ r" unfolding attr_match_iff by auto
      have "h @ prefix @ ''/'' @ ?R = (h @ ''/'') @ p @ ''/'' @ ?R" by (simp add: p)
      then have "py_startswith (h @ prefix @ ''/'' @ ?R) (h @ ''/'')" unfolding startswith_iff by blast
      moreover have "py_startswith (h @ prefix @ ''/'' @ ?R) (g @ ''/'')" unfolding startswith_iff using s(2) by blast
      ultimately have "g = h" using heads_unique [OF s(1) h] by blast
      then have "r = p @ ''/'' @ ?R" using s(2) p by simp
      then show ?thesis unfolding startswith_iff g(2) p by auto
    qed
    ultimately show ?thesis using Some e by (simp add: confined_cons)
  qed
qed

lemma show_int_solid: "list_all (\<lambda>c. \<not> py_isspace c) (show_int i)"
proof -
  have "\<not> py_isspace c" if "is_digit_char c" for c
    using that by (auto simp: is_digit_char_def py_isspace_def Let_def)
  then have "list_all (\<lambda>c. \<not> py_isspace c) (show_nat n)" for n using show_nat_digits [of n] by (auto simp: list_all_iff)
  moreover have "\<not> py_isspace CHR ''-''" by code_simp
  ultimately show ?thesis by (simp add: show_int_def)
qed

lemma ui_prefix_solid: "py_startswith (ui_prefix i) ''/''" "list_all (\<lambda>c. \<not> py_isspace c) (ui_prefix i)"
proof -
  have "list_all (\<lambda>c. \<not> py_isspace c) ''/api/servers/''" "list_all (\<lambda>c. \<not> py_isspace c) ''/ui''" by code_simp+
  then show "list_all (\<lambda>c. \<not> py_isspace c) (ui_prefix i)" using show_int_solid [of i] by (simp add: ui_prefix_def)
  show "py_startswith (ui_prefix i) ''/''" by (simp add: ui_prefix_def)
qed

section \<open>Properties\<close>

text \<open>
  C29. The proxy answers for a managed server only with the feature on and a cookie whose token was made for that very
  server and belongs to an account that is active and at least editor at that moment; otherwise the server is not
  contacted at all.
\<close>

theorem proxy_access_sound:
  assumes "\<not> is_ui_proxy_preflight rq"
  shows "cf_ui_proxy_enabled cfg \<and> (\<exists>token k u s. map_of (rq_cookies rq) (proxy_cookie i) = Some token \<and>
      decode_proxy_token J now token i = Some k \<and> get_user d k = Some u \<and> u_is_active u \<and> user_has_role u Role_editor \<and>
      get_server d i = Some s) \<or>
    (\<exists>x. \<forall>send. proxy_ui J F cfg build body send now i path rq d = Inl x)"
proof (cases "authorize J cfg now rq i d")
  case (Inl x)
  then show ?thesis using assms by (simp add: proxy_ui_def)
next
  case (Inr s)
  then show ?thesis
    by (auto simp: authorize_def split: if_splits option.splits dest!: bind_eq_Some_conv [THEN iffD1])
qed

definition plain_get :: "(string \<times> json) list http_request" where
  "plain_get = \<lparr>rq_method = ''GET'', rq_path = ''/api/servers/1/ui/'', rq_query = [], rq_headers = [], rq_cookies = [], rq_body = []\<rparr>"

theorem proxy_access_sound_witness:
  "\<exists>x. \<forall>send. proxy_ui open_jwt no_fernet default_settings plain_build [] send 0 1 [] plain_get empty_db = Inl x"
  using proxy_access_sound [of plain_get default_settings 1 open_jwt 0 empty_db no_fernet plain_build "[]" "[]"]
  by (simp add: plain_get_def is_ui_proxy_preflight_def)

text \<open>
  Credentials stay on their side: no cookie, authorization or host header of the browser reaches the managed
  server, and no cookie, framing, transport-security or cross-origin header of the managed server reaches the browser.
\<close>

theorem proxy_header_frame:
  "(\<forall>e \<in> set (forwarded_headers h). py_lower (fst e) \<in> set hop_by_hop \<longrightarrow> e = (''accept-encoding'', ''identity'')) \<and>
   (\<forall>e \<in> set (answered_headers s prefix (cors_headers rq) up). py_lower (fst e) \<in> set strip_resp \<longrightarrow> e \<in> set (cors_headers rq))"
proof -
  have "set (forwarded_headers h) \<subseteq> insert (''accept-encoding'', ''identity'') (set (filter (\<lambda>e. py_lower (fst e) \<notin> set hop_by_hop) h))"
    using dict_set_subset [of "''accept-encoding''" "''identity''"] set_headers_set [of _ "[]"]
    unfolding forwarded_headers_def by fastforce
  moreover have "set (answered_headers s prefix (cors_headers rq) up) \<subseteq> set (cors_headers rq) \<union>
      set (map (\<lambda>e. if py_lower (fst e) = ''location'' then (fst e, rewrite_location (snd e) (s_url s) prefix) else e)
        (filter (\<lambda>e. py_lower (fst e) \<notin> set strip_resp) up))"
    using set_headers_set [of _ "[]"] set_headers_set unfolding answered_headers_def by fastforce
  ultimately show ?thesis by auto
qed

theorem proxy_header_frame_witness:
  "map_of (forwarded_headers [(''cookie'', ''secret''), (''accept'', ''text/html'')]) ''cookie'' = None \<and>
   (''set-cookie'', ''a=b'') \<notin> set (answered_headers (sample_server 1 ''a'' []) (ui_prefix 1) (cors_headers plain_get) [(''set-cookie'', ''a=b'')])"
proof -
  have lower: "py_lower ''cookie'' = ''cookie''" "py_lower ''set-cookie'' = ''set-cookie''" by code_simp+
  have none: "cors_headers plain_get = []" by (simp add: cors_headers_def plain_get_def header_or_def)
  note frame = proxy_header_frame [of "[(''cookie'', ''secret''), (''accept'', ''text/html'')]" "sample_server 1 ''a'' []" "ui_prefix 1"
      plain_get "[(''set-cookie'', ''a=b'')]"]
  have "(''cookie'', v) \<notin> set (forwarded_headers [(''cookie'', ''secret''), (''accept'', ''text/html'')])" for v
    using bspec [OF conjunct1 [OF frame], of "(''cookie'', v)"] lower by (auto simp: hop_by_hop_def)
  then have "map_of (forwarded_headers [(''cookie'', ''secret''), (''accept'', ''text/html'')]) ''cookie'' = None"
    by (auto simp: map_of_eq_None_iff)
  moreover have "(''set-cookie'', ''a=b'') \<notin> set (answered_headers (sample_server 1 ''a'' []) (ui_prefix 1) (cors_headers plain_get) [(''set-cookie'', ''a=b'')])"
    using bspec [OF conjunct2 [OF frame], of "(''set-cookie'', ''a=b'')"] lower none by (auto simp: strip_resp_def)
  ultimately show ?thesis by blast
qed



text \<open>
  Every response outside the proxy forbids framing and carries the content policy, unless the route set its own,
  and a preflight is answered by the outer middleware for paths of the proxy only.
\<close>

theorem framing_denied_outside_proxy:
  assumes "\<not> ui_proxy_path (rq_path rq)"
  shows "let h = rs_headers (app_response cfg inner rq) in
      (map_of (rs_headers (inner rq)) ''x-frame-options'' = None \<longrightarrow> map_of h ''x-frame-options'' = Some ''DENY'') \<and>
      (map_of (rs_headers (inner rq)) ''content-security-policy'' = None \<longrightarrow> map_of h ''content-security-policy'' = Some csp) \<and>
      map_of h ''access-control-allow-origin'' = map_of (rs_headers (inner rq)) ''access-control-allow-origin''"
proof -
  have "\<not> is_ui_proxy_preflight rq" using assms by (simp add: is_ui_proxy_preflight_def)
  then show ?thesis using assms by (simp add: app_response_def security_headers_def set_default_get Let_def)
qed

text \<open>
  A redirect of the managed server to itself, absolute or not, becomes one below the prefix of the proxy.
\<close>

theorem redirects_stay_inside:
  assumes "loc = ''/'' @ p \<or> loc = py_rstrip_char CHR ''/'' (s_url s) @ ''/'' @ p" and "\<not> py_startswith p ''/''"
    and "\<not> py_startswith (''/'' @ p) (py_rstrip_char CHR ''/'' (s_url s))"
  shows "py_startswith (rewrite_location loc (s_url s) prefix) prefix"
proof -
  let ?base = "py_rstrip_char CHR ''/'' (s_url s)"
  have "(if py_startswith loc ?base then (if drop (length ?base) loc = [] then ''/'' else drop (length ?base) loc) else loc) = ''/'' @ p"
    using assms(1,3) startswith_append [of ?base "''/'' @ p"] by auto
  then show ?thesis
    using assms(2) startswith_append [of prefix "''/'' @ p"] by (auto simp: rewrite_location_def Let_def)
qed

text \<open>
  The base of the server is compared without its boundary: a redirect to another port of the same host is taken
  for one to the server itself, and what is left of it is no address at all.
\<close>

theorem redirect_port_mangled:
  assumes "s_url s = ''http://box''"
  shows "rewrite_location ''http://box:3000/x'' (s_url s) prefix = '':3000/x''"
  unfolding assms by (simp add: rewrite_location_def py_rstrip_char_def)

text \<open>
  A start without the override for local work means a sound configuration, and leaves at least one account; the
  accounts that were there are untouched, and the configured administrator is added only where there was none.
\<close>

theorem startup_sound:
  assumes "lifespan fernet_ok hash cfg d = Inr d'" and "\<not> cf_allow_insecure_config cfg"
  shows "config_problems fernet_ok cfg = [] \<and> db_users d' \<noteq> [] \<and> d'\<lparr>db_users := db_users d\<rparr> = d \<and>
    (db_users d \<noteq> [] \<longrightarrow> d' = d) \<and>
    (db_users d = [] \<longrightarrow> (\<exists>u. db_users d' = [u] \<and> u_username u = cf_admin_username cfg \<and> u_role u = Role_admin \<and>
       u_hashed_password u = Some (hash (cf_admin_password cfg))))"
  using assms by (auto simp: lifespan_def check_configuration_def bootstrap_admin_def row_add_def split: if_splits sum.splits)

end
