(* ===== verification/Startup.thy ===== *)
theory Startup
  imports Certificates Proxy
begin

text \<open>
  backend/app/database.py, backend/app/oidc.py and the rest of the startup of backend/app/main.py: the tables of an
  older release are completed column by column, the single zone of a legacy row is folded into its list of zones, the
  CA is prepared, and the log says what is switched on. A table is its columns and its rows of cells.
\<close>

section \<open>Tables as the database has them\<close>

datatype cell = Null | Integer int | Text string

type_synonym cells = "(string \<times> cell) list"

record table =
  tb_name :: string
  tb_columns :: "string list"
  tb_rows :: "cells list"

definition cell_at :: "cells \<Rightarrow> string \<Rightarrow> cell" where
  "cell_at r c = (case map_of r c of None \<Rightarrow> Null | Some v \<Rightarrow> v)"

text \<open>The tables of models.py with their columns.\<close>

definition model_tables :: "(string \<times> string list) list" where
  "model_tables =
     [(''user'',
       [''id'', ''username'', ''email'', ''hashed_password'', ''role'', ''is_active'', ''oidc_sub'', ''created_at'']),
      (''zone'',
       [''id'', ''name'', ''slug'', ''description'', ''vip'', ''vrrp_router_id'', ''vrrp_auth_enc'', ''created_at'']),
      (''server'',
       [''id'', ''name'', ''url'', ''username'', ''password_enc'', ''zone_id'', ''enabled'', ''prune'', ''manage_upstreams'',
        ''manage_filtering'', ''tls_cert'', ''agent_id'', ''dns_port'', ''expose_web_ui'', ''agent_state'', ''lb_state'',
        ''stats_snapshot'', ''auto_update'', ''install_method'', ''can_autoupdate'', ''update_check_disabled'',
        ''update_state'', ''update_attempted_at'', ''update_attempted_version'', ''update_completed_at'', ''update_error'',
        ''status'', ''version'', ''latest_version'', ''update_available'', ''last_seen'', ''last_synced'', ''last_error'',
        ''cooldown_until'', ''in_sync'', ''created_at'']),
      (''dnsrecord'',
       [''id'', ''domain'', ''answer'', ''scope'', ''zone_ids'', ''enabled'', ''description'', ''managed'', ''created_at'',
        ''updated_at'']),
      (''upstream'',
       [''id'', ''address'', ''kind'', ''scope'', ''zone_ids'', ''server_id'', ''enabled'', ''description'', ''created_at'']),
      (''forwardzone'',
       [''id'', ''domains'', ''upstreams'', ''scope'', ''zone_ids'', ''server_id'', ''enabled'', ''description'',
        ''created_at'']),
      (''filterlist'',
       [''id'', ''name'', ''url'', ''kind'', ''scope'', ''zone_ids'', ''server_id'', ''enabled'', ''description'',
        ''created_at'']),
      (''blockedservice'',
       [''id'', ''service_id'', ''scope'', ''zone_ids'', ''server_id'', ''enabled'', ''description'', ''created_at'']),
      (''provisioningtoken'',
       [''id'', ''token'', ''name'', ''zone_id'', ''method'', ''prune'', ''auto_update'', ''ssl_enabled'', ''connect_address'',
        ''http_port'', ''https_port'', ''dns_port'', ''admin_username'', ''admin_password_enc'', ''tls_cert'', ''tls_key_enc'',
        ''roles'', ''agent_port'', ''vrrp_priority'', ''expose_web_ui'', ''lb_mode'', ''status'', ''created_at'',
        ''expires_at'', ''completed_at'', ''server_id'', ''agent_id'', ''load_balancer_id'', ''config_fetched_at'',
        ''key_fetched_at'']),
      (''agentca'',
       [''id'', ''ca_cert_pem'', ''ca_key_enc'', ''client_cert_pem'', ''client_key_enc'', ''created_at'']),
      (''agent'',
       [''id'', ''name'', ''url'', ''address'', ''port'', ''zone_id'', ''hostname'', ''os'', ''arch'', ''version'',
        ''cert_pem'', ''cert_not_after'', ''status'', ''last_seen'', ''last_error'', ''info'', ''health'',
        ''update_attempted_at'', ''update_error'', ''created_at'']),
      (''loadbalancer'',
       [''id'', ''name'', ''zone_id'', ''agent_id'', ''enabled'', ''install_method'', ''image'', ''listen_addresses'',
        ''policy'', ''ecs'', ''cache_enabled'', ''cache_max_entries'', ''hc_name'', ''hc_interval_s'', ''hc_max_failures'',
        ''hc_rise'', ''hc_mode'', ''acl'', ''vrrp_priority'', ''vip_interface'', ''mode'', ''ipvs_algo'', ''desired_hash'',
        ''applied_hash'', ''in_sync'', ''status'', ''last_synced'', ''last_error'', ''state'', ''keepalived_state'',
        ''created_at'']),
      (''metricsample'',
       [''id'', ''ts'', ''resolution'', ''kind'', ''entity_id'', ''values'']),
      (''loadbalancerbackend'',
       [''id'', ''load_balancer_id'', ''server_id'', ''enabled'', ''weight'', ''order''])]"

text \<open>The columns added after the first release, with the value an existing row gets.\<close>

definition added_columns :: "(string \<times> (string \<times> cell) list) list" where
  "added_columns =
     [(''server'',
       [(''tls_cert'', Null), (''manage_upstreams'', Integer 0), (''manage_filtering'', Integer 0),
        (''latest_version'', Null), (''update_available'', Integer 0), (''cooldown_until'', Null),
        (''auto_update'', Integer 0), (''install_method'', Null), (''can_autoupdate'', Integer 0),
        (''update_check_disabled'', Integer 0), (''update_state'', Text ''idle''), (''update_attempted_at'', Null),
        (''update_attempted_version'', Null), (''update_completed_at'', Null), (''update_error'', Null),
        (''agent_id'', Null), (''dns_port'', Integer 53), (''expose_web_ui'', Integer 0), (''agent_state'', Null),
        (''lb_state'', Null), (''stats_snapshot'', Null)]),
      (''zone'',
       [(''vip'', Null), (''vrrp_router_id'', Null), (''vrrp_auth_enc'', Null)]),
      (''dnsrecord'',
       [(''zone_ids'', Text ''[]''), (''managed'', Integer 0)]),
      (''upstream'',
       [(''zone_ids'', Text ''[]''), (''kind'', Text ''upstream'')]),
      (''forwardzone'',
       [(''zone_ids'', Text ''[]'')]),
      (''provisioningtoken'',
       [(''config_fetched_at'', Null), (''key_fetched_at'', Null), (''auto_update'', Integer 0),
        (''roles'', Text ([CHR ''['', CHR 0x22] @ ''adguard'' @ [CHR 0x22, CHR '']''])), (''agent_port'', Integer 8443),
        (''vrrp_priority'', Integer 100), (''expose_web_ui'', Integer 0), (''agent_id'', Null),
        (''load_balancer_id'', Null), (''lb_mode'', Text ''dnsdist'')]),
      (''loadbalancer'',
       [(''mode'', Text ''dnsdist''), (''ipvs_algo'', Text ''wlc'')]),
      (''agent'',
       [(''update_attempted_at'', Null), (''update_error'', Null)])]"

definition zone_id_backfill :: "string list" where
  "zone_id_backfill = [''dnsrecord'', ''upstream'', ''forwardzone'']"

section \<open>Completing the tables\<close>

definition create_all :: "(string \<times> string list) list \<Rightarrow> table list \<Rightarrow> table list" where
  "create_all models db =
     db @ map (\<lambda>(n, cols). \<lparr>tb_name = n, tb_columns = cols, tb_rows = []\<rparr>) (filter (\<lambda>(n, _). n \<notin> set (map tb_name db)) models)"

definition add_column :: "string \<Rightarrow> cell \<Rightarrow> table \<Rightarrow> table" where
  "add_column c v T = T\<lparr>tb_columns := tb_columns T @ [c], tb_rows := map (\<lambda>r. r @ [(c, v)]) (tb_rows T)\<rparr>"

text \<open>Which columns a table has is read once, before any is added to it.\<close>

definition ensure_table :: "(string \<times> cell) list \<Rightarrow> table \<Rightarrow> table" where
  "ensure_table cols T = fold (\<lambda>(c, v) T'. if c \<in> set (tb_columns T) then T' else add_column c v T') cols T"

definition ensure_with :: "(string \<times> (string \<times> cell) list) list \<Rightarrow> table list \<Rightarrow> table list" where
  "ensure_with added db = fold (\<lambda>(t, cols). map (\<lambda>T. if tb_name T = t then ensure_table cols T else T)) added db"

definition ensure_columns :: "table list \<Rightarrow> table list" where
  "ensure_columns db = ensure_with added_columns db"

definition cell_text :: "cell \<Rightarrow> string" where
  "cell_text v = (case v of Null \<Rightarrow> [] | Integer i \<Rightarrow> show_int i | Text s \<Rightarrow> s)"

definition needs_zone_ids :: "cells \<Rightarrow> bool" where
  "needs_zone_ids r \<longleftrightarrow>
     cell_at r ''zone_id'' \<noteq> Null \<and> cell_at r ''zone_ids'' \<in> {Null, Text ''[]'', Text []}"

definition folded_zone :: "cells \<Rightarrow> cells" where
  "folded_zone r = dict_set ''zone_ids'' (Text (''['' @ cell_text (cell_at r ''zone_id'') @ '']'')) r"

definition backfill_table :: "table \<Rightarrow> table" where
  "backfill_table T =
     (if tb_name T \<in> set zone_id_backfill \<and> ''zone_id'' \<in> set (tb_columns T) \<and> ''zone_ids'' \<in> set (tb_columns T)
      then T\<lparr>tb_rows := map (\<lambda>r. if needs_zone_ids r then folded_zone r else r) (tb_rows T)\<rparr> else T)"

definition backfill_zone_ids :: "table list \<Rightarrow> table list" where
  "backfill_zone_ids db = map backfill_table db"

definition init_db :: "(string \<times> string list) list \<Rightarrow> table list \<Rightarrow> table list" where
  "init_db models db = backfill_zone_ids (ensure_columns (create_all models db))"

section \<open>The rest of the startup\<close>

text \<open>What the log says is switched on; the sentences around the values are fixed.\<close>

datatype startup_line =
    Proxy_not_isolated
  | Compat_disabled
  | Compat_enabled string int
  | Oidc_enabled string string string string string
  | Groups_not_requested string

definition proxy_lines :: "settings \<Rightarrow> startup_line list" where
  "proxy_lines cfg = (if cf_ui_proxy_enabled cfg then [Proxy_not_isolated] else [])"

definition compat_lines :: "settings \<Rightarrow> startup_line list" where
  "compat_lines cfg =
     (if \<not> cf_ha_compat_enabled cfg then [Compat_disabled]
      else [Compat_enabled (cf_ha_compat_scope cfg) (cf_ha_compat_cache_seconds cfg)])"

definition oidc_is_configured :: "settings \<Rightarrow> bool" where
  "oidc_is_configured cfg \<longleftrightarrow> cf_oidc_enabled cfg \<and> cf_oidc_issuer cfg \<noteq> [] \<and> cf_oidc_client_id cfg \<noteq> []"

definition button_label :: "settings \<Rightarrow> string" where
  "button_label cfg =
     ''Sign in with '' @ (if py_strip (cf_oidc_display_name cfg) = [] then ''SSO'' else py_strip (cf_oidc_display_name cfg))"

definition oidc_lines :: "settings \<Rightarrow> startup_line list" where
  "oidc_lines cfg =
     (if \<not> oidc_is_configured cfg then []
      else Oidc_enabled (cf_oidc_issuer cfg) (cf_oidc_client_id cfg) (if cf_oidc_pkce cfg then ''S256'' else ''off'') (cf_oidc_scopes cfg)
             (button_label cfg) #
           (if cf_oidc_admin_group cfg \<noteq> [] \<and> ''groups'' \<notin> set (py_words (cf_oidc_scopes cfg))
            then [Groups_not_requested (cf_oidc_admin_group cfg)] else []))"

text \<open>What is registered with the library; a provider is registered without a client id too.\<close>

record oidc_client =
  oc_client_id :: string
  oc_client_secret :: string
  oc_metadata_url :: string
  oc_scope :: string
  oc_challenge :: "string option"

definition oidc_registered :: "settings \<Rightarrow> oidc_client option" where
  "oidc_registered cfg =
     (if cf_oidc_enabled cfg \<and> cf_oidc_issuer cfg \<noteq> []
      then Some \<lparr>oc_client_id = cf_oidc_client_id cfg, oc_client_secret = cf_oidc_client_secret cfg,
                 oc_metadata_url = py_rstrip_char (CHR ''/'') (cf_oidc_issuer cfg) @ ''/.well-known/openid-configuration'',
                 oc_scope = cf_oidc_scopes cfg, oc_challenge = (if cf_oidc_pkce cfg then Some ''S256'' else None)\<rparr>
      else None)"

record auth_config =
  ac_oidc_enabled :: bool
  ac_oidc_label :: string
  ac_oidc_display_name :: string

definition auth_config_view :: "settings \<Rightarrow> auth_config" where
  "auth_config_view cfg =
     \<lparr>ac_oidc_enabled = oidc_is_configured cfg, ac_oidc_label = button_label cfg, ac_oidc_display_name = cf_oidc_display_name cfg\<rparr>"

text \<open>The CA and the client chain are there before the first request.\<close>

definition prepare_pki ::
  "('k, 'p) crypto \<Rightarrow> fernet \<Rightarrow> settings \<Rightarrow> 'k draws \<Rightarrow> material option \<Rightarrow> ca_row list \<Rightarrow> tls_state
   \<Rightarrow> exn + material \<times> ca_row list \<times> tls_state" where
  "prepare_pki C F cfg w cached rows st =
     (case fst (get_pki C F cfg w cached rows) of
        Inl x \<Rightarrow> Inl x
      | Inr (m, _, rows') \<Rightarrow> Inr (m, rows', materialize m st))"


section \<open>Completing tables, one by one\<close>

definition ensure_one :: "(string \<times> (string \<times> cell) list) list \<Rightarrow> table \<Rightarrow> table" where
  "ensure_one added T = fold (\<lambda>(t, cols) T'. if tb_name T' = t then ensure_table cols T' else T') added T"

lemma ensure_with_map: "ensure_with added db = map (ensure_one added) db"
proof (induction added arbitrary: db)
  case Nil
  show ?case by (simp add: ensure_with_def ensure_one_def map_idI)
next
  case (Cons tc added)
  then show ?case by (cases tc) (simp add: ensure_with_def ensure_one_def)
qed

text \<open>The closed form: the new columns, with their value in every row.\<close>

definition extend :: "(string \<times> cell) list \<Rightarrow> table \<Rightarrow> table" where
  "extend new T = T\<lparr>tb_columns := tb_columns T @ map fst new, tb_rows := map (\<lambda>r. r @ new) (tb_rows T)\<rparr>"

lemma extend_simps [simp]:
  "tb_name (extend new T) = tb_name T" "set (tb_columns (extend new T)) = set (tb_columns T) \<union> fst ` set new"
  "tb_rows (extend new T) = map (\<lambda>r. r @ new) (tb_rows T)" "extend [] T = T" "extend b (extend a T) = extend (a @ b) T"
  by (simp_all add: extend_def map_idI)

lemma ensure_table_extend: "ensure_table cols T = extend (filter (\<lambda>cv. fst cv \<notin> set (tb_columns T)) cols) T"
proof -
  have "fold (\<lambda>(c, v) T'. if P c then T' else add_column c v T') cols T' = extend (filter (\<lambda>cv. \<not> P (fst cv)) cols) T'" for P T'
  proof (induction cols arbitrary: T')
    case (Cons cv cols)
    obtain c v where "cv = (c, v)" by (cases cv)
    moreover have "add_column c v T' = extend [(c, v)] T'" by (simp add: add_column_def extend_def)
    ultimately show ?case using Cons.IH by simp
  qed simp
  then show ?thesis by (simp add: ensure_table_def)
qed

definition added_to :: "(string \<times> (string \<times> cell) list) list \<Rightarrow> string \<Rightarrow> string set" where
  "added_to added t = {c. \<exists>cols v. (t, cols) \<in> set added \<and> (c, v) \<in> set cols}"

lemma ensure_one_extend:
  "\<exists>new. ensure_one added T = extend new T \<and> fst ` set new = added_to added (tb_name T) - set (tb_columns T) \<and>
     (\<forall>cv \<in> set new. \<exists>cols. (tb_name T, cols) \<in> set added \<and> cv \<in> set cols)"
proof (induction added arbitrary: T)
  case Nil
  then show ?case by (intro exI [of _ "[]"]) (simp add: ensure_one_def added_to_def)
next
  case (Cons tc added)
  obtain t cols where tc: "tc = (t, cols)" by (cases tc)
  show ?case
  proof (cases "tb_name T = t")
    case False
    have "added_to (tc # added) (tb_name T) = added_to added (tb_name T)" using False by (auto simp: added_to_def tc)
    then show ?thesis using Cons [of T] False by (simp add: ensure_one_def tc)
  next
    case True
    let ?n = "filter (\<lambda>cv. fst cv \<notin> set (tb_columns T)) cols"
    obtain new where new: "ensure_one added (extend ?n T) = extend new (extend ?n T)"
      and keys: "fst ` set new = added_to added t - set (tb_columns (extend ?n T))"
      and vals: "\<forall>cv \<in> set new. \<exists>cols. (t, cols) \<in> set added \<and> cv \<in> set cols"
      using Cons [of "extend ?n T"] True by auto
    have "ensure_one (tc # added) T = extend (?n @ new) T"
      using new True by (simp add: ensure_one_def tc ensure_table_extend)
    moreover have "added_to (tc # added) t = fst ` set cols \<union> added_to added t"
      by (force simp: added_to_def tc)
    moreover have "fst ` set ?n = fst ` set cols - set (tb_columns T)" by force
    moreover have "\<forall>cv \<in> set (?n @ new). \<exists>cols. (t, cols) \<in> set (tc # added) \<and> cv \<in> set cols"
      using vals tc by auto
    ultimately show ?thesis using keys True by (intro exI [of _ "?n @ new"]) (auto simp: image_Un)
  qed
qed

lemma ensure_one_name [simp]: "tb_name (ensure_one added T) = tb_name T"
  using ensure_one_extend [of added T] by auto

lemma ensure_one_columns: "set (tb_columns (ensure_one added T)) = set (tb_columns T) \<union> added_to added (tb_name T)"
  using ensure_one_extend [of added T] by auto

lemma ensure_one_again:
  assumes "added_to added (tb_name T) \<subseteq> set (tb_columns T)"
  shows "ensure_one added T = T"
proof -
  obtain new where "ensure_one added T = extend new T" "fst ` set new = added_to added (tb_name T) - set (tb_columns T)"
    using ensure_one_extend by blast
  moreover from this have "new = []" using assms by (cases new) auto
  ultimately show ?thesis by simp
qed

lemma backfill_simps [simp]:
  "tb_name (backfill_table T) = tb_name T" "tb_columns (backfill_table T) = tb_columns T"
  by (simp_all add: backfill_table_def)

lemma cell_at_dict_set: "cell_at (dict_set k v r) c = (if c = k then v else cell_at r c)"
  by (simp add: cell_at_def map_of_dict_set)

lemma dict_set_again: "dict_set k v (dict_set k v r) = dict_set k v r"
  by (induction r) auto

lemma folded_zone_again: "folded_zone (folded_zone r) = folded_zone r"
  by (simp add: folded_zone_def cell_at_dict_set dict_set_again)

lemma backfill_again: "backfill_table (backfill_table T) = backfill_table T"
  by (auto simp: backfill_table_def folded_zone_again)

lemma init_db_map: "init_db models db = map (\<lambda>T. backfill_table (ensure_one added_columns T)) (create_all models db)"
  by (simp add: init_db_def backfill_zone_ids_def ensure_columns_def ensure_with_map)

lemma no_zone_id_added: "\<forall>(t, cols) \<in> set added_columns. \<forall>(c, v) \<in> set cols. c \<noteq> ''zone_id''"
  by code_simp

section \<open>Properties\<close>

text \<open>
  The startup completes a database of any older release: if no table there lacks a column other than the ones listed as
  added later, every table of the models exists afterwards with every one of its columns.
\<close>

theorem init_db_completes:
  assumes "\<forall>T \<in> set db. \<forall>(t, cols) \<in> set models. tb_name T = t \<longrightarrow> set cols \<subseteq> set (tb_columns T) \<union> added_to added_columns t"
    and "(t, cols) \<in> set models"
  shows "\<exists>T \<in> set (init_db models db). tb_name T = t \<and> set cols \<subseteq> set (tb_columns T)"
proof (cases "t \<in> tb_name ` set db")
  case True
  then obtain T where T: "T \<in> set db" "tb_name T = t" by auto
  then have "set cols \<subseteq> set (tb_columns (ensure_one added_columns T))"
    using assms by (fastforce simp: ensure_one_columns)
  moreover have "backfill_table (ensure_one added_columns T) \<in> set (init_db models db)"
    using T(1) by (simp add: init_db_map create_all_def)
  ultimately show ?thesis
    using T(2) by (intro bexI [of _ "backfill_table (ensure_one added_columns T)"]) simp_all
next
  case False
  let ?T = "\<lparr>tb_name = t, tb_columns = cols, tb_rows = []\<rparr>"
  have "?T \<in> set (create_all models db)" using assms(2) False by (force simp: create_all_def)
  then show ?thesis by (auto simp: init_db_map ensure_one_columns intro!: bexI [of _ ?T])
qed

text \<open>Starting again changes nothing: the migrations are idempotent on every database, whatever rows and columns it has.\<close>

theorem init_db_idempotent: "init_db models (init_db models db) = init_db models db"
proof -
  let ?f = "\<lambda>T. backfill_table (ensure_one added_columns T)"
  have again: "?f (?f T) = ?f T" for T
  proof -
    have "ensure_one added_columns (?f T) = ?f T"
      by (rule ensure_one_again) (simp add: ensure_one_columns)
    then show ?thesis by (simp add: backfill_again)
  qed
  have "create_all models (init_db models db) = init_db models db"
    by (force simp: create_all_def init_db_map image_image filter_empty_conv)
  then show ?thesis by (simp add: init_db_map [of models "init_db models db"]) (simp add: init_db_map again)
qed


text \<open>A database of the first release: records with one zone each.\<close>

definition old_record :: "int \<Rightarrow> cell \<Rightarrow> cells" where
  "old_record i z = [(''id'', Integer i), (''domain'', Text ''nas.lan''), (''zone_id'', z)]"

definition old_db :: "table list" where
  "old_db = [\<lparr>tb_name = ''dnsrecord'', tb_columns = [''id'', ''domain'', ''zone_id''], tb_rows = [old_record 1 (Integer 3), old_record 2 Null]\<rparr>]"

definition few_models :: "(string \<times> string list) list" where
  "few_models = [(''dnsrecord'', [''id'', ''domain'', ''zone_ids'', ''managed'']), (''filterlist'', [''id'', ''url''])]"

theorem init_db_completes_witness:
  "\<exists>T \<in> set (init_db few_models old_db). tb_name T = ''dnsrecord'' \<and> {''zone_ids'', ''managed''} \<subseteq> set (tb_columns T)"
proof -
  have a: "{''zone_ids'', ''managed''} \<subseteq> added_to added_columns ''dnsrecord''"
    by (simp add: added_to_def added_columns_def)
  have "\<exists>T \<in> set (init_db few_models old_db). tb_name T = ''dnsrecord'' \<and> set [''id'', ''domain'', ''zone_ids'', ''managed''] \<subseteq> set (tb_columns T)"
    by (rule init_db_completes) (use a in \<open>simp_all add: few_models_def old_db_def\<close>)
  then show ?thesis by auto
qed


text \<open>
  The fold is not once and for all: the old column stays, so a list of zones that an operator empties (or that the
  deletion of a zone empties) is filled with the old zone again at the next start.
\<close>

definition cleared :: "table list \<Rightarrow> table list" where
  "cleared db = map (\<lambda>T. T\<lparr>tb_rows := map (dict_set ''zone_ids'' (Text ''[]'')) (tb_rows T)\<rparr>) db"

theorem cleared_zones_return:
  "map (\<lambda>r. cell_at r ''zone_ids'') (tb_rows (hd (init_db [] (cleared (init_db [] old_db))))) = [Text ''[3]'', Text ''[]'']"
  by code_simp

end
