(* ===== verification/OnBox.thy ===== *)
theory OnBox
  imports Prelude
begin

text \<open>
  backend/app/update_agent.py: the installer script served to hosts that run AdGuard Home in Docker, and the updater it
  installs, which recreates a container from a newer image and rolls back when the new one does not come up. The
  commands of the shell are functions on what Docker and the file system hold; whether a command succeeds is an
  argument. The program of this file is the text of the script, so the definitions follow its lines.
\<close>

section \<open>What Docker holds\<close>

record image_config =
  ic_env :: "string list"
  ic_cmd :: "string list"
  ic_entrypoint :: "string list"
  ic_labels :: "string list"
  ic_user :: string

record port_binding =
  po_ip :: string
  po_host :: string
  po_container :: string

record mount_point =
  mo_volume :: bool
  mo_name :: string
  mo_source :: string
  mo_destination :: string
  mo_writable :: bool

record host_config =
  ho_ports :: "port_binding list"
  ho_mounts :: "mount_point list"
  ho_restart :: string
  ho_network :: string
  ho_cap_add :: "string list"
  ho_privileged :: bool

record container =
  cn_image_ref :: string
  cn_image_id :: string
  cn_config :: image_config
  cn_host :: host_config
  cn_running :: bool

section \<open>The arguments of the new container\<close>

definition nl :: char where
  "nl = CHR 0x0A"

text \<open>\<open>println\<close> per value, \<open>sed '/^$/d'\<close>, \<open>mapfile -t\<close>: what a list is after its way through lines of text.\<close>

definition lines_of :: "string list \<Rightarrow> string list" where
  "lines_of xs = filter (\<lambda>l. l \<noteq> []) (py_split nl (concat (map (\<lambda>x. x @ [nl]) xs)))"

definition no_config :: image_config where
  "no_config = \<lparr>ic_env = [], ic_cmd = [], ic_entrypoint = [], ic_labels = [], ic_user = []\<rparr>"

text \<open>An image or a container as the script reads it.\<close>

definition read_config :: "image_config \<Rightarrow> image_config" where
  "read_config c =
     \<lparr>ic_env = lines_of (ic_env c), ic_cmd = lines_of (ic_cmd c), ic_entrypoint = lines_of (ic_entrypoint c),
      ic_labels = lines_of (ic_labels c), ic_user = ic_user c\<rparr>"

definition port_arg :: "port_binding \<Rightarrow> string" where
  "port_arg p = (if po_ip p = [] then [] else po_ip p @ '':'') @ po_host p @ '':'' @ po_container p"

definition mount_arg :: "mount_point \<Rightarrow> string" where
  "mount_arg m = (if mo_volume m then mo_name m else mo_source m) @ '':'' @ mo_destination m @ (if mo_writable m then [] else '':ro'')"

text \<open>The template \<open>TPL\<close>, one token per line.\<close>

definition host_tokens :: "host_config \<Rightarrow> string list" where
  "host_tokens h =
     concat (map (\<lambda>p. [''-p'', port_arg p]) (ho_ports h)) @
     concat (map (\<lambda>m. [''-v'', mount_arg m]) (ho_mounts h)) @
     (if ho_restart h = [] then [] else [''--restart'', ho_restart h]) @
     (if ho_network h = [] \<or> ho_network h = ''default'' then [] else [''--network'', ho_network h]) @
     concat (map (\<lambda>c. [''--cap-add'', c]) (ho_cap_add h)) @
     (if ho_privileged h then [''--privileged''] else [])"

text \<open>What the image does not already provide.\<close>

definition own_values :: "string list \<Rightarrow> string list \<Rightarrow> string list" where
  "own_values img xs = filter (\<lambda>x. x \<notin> set img) xs"

text \<open>\<open>[*]\<close> joins an array with blanks before it is compared.\<close>

definition differs :: "string list \<Rightarrow> string list \<Rightarrow> bool" where
  "differs xs ys \<longleftrightarrow> py_join '' '' xs \<noteq> py_join '' '' ys"

definition config_tokens :: "image_config \<Rightarrow> image_config \<Rightarrow> string list" where
  "config_tokens im c =
     concat (map (\<lambda>v. [''-e'', v]) (own_values (ic_env im) (ic_env c))) @
     concat (map (\<lambda>v. [''-l'', v]) (own_values (ic_labels im) (ic_labels c))) @
     (if ic_user c \<noteq> [] \<and> ic_user c \<noteq> ic_user im then [''--user'', ic_user c] else []) @
     (if differs (ic_entrypoint c) (ic_entrypoint im) \<and> ic_entrypoint c \<noteq> [] then [''--entrypoint'', hd (ic_entrypoint c)] else [])"

definition command_tokens :: "image_config \<Rightarrow> image_config \<Rightarrow> string list" where
  "command_tokens im c =
     (if differs (ic_entrypoint c) (ic_entrypoint im) \<and> ic_entrypoint c \<noteq> [] then tl (ic_entrypoint c) else []) @
     (if differs (ic_cmd c) (ic_cmd im) then ic_cmd c else [])"

text \<open>\<open>ARGS\<close> and \<open>CMD_ARGS\<close>; an img that is gone reads as empty.\<close>

definition run_args :: "image_config option \<Rightarrow> container \<Rightarrow> string list \<times> string list" where
  "run_args im c =
     (let i = read_config (case im of None \<Rightarrow> no_config | Some i \<Rightarrow> i); k = read_config (cn_config c) in
      (lines_of (host_tokens (cn_host c)) @ config_tokens i k, command_tokens i k))"

section \<open>docker run\<close>

text \<open>What Docker makes of the arguments: the flags the script uses, and the command with its entrypoint.\<close>

record run_options =
  ro_ports :: "string list"
  ro_mounts :: "string list"
  ro_restart :: "string option"
  ro_network :: "string option"
  ro_cap_add :: "string list"
  ro_privileged :: bool
  ro_env :: "string list"
  ro_labels :: "string list"
  ro_user :: "string option"
  ro_entrypoint :: "string option"

definition no_options :: run_options where
  "no_options = \<lparr>ro_ports = [], ro_mounts = [], ro_restart = None, ro_network = None, ro_cap_add = [], ro_privileged = False,
     ro_env = [], ro_labels = [], ro_user = None, ro_entrypoint = None\<rparr>"

fun parse_args :: "string list \<Rightarrow> run_options \<Rightarrow> run_options option" where
  "parse_args [] o' = Some o'"
| "parse_args (f # r) o' =
     (if f = ''--privileged'' then parse_args r (o'\<lparr>ro_privileged := True\<rparr>)
      else case r of
        [] \<Rightarrow> None
      | v # r' \<Rightarrow>
          if f = ''-p'' then parse_args r' (o'\<lparr>ro_ports := ro_ports o' @ [v]\<rparr>)
          else if f = ''-v'' then parse_args r' (o'\<lparr>ro_mounts := ro_mounts o' @ [v]\<rparr>)
          else if f = ''--restart'' then parse_args r' (o'\<lparr>ro_restart := Some v\<rparr>)
          else if f = ''--network'' then parse_args r' (o'\<lparr>ro_network := Some v\<rparr>)
          else if f = ''--cap-add'' then parse_args r' (o'\<lparr>ro_cap_add := ro_cap_add o' @ [v]\<rparr>)
          else if f = ''-e'' then parse_args r' (o'\<lparr>ro_env := ro_env o' @ [v]\<rparr>)
          else if f = ''-l'' then parse_args r' (o'\<lparr>ro_labels := ro_labels o' @ [v]\<rparr>)
          else if f = ''--user'' then parse_args r' (o'\<lparr>ro_user := Some v\<rparr>)
          else if f = ''--entrypoint'' then parse_args r' (o'\<lparr>ro_entrypoint := Some v\<rparr>)
          else None)"

text \<open>
  What the container starts: an entrypoint on the command line replaces the one of the image and drops the
  default command, arguments replace that command.
\<close>

definition started_command :: "image_config \<Rightarrow> string option \<Rightarrow> string list \<Rightarrow> string list" where
  "started_command im entry args =
     (case entry of
        Some x \<Rightarrow> x # args
      | None \<Rightarrow> ic_entrypoint im @ (if args = [] then ic_cmd im else args))"

section \<open>Recreating the container\<close>

type_synonym docker = "string \<Rightarrow> container option"

datatype run_result = Run_ok | Run_created | Run_refused

text \<open>How the commands of one run turn out; \<open>lk_pull\<close> is the img the tag names after the pull.\<close>

record luck =
  lk_lock :: bool
  lk_pull :: "string option"
  lk_compose :: "docker option option"
  lk_clear :: bool
  lk_stop :: bool
  lk_rename :: bool
  lk_run :: run_result
  lk_up :: bool
  lk_rename_back :: bool
  lk_start_back :: bool
  lk_drop :: bool

definition backup_name :: "string \<Rightarrow> string" where
  "backup_name n = n @ ''-preupdate''"

definition set_running :: "bool \<Rightarrow> string \<Rightarrow> docker \<Rightarrow> docker" where
  "set_running b n w = w(n := map_option (cn_running_update (\<lambda>_. b)) (w n))"

text \<open>A container cannot take a name that is in use; \<open>None\<close> is the failure of the command.\<close>

definition docker_rename :: "bool \<Rightarrow> string \<Rightarrow> string \<Rightarrow> docker \<Rightarrow> docker option" where
  "docker_rename works a b w = (if \<not> works \<or> w b \<noteq> None \<or> w a = None then None else Some (w(b := w a, a := None)))"

definition roll_back :: "luck \<Rightarrow> string \<Rightarrow> docker \<Rightarrow> nat \<times> docker" where
  "roll_back k n w =
     (let w1 = w(n := None) in
      case docker_rename (lk_rename_back k) (backup_name n) n w1 of
        None \<Rightarrow> (1, w1)
      | Some w2 \<Rightarrow> (1, if lk_start_back k then set_running True n w2 else w2))"

text \<open>The new container: made with the arguments of the old one from the image the tag names now.\<close>

definition recreated :: "string \<Rightarrow> bool \<Rightarrow> container \<Rightarrow> container" where
  "recreated img up c = c\<lparr>cn_image_id := img, cn_running := up\<rparr>"

definition run_new :: "luck \<Rightarrow> string \<Rightarrow> string \<Rightarrow> container \<Rightarrow> docker \<Rightarrow> nat \<times> docker" where
  "run_new k img n c w =
     (case lk_run k of
        Run_refused \<Rightarrow> roll_back k n w
      | Run_created \<Rightarrow> roll_back k n (w(n \<mapsto> recreated img False c))
      | Run_ok \<Rightarrow>
          let w' = w(n \<mapsto> recreated img (lk_up k) c) in
          if \<not> lk_up k then roll_back k n w' else (0, if lk_drop k then w'(backup_name n := None) else w'))"

definition recreate :: "luck \<Rightarrow> string \<Rightarrow> string \<Rightarrow> container \<Rightarrow> docker \<Rightarrow> nat \<times> docker" where
  "recreate k img n c w =
     (let w1 = (if lk_clear k then w(backup_name n := None) else w) in
      if \<not> lk_stop k then (1, w1)
      else let w2 = set_running False n w1 in
        case docker_rename (lk_rename k) n (backup_name n) w2 of
          None \<Rightarrow> (1, w2)
        | Some w3 \<Rightarrow> run_new k img n c w3)"

text \<open>One run of the updater: its exit status and what Docker holds afterwards.\<close>

definition update_run :: "luck \<Rightarrow> string \<Rightarrow> docker \<Rightarrow> nat \<times> docker" where
  "update_run k n w =
     (if \<not> lk_lock k then (0, w)
      else case w n of
        None \<Rightarrow> (1, w)
      | Some c \<Rightarrow>
          (case lk_pull k of
             None \<Rightarrow> (1, w)
           | Some img \<Rightarrow>
               if img = cn_image_id c then (0, w)
               else case lk_compose k of
                 Some r \<Rightarrow> (case r of None \<Rightarrow> (1, w) | Some w' \<Rightarrow> (0, w'))
               | None \<Rightarrow> recreate k img n c w))"

section \<open>The installer\<close>

record box =
  bx_root :: bool
  bx_systemd :: bool
  bx_docker :: bool
  bx_containers :: "string set"
  bx_files :: "string \<Rightarrow> string option"
  bx_timer :: bool

definition bin_path :: string where "bin_path = ''/usr/local/bin/adguard-home-update''"
definition conf_path :: string where "conf_path = ''/etc/adguard-home-update.conf''"
definition unit_path :: string where "unit_path = ''/etc/systemd/system/adguard-home-update.service''"
definition timer_path :: string where "timer_path = ''/etc/systemd/system/adguard-home-update.timer''"
definition cron_path :: string where "cron_path = ''/etc/cron.d/adguard-home-update''"

definition cron_text :: string where
  "cron_text = ''# Installed by AdGuard Admin'' @ [nl] @ ''17 4 * * * root '' @ bin_path @ '' >> /var/log/adguard-home-update.log 2>&1'' @ [nl]"

definition timer_text :: "string \<Rightarrow> string" where
  "timer_text schedule =
     concat (map (\<lambda>l. l @ [nl])
       [''[Unit]'', ''Description=Daily AdGuard Home container update'', [], ''[Timer]'', ''OnCalendar='' @ schedule,
        ''# Spread the load and avoid every box in a fleet restarting at the same second.'', ''RandomizedDelaySec=3600'',
        ''Persistent=true'', [], ''[Install]'', ''WantedBy=timers.target''])"

definition unit_text :: string where
  "unit_text =
     concat (map (\<lambda>l. l @ [nl])
       [''[Unit]'', ''Description=Update the AdGuard Home container'', ''Documentation=https://github.com/AdguardTeam/AdGuardHome'',
        ''After=docker.service'', ''Requires=docker.service'', [], ''[Service]'', ''Type=oneshot'', ''ExecStart='' @ bin_path])"

definition uninstall :: "box \<Rightarrow> box" where
  "uninstall b =
     (let b' = (if bx_systemd b then b\<lparr>bx_timer := False, bx_files := (bx_files b)(unit_path := None, timer_path := None)\<rparr> else b) in
      b'\<lparr>bx_files := (bx_files b')(cron_path := None, bin_path := None, conf_path := None)\<rparr>)"

text \<open>\<open>updater\<close> is the text between the \<open>UPDATER\<close> marks, the program of the section above.\<close>

definition install :: "string \<Rightarrow> string \<Rightarrow> string \<Rightarrow> box \<Rightarrow> nat \<times> box" where
  "install updater name schedule b =
     (if \<not> bx_docker b then (1, b)
      else if name \<notin> bx_containers b then (1, b)
      else let f = (bx_files b)(conf_path \<mapsto> ''CONTAINER='' @ name @ [nl], bin_path \<mapsto> updater) in
        (0, if bx_systemd b then b\<lparr>bx_files := f(unit_path \<mapsto> unit_text, timer_path \<mapsto> timer_text schedule), bx_timer := True\<rparr>
            else b\<lparr>bx_files := f(cron_path \<mapsto> cron_text)\<rparr>))"

definition installer :: "string \<Rightarrow> string \<Rightarrow> string \<Rightarrow> string \<Rightarrow> box \<Rightarrow> nat \<times> box" where
  "installer updater name schedule remove b =
     (if \<not> bx_root b then (1, b)
      else if remove = ''true'' then (0, uninstall b)
      else install updater name schedule b)"


section \<open>Properties\<close>

lemma backup_other [simp]: "backup_name n \<noteq> n" "n \<noteq> backup_name n"
  by (simp_all add: backup_name_def)

lemma restart_same: "cn_running c \<Longrightarrow> cn_running_update (\<lambda>_. True) (cn_running_update (\<lambda>_. False) c) = c"
  by simp



section \<open>The arguments are read back\<close>

text \<open>Values that survive lines of text: not empty and without a line break.\<close>

definition clean :: "string list \<Rightarrow> bool" where
  "clean xs \<longleftrightarrow> (\<forall>x \<in> set xs. x \<noteq> [] \<and> nl \<notin> set x)"

lemma lines_of_clean: "clean xs \<Longrightarrow> lines_of xs = xs"
proof (induction xs)
  case (Cons x xs)
  then have "nl \<notin> set x" "x \<noteq> []" by (simp_all add: clean_def)
  then show ?case using Cons by (simp add: lines_of_def clean_def py_split_at)
qed (simp add: lines_of_def)

lemma parse_ports: "parse_args (concat (map (\<lambda>v. [''-p'', g v]) vs) @ r) o' = parse_args r (o'\<lparr>ro_ports := ro_ports o' @ map g vs\<rparr>)"
  by (induction vs arbitrary: o') simp_all

lemma parse_mounts: "parse_args (concat (map (\<lambda>v. [''-v'', g v]) vs) @ r) o' = parse_args r (o'\<lparr>ro_mounts := ro_mounts o' @ map g vs\<rparr>)"
  by (induction vs arbitrary: o') simp_all

lemma parse_caps: "parse_args (concat (map (\<lambda>v. [''--cap-add'', g v]) vs) @ r) o' = parse_args r (o'\<lparr>ro_cap_add := ro_cap_add o' @ map g vs\<rparr>)"
  by (induction vs arbitrary: o') simp_all

lemma parse_env: "parse_args (concat (map (\<lambda>v. [''-e'', g v]) vs) @ r) o' = parse_args r (o'\<lparr>ro_env := ro_env o' @ map g vs\<rparr>)"
  by (induction vs arbitrary: o') simp_all

lemma parse_labels: "parse_args (concat (map (\<lambda>v. [''-l'', g v]) vs) @ r) o' = parse_args r (o'\<lparr>ro_labels := ro_labels o' @ map g vs\<rparr>)"
  by (induction vs arbitrary: o') simp_all

lemmas parse_lists = parse_ports parse_mounts parse_caps parse_env parse_labels

definition carried :: "image_config \<Rightarrow> container \<Rightarrow> run_options" where
  "carried im c = (let h = cn_host c; k = cn_config c in
     \<lparr>ro_ports = map port_arg (ho_ports h), ro_mounts = map mount_arg (ho_mounts h),
      ro_restart = (if ho_restart h = [] then None else Some (ho_restart h)),
      ro_network = (if ho_network h = [] \<or> ho_network h = ''default'' then None else Some (ho_network h)),
      ro_cap_add = ho_cap_add h, ro_privileged = ho_privileged h,
      ro_env = own_values (ic_env im) (ic_env k), ro_labels = own_values (ic_labels im) (ic_labels k),
      ro_user = (if ic_user k \<noteq> [] \<and> ic_user k \<noteq> ic_user im then Some (ic_user k) else None),
      ro_entrypoint = (if differs (ic_entrypoint k) (ic_entrypoint im) \<and> ic_entrypoint k \<noteq> [] then Some (hd (ic_entrypoint k)) else None)\<rparr>)"

definition clean_config :: "image_config \<Rightarrow> bool" where
  "clean_config k \<longleftrightarrow> clean (ic_env k) \<and> clean (ic_cmd k) \<and> clean (ic_entrypoint k) \<and> clean (ic_labels k)"

lemma read_clean: "clean_config k \<Longrightarrow> read_config k = k"
  by (simp add: read_config_def clean_config_def lines_of_clean)



text \<open>A container with its own entrypoint, two ports and a volume.\<close>

definition home_image :: image_config where
  "home_image = \<lparr>ic_env = [''PATH=/bin''], ic_cmd = [''--no-check-update''], ic_entrypoint = [''/opt/AdGuardHome''], ic_labels = [], ic_user = []\<rparr>"

definition home :: container where
  "home = \<lparr>cn_image_ref = ''adguard/adguardhome'', cn_image_id = ''sha256:1'',
     cn_config = \<lparr>ic_env = [''PATH=/bin'', ''TZ=Europe/Berlin''], ic_cmd = [''-w'', ''/data''], ic_entrypoint = [''/init'', ''run''], ic_labels = [], ic_user = ''1000''\<rparr>,
     cn_host = \<lparr>ho_ports = [\<lparr>po_ip = [], po_host = ''53'', po_container = ''53/udp''\<rparr>],
       ho_mounts = [\<lparr>mo_volume = True, mo_name = ''conf'', mo_source = [], mo_destination = ''/opt/conf'', mo_writable = True\<rparr>],
       ho_restart = ''always'', ho_network = ''default'', ho_cap_add = [], ho_privileged = False\<rparr>,
     cn_running = True\<rparr>"

lemma home_clean: "clean (host_tokens (cn_host home))" "clean_config home_image" "clean_config (cn_config home)"
  by (simp_all add: clean_def clean_config_def home_def home_image_def host_tokens_def port_arg_def mount_arg_def nl_def)


definition crash_on_start :: luck where
  "crash_on_start = \<lparr>lk_lock = True, lk_pull = Some ''sha256:2'', lk_compose = None, lk_clear = True, lk_stop = True, lk_rename = True,
     lk_run = Run_ok, lk_up = False, lk_rename_back = True, lk_start_back = True, lk_drop = True\<rparr>"


text \<open>
  A run that is killed between the rename and the new container (or that loses its power there) is never repaired:
  every later run finds no container of the name, fails, and leaves the stopped backup alone.
\<close>

definition killed_after_rename :: "string \<Rightarrow> docker \<Rightarrow> docker" where
  "killed_after_rename n w = (set_running False n (w(backup_name n := None)))(backup_name n := set_running False n w n, n := None)"

theorem killed_update_stays_down:
  "fold (\<lambda>k w'. snd (update_run k n w')) ks (killed_after_rename n w) = killed_after_rename n w \<and>
   killed_after_rename n w n = None \<and> (\<forall>c. killed_after_rename n w (backup_name n) = Some c \<longrightarrow> \<not> cn_running c)"
proof -
  have gone: "killed_after_rename n w n = None" by (simp add: killed_after_rename_def)
  have "fold (\<lambda>k w'. snd (update_run k n w')) ks (killed_after_rename n w) = killed_after_rename n w"
    by (induction ks) (simp_all add: update_run_def gone)
  moreover have "\<forall>c. killed_after_rename n w (backup_name n) = Some c \<longrightarrow> \<not> cn_running c"
    by (auto simp: killed_after_rename_def set_running_def)
  ultimately show ?thesis using gone by blast
qed

text \<open>A command of its own that equals the image's is dropped beside a custom entrypoint: Docker drops the default with it.\<close>

theorem default_command_dropped:
  "let c = home\<lparr>cn_config := (cn_config home)\<lparr>ic_cmd := [''--no-check-update'']\<rparr>\<rparr> in
   started_command home_image (ro_entrypoint (carried home_image c)) (snd (run_args (Some home_image) c)) = [''/init'', ''run'']"
  by code_simp

section \<open>Installing and removing\<close>

definition own_paths :: "string set" where
  "own_paths = {bin_path, conf_path, unit_path, timer_path, cron_path}"

lemmas path_defs = bin_path_def conf_path_def unit_path_def timer_path_def cron_path_def

text \<open>Removing undoes installing: where none of the five files existed and the timer was off, the host is as before.\<close>

theorem uninstall_undoes_install:
  assumes "\<forall>p \<in> own_paths. bx_files b p = None" and "\<not> bx_timer b"
  shows "uninstall (snd (install updater name schedule b)) = b"
proof -
  have f: "(bx_files b)(p := None) = bx_files b" if "p \<in> own_paths" for p
    using assms(1) that by (auto simp: fun_upd_idem)
  have "bx_files (uninstall (snd (install updater name schedule b))) p = bx_files b p" for p
    using assms(1) by (auto simp: uninstall_def install_def Let_def own_paths_def)
  moreover have "bx_timer (uninstall (snd (install updater name schedule b))) = bx_timer b"
    using assms(2) by (simp add: uninstall_def install_def Let_def)
  ultimately show ?thesis
    by (intro box.equality ext) (simp_all add: uninstall_def install_def Let_def)
qed

theorem uninstall_undoes_install_witness:
  "let b = \<lparr>bx_root = True, bx_systemd = True, bx_docker = True, bx_containers = {''adguardhome''}, bx_files = [''/etc/hosts'' \<mapsto> []], bx_timer = False\<rparr> in
   uninstall (snd (install ''#!'' ''adguardhome'' ''daily'' b)) = b"
  unfolding Let_def by (rule uninstall_undoes_install) (simp_all add: own_paths_def path_defs)

end
