(* ===== verification/AgentInstall.thy ===== *)
theory AgentInstall
  imports Versions HostPass
begin

text \<open>
  The install script of routers/provision.py, run on a host: what it refuses, how it finds the checksum of its build in
  the manifest, and what it installs. Programs of the host (\<open>curl\<close>, \<open>sha256sum\<close>, \<open>systemctl\<close>, the agent) answer from a record.
  The messages and the temporary file are left out.
\<close>

section \<open>The manifest as it is sent\<close>

abbreviation dq :: char where
  "dq \<equiv> CHR 0x22"

definition entry_json :: "string \<times> string \<times> int \<Rightarrow> string" where
  "entry_json x = (case x of (a, sha, n) \<Rightarrow>
     [dq] @ a @ [dq] @ '':{'' @ [dq] @ ''sha256'' @ [dq] @ '':'' @ [dq] @ sha @ [dq] @ '','' @ [dq] @ ''size'' @ [dq] @ '':'' @ show_int n @ ''}'')"

definition manifest_text :: "built_manifest \<Rightarrow> string" where
  "manifest_text m =
     ''{'' @ [dq] @ ''version'' @ [dq] @ '':'' @ json_quote (bm_version m) @ '','' @ [dq] @ ''files'' @ [dq] @ '':{'' @
     py_join '','' (map entry_json (bm_files m)) @ ''}}''"

section \<open>Reading it without a parser\<close>

text \<open>\<open>tr -d '\n '\<close> and then the pattern of \<open>sed\<close>, whose leading \<open>.*\<close> takes the last place that fits.\<close>

definition is_hex :: "char \<Rightarrow> bool" where
  "is_hex c \<longleftrightarrow> c \<in> set ''0123456789abcdef''"

definition sha_at :: "string \<Rightarrow> string \<Rightarrow> string option" where
  "sha_at key s =
     (if py_startswith s key \<and> py_startswith (dropWhile is_hex (drop (length key) s)) [dq]
      then Some (takeWhile is_hex (drop (length key) s)) else None)"

fun last_sha :: "string \<Rightarrow> string \<Rightarrow> string option" where
  "last_sha key [] = None"
| "last_sha key (c # s) = (case last_sha key s of Some x \<Rightarrow> Some x | None \<Rightarrow> sha_at key (c # s))"

definition sha_key :: "string \<Rightarrow> string" where
  "sha_key arch = [dq] @ ''linux/'' @ arch @ [dq] @ '':{'' @ [dq] @ ''sha256'' @ [dq] @ '':'' @ [dq]"

definition wanted_sha :: "string \<Rightarrow> string \<Rightarrow> string" where
  "wanted_sha arch text = str_or (last_sha (sha_key arch) (filter (\<lambda>c. c \<noteq> CHR 0x0A \<and> c \<noteq> CHR '' '') text)) []"

section \<open>The script\<close>

definition arch_of :: "string \<Rightarrow> string option" where
  "arch_of machine =
     (if machine \<in> {''x86_64'', ''amd64''} then Some ''amd64''
      else if machine \<in> {''aarch64'', ''arm64''} then Some ''arm64''
      else if machine \<in> {''armv7l'', ''armv6l'', ''armhf''} then Some ''arm'' else None)"

text \<open>The host: who runs the script, what is there, and how the commands turn out.\<close>

record host_env =
  he_root :: bool
  he_curl :: bool
  he_systemd :: bool
  he_machine :: string
  he_manifest :: "string option"
  he_binary :: "string \<Rightarrow> string option"
  he_enroll :: "string list \<Rightarrow> bool"
  he_reload :: bool
  he_enable :: bool
  he_active :: bool

record installed =
  is_bin :: "string option"
  is_enrolled :: "string list option"
  is_unit :: "string list option"
  is_enabled :: bool

definition enroll_args :: "string \<Rightarrow> string \<Rightarrow> string \<Rightarrow> string \<Rightarrow> string list" where
  "enroll_args base token listen address =
     [''--url'', base, ''--token'', token, ''--listen'', listen] @ (if address = [] then [] else [''--address'', address])"

definition unit_lines :: "string list" where
  "unit_lines =
     [''[Unit]'',
      ''Description=AdGuard Admin host agent'',
      ''After=network-online.target docker.service'',
      ''Wants=network-online.target'',
      [],
      ''[Service]'',
      ''ExecStart=/usr/local/bin/adguard-admin-agent serve'',
      ''Restart=always'',
      ''RestartSec=3'',
      [],
      ''[Install]'',
      ''WantedBy=multi-user.target'']"

definition start_service :: "host_env \<Rightarrow> installed \<Rightarrow> bool \<times> installed" where
  "start_service h st =
     (let st1 = st\<lparr>is_unit := Some unit_lines\<rparr> in
      if \<not> he_reload h \<or> \<not> he_enable h then (False, st1) else (he_active h, st1\<lparr>is_enabled := True\<rparr>))"

definition run_script ::
  "(string \<Rightarrow> string) \<Rightarrow> string \<Rightarrow> string \<Rightarrow> string \<Rightarrow> string \<Rightarrow> host_env \<Rightarrow> installed \<Rightarrow> bool \<times> installed" where
  "run_script sha256 base token listen address h st =
     (if \<not> he_root h \<or> \<not> he_curl h \<or> \<not> he_systemd h then (False, st)
      else case (arch_of (he_machine h), he_manifest h) of
        (Some arch, Some text) \<Rightarrow>
          (if wanted_sha arch text = [] then (False, st)
           else case he_binary h arch of
             None \<Rightarrow> (False, st)
           | Some content \<Rightarrow>
               if sha256 content \<noteq> wanted_sha arch text then (False, st)
               else let st1 = st\<lparr>is_bin := Some content\<rparr>; args = enroll_args base token listen address in
                 if \<not> he_enroll h args then (False, st1) else start_service h (st1\<lparr>is_enrolled := Some args\<rparr>))
      | _ \<Rightarrow> (False, st))"

section \<open>The checksum is read back\<close>

lemma sha_at_quote: "c \<noteq> dq \<Longrightarrow> sha_at (dq # k) (c # s) = None"
  by (simp add: sha_at_def)

lemma last_sha_skip: "dq \<notin> set x \<Longrightarrow> last_sha (dq # k) (x @ s) = last_sha (dq # k) s"
  by (induction x) (auto simp: sha_at_quote split: option.split)

lemma last_sha_dq:
  "\<not> py_startswith s k \<Longrightarrow> last_sha (dq # k) (dq # s) = last_sha (dq # k) s"
  by (simp add: sha_at_def split: option.split)

lemma prefix_starts: "py_startswith (k @ s) k"
  by (induction k) simp_all

lemma hex_run: "list_all is_hex h \<Longrightarrow> takeWhile is_hex (h @ dq # s) = h \<and> dropWhile is_hex (h @ dq # s) = dq # s"
  by (induction h) (simp_all add: is_hex_def)

lemma last_sha_here:
  assumes "list_all is_hex h" and "last_sha (dq # k) (k @ h @ dq # s) = None"
  shows "last_sha (dq # k) (dq # k @ h @ dq # s) = Some h"
  using assms hex_run [OF assms(1), of s] by (simp add: sha_at_def prefix_starts)


lemma last_sha_cons: "c \<noteq> dq \<Longrightarrow> last_sha (dq # k) (c # s) = last_sha (dq # k) s"
  using last_sha_skip [of "[c]" k s] by simp

lemma not_hex: "\<not> is_hex (CHR ''l'')" "\<not> is_hex dq"
  by code_simp+

lemma hex_no_quote: "list_all is_hex h \<Longrightarrow> dq \<notin> set h"
  by (metis list_all_iff not_hex(2))

lemma hex_not_l: "list_all is_hex h \<Longrightarrow> \<not> py_startswith (h @ dq # s) (CHR ''l'' # k)"
  by (cases h) (use not_hex in auto)

lemma show_int_clean: "c \<in> set (show_int n) \<Longrightarrow> is_digit_char c \<or> c = CHR ''-''"
  using show_nat_digits [of "nat n"] show_nat_digits [of "nat (- n)"] by (auto simp: show_int_def split: if_splits)

lemma show_int_no_quote: "dq \<notin> set (show_int n)"
  using show_int_clean [of dq n] by (auto simp: is_digit_char_def)

lemma after_sha:
  assumes "list_all is_hex sha"
  shows "last_sha (dq # CHR ''l'' # k) (sha @ dq # CHR '','' # dq # ''size'' @ dq # CHR '':'' # show_int n @ CHR ''}'' # s) =
         last_sha (dq # CHR ''l'' # k) s"
  by (simp add: last_sha_skip hex_no_quote [OF assms] show_int_no_quote last_sha_dq last_sha_cons del: last_sha.simps)

lemma sha_at_here: "list_all is_hex h \<Longrightarrow> sha_at (dq # k) (dq # k @ h @ dq # s) = Some h"
  using hex_run [of h s] by (simp add: sha_at_def prefix_starts)

definition key_tail :: "string \<Rightarrow> string" where
  "key_tail b = ''inux/'' @ b @ [dq] @ '':{'' @ [dq] @ ''sha256'' @ [dq] @ '':'' @ [dq]"

lemma sha_key_tail: "sha_key b = dq # CHR ''l'' # key_tail b"
  by (simp add: sha_key_def key_tail_def)

lemma within_key:
  assumes "b \<in> set arches" and "\<And>k. \<not> py_startswith t (CHR ''l'' # k)"
  shows "last_sha (dq # CHR ''l'' # k) (CHR ''l'' # key_tail b @ t) = last_sha (dq # CHR ''l'' # k) t"
  using assms by (auto simp: arches_def key_tail_def last_sha_dq last_sha_cons simp del: last_sha.simps)

lemma other_key:
  assumes "b \<in> set arches" and "a \<in> set arches" and "a \<noteq> b"
  shows "\<not> py_startswith (key_tail b @ t) (key_tail a)"
  using assms by (auto simp: arches_def key_tail_def)

lemma entry_last:
  assumes "list_all is_hex sha" and "a \<in> set arches" and "b \<in> set arches"
  shows "last_sha (sha_key a) (entry_json (''linux/'' @ b, sha, n) @ s) =
         (case last_sha (sha_key a) s of Some x \<Rightarrow> Some x | None \<Rightarrow> if b = a then Some sha else None)"
proof -
  let ?t = "sha @ dq # CHR '','' # dq # ''size'' @ dq # CHR '':'' # show_int n @ CHR ''}'' # s"
  have written: "entry_json (''linux/'' @ b, sha, n) @ s = dq # CHR ''l'' # key_tail b @ ?t"
    by (simp add: entry_json_def key_tail_def)
  have "last_sha (sha_key a) (CHR ''l'' # key_tail b @ ?t) = last_sha (sha_key a) s"
    unfolding sha_key_tail using within_key [OF assms(3), of ?t] hex_not_l [OF assms(1)] after_sha [OF assms(1)] by simp
  moreover have "sha_at (sha_key a) (dq # CHR ''l'' # key_tail b @ ?t) = (if b = a then Some sha else None)"
  proof (cases "b = a")
    case True
    then show ?thesis using sha_at_here [OF assms(1), of "CHR ''l'' # key_tail a"] by (simp add: sha_key_tail)
  next
    case False
    then show ?thesis using other_key [OF assms(3,2), of ?t] by (simp add: sha_at_def sha_key_tail)
  qed
  ultimately show ?thesis unfolding written
    by (simp add: last_sha.simps(2) [of _ dq] del: last_sha.simps split: option.split split del: if_split)
qed

lemma hex_digit_no_quote: "d < 16 \<Longrightarrow> hex_digit d \<noteq> dq"
proof -
  have "\<forall>d \<in> set [0..<16]. hex_digit d \<noteq> dq" by code_simp
  then show "d < 16 \<Longrightarrow> hex_digit d \<noteq> dq" by simp
qed

lemma char_of_def_34: "char_of (34 :: nat) = dq"
  by code_simp

lemma json_escape_no_quote: "c \<noteq> dq \<Longrightarrow> dq \<notin> set (json_escape c)"
proof -
  assume "c \<noteq> dq"
  then have "(of_char c :: nat) \<noteq> 34" by (metis char_of_char char_of_def_34)
  moreover have "hex_digit (of_char c mod 16) \<noteq> dq" using hex_digit_no_quote by simp
  moreover have "(of_char c :: nat) < 32 \<Longrightarrow> hex_digit (of_char c div 16) \<noteq> dq" using hex_digit_no_quote by simp
  ultimately show ?thesis using \<open>c \<noteq> dq\<close> by (auto simp: json_escape_def Let_def)
qed

lemma last_sha_close: "last_sha (dq # k) ''}}'' = None"
  by (simp add: last_sha_cons del: last_sha.simps) simp

definition listed :: "(string \<times> string \<times> int) list \<Rightarrow> (string \<times> string \<times> int) list" where
  "listed bs = map (\<lambda>x. (''linux/'' @ fst x, snd x)) bs"

lemma listed_simps [simp]: "listed [] = []" "listed (e # bs) = (''linux/'' @ fst e, snd e) # listed bs"
  by (simp_all add: listed_def)

text \<open>With several entries the last of an architecture would win; a manifest has one.\<close>

lemma entries_last:
  assumes "a \<in> set arches" and "list_all (\<lambda>(b, sha, n). b \<in> set arches \<and> list_all is_hex sha) bs" and "distinct (map fst bs)"
  shows "last_sha (sha_key a) (py_join '','' (map entry_json (listed bs)) @ ''}}'') = map_option fst (map_of bs a)"
  using assms(2,3)
proof (induction bs)
  case Nil
  then show ?case using last_sha_close by (simp add: sha_key_tail del: last_sha.simps)
next
  case (Cons e bs)
  obtain b sha n where e: "e = (b, sha, n)" by (cases e)
  let ?rest = "py_join '','' (map entry_json (listed bs)) @ ''}}''"
  have step: "last_sha (sha_key a) (py_join '','' (map entry_json (listed (e # bs))) @ ''}}'') =
      (case last_sha (sha_key a) ?rest of Some x \<Rightarrow> Some x | None \<Rightarrow> if b = a then Some sha else None)"
  proof (cases bs)
    case Nil
    then show ?thesis using entry_last [of sha a b n "''}}''"] assms(1) Cons.prems(1) by (simp add: e del: last_sha.simps)
  next
    case (Cons f cs)
    then show ?thesis using entry_last [of sha a b n "CHR '','' # ?rest"] assms(1) Cons.prems(1)
      by (simp add: e sha_key_tail last_sha_cons del: last_sha.simps)
  qed
  have "b \<noteq> x" if "map_of bs x = Some y" for x y using that Cons.prems(2) map_of_SomeD [OF that] by (force simp: e)
  then show ?case using step Cons by (auto simp: e split: option.split simp del: last_sha.simps)
qed

abbreviation kept :: "char \<Rightarrow> bool" where
  "kept \<equiv> \<lambda>c. c \<noteq> CHR 0x0A \<and> c \<noteq> CHR '' ''"

lemma filter_hex: "list_all is_hex h \<Longrightarrow> filter kept h = h"
proof -
  have "\<not> is_hex (CHR 0x0A)" "\<not> is_hex (CHR '' '')" by code_simp+
  then have "is_hex c \<Longrightarrow> kept c" for c by metis
  then show "list_all is_hex h \<Longrightarrow> filter kept h = h" by (simp add: filter_id_conv list_all_iff)
qed

lemma filter_int: "filter kept (show_int n) = show_int n"
proof -
  have "\<not> is_digit_char (CHR 0x0A)" "\<not> is_digit_char (CHR '' '')" by code_simp+
  then show ?thesis using show_int_clean [of _ n] by (intro filter_True) auto
qed

lemma entry_clean:
  assumes "list_all is_hex sha" and "b \<in> set arches"
  shows "filter kept (entry_json (''linux/'' @ b, sha, n)) = entry_json (''linux/'' @ b, sha, n)"
proof -
  have "filter kept b = b" using assms(2) by (auto simp: arches_def)
  then show ?thesis by (simp add: entry_json_def filter_hex [OF assms(1)] filter_int)
qed

lemma entries_clean:
  assumes "list_all (\<lambda>(b, sha, n). b \<in> set arches \<and> list_all is_hex sha) bs"
  shows "filter kept (py_join '','' (map entry_json (listed bs))) = py_join '','' (map entry_json (listed bs))"
  using assms
proof (induction bs)
  case (Cons e bs)
  obtain b sha n where e: "e = (b, sha, n)" by (cases e)
  with Cons show ?case by (cases bs) (simp_all add: entry_clean [simplified])
qed simp

lemma escaped_no_quote: "dq \<notin> set v \<Longrightarrow> dq \<notin> set (concat (map json_escape v))"
  by (induction v) (simp_all add: json_escape_no_quote not_sym)

lemma startswith_to_quote:
  "dq \<notin> set w \<Longrightarrow> dq \<notin> set u \<Longrightarrow> py_startswith (w @ dq # s) (u @ dq # k) \<longleftrightarrow> w = u \<and> py_startswith s k"
proof (induction w arbitrary: u)
  case Nil
  then show ?case by (cases u) simp_all
next
  case (Cons c w)
  then show ?case by (cases u) auto
qed

lemma quoted_kept:
  assumes "dq \<notin> set v" obtains w where "dq \<notin> set w" and "filter kept (json_quote v) = dq # w @ [dq]"
proof
  show "dq \<notin> set (filter kept (concat (map json_escape v)))" using escaped_no_quote [OF assms] by (simp del: set_concat)
  show "filter kept (json_quote v) = dq # filter kept (concat (map json_escape v)) @ [dq]"
    unfolding json_quote_def filter_append by simp
qed

lemma version_part:
  assumes "dq \<notin> set v" and "a \<in> set arches"
  shows "last_sha (sha_key a) (''{'' @ dq # ''version'' @ dq # '':'' @ filter kept (json_quote v) @ '','' @ dq # ''files'' @ dq # '':{'' @ s) =
         last_sha (sha_key a) s"
proof -
  obtain w where w: "dq \<notin> set w" "filter kept (json_quote v) = dq # w @ [dq]" using assms(1) by (rule quoted_kept)
  have "dq \<notin> set (''linux/'' @ a)" using assms(2) by (auto simp: arches_def)
  then have "\<not> py_startswith (w @ dq # CHR '','' # t) (CHR ''l'' # key_tail a)" for t
    using startswith_to_quote [OF w(1), of "''linux/'' @ a" "CHR '','' # t"] by (simp add: key_tail_def)
  then show ?thesis unfolding w(2) sha_key_tail
    by (simp add: last_sha_skip [OF w(1)] last_sha_cons last_sha_dq del: last_sha.simps)
qed

lemma wanted_sha_listed:
  assumes "a \<in> set arches" and "list_all (\<lambda>(b, sha, n). b \<in> set arches \<and> list_all is_hex sha) bs" and "distinct (map fst bs)"
    and "bm_files m = listed bs" and "dq \<notin> set (bm_version m)"
  shows "wanted_sha a (manifest_text m) = str_or (map_option fst (map_of bs a)) []"
proof -
  have "filter kept (manifest_text m) =
      ''{'' @ dq # ''version'' @ dq # '':'' @ filter kept (json_quote (bm_version m)) @ '','' @ dq # ''files'' @ dq # '':{'' @
      py_join '','' (map entry_json (listed bs)) @ ''}}''"
    by (simp add: manifest_text_def assms(4) entries_clean [OF assms(2)])
  with version_part [OF assms(5,1)] entries_last [OF assms(1-3)] show ?thesis by (simp only: wanted_sha_def)
qed

text \<open>What the server lists for its builds.\<close>

lemma hashed_listed:
  assumes "hashed sha256 B (manifest_key B) = Some fs"
  shows "fs = listed (List.map_filter (\<lambda>b. map_option (\<lambda>f. (b, sha256 (bf_content f), bf_size f)) (bd_files B b)) arches)"
  using assms
  by (auto simp: hashed_def manifest_key_def arches_def map_filter_simps split: option.splits)

lemma wanted_sha_served:
  assumes "hashed sha256 B (manifest_key B) = Some (bm_files m)" and "a \<in> set arches" and "dq \<notin> set (bm_version m)"
    and "\<And>x. list_all is_hex (sha256 x)"
  shows "wanted_sha a (manifest_text m) = (case bd_files B a of None \<Rightarrow> [] | Some f \<Rightarrow> sha256 (bf_content f))"
proof -
  let ?bs = "List.map_filter (\<lambda>b. map_option (\<lambda>f. (b, sha256 (bf_content f), bf_size f)) (bd_files B b)) arches"
  have "list_all (\<lambda>(b, sha, n). b \<in> set arches \<and> list_all is_hex sha) ?bs"
    using assms(4) by (auto simp: list_all_iff set_map_filter)
  moreover have "distinct (map fst ?bs)"
    by (auto simp: arches_def map_filter_simps split: option.split)
  moreover have "map_of ?bs a = map_option (\<lambda>f. (sha256 (bf_content f), bf_size f)) (bd_files B a)"
    using assms(2) by (auto simp: arches_def map_filter_simps split: option.split)
  ultimately show ?thesis
    using wanted_sha_listed [OF assms(2) _ _ hashed_listed [OF assms(1)] assms(3)]
    by (auto simp: str_or_def split: option.split)
qed

section \<open>What the script leaves\<close>

lemma start_service_bin: "start_service h st = (ok, st') \<Longrightarrow> is_bin st' = is_bin st \<and> (ok \<longleftrightarrow> he_reload h \<and> he_enable h \<and> he_active h)"
  by (auto simp: start_service_def Let_def split: if_splits)

text \<open>A digest as \<open>sha256sum\<close> and \<open>hashlib\<close> print it.\<close>

definition hex_digest :: "(string \<Rightarrow> string) \<Rightarrow> bool" where
  "hex_digest sha256 \<longleftrightarrow> (\<forall>x. sha256 x \<noteq> [] \<and> list_all is_hex (sha256 x))"

text \<open>
  C17. Whatever the download returns, the script leaves the host as it was or with a program whose checksum is that of the
  build the server holds for the architecture of the host; and it succeeds exactly when the host can run it, the download
  has that checksum, and the enrolment and the service start succeed.
\<close>

theorem script_installs_served_build:
  assumes "run_script sha256 base token listen address h st = (ok, st')"
    and "he_manifest h = Some (manifest_text m)" and "hashed sha256 B (manifest_key B) = Some (bm_files m)"
    and "dq \<notin> set (bm_version m)" and "hex_digest sha256"
  shows "(st' = st \<or> (\<exists>a f c. arch_of (he_machine h) = Some a \<and> bd_files B a = Some f \<and> is_bin st' = Some c \<and> sha256 c = sha256 (bf_content f)))
      \<and> (ok \<longleftrightarrow> he_root h \<and> he_curl h \<and> he_systemd h \<and>
      (\<exists>a f c. arch_of (he_machine h) = Some a \<and> bd_files B a = Some f \<and> he_binary h a = Some c \<and> sha256 c = sha256 (bf_content f)) \<and>
      he_enroll h (enroll_args base token listen address) \<and> he_reload h \<and> he_enable h \<and> he_active h)"
proof (cases "arch_of (he_machine h)")
  case None
  with assms(1) show ?thesis by (auto simp: run_script_def split: if_splits)
next
  case (Some a)
  then have a: "a \<in> set arches" by (auto simp: arch_of_def arches_def split: if_splits)
  have "list_all is_hex (sha256 x)" and ne: "sha256 x \<noteq> []" for x using assms(5) by (simp_all add: hex_digest_def)
  note want = wanted_sha_served [OF assms(3) a assms(4) this(1)]
  show ?thesis
  proof (cases "he_root h \<and> he_curl h \<and> he_systemd h \<and> (\<exists>f c. bd_files B a = Some f \<and> he_binary h a = Some c \<and> sha256 c = sha256 (bf_content f))")
    case True
    then obtain f c where fc: "bd_files B a = Some f" "he_binary h a = Some c" "sha256 c = sha256 (bf_content f)" by blast
    have "run_script sha256 base token listen address h st =
        (let st1 = st\<lparr>is_bin := Some c\<rparr>; args = enroll_args base token listen address in
         if \<not> he_enroll h args then (False, st1) else start_service h (st1\<lparr>is_enrolled := Some args\<rparr>))"
      using True fc Some ne assms(2) want by (simp add: run_script_def)
    with assms(1) have "is_bin st' = Some c \<and> (ok \<longleftrightarrow> he_enroll h (enroll_args base token listen address) \<and> he_reload h \<and> he_enable h \<and> he_active h)"
      using start_service_bin by (auto simp: Let_def split: if_splits)
    then show ?thesis using True fc Some by auto
  next
    case False
    then have "run_script sha256 base token listen address h st = (False, st)"
      using Some assms(2) want by (auto simp: run_script_def split: option.splits if_splits)
    with assms(1) False Some show ?thesis by auto
  qed
qed

definition arm_host :: "string \<Rightarrow> host_env" where
  "arm_host content =
     \<lparr>he_root = True, he_curl = True, he_systemd = True, he_machine = ''aarch64'',
      he_manifest = Some (manifest_text \<lparr>bm_version = ''1.0'', bm_files = [(''linux/arm64'', ''0a'', 1)]\<rparr>),
      he_binary = (\<lambda>a. if a = ''arm64'' then Some content else None), he_enroll = (\<lambda>_. True),
      he_reload = True, he_enable = True, he_active = True\<rparr>"

definition fresh_host :: installed where
  "fresh_host = \<lparr>is_bin = None, is_enrolled = None, is_unit = None, is_enabled = False\<rparr>"

text \<open>The build itself is installed, another program is not.\<close>

theorem script_installs_served_build_witness:
  "let run = (\<lambda>c. run_script (\<lambda>s. if s = ''a'' then ''0a'' else ''0b'') ''https://h'' ''t'' ''0.0.0.0:8443'' [] (arm_host c) fresh_host) in
     fst (run ''a'') \<and> \<not> fst (run ''b'')"
proof -
  let ?sha = "\<lambda>s. if s = ''a'' then ''0a'' else ''0b''"
  let ?run = "\<lambda>c. run_script ?sha ''https://h'' ''t'' ''0.0.0.0:8443'' [] (arm_host c) fresh_host"
  let ?m = "\<lparr>bm_version = ''1.0'', bm_files = [(''linux/arm64'', ''0a'', 1)]\<rparr>"
  have "list_all is_hex ''0a''" "list_all is_hex ''0b''" by code_simp+
  then have digest: "hex_digest ?sha" by (simp add: hex_digest_def)
  have served: "hashed ?sha (one_build 1 ''a'' ''1.0'') (manifest_key (one_build 1 ''a'' ''1.0'')) = Some (bm_files ?m)"
    by (simp add: one_build_def hashed_def manifest_key_def arches_def map_filter_simps)
  have "he_manifest (arm_host c) = Some (manifest_text ?m)" "dq \<notin> set (bm_version ?m)" for c by (simp_all add: arm_host_def)
  note exact = script_installs_served_build [OF surjective_pairing this(1) served this(2) digest, of _ _ _ _ _ fresh_host]
  have host: "arch_of (he_machine (arm_host c)) = Some ''arm64''" for c by (simp add: arm_host_def arch_of_def)
  show ?thesis using exact [of "''https://h''" "''t''" "''0.0.0.0:8443''" "[]" "''a''"]
      exact [of "''https://h''" "''t''" "''0.0.0.0:8443''" "[]" "''b''"]
    by (simp add: host one_build_def) (simp add: arm_host_def)
qed

end
