(* ===== verification/Spec2Isabelle.thy ===== *)
theory Spec2Isabelle
  imports SyncConverge Auth Config Locks Net RateLimit Records Updater Validators HostFacts Balancers Provision Cycle Imports Admin HaWrites Views Startup OnBox AgentInstall
begin

text \<open>
  AdGuard Admin (backend/app) keeps a fleet of AdGuard Home instances in the state its database
  describes. This development models that backend; the Go agent and the web interface are outside it.

  \<^bold>\<open>How the program is put together.\<close> Operators edit rows through the API (records, accounts, balancers,
  provisioning tokens). A periodic cycle first reconciles the hosts (each runs an agent that installs
  AdGuard, dnsdist and keepalived), then the AdGuard instances, then upgrades those that opted in.
  Every network call may fail; a pass over one server, host or balancer never raises, it
  reports and writes an outcome to its row. Per-server locks keep a pass and an upgrade apart.

  \<^bold>\<open>The model.\<close> The database is a record with one list per table (Models). Code that talks to the network is
  in the monad of Effects: a world with a log of calls and an environment \<open>e\<close> that answers each
  call (Clients lists them) with a value or an exception and moves on to a state of its own; nothing is assumed of
  the environment except where a property names it. Instants are integers, microseconds of UTC.
  Libraries are parameters: PyJWT (\<open>jwt\<close>), Fernet (\<open>fernet\<close>), X.509 and SHA-256 (\<open>pki\<close>), the
  resolver, random values, and the settings of the deployment (Config). Strings are Latin-1.

  \<^bold>\<open>Theories.\<close>
  \<^item> Prelude, Effects, Rows, Models, Clients: strings and numbers as Python has them, the monad with its
    frame rules (locale \<open>client_frame\<close>), tables and dictionaries (locales \<open>dictionary\<close>, \<open>row_table\<close>), the
    rows of models.py, the calls of adguard_client.py and agent_client.py.
  \<^item> SyncPlan, SyncApply, SyncFacts, SyncConverge (sync.py): the plan of a server, one pass over it, what a
    pass may call and write, and convergence against an instance that keeps its rewrite list.
  \<^item> Locks (sync.py, updater.py): the interleavings of passes, upgrades and API edits around the locks.
  \<^item> Records (routers/records.py, \<open>reconcile_hostname_records\<close>): record handlers and hostname records.
  \<^item> Net, Validators (validators.py), Schemas (schemas.py): parsing of addresses and URLs, every check on
    input, the request bodies.
  \<^item> Config, RateLimit, Auth: settings, the login limiter, tokens, roles, sign-in and accounts.
  \<^item> Updater (updater.py): who is upgraded, one upgrade with its polling loops, the pass.
  \<^item> HostSpecs, HostPass, HostFacts (hosts.py): the role documents, the passes over a host and a balancer,
    what they write.
  \<^item> Balancers (routers/loadbalancers.py), Provision (routers/provision.py): handlers, tokens, enrolment,
    the data lines of the install script.
  \<^item> Scoped (routers/upstreams.py, forward_zones.py, filters.py, blocked_services.py): the tables whose rows
    apply globally, to zones or to one server, and which servers a row reaches.
  \<^item> Cycle (sync.py, hosts.py, updater.py): a whole cycle with its bounded fan-out, every interleaving of
    its passes (locale \<open>fan_out\<close>), what a cycle may write, the background loops.

  \<^item> Imports (routers/servers.py): what the three imports from a live instance read and add (locale \<open>importer\<close>).
  \<^item> Admin (routers/zones.py, servers.py, agents.py): the handlers over zones, servers and hosts, with the foreign
    keys a commit is checked against.
  \<^item> Fleet (fleet.py), HaCompat, HaWrites (routers/ha_compat.py): the fan-out over many servers and the
    AdGuard-compatible API on top of it: read cache, scope, merged answers, toggles, writes to the database.
  \<^item> Telemetry, Traffic, Exposition (telemetry.py, routers/metrics.py): the samples of a collection, rollup and
    retention; the series, the overview and what needs attention; the text that Prometheus reads.
  \<^item> QueryLog (routers/querylog.py), Versions (routers/updates.py, agent_bin.py): the combined query log; version
    checks, manual upgrades and the manifest of agent builds.
  \<^item> Wire (adguard_client.py, agent_client.py): the request behind every call, what a reply or a failure of HTTP
    becomes, the lockout hint; \<open>over_http\<close> puts it under the passes as an environment of Effects.
  \<^item> Certificates (pki.py, certs.py): what is signed and with which key, the CA's life, the client chain on disk step
    by step and the cached TLS context.
  \<^item> Views (the read models of schemas.py, the list and detail handlers of the routers, routers/sync.py): what each role
    can read, and the requests an operator sends to a host at once.
  \<^item> Startup (database.py, oidc.py, main.py): completing the tables of an older release, the fold of the legacy zones,
    what is registered and logged.
  \<^item> OnBox (update_agent.py): the script for hosts that run AdGuard Home in Docker, line by line: the arguments of the
    recreated container, the run with its rollback, installing and removing.
  \<^item> AgentInstall (routers/provision.py): the install script of a host: how it reads the checksum of its build out of the
    manifest with tr and sed, what it refuses, what it installs.
  \<^item> Proxy (routers/proxy.py, main.py): the embedded interface of a managed server, the middlewares, startup.

  \<^bold>\<open>Bounds and fuel.\<close> The polling loops of an upgrade run until a deadline on a clock; they take fuel, and
  \<open>upgrade_ends_and_is_recorded\<close> shows that a clock that advances by a fixed step ends them, with the fuel it names.
  Everything else is total.

  \<^bold>\<open>Not modelled.\<close> What only configures a library (the connection pool and the pragmas in database.py, the routers and
  the session middleware in main.py), the X.509 library (the record \<open>crypto\<close>), httpx below one request (retries of
  connections, redirects), the catalogue of lists in filter_catalog.py (static data), and the column \<open>created_at\<close>. Of
  \<open>fromisoformat\<close> the compact and the week dates are read as unreadable. Floats are exact rationals, rounded where the
  code rounds; the bodies the proxy passes on are text.
\<close>

section \<open>Reconciling one server\<close>



end
